(* ===== verification/Kefka_Prelude.thy ===== *)
theory Kefka_Prelude
  imports Main "HOL-Library.Sublist" "HOL-Library.List_Lexorder" "HOL-Library.Char_ord"
begin

text \<open>
  Shared vocabulary of the development.  A Go string is a list of bytes, and HOL's
  \<^typ>\<open>string\<close> is a list of 8-bit characters, so a Go \<^verbatim>\<open>string\<close> or \<^verbatim>\<open>[]byte\<close> is a
  \<^typ>\<open>string\<close> here and \<^const>\<open>length\<close> counts bytes, as Go's \<^verbatim>\<open>len\<close> does.  The byte-wise
  lexicographic order of Go strings is the order that \<^verbatim>\<open>List_Lexorder\<close> and
  \<^verbatim>\<open>Char_ord\<close> give to \<^typ>\<open>string\<close>.  A fallible Go function, which returns a value and
  an error, returns \<open>'e + 'a\<close>, with \<^const>\<open>Inl\<close> for the error.

  The collection \<open>kefka_defs\<close> gathers the defining equations that evaluate a concrete
  instance (witnesses unfold them), \<open>go_str\<close> the rewrite rules of the string
  operations.
\<close>

named_theorems kefka_defs "definitions to unfold on concrete inputs"
named_theorems go_str "rewrite rules for Go string operations"

type_synonym ('e, 'a) go_result = "'e + 'a"

text \<open>An error value of mvdan.cc/sh's \<^verbatim>\<open>interp\<close>, or success (Go's nil error).\<close>

datatype exit_result = ExitOk | ExitStatus nat | ExitErr string

abbreviation slash :: char where "slash \<equiv> CHR ''/''"
abbreviation newline :: char where "newline \<equiv> CHR 0x0A"
abbreviation nl :: string where "nl \<equiv> [CHR 0x0A]"
abbreviation tab :: char where "tab \<equiv> CHR 0x09"
abbreviation backslash :: char where "backslash \<equiv> CHR 0x5C"
abbreviation backquote :: char where "backquote \<equiv> CHR 0x60"
abbreviation squote :: char where "squote \<equiv> CHR 0x27"

section \<open>Generic lemmas on lists\<close>

lemma takeWhile_not_Cons [simp]: "takeWhile P xs \<noteq> [] \<longleftrightarrow> xs \<noteq> [] \<and> P (hd xs)"
  by (cases xs) auto

lemma dropWhile_hd: "dropWhile P xs = y # ys \<Longrightarrow> \<not> P y"
  by (induction xs) (auto split: if_splits)

lemma foldl_append_acc: "foldl (\<lambda>a x. a @ f x) acc xs = acc @ concat (map f xs)"
  by (induction xs arbitrary: acc) auto

lemma foldl_conj_acc: "foldl (\<lambda>b x. b \<and> P x) b xs \<longleftrightarrow> b \<and> (\<forall>x \<in> set xs. P x)"
  by (induction xs arbitrary: b) auto

lemma foldl_max_le: "foldl max (m::nat) xs \<le> n \<longleftrightarrow> m \<le> n \<and> (\<forall>x \<in> set xs. x \<le> n)"
  by (induction xs arbitrary: m) auto

lemma slice_rest: "take n (drop i xs) @ drop (i + length (take n (drop i xs))) xs = drop i xs"
  by (metis append_take_drop_id append_eq_conv_conj drop_drop add.commute)

lemma sorted_sort_strings [simp]: "sorted (sort (xs :: string list))"
  by simp

end
