(* ===== verification/Go_Strings.thy ===== *)
theory Go_Strings
  imports Kefka_Prelude
begin

text \<open>
  The operations of Go's \<^verbatim>\<open>strings\<close> package that the program calls, on byte strings.
  Separators are non-empty at every call site, as in the source.
\<close>

section \<open>Definitions\<close>

definition hasPrefix :: "string \<Rightarrow> string \<Rightarrow> bool" where
  "hasPrefix s p \<longleftrightarrow> take (length p) s = p"

definition hasSuffix :: "string \<Rightarrow> string \<Rightarrow> bool" where
  "hasSuffix s p \<longleftrightarrow> length p \<le> length s \<and> drop (length s - length p) s = p"

definition trimPrefix :: "string \<Rightarrow> string \<Rightarrow> string" where
  "trimPrefix s p = (if hasPrefix s p then drop (length p) s else s)"

definition trimSuffix :: "string \<Rightarrow> string \<Rightarrow> string" where
  "trimSuffix s p = (if hasSuffix s p then take (length s - length p) s else s)"

text \<open>\<open>splitOn c s\<close> is \<^verbatim>\<open>strings.Split\<close> with a one-byte separator: always at least one part.\<close>

fun splitOn :: "char \<Rightarrow> string \<Rightarrow> string list" where
  "splitOn c [] = [[]]"
| "splitOn c (x # xs) =
     (if x = c then [] # splitOn c xs
      else case splitOn c xs of [] \<Rightarrow> [[x]] | p # ps \<Rightarrow> (x # p) # ps)"

fun joinWith :: "string \<Rightarrow> string list \<Rightarrow> string" where
  "joinWith sep [] = []"
| "joinWith sep [x] = x"
| "joinWith sep (x # y # ys) = x @ sep @ joinWith sep (y # ys)"

text \<open>\<^verbatim>\<open>strings.Index\<close>: the position of the first occurrence of a substring.\<close>

fun strIndex :: "string \<Rightarrow> string \<Rightarrow> nat option" where
  "strIndex [] sub = (if sub = [] then Some 0 else None)"
| "strIndex (x # xs) sub =
     (if hasPrefix (x # xs) sub then Some 0 else map_option Suc (strIndex xs sub))"

definition strContains :: "string \<Rightarrow> string \<Rightarrow> bool" where
  "strContains s sub \<longleftrightarrow> strIndex s sub \<noteq> None"

text \<open>\<^verbatim>\<open>strings.LastIndexByte\<close>.\<close>

fun lastIndexByte :: "string \<Rightarrow> char \<Rightarrow> nat option" where
  "lastIndexByte [] c = None"
| "lastIndexByte (x # xs) c =
     (case lastIndexByte xs c of
        Some i \<Rightarrow> Some (Suc i)
      | None \<Rightarrow> if x = c then Some 0 else None)"

definition trimRightByte :: "string \<Rightarrow> char \<Rightarrow> string" where
  "trimRightByte s c = rev (dropWhile (\<lambda>x. x = c) (rev s))"

text \<open>\<^verbatim>\<open>strings.Cut\<close> around the first occurrence of a separator.\<close>

definition strCut :: "string \<Rightarrow> string \<Rightarrow> string \<times> string \<times> bool" where
  "strCut s sep = (case strIndex s sep of
     None \<Rightarrow> (s, [], False)
   | Some i \<Rightarrow> (take i s, drop (i + length sep) s, True))"

text \<open>
  \<^verbatim>\<open>strings.ReplaceAll\<close> with a non-empty \<open>old\<close>: occurrences are taken from the left and
  do not overlap, and the replacement text is not searched again.
\<close>

fun replaceAll :: "string \<Rightarrow> string \<Rightarrow> string \<Rightarrow> string" where
  "replaceAll [] old new = []"
| "replaceAll (x # xs) old new =
     (if old \<noteq> [] \<and> hasPrefix (x # xs) old
      then new @ replaceAll (drop (length old - 1) xs) old new
      else x # replaceAll xs old new)"

text \<open>
  \<^verbatim>\<open>strings.SplitAfter(s, "\n")\<close>: the pieces keep their newline, and the last piece may
  be empty.
\<close>

fun splitAfterNL :: "string \<Rightarrow> string list" where
  "splitAfterNL [] = [[]]"
| "splitAfterNL (x # xs) =
     (if x = newline then [x] # splitAfterNL xs
      else case splitAfterNL xs of [] \<Rightarrow> [[x]] | p # ps \<Rightarrow> (x # p) # ps)"

section \<open>Rewrite rules\<close>

lemma hasPrefix_append [simp, go_str]: "hasPrefix (p @ s) p"
  by (simp add: hasPrefix_def)

lemma hasPrefix_iff [go_str]: "hasPrefix s p \<longleftrightarrow> (\<exists>t. s = p @ t)"
  by (metis append_take_drop_id append_eq_conv_conj hasPrefix_def)

lemma hasPrefix_Nil [simp]: "hasPrefix s []"
  by (simp add: hasPrefix_def)

lemma hasPrefix_Cons [simp, go_str]: "hasPrefix (x # xs) (y # ys) \<longleftrightarrow> x = y \<and> hasPrefix xs ys"
  by (auto simp: hasPrefix_def)

lemma hasPrefix_Nil_Cons [simp, go_str]: "\<not> hasPrefix [] (y # ys)"
  by (simp add: hasPrefix_def)

lemma hasSuffix_iff [go_str]: "hasSuffix s p \<longleftrightarrow> (\<exists>t. s = t @ p)"
proof
  assume "hasSuffix s p"
  then have "s = take (length s - length p) s @ p"
    by (metis append_take_drop_id hasSuffix_def)
  then show "\<exists>t. s = t @ p" by blast
qed (auto simp: hasSuffix_def)

lemma hasSuffix_append [simp, go_str]: "hasSuffix (t @ p) p"
  by (simp add: hasSuffix_iff)

lemma trimPrefix_append [simp, go_str]: "trimPrefix (p @ s) p = s"
  by (simp add: trimPrefix_def)

lemma trimSuffix_append [simp, go_str]: "trimSuffix (t @ p) p = t"
  by (simp add: trimSuffix_def)

lemma trimPrefix_id: "\<not> hasPrefix s p \<Longrightarrow> trimPrefix s p = s"
  by (simp add: trimPrefix_def)

lemma splitOn_not_Nil [simp]: "splitOn c s \<noteq> []"
  by (cases s) (auto split: list.split)

lemma splitOn_no_sep: "p \<in> set (splitOn c s) \<Longrightarrow> c \<notin> set p"
  by (induction s arbitrary: p) (auto split: if_splits list.splits)

lemma joinWith_Cons: "xs \<noteq> [] \<Longrightarrow> joinWith sep (x # xs) = x @ sep @ joinWith sep xs"
  by (cases xs) auto

lemma joinWith_splitOn [simp]: "joinWith [c] (splitOn c s) = s"
proof (induction s)
  case Nil
  then show ?case by simp
next
  case (Cons x s)
  obtain p ps where "splitOn c s = p # ps"
    by (metis neq_Nil_conv splitOn_not_Nil)
  with Cons show ?case by (cases ps) (auto simp: joinWith_Cons)
qed

lemma splitOn_self: "c \<notin> set p \<Longrightarrow> splitOn c p = [p]"
  by (induction p) auto

lemma splitOn_append_sep: "c \<notin> set p \<Longrightarrow> splitOn c (p @ c # s) = p # splitOn c s"
  by (induction p) auto

lemma splitOn_lines:
  "\<forall>l \<in> set ls. c \<notin> set l \<Longrightarrow> splitOn c (concat (map (\<lambda>l. l @ [c]) ls)) = ls @ [[]]"
  by (induction ls) (simp_all add: splitOn_append_sep)

lemma splitOn_append: "splitOn c (a @ c # b) = splitOn c a @ splitOn c b"
proof (induction a)
  case (Cons x a)
  obtain p ps where "splitOn c a = p # ps"
    by (metis neq_Nil_conv splitOn_not_Nil)
  with Cons show ?case by simp
qed simp

lemma splitOn_joinWith:
  "xs \<noteq> [] \<Longrightarrow> (\<forall>x \<in> set xs. c \<notin> set x) \<Longrightarrow> splitOn c (joinWith [c] xs) = xs"
proof (induction xs)
  case Nil
  then show ?case by simp
next
  case (Cons x xs)
  then show ?case
    by (cases xs) (auto simp: splitOn_self splitOn_append_sep)
qed

lemma splitOn_length: "length (splitOn c s) = Suc (count_list s c)"
  by (induction s) (auto split: list.split)

lemma concat_splitAfterNL [simp]: "concat (splitAfterNL s) = s"
  by (induction s) (auto split: list.split)

lemma splitAfterNL_not_Nil [simp]: "splitAfterNL s \<noteq> []"
  by (cases s) (auto split: list.split)

lemma strIndex_Some:
  "strIndex s sub = Some i \<Longrightarrow> hasPrefix (drop i s) sub \<and> i + length sub \<le> length s"
proof (induction s arbitrary: i)
  case Nil
  then show ?case by (simp split: if_splits)
next
  case (Cons x s)
  show ?case
  proof (cases "hasPrefix (x # s) sub")
    case True
    then have "length sub \<le> length (x # s)" by (metis hasPrefix_iff length_append le_add1)
    with True Cons.prems show ?thesis by auto
  next
    case False
    with Cons obtain j where "strIndex s sub = Some j" "i = Suc j" by auto
    with Cons.IH show ?thesis by auto
  qed
qed

lemma strIndex_None: "strIndex s sub = None \<longleftrightarrow> \<not> sublist sub s"
proof (induction s)
  case Nil
  then show ?case by auto
next
  case (Cons x s)
  then show ?case
    by (auto simp: sublist_Cons_right hasPrefix_iff prefix_def)
qed

lemma strContains_sublist: "strContains s sub \<longleftrightarrow> sublist sub s"
  by (simp add: strContains_def strIndex_None)

lemma strIndex_le: "strIndex s sub = Some i \<Longrightarrow> i \<le> length s"
  using strIndex_Some by fastforce

lemma strCut_found:
  assumes "strCut s sep = (a, b, True)"
  shows "s = a @ sep @ b"
proof -
  from assms obtain i where i: "strIndex s sep = Some i"
    and "a = take i s" "b = drop (i + length sep) s"
    by (auto simp: strCut_def split: option.splits)
  moreover from strIndex_Some [OF i] obtain t where "drop i s = sep @ t"
    by (auto simp: hasPrefix_iff)
  moreover from this have "t = drop (i + length sep) s"
    by (metis add.commute append_eq_conv_conj drop_drop)
  ultimately show ?thesis by (metis append_take_drop_id)
qed

lemma lastIndexByte_Some:
  "lastIndexByte s c = Some i \<Longrightarrow> i < length s \<and> s ! i = c \<and> c \<notin> set (drop (Suc i) s)"
proof (induction s arbitrary: i)
  case (Cons x s)
  then show ?case
  proof (cases "lastIndexByte s c")
    case None
    moreover have "c \<notin> set s" using None
      by (induction s) (auto split: option.splits if_splits)
    ultimately show ?thesis using Cons.prems by (auto split: if_splits)
  next
    case (Some j)
    with Cons show ?thesis by auto
  qed
qed simp

lemma lastIndexByte_None: "lastIndexByte s c = None \<longleftrightarrow> c \<notin> set s"
  by (induction s) (auto split: option.splits)

lemma replaceAll_id: "\<not> sublist old s \<Longrightarrow> replaceAll s old new = s"
proof (induction s)
  case (Cons x s)
  then have "\<not> hasPrefix (x # s) old" and "\<not> sublist old s"
    by (auto simp: hasPrefix_iff sublist_Cons_right prefix_def)
  with Cons.IH show ?case by simp
qed simp

end
