(* ===== verification/Go_Path.thy ===== *)
theory Go_Path
  imports Go_Strings
begin

text \<open>
  Go's \<^verbatim>\<open>path\<close> package.  \<open>path_clean\<close> applies the four documented rules of \<^verbatim>\<open>path.Clean\<close>
  component by component: the components already kept are a stack, an empty component or
  \<^verbatim>\<open>.\<close> is dropped, \<^verbatim>\<open>..\<close> removes the component before it when there is one, is dropped at
  the root of a rooted path and kept otherwise.
\<close>

section \<open>Definitions\<close>

definition path_isAbs :: "string \<Rightarrow> bool" where
  "path_isAbs p \<longleftrightarrow> hasPrefix p ''/''"

fun clean_step :: "bool \<Rightarrow> string list \<Rightarrow> string \<Rightarrow> string list" where
  "clean_step rooted st c =
     (if c = [] \<or> c = ''.'' then st
      else if c = ''..'' then
        (case st of
           [] \<Rightarrow> if rooted then [] else [c]
         | t # ts \<Rightarrow> if t \<noteq> ''..'' then ts else if rooted then st else c # st)
      else c # st)"

definition clean_comps :: "bool \<Rightarrow> string list \<Rightarrow> string list" where
  "clean_comps rooted cs = rev (foldl (clean_step rooted) [] cs)"

definition render_path :: "bool \<Rightarrow> string list \<Rightarrow> string" where
  "render_path rooted cs =
     (if rooted then slash # joinWith ''/'' cs
      else if cs = [] then ''.'' else joinWith ''/'' cs)"

definition path_clean :: "string \<Rightarrow> string" where
  "path_clean p =
     (let rooted = path_isAbs p in render_path rooted (clean_comps rooted (splitOn slash p)))"

definition path_join :: "string list \<Rightarrow> string" where
  "path_join es = (case filter (\<lambda>e. e \<noteq> []) es of
     [] \<Rightarrow> []
   | fs \<Rightarrow> path_clean (joinWith ''/'' fs))"

definition path_base :: "string \<Rightarrow> string" where
  "path_base p =
     (if p = [] then ''.''
      else let q = trimRightByte p slash in
        if q = [] then ''/''
        else case lastIndexByte q slash of None \<Rightarrow> q | Some i \<Rightarrow> drop (Suc i) q)"

text \<open>\<^verbatim>\<open>path.Split\<close>: everything up to and including the last slash, and the rest.\<close>

definition path_split :: "string \<Rightarrow> string \<times> string" where
  "path_split p = (case lastIndexByte p slash of
     None \<Rightarrow> ([], p)
   | Some i \<Rightarrow> (take (Suc i) p, drop (Suc i) p))"

text \<open>
  A component list in normal form: proper names without slashes, after a run of \<^verbatim>\<open>..\<close>
  that is empty when the path is rooted.
\<close>

definition proper_comp :: "string \<Rightarrow> bool" where
  "proper_comp c \<longleftrightarrow> c \<noteq> [] \<and> c \<noteq> ''.'' \<and> c \<noteq> ''..'' \<and> slash \<notin> set c"

definition normal_comps :: "bool \<Rightarrow> string list \<Rightarrow> bool" where
  "normal_comps rooted cs \<longleftrightarrow>
     (\<exists>n ps. cs = replicate n ''..'' @ ps \<and> (\<forall>c \<in> set ps. proper_comp c) \<and> (rooted \<longrightarrow> n = 0))"

section \<open>Cleaning gives a normal form\<close>

lemma dotdot_not_proper [simp]: "\<not> proper_comp ''..''"
  by (simp add: proper_comp_def)

lemma rev_stack_normal:
  assumes "normal_comps rooted (rev st)" and "slash \<notin> set c"
  shows "normal_comps rooted (rev (clean_step rooted st c))"
proof -
  from assms(1) obtain n ps where
    st: "rev st = replicate n ''..'' @ ps" and ps: "\<forall>c \<in> set ps. proper_comp c"
    and rt: "rooted \<longrightarrow> n = 0"
    by (auto simp: normal_comps_def)
  from st have st': "st = rev ps @ replicate n ''..''"
    by (metis rev_append rev_replicate rev_rev_ident)
  consider "c = [] \<or> c = ''.''" | "c = ''..''" | "proper_comp c"
    using assms(2) by (auto simp: proper_comp_def)
  then show ?thesis
  proof cases
    case 1
    with assms(1) show ?thesis by auto
  next
    case 3
    then have "rev (clean_step rooted st c) = replicate n ''..'' @ (ps @ [c])"
      using st by (auto simp: proper_comp_def)
    with 3 ps rt show ?thesis
      unfolding normal_comps_def by (intro exI [of _ n] exI [of _ "ps @ [c]"]) auto
  next
    case 2
    show ?thesis
    proof (cases ps rule: rev_cases)
      case Nil
      show ?thesis
      proof (cases n)
        case 0
        with Nil st' 2 show ?thesis
          by (auto simp: normal_comps_def intro!: exI [of _ "if rooted then 0 else 1"] exI [of _ "[]"])
      next
        case (Suc k)
        with Nil st' 2 rt have "rev (clean_step rooted st c) = replicate (Suc n) ''..'' @ []"
          by (auto simp: replicate_append_same)
        with Suc rt show ?thesis
          unfolding normal_comps_def by (intro exI [of _ "Suc n"] exI [of _ "[]"]) auto
      qed
    next
      case (snoc qs q)
      with ps have q: "q \<noteq> ''..''" by (auto simp: proper_comp_def)
      with snoc st' 2 have "rev (clean_step rooted st c) = replicate n ''..'' @ qs"
        by auto
      with ps snoc rt show ?thesis
        unfolding normal_comps_def by (intro exI [of _ n] exI [of _ qs]) auto
    qed
  qed
qed

lemma foldl_clean_normal:
  "normal_comps rooted (rev st) \<Longrightarrow> (\<forall>c \<in> set cs. slash \<notin> set c) \<Longrightarrow>
   normal_comps rooted (rev (foldl (clean_step rooted) st cs))"
  by (induction cs arbitrary: st) (simp_all del: clean_step.simps add: rev_stack_normal)

lemma normal_Nil [simp]: "normal_comps rooted []"
  by (auto simp: normal_comps_def)

lemma clean_comps_normal:
  "(\<forall>c \<in> set cs. slash \<notin> set c) \<Longrightarrow> normal_comps rooted (clean_comps rooted cs)"
  unfolding clean_comps_def by (rule foldl_clean_normal) simp_all

lemma clean_comps_split_normal [simp]: "normal_comps rooted (clean_comps rooted (splitOn slash p))"
  by (intro clean_comps_normal ballI splitOn_no_sep)

section \<open>A normal form is not changed by cleaning\<close>

lemma foldl_clean_dots:
  "\<not> rooted \<Longrightarrow> foldl (clean_step rooted) (replicate k ''..'') (replicate n ''..'')
     = replicate (k + n) ''..''"
proof (induction n arbitrary: k)
  case (Suc n)
  have "clean_step rooted (replicate k ''..'') ''..'' = replicate (Suc k) ''..''"
    using Suc.prems by (cases k) auto
  with Suc show ?case by simp (metis add_Suc replicate_Suc)
qed simp

lemma foldl_clean_proper:
  "(\<forall>c \<in> set ps. proper_comp c) \<Longrightarrow> foldl (clean_step rooted) st ps = rev ps @ st"
  by (induction ps arbitrary: st) (auto simp: proper_comp_def)

lemma clean_comps_id:
  assumes "normal_comps rooted cs"
  shows "clean_comps rooted cs = cs"
proof -
  from assms obtain n ps where cs: "cs = replicate n ''..'' @ ps"
    and ps: "\<forall>c \<in> set ps. proper_comp c" and rt: "rooted \<longrightarrow> n = 0"
    by (auto simp: normal_comps_def)
  have "foldl (clean_step rooted) [] (replicate n ''..'') = replicate n ''..''"
    using rt foldl_clean_dots [of rooted 0 n] by (cases rooted) auto
  with cs ps show ?thesis by (simp add: clean_comps_def foldl_clean_proper)
qed

lemma clean_comps_skip_empty [simp]: "clean_comps rooted ([] # cs) = clean_comps rooted cs"
  by (simp add: clean_comps_def)

lemma normal_comps_mem: "normal_comps rooted cs \<Longrightarrow> c \<in> set cs \<Longrightarrow> c = ''..'' \<or> proper_comp c"
  by (fastforce simp: normal_comps_def)

lemma normal_comps_rooted: "normal_comps True cs \<Longrightarrow> c \<in> set cs \<Longrightarrow> proper_comp c"
  by (auto simp: normal_comps_def)

lemma normal_no_dotdot:
  assumes "normal_comps rooted cs" and "\<not> (cs \<noteq> [] \<and> hd cs = ''..'')"
  shows "\<forall>c \<in> set cs. proper_comp c"
proof -
  from assms(1) obtain n ps where "cs = replicate n ''..'' @ ps" "\<forall>c \<in> set ps. proper_comp c"
    by (auto simp: normal_comps_def)
  with assms(2) show ?thesis by (cases n) auto
qed

lemma normal_comps_no_slash: "normal_comps rooted cs \<Longrightarrow> c \<in> set cs \<Longrightarrow> slash \<notin> set c"
  by (drule (1) normal_comps_mem) (auto simp: proper_comp_def)

lemma normal_comps_nonempty: "normal_comps rooted cs \<Longrightarrow> c \<in> set cs \<Longrightarrow> c \<noteq> []"
  by (drule (1) normal_comps_mem) (auto simp: proper_comp_def)

lemma joinWith_hd:
  assumes "cs \<noteq> []" and "hd cs \<noteq> []"
  shows "hd (joinWith sep cs) = hd (hd cs) \<and> joinWith sep cs \<noteq> []"
proof -
  from assms obtain x xs where "cs = x # xs" by (cases cs) auto
  with assms show ?thesis by (cases xs) auto
qed

lemma isAbs_render:
  assumes "normal_comps rooted cs"
  shows "path_isAbs (render_path rooted cs) = rooted"
proof (cases "rooted \<or> cs = []")
  case True
  then show ?thesis by (auto simp: render_path_def path_isAbs_def)
next
  case False
  with assms have "hd cs \<noteq> []" and "slash \<notin> set (hd cs)"
    by (auto simp: normal_comps_nonempty normal_comps_no_slash)
  moreover from this False have "joinWith ''/'' cs \<noteq> []"
    and "hd (joinWith ''/'' cs) = hd (hd cs)"
    using joinWith_hd [of cs "''/''"] by auto
  ultimately show ?thesis using False
    by (cases "joinWith ''/'' cs") (auto simp: render_path_def path_isAbs_def dest: hd_in_set)
qed

lemma split_render:
  assumes "normal_comps rooted cs"
  shows "clean_comps rooted (splitOn slash (render_path rooted cs)) = cs"
proof -
  have sp: "cs \<noteq> [] \<Longrightarrow> splitOn slash (joinWith ''/'' cs) = cs"
    using assms by (intro splitOn_joinWith) (auto simp: normal_comps_no_slash)
  show ?thesis
  proof (cases "cs = []")
    case True
    then show ?thesis by (auto simp: render_path_def clean_comps_def)
  next
    case False
    with sp assms show ?thesis by (auto simp: render_path_def clean_comps_id)
  qed
qed

theorem path_clean_render:
  "normal_comps rooted cs \<Longrightarrow> path_clean (render_path rooted cs) = render_path rooted cs"
  by (simp add: path_clean_def Let_def isAbs_render split_render)

lemma path_clean_cases:
  obtains rooted cs where "path_clean p = render_path rooted cs" "normal_comps rooted cs"
    "rooted = path_isAbs p"
  by (simp add: path_clean_def Let_def)

lemma path_clean_idem [simp]: "path_clean (path_clean p) = path_clean p"
  by (metis path_clean_cases path_clean_render)

lemma path_isAbs_clean [simp]: "path_isAbs (path_clean p) = path_isAbs p"
  by (metis path_clean_cases isAbs_render)

lemma path_clean_not_Nil [simp]: "path_clean p \<noteq> []"
proof -
  obtain rooted cs where r: "path_clean p = render_path rooted cs" and n: "normal_comps rooted cs"
    by (metis path_clean_cases)
  have "cs \<noteq> [] \<Longrightarrow> joinWith ''/'' cs \<noteq> []"
    using n joinWith_hd [of cs "''/''"] by (auto simp: normal_comps_nonempty)
  with r show ?thesis by (auto simp: render_path_def)
qed

text \<open>The components of a path; the escape component is \<^verbatim>\<open>..\<close>.\<close>

definition escapes :: "string \<Rightarrow> bool" where
  "escapes p \<longleftrightarrow> ''..'' \<in> set (splitOn slash p)"

lemma render_escapes:
  assumes "normal_comps rooted cs"
  shows "escapes (render_path rooted cs) \<longleftrightarrow> cs \<noteq> [] \<and> hd cs = ''..''"
proof -
  from assms obtain n ps where cs: "cs = replicate n ''..'' @ ps"
    and ps: "\<forall>c \<in> set ps. proper_comp c" and rt: "rooted \<longrightarrow> n = 0"
    by (auto simp: normal_comps_def)
  have "''..'' \<in> set cs \<longleftrightarrow> n \<noteq> 0"
    using cs ps by (auto simp: proper_comp_def)
  moreover have "cs \<noteq> [] \<and> hd cs = ''..'' \<longleftrightarrow> n \<noteq> 0"
    using cs ps by (cases n; cases ps) (auto simp: proper_comp_def)
  moreover have "cs \<noteq> [] \<Longrightarrow> splitOn slash (joinWith ''/'' cs) = cs"
    using assms by (intro splitOn_joinWith) (auto simp: normal_comps_no_slash)
  ultimately show ?thesis using rt
    by (auto simp: escapes_def render_path_def)
qed

lemma clean_escapes_iff:
  "escapes (path_clean p) \<longleftrightarrow> path_clean p = ''..'' \<or> hasPrefix (path_clean p) ''../''"
proof -
  obtain rooted cs where r: "path_clean p = render_path rooted cs" and n: "normal_comps rooted cs"
    by (metis path_clean_cases)
  show ?thesis
  proof (cases "cs \<noteq> [] \<and> hd cs = ''..''")
    case True
    with n have "\<not> rooted"
      using normal_comps_rooted dotdot_not_proper by (metis hd_in_set)
    with True have "path_clean p = ''..'' \<or> hasPrefix (path_clean p) ''../''"
      unfolding r by (cases cs; cases "tl cs") (auto simp: render_path_def)
    with True n r show ?thesis by (auto simp: render_escapes)
  next
    case False
    then have ne: "\<not> escapes (path_clean p)" using n r by (simp add: render_escapes)
    moreover have "escapes ''..''" by (simp add: escapes_def)
    moreover have "escapes (''../'' @ t)" for t
      using splitOn_append_sep [of slash "''..''" t] by (simp add: escapes_def)
    ultimately show ?thesis by (auto simp: hasPrefix_iff)
  qed
qed

end
