(* ===== verification/Go_Strconv.thy ===== *)
theory Go_Strconv
  imports Go_Strings
begin

text \<open>
  The parts of Go's \<^verbatim>\<open>strconv\<close> package that the program calls: \<^verbatim>\<open>FormatUint\<close>,
  \<^verbatim>\<open>FormatInt\<close> and \<^verbatim>\<open>Itoa\<close>, and \<^verbatim>\<open>ParseUint\<close> and \<^verbatim>\<open>ParseInt\<close> with their base-0 prefix and
  underscore rules.  Callers only ask whether an error was returned, so the syntax and the
  range error are both \<^const>\<open>None\<close>.
\<close>

section \<open>Formatting\<close>

abbreviation byte_val :: "char \<Rightarrow> nat" where "byte_val c \<equiv> of_char c"

definition byte_of :: "nat \<Rightarrow> char" where
  "byte_of n = char_of n"

definition digit_char :: "nat \<Rightarrow> char" where
  "digit_char d = (if d < 10 then char_of (48 + d) else char_of (87 + d))"

fun format_nat :: "nat \<Rightarrow> nat \<Rightarrow> string" where
  "format_nat b n =
     (if n < b \<or> b < 2 then [digit_char n] else format_nat b (n div b) @ [digit_char (n mod b)])"

declare format_nat.simps [simp del]

definition format_int :: "nat \<Rightarrow> int \<Rightarrow> string" where
  "format_int b i = (if i < 0 then CHR ''-'' # format_nat b (nat (- i)) else format_nat b (nat i))"

abbreviation itoa :: "int \<Rightarrow> string" where "itoa i \<equiv> format_int 10 i"
abbreviation show_nat :: "nat \<Rightarrow> string" where "show_nat n \<equiv> format_nat 10 n"

section \<open>Parsing\<close>

definition is_digit :: "char \<Rightarrow> bool" where
  "is_digit c \<longleftrightarrow> 48 \<le> byte_val c \<and> byte_val c \<le> 57"

text \<open>\<^verbatim>\<open>lower(c) = c | ('x' - 'X')\<close>: the bit 0x20 is set.\<close>

definition lower_byte :: "char \<Rightarrow> char" where
  "lower_byte c = (let v = byte_val c in if odd (v div 32) then c else char_of (v + 32))"

definition digit_val :: "char \<Rightarrow> nat option" where
  "digit_val c =
     (if is_digit c then Some (byte_val c - 48)
      else let l = byte_val (lower_byte c) in
        if 97 \<le> l \<and> l \<le> 122 then Some (l - 97 + 10) else None)"

fun parse_digits :: "nat \<Rightarrow> bool \<Rightarrow> nat \<Rightarrow> string \<Rightarrow> nat option" where
  "parse_digits b base0 acc [] = Some acc"
| "parse_digits b base0 acc (c # cs) =
     (if c = CHR ''_'' \<and> base0 then parse_digits b base0 acc cs
      else case digit_val c of
        None \<Rightarrow> None
      | Some d \<Rightarrow> if d < b then parse_digits b base0 (acc * b + d) cs else None)"

fun underscore_scan :: "bool \<Rightarrow> char \<Rightarrow> string \<Rightarrow> bool" where
  "underscore_scan hex prev [] = (prev \<noteq> CHR ''_'')"
| "underscore_scan hex prev (c # cs) =
     (if is_digit c \<or> hex \<and> 97 \<le> byte_val (lower_byte c) \<and> byte_val (lower_byte c) \<le> 102
      then underscore_scan hex (CHR ''0'') cs
      else if c = CHR ''_'' then prev = CHR ''0'' \<and> underscore_scan hex (CHR ''_'') cs
      else prev \<noteq> CHR ''_'' \<and> underscore_scan hex (CHR ''!'') cs)"

definition has_base_prefix :: "string \<Rightarrow> bool" where
  "has_base_prefix s \<longleftrightarrow> 2 \<le> length s \<and> s ! 0 = CHR ''0'' \<and>
     lower_byte (s ! 1) \<in> set ''box''"

definition underscoreOK :: "string \<Rightarrow> bool" where
  "underscoreOK s =
     (let t = (if hasPrefix s ''-'' \<or> hasPrefix s ''+'' then drop 1 s else s) in
      if has_base_prefix t
      then underscore_scan (lower_byte (t ! 1) = CHR ''x'') (CHR ''0'') (drop 2 t)
      else underscore_scan False (CHR ''^'') t)"

definition detect_base :: "string \<Rightarrow> nat \<times> string" where
  "detect_base s =
     (if hasPrefix s ''0'' then
        (if 3 \<le> length s \<and> lower_byte (s ! 1) = CHR ''b'' then (2, drop 2 s)
         else if 3 \<le> length s \<and> lower_byte (s ! 1) = CHR ''o'' then (8, drop 2 s)
         else if 3 \<le> length s \<and> lower_byte (s ! 1) = CHR ''x'' then (16, drop 2 s)
         else (8, drop 1 s))
      else (10, s))"

definition parseUint :: "string \<Rightarrow> nat \<Rightarrow> nat \<Rightarrow> nat option" where
  "parseUint s base bits =
     (if s = [] then None
      else let (b, t) = (if base = 0 then detect_base s else (base, s)) in
        case parse_digits b (base = 0) 0 t of
          None \<Rightarrow> None
        | Some n \<Rightarrow>
            if base = 0 \<and> CHR ''_'' \<in> set t \<and> \<not> underscoreOK s then None
            else if n < 2 ^ bits then Some n else None)"

definition parseInt :: "string \<Rightarrow> nat \<Rightarrow> nat \<Rightarrow> int option" where
  "parseInt s base bits =
     (if s = [] then None
      else let neg = hasPrefix s ''-'';
               t = (if neg \<or> hasPrefix s ''+'' then drop 1 s else s) in
        case parseUint t base bits of
          None \<Rightarrow> None
        | Some n \<Rightarrow>
            if \<not> neg \<and> 2 ^ (bits - 1) \<le> n then None
            else if neg \<and> 2 ^ (bits - 1) < n then None
            else Some (if neg then - int n else int n))"

text \<open>\<^verbatim>\<open>strconv.Atoi\<close> on a 64-bit platform.\<close>

definition atoi :: "string \<Rightarrow> int option" where
  "atoi s = parseInt s 10 64"

section \<open>Round trips\<close>

lemma digit_char_val [simp]: "d < 10 \<Longrightarrow> digit_val (digit_char d) = Some d"
  by (simp add: digit_val_def is_digit_def digit_char_def)

lemma digit_char_digit [simp]: "d < 10 \<Longrightarrow> is_digit (digit_char d)"
  by (simp add: is_digit_def digit_char_def)

lemma digit_char_eq:
  assumes "d < 10"
  shows "digit_char d = c \<longleftrightarrow> byte_val c = 48 + d"
proof
  assume "byte_val c = 48 + d"
  then have "char_of (48 + d) = c" using char_of_char [of c] by metis
  with assms show "digit_char d = c" by (simp add: digit_char_def)
qed (use assms in \<open>auto simp: digit_char_def\<close>)

lemma format_nat_not_Nil [simp]: "format_nat b n \<noteq> []"
  by (subst format_nat.simps) simp

lemma format_nat_digits: "\<forall>c \<in> set (show_nat n). is_digit c"
proof (induction n rule: less_induct)
  case (less n)
  show ?case
  proof (cases "n < 10")
    case True
    then show ?thesis by (subst format_nat.simps) simp
  next
    case False
    then have "\<forall>c \<in> set (show_nat (n div 10)). is_digit c" by (intro less) simp
    with False show ?thesis by (subst format_nat.simps) simp
  qed
qed

lemma parse_digits_append:
  "parse_digits b base0 acc (xs @ ys) =
     (case parse_digits b base0 acc xs of None \<Rightarrow> None | Some a \<Rightarrow> parse_digits b base0 a ys)"
  by (induction xs arbitrary: acc) (auto split: option.splits)

lemma underscore_not_digit [simp]: "d < 10 \<Longrightarrow> digit_char d \<noteq> CHR ''_''"
  by (simp add: digit_char_eq)

lemma parse_format_nat: "parse_digits 10 base0 0 (show_nat n) = Some n"
proof (induction n rule: less_induct)
  case (less n)
  show ?case
  proof (cases "n < 10")
    case True
    then show ?thesis by (subst format_nat.simps) simp
  next
    case False
    then have "parse_digits 10 base0 0 (show_nat (n div 10)) = Some (n div 10)"
      by (intro less) simp
    with False show ?thesis
      by (subst format_nat.simps) (simp add: parse_digits_append)
  qed
qed

lemma show_nat_hd: "n \<noteq> 0 \<Longrightarrow> hd (show_nat n) \<noteq> CHR ''0''"
proof (induction n rule: less_induct)
  case (less n)
  show ?case
  proof (cases "n < 10")
    case True
    with less show ?thesis by (subst format_nat.simps) (simp add: digit_char_eq)
  next
    case False
    then have "hd (show_nat (n div 10)) \<noteq> CHR ''0''" by (intro less) simp_all
    with False show ?thesis by (subst format_nat.simps) simp
  qed
qed

lemma show_zero [simp]: "show_nat 0 = ''0''"
  by (simp add: format_nat.simps digit_char_eq)

lemma is_digit_not_underscore: "is_digit c \<Longrightarrow> c \<noteq> CHR ''_''"
  by (auto simp: is_digit_def)

lemma is_digit_not_sign: "is_digit c \<Longrightarrow> c \<noteq> CHR ''-'' \<and> c \<noteq> CHR ''+''"
  by (auto simp: is_digit_def)

lemma show_nat_no_underscore: "CHR ''_'' \<notin> set (show_nat n)"
  using format_nat_digits is_digit_not_underscore by blast

lemma parseUint_show0:
  assumes "n < 2 ^ bits"
  shows "parseUint (show_nat n) 0 bits = Some n"
proof (cases "n = 0")
  case True
  then show ?thesis by (simp add: parseUint_def detect_base_def)
next
  case False
  obtain c cs where sn: "show_nat n = c # cs" by (meson format_nat_not_Nil neq_Nil_conv)
  with show_nat_hd [OF False] have "detect_base (show_nat n) = (10, show_nat n)"
    by (simp add: detect_base_def)
  with assms show ?thesis
    by (simp add: parseUint_def parse_format_nat show_nat_no_underscore)
qed

lemma parseUint_show10:
  "n < 2 ^ bits \<Longrightarrow> parseUint (show_nat n) 10 bits = Some n"
  by (simp add: parseUint_def parse_format_nat)

lemma show_nat_no_sign: "\<not> hasPrefix (show_nat n) ''-'' \<and> \<not> hasPrefix (show_nat n) ''+''"
proof -
  obtain c cs where sn: "show_nat n = c # cs" by (meson format_nat_not_Nil neq_Nil_conv)
  with format_nat_digits [of n] is_digit_not_sign [of c] show ?thesis by simp
qed

lemma parseInt_itoa0:
  assumes "- (2 ^ (bits - 1)) \<le> i" and "i < 2 ^ (bits - 1)" and "0 < bits"
  shows "parseInt (itoa i) 0 bits = Some i"
proof -
  have p: "(2::int) ^ bits = 2 * 2 ^ (bits - 1)"
    using assms(3) by (cases bits) auto
  have lt: "nat \<bar>i\<bar> < 2 ^ bits"
  proof -
    have "\<bar>i\<bar> < 2 ^ bits"
      using assms p by (smt (verit) zero_less_power)
    then show ?thesis by (simp add: nat_less_iff)
  qed
  have conv: "int (2 ^ (bits - 1)) = 2 ^ (bits - 1)" by simp
  show ?thesis
  proof (cases "i < 0")
    case True
    then have "parseUint (show_nat (nat (- i))) 0 bits = Some (nat (- i))"
      using lt by (intro parseUint_show0) simp
    moreover have "\<not> 2 ^ (bits - 1) < nat (- i)"
      using assms(1) True conv by (smt (verit) nat_less_eq_zless nat_0_le of_nat_less_iff)
    ultimately show ?thesis using True by (simp add: parseInt_def format_int_def)
  next
    case False
    then have "parseUint (show_nat (nat i)) 0 bits = Some (nat i)"
      using lt by (intro parseUint_show0) simp
    moreover have "\<not> 2 ^ (bits - 1) \<le> nat i"
      using assms(2) False conv by (smt (verit) nat_0_le of_nat_le_iff)
    ultimately show ?thesis using False
      by (simp add: parseInt_def format_int_def show_nat_no_sign)
  qed
qed

text \<open>A string of decimal digits parses, and the value is bounded by its length.\<close>

lemma digit_val_digit: "is_digit c \<Longrightarrow> \<exists>d < 10. digit_val c = Some d"
  by (auto simp: digit_val_def is_digit_def)

lemma parse_digits_all: "(\<forall>c \<in> set s. is_digit c) \<Longrightarrow> \<exists>n. parse_digits 10 False acc s = Some n"
proof (induction s arbitrary: acc)
  case (Cons c s)
  then obtain d where "d < 10" "digit_val c = Some d" by (metis digit_val_digit list.set_intros(1))
  with Cons show ?case by simp
qed simp

section \<open>Decimal values\<close>

fun dec_value :: "nat \<Rightarrow> string \<Rightarrow> nat" where
  "dec_value n [] = n"
| "dec_value n (c # cs) = dec_value (n * 10 + (byte_val c - 48)) cs"

lemma dec_value_mono: "n \<le> dec_value n cs"
proof (induction cs arbitrary: n)
  case (Cons c cs)
  from Cons[of "n * 10 + (byte_val c - 48)"] show ?case by simp
qed simp

lemma dec_value_append: "dec_value n (a @ b) = dec_value (dec_value n a) b"
  by (induction a arbitrary: n) auto

lemma digit_char_code: "d < 10 \<Longrightarrow> byte_val (digit_char d) - 48 = d"
  by (simp add: digit_char_def)

lemma dec_value_show: "dec_value 0 (show_nat n) = n"
proof (induction n rule: less_induct)
  case (less n)
  then show ?case
    by (cases "n < 10") (auto simp: format_nat.simps[of 10 n] dec_value_append digit_char_code)
qed

end
