(* ===== verification/Utf8.thy ===== *)
theory Utf8
  imports Go_Strconv
begin

text \<open>
  Go's \<^verbatim>\<open>unicode/utf8\<close>: a rune is a code point (\<^typ>\<open>nat\<close>), \<open>decodeRune\<close> reads one rune
  and its width from the front of a byte string and gives \<^verbatim>\<open>RuneError\<close> (U+FFFD) with
  width 1 for a malformed sequence, \<open>encodeRune\<close> writes one.  \<open>runes\<close> is the conversion
  \<^verbatim>\<open>[]rune(s)\<close>, \<open>utf8_string\<close> the conversion \<^verbatim>\<open>string(runes)\<close>.
\<close>

type_synonym rune = nat

definition RuneError :: rune where "RuneError = 0xFFFD"

definition in_range :: "nat \<Rightarrow> nat \<Rightarrow> nat \<Rightarrow> bool" where
  "in_range lo hi n \<longleftrightarrow> lo \<le> n \<and> n \<le> hi"

abbreviation cont_byte :: "nat \<Rightarrow> bool" where "cont_byte \<equiv> in_range 0x80 0xBF"

text \<open>The range of the second byte, by the first byte (Go's \<^verbatim>\<open>acceptRanges\<close>).\<close>

definition second_ok :: "nat \<Rightarrow> nat \<Rightarrow> bool" where
  "second_ok b0 b1 \<longleftrightarrow>
     (if b0 = 0xE0 then in_range 0xA0 0xBF b1
      else if b0 = 0xED then in_range 0x80 0x9F b1
      else if b0 = 0xF0 then in_range 0x90 0xBF b1
      else if b0 = 0xF4 then in_range 0x80 0x8F b1
      else cont_byte b1)"

definition decode_bytes :: "nat list \<Rightarrow> rune \<times> nat" where
  "decode_bytes bs = (case bs of
     [] \<Rightarrow> (RuneError, 0)
   | b0 # r0 \<Rightarrow>
       if b0 < 0x80 then (b0, 1)
       else (case r0 of
         [] \<Rightarrow> (RuneError, 1)
       | b1 # r1 \<Rightarrow>
           if in_range 0xC2 0xDF b0 \<and> cont_byte b1
           then (b0 mod 32 * 64 + b1 mod 64, 2)
           else if in_range 0xE0 0xEF b0 \<and> second_ok b0 b1
           then (case r1 of
             [] \<Rightarrow> (RuneError, 1)
           | b2 # _ \<Rightarrow>
               if cont_byte b2 then (b0 mod 16 * 4096 + b1 mod 64 * 64 + b2 mod 64, 3)
               else (RuneError, 1))
           else if in_range 0xF0 0xF4 b0 \<and> second_ok b0 b1
           then (case r1 of
             b2 # b3 # _ \<Rightarrow>
               if cont_byte b2 \<and> cont_byte b3
               then (b0 mod 8 * 262144 + b1 mod 64 * 4096 + b2 mod 64 * 64 + b3 mod 64, 4)
               else (RuneError, 1)
           | _ \<Rightarrow> (RuneError, 1))
           else (RuneError, 1)))"

definition decodeRune :: "string \<Rightarrow> rune \<times> nat" where
  "decodeRune s = decode_bytes (map byte_val (take 4 s))"

definition valid_rune :: "rune \<Rightarrow> bool" where
  "valid_rune r \<longleftrightarrow> r < 0xD800 \<or> in_range 0xE000 0x10FFFF r"

definition encode_bytes :: "rune \<Rightarrow> nat list" where
  "encode_bytes r =
     (if r < 0x80 then [r]
      else if r < 0x800 then [0xC0 + r div 64, 0x80 + r mod 64]
      else if r < 0x10000 then [0xE0 + r div 4096, 0x80 + r div 64 mod 64, 0x80 + r mod 64]
      else [0xF0 + r div 262144, 0x80 + r div 4096 mod 64, 0x80 + r div 64 mod 64, 0x80 + r mod 64])"

definition encodeRune :: "rune \<Rightarrow> string" where
  "encodeRune r = map char_of (encode_bytes (if valid_rune r then r else RuneError))"

function runes :: "string \<Rightarrow> rune list" where
  "runes s = (if s = [] then [] else let (r, n) = decodeRune s in r # runes (drop (max 1 n) s))"
  by pat_completeness auto
termination
  by (relation "measure length") auto

declare runes.simps [simp del]

definition utf8_string :: "rune list \<Rightarrow> string" where
  "utf8_string rs = concat (map encodeRune rs)"

text \<open>\<^verbatim>\<open>utf8.Valid\<close>: no malformed sequence (a literal U+FFFD has width 3).\<close>

function utf8_valid :: "string \<Rightarrow> bool" where
  "utf8_valid s =
     (if s = [] then True
      else let (r, n) = decodeRune s in \<not> (r = RuneError \<and> n = 1) \<and> utf8_valid (drop (max 1 n) s))"
  by pat_completeness auto
termination
  by (relation "measure length") auto

declare utf8_valid.simps [simp del]

section \<open>Widths and round trip\<close>

lemma decode_bytes_width: "bs \<noteq> [] \<Longrightarrow> 1 \<le> snd (decode_bytes bs) \<and> snd (decode_bytes bs) \<le> length bs"
  by (auto simp: decode_bytes_def split: list.splits)

lemma decodeRune_width:
  assumes "s \<noteq> []"
  shows "1 \<le> snd (decodeRune s)" and "snd (decodeRune s) \<le> length s"
  using decode_bytes_width [of "map byte_val (take 4 s)"] assms by (auto simp: decodeRune_def)

lemma max_width [simp]: "s \<noteq> [] \<Longrightarrow> max (Suc 0) (snd (decodeRune s)) = snd (decodeRune s)"
  using decodeRune_width by (simp add: max_def Suc_le_eq)

lemma encode_bytes_small: "valid_rune r \<Longrightarrow> b \<in> set (encode_bytes r) \<Longrightarrow> b < 256"
  by (auto simp: encode_bytes_def valid_rune_def in_range_def split: if_splits)

lemma cont_mod [simp]: "(0x80 + x mod 64) mod 64 = x mod (64 :: nat)"
  using mod_mult_self2 [of "x mod 64" 64 2] by (simp add: add.commute)

lemma cont_range [simp]: "x mod 64 \<le> (63 :: nat)"
  using mod_less_divisor [of 64 x] by linarith

lemma decode_encode_bytes:
  assumes "valid_rune r"
  shows "decode_bytes (encode_bytes r @ t) = (r, length (encode_bytes r))"
proof -
  consider "r < 0x80" | "0x80 \<le> r" "r < 0x800" | "0x800 \<le> r" "r < 0x10000" | "0x10000 \<le> r"
    by linarith
  then show ?thesis
  proof cases
    case 1
    then show ?thesis by (simp add: encode_bytes_def decode_bytes_def)
  next
    case 2
    then have b: "2 \<le> r div 64" "r div 64 < 32" by auto
    then have "in_range 0xC2 0xDF (0xC0 + r div 64)" by (simp add: in_range_def)
    moreover have "(0xC0 + r div 64) mod 32 = r div 64"
      using mod_mult_self2 [of "r div 64" 32 6] b(2) by (simp add: add.commute)
    ultimately
    show ?thesis using 2 by (simp add: encode_bytes_def decode_bytes_def in_range_def)
  next
    case 3
    define y where "y = r div 64"
    have q: "r div 4096 = y div 64" by (simp add: y_def flip: div_mult2_eq)
    have r: "r = y * 64 + r mod 64" and y: "y = y div 64 * 64 + y mod 64"
      by (simp_all add: y_def)
    have yb: "32 \<le> y" "y < 1024" using 3 by (simp_all add: y_def)
    have ys: "y < 864 \<or> 896 \<le> y"
      using assms by (auto simp: y_def valid_rune_def in_range_def)
    have m: "(0xE0 + y div 64) mod 16 = y div 64"
      using mod_mult_self2 [of "y div 64" 16 14] yb(2) by (simp add: add.commute)
    have s: "second_ok (0xE0 + y div 64) (0x80 + y mod 64)"
    proof -
      have "y div 64 = 0 \<Longrightarrow> 32 \<le> y mod 64" "y div 64 = 13 \<Longrightarrow> y mod 64 \<le> 31" "y div 64 < 16"
        using y yb ys cont_range [of y] by linarith+
      then show ?thesis by (auto simp: second_ok_def in_range_def)
    qed
    have v: "y div 64 * 4096 + (y mod 64) * 64 + r mod 64 = r" using r y by linarith
    from 3 m s v yb(2) show ?thesis
      by (simp add: encode_bytes_def decode_bytes_def in_range_def q flip: y_def)
  next
    case 4
    then have lt: "r < 0x110000" using assms by (simp add: valid_rune_def in_range_def)
    define y where "y = r div 64"
    define z where "z = y div 64"
    have q: "r div 4096 = z" "r div 262144 = z div 64"
      by (simp_all add: y_def z_def flip: div_mult2_eq)
    have r: "r = y * 64 + r mod 64" and y: "y = z * 64 + y mod 64"
      and z: "z = z div 64 * 64 + z mod 64"
      by (simp_all add: y_def z_def)
    have zb: "16 \<le> z" "z < 272" using 4 lt by (simp_all add: y_def z_def flip: div_mult2_eq)
    have m: "(0xF0 + z div 64) mod 8 = z div 64"
      using mod_mult_self2 [of "z div 64" 8 30] zb(2) by (simp add: add.commute)
    have s: "second_ok (0xF0 + z div 64) (0x80 + z mod 64)"
    proof -
      have "z div 64 = 0 \<Longrightarrow> 16 \<le> z mod 64" "z div 64 = 4 \<Longrightarrow> z mod 64 \<le> 15"
        using z zb by linarith+
      then show ?thesis by (auto simp: second_ok_def in_range_def)
    qed
    have v: "z div 64 * 262144 + (z mod 64) * 4096 + (y mod 64) * 64 + r mod 64 = r"
      using r y z by linarith
    from 4 m s v zb(2) show ?thesis
      by (simp add: encode_bytes_def decode_bytes_def in_range_def q flip: y_def)
  qed
qed

lemma length_encode_bytes: "1 \<le> length (encode_bytes r) \<and> length (encode_bytes r) \<le> 4"
  by (simp add: encode_bytes_def)

lemma decode_encode_rune:
  assumes "valid_rune r"
  shows "decodeRune (encodeRune r @ t) = (r, length (encodeRune r))"
proof -
  have "map byte_val (encodeRune r) = encode_bytes r"
    using assms encode_bytes_small by (auto simp: encodeRune_def intro!: map_idI)
  moreover have "map byte_val (take 4 (encodeRune r @ t))
      = map byte_val (encodeRune r) @ map byte_val (take (4 - length (encodeRune r)) t)"
    using length_encode_bytes [of r] assms by (simp add: encodeRune_def)
  ultimately have "decodeRune (encodeRune r @ t)
      = decode_bytes (encode_bytes r @ map byte_val (take (4 - length (encodeRune r)) t))"
    by (simp add: decodeRune_def)
  then show ?thesis using assms by (simp add: decode_encode_bytes encodeRune_def)
qed

lemma valid_RuneError [simp]: "valid_rune RuneError"
  by (simp add: valid_rune_def RuneError_def in_range_def)

lemma encodeRune_not_Nil [simp]: "encodeRune r \<noteq> []"
  by (auto simp: encodeRune_def encode_bytes_def)

lemma runes_encode: "valid_rune r \<Longrightarrow> runes (encodeRune r @ t) = r # runes t"
  by (subst runes.simps) (simp add: decode_encode_rune max_def Suc_le_eq)

lemma runes_Nil [simp]: "runes [] = []"
  by (simp add: runes.simps)

theorem runes_utf8_string: "(\<forall>r \<in> set rs. valid_rune r) \<Longrightarrow> runes (utf8_string rs) = rs"
  by (induction rs) (simp_all add: utf8_string_def runes_encode)

lemma valid_encode: "valid_rune r \<Longrightarrow> utf8_valid (encodeRune r @ t) = utf8_valid t"
proof -
  assume r: "valid_rune r"
  have "\<not> (r = RuneError \<and> length (encodeRune r) = 1)"
    by (auto simp: encodeRune_def encode_bytes_def RuneError_def)
  with r show ?thesis
    by (subst utf8_valid.simps) (simp add: decode_encode_rune max_def Suc_le_eq)
qed

lemma utf8_valid_Nil [simp]: "utf8_valid []"
  by (simp add: utf8_valid.simps)

lemma encode_any_valid: "utf8_valid (encodeRune r @ t) = utf8_valid t"
proof (cases "valid_rune r")
  case True
  then show ?thesis by (rule valid_encode)
next
  case False
  then have "encodeRune r = encodeRune RuneError" by (simp add: encodeRune_def)
  then show ?thesis by (simp add: valid_encode)
qed

lemma utf8_string_valid: "utf8_valid (utf8_string rs)"
  by (induction rs) (simp_all add: utf8_string_def encode_any_valid)

lemma ascii_runes: "(\<forall>c \<in> set s. byte_val c < 128) \<Longrightarrow> runes s = map byte_val s"
proof (induction s)
  case (Cons c s)
  then have "decodeRune (c # s) = (byte_val c, 1)"
    by (simp add: decodeRune_def decode_bytes_def take_Cons')
  with Cons show ?case by (subst runes.simps) simp
qed simp

text \<open>
  A byte below 0x80 never continues a sequence, so what follows a string as ASCII does not
  change how it is read, even when the string ends in the middle of a sequence.
\<close>

lemma ascii_not_cont: "b < 0x80 \<Longrightarrow> \<not> in_range 0x80 hi b" "b < 0x80 \<Longrightarrow> \<not> second_ok b0 b"
  by (auto simp: in_range_def second_ok_def)

lemma decode_bytes_ascii:
  "bs \<noteq> [] \<Longrightarrow> (\<forall>b \<in> set t. b < 0x80) \<Longrightarrow> decode_bytes (bs @ t) = decode_bytes bs"
  by (auto simp: decode_bytes_def ascii_not_cont append_eq_Cons_conv Cons_eq_append_conv split: list.splits)

lemma decodeRune_append_ascii:
  assumes "s \<noteq> []" and "\<forall>c \<in> set t. byte_val c < 0x80"
  shows "decodeRune (s @ t) = decodeRune s"
proof -
  have "\<forall>b \<in> set (map byte_val (take (4 - length s) t)). b < (0x80 :: nat)"
    using assms(2) by (auto dest: in_set_takeD)
  then show ?thesis
    using assms(1) by (simp add: decodeRune_def decode_bytes_ascii)
qed

lemma runes_append_ascii:
  "(\<forall>c \<in> set t. byte_val c < 0x80) \<Longrightarrow> runes (s @ t) = runes s @ map byte_val t"
proof (induction s rule: runes.induct)
  case (1 s)
  show ?case
  proof (cases "s = []")
    case True
    with 1 show ?thesis by (simp add: ascii_runes)
  next
    case False
    obtain r n where rn: "decodeRune s = (r, n)" by fastforce
    have d: "decodeRune (s @ t) = (r, n)"
      using 1(2) False rn decodeRune_append_ascii by simp
    have n: "1 \<le> n" "n \<le> length s"
      using decodeRune_width[OF False] rn by auto
    have "runes (drop n s @ t) = runes (drop n s) @ map byte_val t"
      using 1(1)[OF False rn[symmetric]] 1(2) n by (simp add: max_def)
    then show ?thesis
      using False d rn n by (simp add: runes.simps[of "s @ t"] runes.simps[of s] max_def)
  qed
qed

lemma runes_ascii_append:
  "(\<forall>c \<in> set t. byte_val c < 0x80) \<Longrightarrow> runes (t @ s) = map byte_val t @ runes s"
  by (induction t) (auto simp: runes.simps[of "_ # _"] decodeRune_def decode_bytes_def)

lemma mod_offset: "m * q \<le> b \<Longrightarrow> b < m * q + m \<Longrightarrow> b mod m = b - m * q" for b :: nat
  by (metis add_diff_inverse_nat le_add_diff_inverse mod_less mod_mult_self3 mult.commute
        nat_add_left_cancel_less)

lemma cont_byte_mod: "cont_byte b \<Longrightarrow> b mod 64 = b - 0x80"
  using mod_offset[of 64 2 b] by (simp add: in_range_def)

lemma second_ok_cont: "second_ok b0 b1 \<Longrightarrow> cont_byte b1"
  by (auto simp: second_ok_def in_range_def split: if_splits)

lemma valid_2: "in_range 0xC2 0xDF b0 \<Longrightarrow> cont_byte b1 \<Longrightarrow> valid_rune (b0 mod 32 * 64 + b1 mod 64)"
  using mod_offset[of 32 6 b0] cont_byte_mod[of b1] by (auto simp: valid_rune_def in_range_def)

lemma valid_3:
  assumes "in_range 0xE0 0xEF b0" "second_ok b0 b1" "cont_byte b2"
  shows "valid_rune (b0 mod 16 * 4096 + b1 mod 64 * 64 + b2 mod 64)"
proof -
  have m: "b0 mod 16 = b0 - 0xE0" "b1 mod 64 = b1 - 0x80" "b2 mod 64 = b2 - 0x80"
    using mod_offset[of 16 14 b0] assms cont_byte_mod second_ok_cont by (auto simp: in_range_def)
  have "b0 < 0xED \<or> b0 = 0xED \<or> 0xEE \<le> b0" by linarith
  then show ?thesis
    using assms unfolding m
    by (elim disjE) (auto simp: valid_rune_def in_range_def second_ok_def split: if_splits)
qed

lemma valid_4:
  assumes "in_range 0xF0 0xF4 b0" "second_ok b0 b1" "cont_byte b2" "cont_byte b3"
  shows "valid_rune (b0 mod 8 * 262144 + b1 mod 64 * 4096 + b2 mod 64 * 64 + b3 mod 64)"
proof -
  have m: "b0 mod 8 = b0 - 0xF0" "b1 mod 64 = b1 - 0x80" "b2 mod 64 = b2 - 0x80" "b3 mod 64 = b3 - 0x80"
    using mod_offset[of 8 30 b0] assms cont_byte_mod second_ok_cont by (auto simp: in_range_def)
  have "b0 = 0xF0 \<or> (0xF1 \<le> b0 \<and> b0 < 0xF4) \<or> b0 = 0xF4"
    using assms(1) unfolding in_range_def by linarith
  then show ?thesis
    using assms unfolding m
    by (elim disjE) (auto simp: valid_rune_def in_range_def second_ok_def split: if_splits)
qed

lemma decode_bytes_valid: "valid_rune (fst (decode_bytes bs))"
  by (auto simp: decode_bytes_def valid_2 valid_3 valid_4 valid_rune_def[of "hd _"] split: list.split)
     (auto simp: valid_rune_def)

lemma runes_valid: "r \<in> set (runes s) \<Longrightarrow> valid_rune r"
proof (induction s rule: runes.induct)
  case (1 s)
  then show ?case
    using decode_bytes_valid[of "map byte_val (take 4 s)"]
    by (cases "decodeRune s") (auto simp: runes.simps[of s] decodeRune_def split: if_splits)
qed

lemma runes_of_taken [simp]: "runes (utf8_string (take n (runes s))) = take n (runes s)"
  by (rule runes_utf8_string) (auto dest: in_set_takeD runes_valid)

section \<open>Unicode tables\<close>

text \<open>
  The classification tables of Go's \<^verbatim>\<open>unicode\<close> package and \<^verbatim>\<open>strings.ToLower\<close>, a
  parameter of the definitions that use them.
\<close>

record unicode =
  IsLower :: "rune \<Rightarrow> bool"
  IsUpper :: "rune \<Rightarrow> bool"
  IsLetter :: "rune \<Rightarrow> bool"
  IsDigit :: "rune \<Rightarrow> bool"
  IsControl :: "rune \<Rightarrow> bool"
  IsPrint :: "rune \<Rightarrow> bool"
  IsPunct :: "rune \<Rightarrow> bool"
  IsSymbol :: "rune \<Rightarrow> bool"
  IsSpace :: "rune \<Rightarrow> bool"
  ToLower :: "string \<Rightarrow> string"

end
