(* ===== verification/Go_Fs.thy ===== *)
theory Go_Fs
  imports Go_Path Utf8 "HOL-Library.Word"
begin

unbundle bit_operations_syntax

text \<open>
  Go's \<^verbatim>\<open>io/fs\<close> file modes as 32-bit words, and the interface of a billy filesystem
  (github.com/go-git/go-billy), which is code outside this repository: a record of
  functions on an abstract state \<open>'s\<close> that every operation of the program takes as an
  argument.  A read operation is a function of the state, a write operation also returns
  the new state.  Times are nanoseconds since the epoch.
\<close>

section \<open>File modes\<close>

type_synonym fmode = "32 word"

definition ModeDir :: fmode where "ModeDir = 0x80000000"
definition ModeSymlink :: fmode where "ModeSymlink = 0x08000000"
definition ModeDevice :: fmode where "ModeDevice = 0x04000000"
definition ModeNamedPipe :: fmode where "ModeNamedPipe = 0x02000000"
definition ModeSocket :: fmode where "ModeSocket = 0x01000000"
definition ModeSetuid :: fmode where "ModeSetuid = 0x00800000"
definition ModeSetgid :: fmode where "ModeSetgid = 0x00400000"
definition ModeCharDevice :: fmode where "ModeCharDevice = 0x00200000"
definition ModeSticky :: fmode where "ModeSticky = 0x00100000"
definition ModeIrregular :: fmode where "ModeIrregular = 0x00080000"

lemmas mode_bits [kefka_defs] = ModeDir_def ModeSymlink_def ModeDevice_def ModeNamedPipe_def
  ModeSocket_def ModeSetuid_def ModeSetgid_def ModeCharDevice_def ModeSticky_def ModeIrregular_def

definition ModeType :: fmode where
  "ModeType = (ModeDir OR ModeSymlink OR ModeNamedPipe OR ModeSocket OR ModeDevice OR
               ModeCharDevice OR ModeIrregular)"

definition mode_perm :: "fmode \<Rightarrow> fmode" where "mode_perm m = m AND 0x1FF"
definition mode_type :: "fmode \<Rightarrow> fmode" where "mode_type m = m AND ModeType"
definition mode_isRegular :: "fmode \<Rightarrow> bool" where "mode_isRegular m \<longleftrightarrow> m AND ModeType = 0"
definition mode_isDir :: "fmode \<Rightarrow> bool" where "mode_isDir m \<longleftrightarrow> m AND ModeDir \<noteq> 0"

lemma ModeType_val [kefka_defs]: "ModeType = 0x8F280000"
  by (simp add: ModeType_def mode_bits)

lemmas mode_ops [kefka_defs] = mode_perm_def mode_type_def mode_isRegular_def mode_isDir_def

section \<open>Errors, file information and the filesystem interface\<close>

text \<open>
  The errors the program tells apart with \<^verbatim>\<open>errors.Is\<close>; anything else carries its
  message.
\<close>

datatype fs_err =
    ErrNotExist | ErrPermission | ErrExist | ENOTDIR | EIO | ELOOP | ENAMETOOLONG
  | ErrOther string

record file_info =
  fi_name :: string
  fi_size :: int
  fi_mode :: fmode
  fi_mtime :: int
  fi_dev :: "nat option"

definition fi_isDir :: "file_info \<Rightarrow> bool" where
  "fi_isDir i \<longleftrightarrow> mode_isDir (fi_mode i)"

record dir_entry =
  de_name :: string
  de_type :: fmode
  de_info :: "fs_err + file_info"

definition de_isDir :: "dir_entry \<Rightarrow> bool" where
  "de_isDir e \<longleftrightarrow> mode_isDir (de_type e)"

lemmas info_defs [kefka_defs] = fi_isDir_def de_isDir_def

text \<open>
  \<open>fs_open\<close> gives, for a file that opens, what reading all of it returns: an error or the
  bytes.  \<open>fs_readlink\<close> is only reached when \<open>fs_symlinks\<close> says the filesystem has the
  \<^verbatim>\<open>billy.Symlink\<close> capability.  \<open>fs_writefile\<close> is a create, one write and a close.
\<close>

record 's billy =
  fs_stat :: "'s \<Rightarrow> string \<Rightarrow> fs_err + file_info"
  fs_lstat :: "'s \<Rightarrow> string \<Rightarrow> fs_err + file_info"
  fs_readdir :: "'s \<Rightarrow> string \<Rightarrow> fs_err + dir_entry list"
  fs_open :: "'s \<Rightarrow> string \<Rightarrow> fs_err + (fs_err + string)"
  fs_readlink :: "'s \<Rightarrow> string \<Rightarrow> fs_err + string"
  fs_remove :: "'s \<Rightarrow> string \<Rightarrow> fs_err option \<times> 's"
  fs_symlinks :: bool

text \<open>\<^verbatim>\<open>sort.Slice(entries, by Name)\<close>.\<close>

definition sort_entries :: "dir_entry list \<Rightarrow> dir_entry list" where
  "sort_entries es = sort_key de_name es"

lemma set_sort_entries [simp]: "set (sort_entries es) = set es"
  by (simp add: sort_entries_def)

lemma sorted_sort_entries: "sorted (map de_name (sort_entries es))"
  by (simp add: sort_entries_def)

end
