(* ===== verification/Registry.thy ===== *)
theory Registry
  imports Go_Fs "HOL-Library.AList"
begin

text \<open>
  The command registry (\<^verbatim>\<open>command/registry/registry.go\<close>), the execution context
  (\<^verbatim>\<open>command/command.go\<close>), the registration functions of the three command families and
  the handlers that connect the registry to the shell interpreter
  (\<^verbatim>\<open>billysh/billysh.go\<close>).  The registry's state is its command table and its working
  directory; the mutexes make each operation atomic, so each operation is one function
  on that state.
\<close>

section \<open>The execution context\<close>

text \<open>
  A nil reader is \<^const>\<open>None\<close>; a reader is what reading all of it gives.  The
  environment is the lookup function of \<^verbatim>\<open>expand.Environ\<close>.
\<close>

record 's exec_context =
  ec_stdin :: "(fs_err + string) option"
  ec_dir :: string
  ec_environ :: "string \<Rightarrow> string option"
  ec_fs :: "'s billy option"
  ec_state :: 's
  ec_runner :: bool

text \<open>What a command did: the bytes written, the error returned and the filesystem after it.\<close>

record 's cmd_result =
  r_stdout :: string
  r_stderr :: string
  r_exit :: exit_result
  r_state :: 's

definition GuestPWD :: "'s exec_context \<Rightarrow> string" where
  "GuestPWD ec = (if ec_dir ec = [] then ''/'' else path_join [''/'', ec_dir ec])"

section \<open>The registry\<close>

record 'c registry =
  commands :: "(string \<times> 'c) list"
  pwd :: string

definition New :: "'c registry" where
  "New = \<lparr>commands = [], pwd = ''.''\<rparr>"

definition Register :: "string \<Rightarrow> 'c \<Rightarrow> 'c registry \<Rightarrow> 'c registry" where
  "Register name cmd r = r\<lparr>commands := AList.update name cmd (commands r)\<rparr>"

definition Get :: "'c registry \<Rightarrow> string \<Rightarrow> 'c option" where
  "Get r name = map_of (commands r) name"

definition Names :: "'c registry \<Rightarrow> string list" where
  "Names r = sort (map fst (commands r))"

definition Pwd :: "'c registry \<Rightarrow> string" where
  "Pwd r = pwd r"

definition Resolve :: "'c registry \<Rightarrow> string \<Rightarrow> string" where
  "Resolve r p =
     (let p1 = (if path_isAbs p then trimPrefix p ''/'' else path_join [Pwd r, p]);
          p2 = path_clean p1
      in if p2 = [] \<or> p2 = ''.'' \<or> p2 = ''..'' \<or> hasPrefix p2 ''../'' then ''.'' else p2)"

definition Chdir ::
  "(string \<Rightarrow> fs_err + file_info) \<Rightarrow> string \<Rightarrow> 'c registry \<Rightarrow> string option \<times> 'c registry"
where
  "Chdir stat target0 r =
     (let target = (if target0 = [] then ''.'' else target0);
          nxt = Resolve r target
      in case stat nxt of
           Inl _ \<Rightarrow> (Some (''cd: '' @ target @ '': No such file or directory''), r)
         | Inr info \<Rightarrow>
             if \<not> fi_isDir info then (Some (''cd: '' @ target @ '': Not a directory''), r)
             else (None, r\<lparr>pwd := nxt\<rparr>))"

text \<open>
  \<^verbatim>\<open>Exec\<close>: \<open>run\<close> is the \<^verbatim>\<open>Execer\<close> interface call, \<open>hc\<close> the handler context the
  interpreter supplies (its directory is replaced by the registry's), \<open>stderr_set\<close>
  whether the handler context has a standard error.
\<close>

definition Exec ::
  "('c \<Rightarrow> 's exec_context \<Rightarrow> string list \<Rightarrow> 's cmd_result) \<Rightarrow> 'c registry \<Rightarrow>
   's exec_context \<Rightarrow> bool \<Rightarrow> string list \<Rightarrow> 's cmd_result"
where
  "Exec run r hc stderr_set args = (case args of
     [] \<Rightarrow> \<lparr>r_stdout = [], r_stderr = [], r_exit = ExitOk, r_state = ec_state hc\<rparr>
   | cmdName # cmdArgs \<Rightarrow>
       (case Get r cmdName of
          None \<Rightarrow> \<lparr>r_stdout = [],
                   r_stderr = (if stderr_set
                     then ''kefka: command not found: '' @ cmdName @ nl else []),
                   r_exit = ExitStatus 127, r_state = ec_state hc\<rparr>
        | Some cmd \<Rightarrow> run cmd (hc\<lparr>ec_dir := Pwd r\<rparr>) cmdArgs))"

section \<open>Registration of the command families\<close>

text \<open>A command implementation: a coreutil in Go, a WASM program, a uutils applet, or the snapshot
  command that sophia adds.\<close>

datatype impl = Coreutil string | Wasmprog string | Uutil string | Snapshot

definition register_all :: "(string \<times> 'c) list \<Rightarrow> 'c registry \<Rightarrow> 'c registry" where
  "register_all kvs r = fold (\<lambda>(k, v). Register k v) kvs r"

definition coreutils_names :: "string list" where
  "coreutils_names =
    [''clear'', ''column'', ''commands'', ''diff'', ''du'', ''egrep'', ''env'', ''fgrep'',
     ''file'', ''find'', ''grep'', ''gunzip'', ''gzip'', ''hostname'', ''pwd'', ''stat'',
     ''tac'', ''time'', ''tree'', ''whoami'', ''zcat'']"

definition coreutils_Register :: "impl registry \<Rightarrow> impl registry" where
  "coreutils_Register = register_all (map (\<lambda>n. (n, Coreutil n)) coreutils_names)"

definition wasmprog_Register :: "impl registry \<Rightarrow> impl registry" where
  "wasmprog_Register = register_all
    [(''python'', Wasmprog ''python3''), (''python3'', Wasmprog ''python3''),
     (''qjs'', Wasmprog ''qjs''), (''jo'', Wasmprog ''jo''), (''jq'', Wasmprog ''jq''),
     (''rg'', Wasmprog ''rg'')]"

definition uutils_names :: "string list" where
  "uutils_names =
    [''['', ''arch'', ''b2sum'', ''base32'', ''base64'', ''basename'', ''basenc'', ''cat'',
     ''cksum'', ''comm'', ''cp'', ''csplit'', ''cut'', ''date'', ''dd'', ''dir'',
     ''dircolors'', ''dirname'', ''expand'', ''expr'', ''factor'', ''false'',
     ''fmt'', ''fold'', ''head'', ''hostid'', ''join'', ''link'', ''ln'', ''ls'', ''md5sum'', ''mkdir'',
     ''mktemp'', ''mv'', ''nl'', ''nproc'', ''numfmt'', ''od'', ''paste'', ''pathchk'',
     ''pr'', ''printenv'', ''printf'', ''ptx'', ''readlink'', ''realpath'',
     ''rm'', ''rmdir'', ''seq'', ''sha1sum'', ''sha224sum'', ''sha256sum'',
     ''sha384sum'', ''sha512sum'', ''shred'', ''shuf'', ''sleep'', ''sort'', ''split'',
     ''sum'', ''tail'', ''tee'', ''test'', ''touch'', ''tr'', ''true'', ''truncate'', ''tsort'',
     ''tty'', ''uname'', ''unexpand'', ''uniq'', ''unlink'', ''vdir'', ''wc'', ''yes'']"

definition uutils_Register :: "impl registry \<Rightarrow> impl registry" where
  "uutils_Register = register_all (map (\<lambda>n. (n, Uutil n)) uutils_names)"

section \<open>Shell handlers\<close>

definition FsysStatHandler ::
  "'c registry \<Rightarrow> 's billy \<Rightarrow> 's \<Rightarrow> string \<Rightarrow> bool \<Rightarrow> fs_err + file_info"
where
  "FsysStatHandler reg fsys s name followSymlinks =
     (let resolved = Resolve reg name
      in if \<not> followSymlinks \<and> fs_symlinks fsys then fs_lstat fsys s resolved
         else fs_stat fsys s resolved)"

text \<open>The open flags of package \<^verbatim>\<open>os\<close> that ask for write access, on Linux.\<close>

definition O_WRONLY :: "64 word" where "O_WRONLY = 0x1"
definition O_RDWR :: "64 word" where "O_RDWR = 0x2"
definition O_CREATE :: "64 word" where "O_CREATE = 0x40"
definition O_TRUNC :: "64 word" where "O_TRUNC = 0x200"
definition O_APPEND :: "64 word" where "O_APPEND = 0x400"

lemmas oflag_defs [kefka_defs] = O_WRONLY_def O_RDWR_def O_CREATE_def O_TRUNC_def O_APPEND_def

datatype readOnlyFile = ReadOnlyFile "fs_err + string"

definition readOnlyFile_Write :: "readOnlyFile \<Rightarrow> string \<Rightarrow> nat \<times> fs_err option" where
  "readOnlyFile_Write f p = (0, Some ErrPermission)"

definition FsysOpenHandler ::
  "'c registry \<Rightarrow> 's billy \<Rightarrow> 's \<Rightarrow> string \<Rightarrow> 64 word \<Rightarrow> fs_err + readOnlyFile"
where
  "FsysOpenHandler reg fsys s name flag =
     (if flag AND (O_WRONLY OR O_RDWR OR O_CREATE OR O_APPEND OR O_TRUNC) \<noteq> 0
      then Inl ErrPermission
      else case fs_open fsys s (Resolve reg name) of
             Inl err \<Rightarrow> Inl err
           | Inr f \<Rightarrow> Inr (ReadOnlyFile f))"

definition FsysReadDirHandler ::
  "'c registry \<Rightarrow> 's billy \<Rightarrow> 's \<Rightarrow> string \<Rightarrow> fs_err + dir_entry list"
where
  "FsysReadDirHandler reg fsys s name = fs_readdir fsys s (Resolve reg name)"

text \<open>\<open>CallHandler\<close> returns the replaced call, the bytes for stdout and stderr, and the registry.\<close>

definition CallHandler ::
  "'s billy \<Rightarrow> 's \<Rightarrow> string list \<Rightarrow> 'c registry \<Rightarrow> string list \<times> string \<times> string \<times> 'c registry"
where
  "CallHandler fsys s args reg = (case args of
     [] \<Rightarrow> (args, [], [], reg)
   | a # rest \<Rightarrow>
       if a = ''cd'' then
         (let target = (case rest of [] \<Rightarrow> [] | t # _ \<Rightarrow> t)
          in case Chdir (fs_stat fsys s) target reg of
               (Some err, reg') \<Rightarrow> ([''false''], [], err @ nl, reg')
             | (None, reg') \<Rightarrow> (['':''], [], [], reg'))
       else if a = ''pwd'' then
         (let p = Pwd reg
          in (['':''], (if p = ''.'' then ''/'' else ''/'' @ p) @ nl, [], reg))
       else (args, [], [], reg))"

section \<open>The registry as a keyed store\<close>

text \<open>
  What a client of a keyed store may rely on.  The command registry is one, and so is
  the temp-file registry of s3fs.
\<close>

locale keyed_store =
  fixes lookup :: "'m \<Rightarrow> 'k \<Rightarrow> 'v option"
    and put :: "'k \<Rightarrow> 'v \<Rightarrow> 'm \<Rightarrow> 'm"
  assumes lookup_put: "lookup (put k v m) = (lookup m)(k \<mapsto> v)"
begin

lemma lookup_fold_put: "lookup (fold (\<lambda>(k, v). put k v) kvs m) = lookup m ++ map_of (rev kvs)"
proof (induction kvs arbitrary: m)
  case (Cons kv kvs)
  obtain k v where "kv = (k, v)" by fastforce
  with Cons show ?case
    by (auto simp: lookup_put map_add_def fun_eq_iff split: option.splits)
qed simp

lemma lookup_put_same: "lookup (put k v m) k = Some v"
  by (simp add: lookup_put)

lemma lookup_put_other: "k' \<noteq> k \<Longrightarrow> lookup (put k v m) k' = lookup m k'"
  by (simp add: lookup_put)

end

interpretation cmds: keyed_store Get Register
  by unfold_locales (auto simp: Get_def Register_def update_conv')

text \<open>The table never holds a name twice.\<close>

definition registry_wf :: "'c registry \<Rightarrow> bool" where
  "registry_wf r \<longleftrightarrow> distinct (map fst (commands r))"

lemma New_wf [simp]: "registry_wf New"
  by (simp add: registry_wf_def New_def)

lemma Register_wf [simp]: "registry_wf r \<Longrightarrow> registry_wf (Register n c r)"
  by (simp add: registry_wf_def Register_def distinct_update)

lemma register_all_wf [simp]: "registry_wf r \<Longrightarrow> registry_wf (register_all kvs r)"
  unfolding register_all_def by (induction kvs arbitrary: r) auto

lemma Get_register_all: "Get (register_all kvs r) = Get r ++ map_of (rev kvs)"
  unfolding register_all_def by (rule cmds.lookup_fold_put)

lemma Get_New [simp]: "Get New = Map.empty"
  by (simp add: Get_def New_def fun_eq_iff)

lemma Get_map_of: "Get r = map_of (commands r)"
  by (simp add: Get_def fun_eq_iff)

lemma set_Names: "set (Names r) = dom (Get r)"
  by (simp add: Names_def Get_map_of dom_map_of_conv_image_fst)

lemma Names_sorted_distinct: "registry_wf r \<Longrightarrow> sorted (Names r) \<and> distinct (Names r)"
  by (simp add: Names_def registry_wf_def)

lemma pwd_Register [simp]: "pwd (Register n c r) = pwd r"
  by (simp add: Register_def)

lemma commands_Chdir: "commands (snd (Chdir st t r)) = commands r"
  by (auto simp: Chdir_def Let_def split: sum.splits)

section \<open>Path resolution\<close>

lemma Resolve_cases:
  "Resolve r p =
     (let q = path_clean (if path_isAbs p then trimPrefix p ''/'' else path_join [Pwd r, p])
      in if escapes q then ''.'' else q)"
  by (auto simp: Resolve_def Let_def clean_escapes_iff)

lemma dot_not_escapes [simp]: "\<not> escapes ''.''"
  by (simp add: escapes_def)

lemma Resolve_not_escapes [simp]: "\<not> escapes (Resolve r p)"
  by (simp add: Resolve_cases Let_def)

lemma path_clean_dot [simp]: "path_clean ''.'' = ''.''"
  by (simp add: path_clean_def path_isAbs_def clean_comps_def render_path_def)

lemma Resolve_clean [simp]: "path_clean (Resolve r p) = Resolve r p"
  by (simp add: Resolve_cases Let_def)

lemma isAbs_append: "a \<noteq> [] \<Longrightarrow> path_isAbs (a @ b) = path_isAbs a"
  by (cases a) (auto simp: path_isAbs_def)

lemma path_join2: "a \<noteq> [] \<Longrightarrow> path_join [a, b] = path_clean (if b = [] then a else a @ ''/'' @ b)"
  by (simp add: path_join_def)

lemma isAbs_trim: "path_isAbs p \<Longrightarrow> path_isAbs (trimPrefix p ''/'') \<longleftrightarrow> hasPrefix p ''//''"
  by (cases p) (auto simp: path_isAbs_def trimPrefix_def)

lemma Resolve_not_isAbs:
  assumes "pwd r \<noteq> []" and "\<not> path_isAbs (pwd r)" and "\<not> hasPrefix p ''//''"
  shows "\<not> path_isAbs (Resolve r p)"
proof -
  have "\<not> path_isAbs p \<Longrightarrow> \<not> path_isAbs (path_join [pwd r, p])"
    using assms by (simp add: path_join2 isAbs_append)
  moreover have "\<not> path_isAbs ''.''" by (simp add: path_isAbs_def)
  ultimately show ?thesis
    using assms(3) by (auto simp: Resolve_cases Let_def Pwd_def isAbs_trim)
qed

text \<open>A working directory the registry may hold: clean, and inside the root.\<close>

definition pwd_ok :: "string \<Rightarrow> bool" where
  "pwd_ok d \<longleftrightarrow> path_clean d = d \<and> \<not> escapes d"

lemma pwd_ok_Resolve [simp]: "pwd_ok (Resolve r p)"
  by (simp add: pwd_ok_def)

lemma pwd_ok_New [simp]: "pwd_ok (pwd New)"
  by (simp add: pwd_ok_def New_def)

lemma pwd_ok_not_Nil: "pwd_ok d \<Longrightarrow> d \<noteq> []"
  using path_clean_not_Nil [of d] by (auto simp: pwd_ok_def)

text \<open>
  The contract of a resolver that the shell handlers rely on: whatever name the
  interpreter passes, the path handed to the filesystem is clean and stays inside the
  root.
\<close>

locale path_resolver =
  fixes resolve :: "string \<Rightarrow> string"
  assumes resolve_ok: "pwd_ok (resolve p)"
begin

lemma resolve_inside: "\<not> escapes (resolve p)"
  using resolve_ok [of p] by (simp add: pwd_ok_def)

lemma resolve_stable: "path_clean (resolve p) = resolve p"
  using resolve_ok [of p] by (simp add: pwd_ok_def)

lemma resolve_nonempty: "resolve p \<noteq> []"
  using resolve_ok [of p] by (rule pwd_ok_not_Nil)

end

interpretation reg: path_resolver "Resolve r" for r
  by unfold_locales simp

section \<open>Shell sessions\<close>

text \<open>
  A session is a sequence of steps: a call that passes through \<^verbatim>\<open>CallHandler\<close> (with
  whatever filesystem state there is at that moment), or a registration.
\<close>

inductive session_step :: "'s billy \<Rightarrow> 'c registry \<Rightarrow> 'c registry \<Rightarrow> bool" for fsys where
  call: "CallHandler fsys s args reg = (args', out, err, reg') \<Longrightarrow> session_step fsys reg reg'"
| register: "session_step fsys reg (Register name cmd reg)"

inductive session_reach :: "'s billy \<Rightarrow> 'c registry \<Rightarrow> bool" for fsys where
  start: "session_reach fsys New"
| step: "session_reach fsys reg \<Longrightarrow> session_step fsys reg reg' \<Longrightarrow> session_reach fsys reg'"

inductive_simps session_step_iff: "session_step fsys reg reg'"

lemma Chdir_pwd_ok: "pwd_ok (pwd r) \<Longrightarrow> pwd_ok (pwd (snd (Chdir st t r)))"
  by (auto simp: Chdir_def Let_def split: sum.splits)

lemma Chdir_wf: "registry_wf r \<Longrightarrow> registry_wf (snd (Chdir st t r))"
  by (simp add: registry_wf_def commands_Chdir)

lemma CallHandler_reg:
  assumes "CallHandler fsys s args reg = (args', out, err, reg')"
  shows "reg' = reg \<or> (\<exists>t. reg' = snd (Chdir (fs_stat fsys s) t reg))"
  using assms
  by (auto simp: CallHandler_def Let_def split: list.splits if_splits prod.splits option.splits)
     (metis snd_conv)+

lemma session_step_inv:
  assumes "session_step fsys reg reg'" and "pwd_ok (pwd reg)" and "registry_wf reg"
  shows "pwd_ok (pwd reg') \<and> registry_wf reg'"
  using assms(1)
proof (cases rule: session_step.cases)
  case (call s args args' out err)
  with CallHandler_reg [OF call(1)] assms(2,3) show ?thesis
    by (auto simp: Chdir_pwd_ok Chdir_wf)
next
  case (register name cmd)
  with assms(2,3) show ?thesis by simp
qed

lemma session_reach_inv: "session_reach fsys reg \<Longrightarrow> pwd_ok (pwd reg) \<and> registry_wf reg"
  by (induction rule: session_reach.induct) (auto dest: session_step_inv)

section \<open>Properties\<close>

lemma Resolve_slash_pwd:
  assumes "pwd_ok d" and "\<not> path_isAbs d"
  shows "Resolve r (''/'' @ d) = d"
proof -
  have "path_isAbs (''/'' @ d)" "trimPrefix (''/'' @ d) ''/'' = d"
    by (simp_all add: path_isAbs_def trimPrefix_def)
  with assms show ?thesis by (simp add: Resolve_cases Let_def pwd_ok_def)
qed

lemma pwd_ok_comps:
  assumes "pwd_ok d" and "\<not> path_isAbs d"
  obtains cs where "d = render_path False cs" "\<forall>c \<in> set cs. proper_comp c"
proof -
  obtain cs where d: "path_clean d = render_path False cs" and n: "normal_comps False cs"
    using assms(2) by (metis path_clean_cases)
  have "\<not> (cs \<noteq> [] \<and> hd cs = ''..'')"
    using assms(1) d n by (simp add: pwd_ok_def flip: render_escapes)
  with n have "\<forall>c \<in> set cs. proper_comp c"
    by (rule normal_no_dotdot)
  moreover have "d = render_path False cs" using d assms(1) by (simp add: pwd_ok_def)
  ultimately show ?thesis using that by blast
qed

lemma proper_normal: "\<forall>c \<in> set cs. proper_comp c \<Longrightarrow> normal_comps rooted cs"
  unfolding normal_comps_def by (intro exI [of _ 0] exI [of _ cs]) simp

lemma foldl_split_render:
  "\<forall>c \<in> set cs. proper_comp c \<Longrightarrow>
   foldl (clean_step False) [] (splitOn slash (render_path False cs)) = rev cs"
  using split_render [OF proper_normal, of cs False] by (simp add: clean_comps_def rev_swap)

lemma Resolve_rel:
  assumes "pwd r = render_path False cs" and "\<forall>c \<in> set cs. proper_comp c"
    and "q \<noteq> []" and "\<not> path_isAbs q"
  shows "Resolve r q = (let p = render_path False (rev (foldl (clean_step False) (rev cs) (splitOn slash q)))
     in if escapes p then ''.'' else p)"
proof -
  have ne: "pwd r \<noteq> []" and abs: "\<not> path_isAbs (pwd r)"
    using isAbs_render [OF proper_normal [OF assms(2)], of False] assms(1)
      path_clean_render [OF proper_normal [OF assms(2)], of False]
      path_clean_not_Nil [of "pwd r"] by auto
  have "path_join [pwd r, q] = path_clean (pwd r @ slash # q)"
    using ne assms(3) by (simp add: path_join2)
  also have "\<dots> = render_path False (rev (foldl (clean_step False) (rev cs) (splitOn slash q)))"
    using assms(1,2) ne abs
    by (simp add: path_clean_def Let_def isAbs_append clean_comps_def splitOn_append foldl_split_render)
  finally have "path_join [pwd r, q] =
    render_path False (rev (foldl (clean_step False) (rev cs) (splitOn slash q)))" .
  moreover have "path_clean (path_join [pwd r, q]) = path_join [pwd r, q]"
    using ne by (simp add: path_join2)
  ultimately show ?thesis using assms(4) by (simp add: Resolve_cases Pwd_def)
qed

lemma Resolve_child:
  assumes "pwd r = render_path False cs" and "\<forall>c \<in> set cs. proper_comp c" and "proper_comp x"
  shows "Resolve r x = render_path False (cs @ [x])"
proof -
  have x: "x \<noteq> []" "\<not> path_isAbs x" "splitOn slash x = [x]"
    using assms(3) by (auto simp: proper_comp_def path_isAbs_def hasPrefix_iff splitOn_self)
  have "normal_comps False (cs @ [x])" using assms(2,3) by (intro proper_normal) auto
  then have "\<not> escapes (render_path False (cs @ [x]))"
    using assms(2,3) by (cases cs) (auto simp: render_escapes)
  with Resolve_rel [OF assms(1,2) x(1,2)] x(3) assms(3) show ?thesis
    by (simp add: proper_comp_def)
qed

lemma Resolve_parent:
  assumes "pwd r = render_path False (cs @ [x])" and "\<forall>c \<in> set (cs @ [x]). proper_comp c"
  shows "Resolve r ''..'' = render_path False cs"
proof -
  have "\<not> escapes (render_path False cs)"
    using assms(2) by (cases cs) (auto simp: render_escapes proper_normal)
  with Resolve_rel [OF assms, of "''..''"] assms(2) show ?thesis
    by (auto simp: path_isAbs_def proper_comp_def)
qed

lemma Resolve_root: "Resolve r ''/'' = ''.''"
  by (simp add: Resolve_def path_isAbs_def trimPrefix_def path_clean_def clean_comps_def
      render_path_def)

text \<open>C4: In every state a shell session can reach, the working directory is a clean path
  that never climbs above the filesystem root, the command table has no duplicate name and
  Names is its sorted listing.\<close>

theorem session_confined:
  assumes "session_reach fsys reg"
  shows "path_clean (pwd reg) = pwd reg \<and> \<not> escapes (pwd reg) \<and>
    sorted (Names reg) \<and> distinct (Names reg) \<and> set (Names reg) = dom (Get reg)"
  using session_reach_inv [OF assms] Names_sorted_distinct [of reg] set_Names [of reg]
  by (auto simp: pwd_ok_def)

text \<open>A concrete filesystem for witnesses: every path is a directory.\<close>

definition dir_info :: file_info where
  "dir_info = \<lparr>fi_name = ''d'', fi_size = 0, fi_mode = ModeDir, fi_mtime = 0, fi_dev = None\<rparr>"

definition all_dirs :: "unit billy" where
  "all_dirs = \<lparr>fs_stat = (\<lambda>_ _. Inr dir_info), fs_lstat = (\<lambda>_ _. Inr dir_info),
     fs_readdir = (\<lambda>_ _. Inr []), fs_open = (\<lambda>_ _. Inl ErrNotExist),
     fs_readlink = (\<lambda>_ _. Inl ErrNotExist), fs_remove = (\<lambda>s _. (None, s)), fs_symlinks = True\<rparr>"

lemma dir_info_isDir [simp]: "fi_isDir dir_info"
  by (simp add: dir_info_def kefka_defs)

theorem session_confined_witness:
  "\<not> escapes (pwd (snd (Chdir (fs_stat all_dirs ()) ''a/../../b'' (New :: nat registry))))"
proof -
  let ?r = "snd (Chdir (fs_stat all_dirs ()) ''a/../../b'' (New :: nat registry))"
  have "CallHandler all_dirs () [''cd'', ''a/../../b''] (New :: nat registry)
      = (['':''], [], [], ?r)"
    by (simp add: CallHandler_def Chdir_def all_dirs_def Let_def)
  then have "session_reach all_dirs ?r"
    by (blast intro: session_reach.intros session_step.intros)
  then show ?thesis using session_confined by blast
qed

text \<open>From a relative working directory, Resolve maps every shell path that does not
  start with two slashes to a relative, clean path inside the filesystem root.\<close>

theorem Resolve_relative:
  assumes "pwd_ok (pwd r)" and "\<not> path_isAbs (pwd r)" and "\<not> hasPrefix p ''//''"
  shows "\<not> path_isAbs (Resolve r p) \<and> \<not> escapes (Resolve r p) \<and>
    path_clean (Resolve r p) = Resolve r p"
  using assms Resolve_not_isAbs [of r p] by (simp add: pwd_ok_not_Nil)

theorem Resolve_relative_witness:
  "\<not> path_isAbs (Resolve (New :: nat registry) ''../x'')"
proof -
  have "\<not> path_isAbs (pwd (New :: nat registry))" by (simp add: New_def path_isAbs_def)
  from Resolve_relative [OF pwd_ok_New this, of "''../x''"] show ?thesis by simp
qed

text \<open>The path pwd prints leads back to the same directory: changing to it, while it is
  still a directory, succeeds, prints nothing and leaves the registry as it was.\<close>

theorem cd_pwd_roundtrip:
  assumes "pwd_ok (pwd reg)" and "\<not> path_isAbs (pwd reg)"
    and "CallHandler fsys s [''pwd''] reg = (args', printed @ nl, err, reg')"
    and "fs_stat fsys s (pwd reg) = Inr info" and "fi_isDir info"
  shows "CallHandler fsys s [''cd'', printed] reg = (['':''], [], [], reg)"
proof -
  have printed: "printed = (if pwd reg = ''.'' then ''/'' else ''/'' @ pwd reg)"
    using assms(3) by (auto simp: CallHandler_def Pwd_def Let_def split: if_splits)
  then have "Resolve reg printed = pwd reg" and "printed \<noteq> []"
    using assms(1,2) Resolve_slash_pwd [of "pwd reg" reg] by (auto simp: Resolve_root)
  with assms(4,5) show ?thesis by (simp add: CallHandler_def Chdir_def Let_def)
qed

theorem cd_pwd_roundtrip_witness:
  "CallHandler all_dirs () [''cd'', ''/a/b''] \<lparr>commands = [] :: (string \<times> nat) list, pwd = ''a/b''\<rparr>
     = (['':''], [], [], \<lparr>commands = [], pwd = ''a/b''\<rparr>)"
proof -
  let ?r = "\<lparr>commands = [] :: (string \<times> nat) list, pwd = ''a/b''\<rparr>"
  have "pwd_ok (pwd ?r)"
    by (simp add: pwd_ok_def escapes_def path_clean_def path_isAbs_def clean_comps_def render_path_def)
  moreover have "\<not> path_isAbs (pwd ?r)" by (simp add: path_isAbs_def)
  moreover have "CallHandler all_dirs () [''pwd''] ?r = (['':''], ''/a/b'' @ nl, [], ?r)"
    by (simp add: CallHandler_def Pwd_def)
  moreover have "fs_stat all_dirs () (pwd ?r) = Inr dir_info" by (simp add: all_dirs_def)
  ultimately show ?thesis by (rule cd_pwd_roundtrip) simp
qed

text \<open>From a clean relative directory, cd into a child directory and cd .. undo each
  other: both succeed and the registry is as it was, for every child name and every command
  table.\<close>

theorem cd_into_and_back:
  assumes "pwd_ok (pwd r)" and "\<not> path_isAbs (pwd r)" and "proper_comp x"
    and "stat (Resolve r x) = Inr i1" and "fi_isDir i1"
    and "stat (pwd r) = Inr i2" and "fi_isDir i2"
  shows "fst (Chdir stat x r) = None \<and>
    Chdir stat ''..'' (snd (Chdir stat x r)) = (None, r)"
proof -
  obtain cs where cs: "pwd r = render_path False cs" "\<forall>c \<in> set cs. proper_comp c"
    using assms(1,2) by (rule pwd_ok_comps)
  have x: "x \<noteq> []" using assms(3) by (simp add: proper_comp_def)
  have into: "Resolve r x = render_path False (cs @ [x])"
    by (rule Resolve_child) (use cs assms(3) in auto)
  have "Resolve (r\<lparr>pwd := render_path False (cs @ [x])\<rparr>) ''..'' = render_path False cs"
    by (rule Resolve_parent) (use cs assms(3) in auto)
  with assms(4-7) x into cs show ?thesis by (simp add: Chdir_def)
qed

theorem cd_into_and_back_witness:
  "Chdir (fs_stat all_dirs ()) ''..'' (snd (Chdir (fs_stat all_dirs ()) ''x'' (New :: nat registry)))
     = (None, New)"
proof -
  have a: "\<not> path_isAbs (pwd (New :: nat registry))" by (simp add: New_def path_isAbs_def)
  have x: "proper_comp ''x''" by (simp add: proper_comp_def)
  have st: "fs_stat all_dirs () p = Inr dir_info" for p by (simp add: all_dirs_def)
  show ?thesis
    using cd_into_and_back [OF pwd_ok_New a x, of "fs_stat all_dirs ()"] st by simp
qed

definition default_registry :: "impl registry" where
  "default_registry = uutils_Register (wasmprog_Register (coreutils_Register New))"

lemmas registration_defs = default_registry_def uutils_Register_def wasmprog_Register_def
  coreutils_Register_def

lemma default_registry_wf: "registry_wf default_registry"
  by (simp add: registration_defs)

lemma default_names_distinct:
  "distinct (coreutils_names @ [''python'', ''python3'', ''qjs'', ''jo'', ''jq'', ''rg''] @ uutils_names)"
  unfolding coreutils_names_def uutils_names_def by code_simp

lemma map_of_rev_mk:
  "map_of (rev (map (\<lambda>n. (n, f n)) ns)) = (\<lambda>k. if k \<in> set ns then Some (f k) else None)"
  unfolding rev_map map_of_map_restrict by (auto simp: restrict_map_def fun_eq_iff)

lemma Get_default:
  "Get default_registry n =
     (if n \<in> set uutils_names then Some (Uutil n)
      else case map_of [(''rg'', Wasmprog ''rg''), (''jq'', Wasmprog ''jq''), (''jo'', Wasmprog ''jo''),
          (''qjs'', Wasmprog ''qjs''), (''python3'', Wasmprog ''python3''),
          (''python'', Wasmprog ''python3'')] n of
        Some c \<Rightarrow> Some c
      | None \<Rightarrow> if n \<in> set coreutils_names then Some (Coreutil n) else None)"
  unfolding registration_defs Get_register_all map_of_rev_mk
  by (simp add: map_add_def split: option.split)

lemma set_Names_default:
  "set (Names default_registry) =
     set (coreutils_names @ [''python'', ''python3'', ''qjs'', ''jo'', ''jq'', ''rg''] @ uutils_names)"
  unfolding set_Names by (auto simp: Get_default dom_def split: if_splits)

text \<open>The registry that the kefka shell and sophia sessions build gives every command
  its own implementation: no family of commands shadows a name of another, and the sorted
  listing has exactly the registered names.\<close>

theorem default_registry_complete:
  "map (Get default_registry) coreutils_names = map (\<lambda>n. Some (Coreutil n)) coreutils_names \<and>
   map (Get default_registry) uutils_names = map (\<lambda>n. Some (Uutil n)) uutils_names \<and>
   Get default_registry ''python'' = Some (Wasmprog ''python3'') \<and>
   set (Names default_registry) = set coreutils_names \<union> set uutils_names \<union>
     {''python'', ''python3'', ''qjs'', ''jo'', ''jq'', ''rg''} \<and>
   length (Names default_registry) = 103"
proof -
  have "distinct (Names default_registry)"
    using Names_sorted_distinct [OF default_registry_wf] by simp
  then have "length (Names default_registry) = card (set (Names default_registry))"
    by (simp add: distinct_card)
  also have "\<dots> = length (coreutils_names @
      [''python'', ''python3'', ''qjs'', ''jo'', ''jq'', ''rg''] @ uutils_names)"
    unfolding set_Names_default by (rule distinct_card [OF default_names_distinct])
  also have "\<dots> = 103" by (simp add: coreutils_names_def uutils_names_def)
  finally have len: "length (Names default_registry) = 103" .
  have core: "n \<in> set coreutils_names \<Longrightarrow> Get default_registry n = Some (Coreutil n)" for n
    using default_names_distinct by (auto simp: Get_default)
  have py: "''python'' \<notin> set uutils_names" using default_names_distinct by auto
  show ?thesis using len core py by (auto simp: Get_default set_Names_default)
qed

text \<open>
  Only one leading slash is removed from an absolute path, so a path that starts with two
  slashes is not mapped to a path relative to the filesystem root.
\<close>

lemma Resolve_double_slash: "Resolve (New :: nat registry) ''//etc'' = ''/etc''"
  by (simp add: Resolve_def path_isAbs_def trimPrefix_def path_clean_def clean_comps_def
      render_path_def)

end
