(* ===== verification/Find_Printf.thy ===== *)
theory Find_Printf
  imports Go_Fs
begin

unbundle bit_operations_syntax

text \<open>
  \<^verbatim>\<open>-printf\<close> of find (\<^verbatim>\<open>command/internal/find/printf.go\<close>): escapes, the width check made at
  parse time, and the expansion of directives.  A loop over byte positions is a recursion
  on the remaining bytes.  The local time zone is outside the program: \<open>local_time\<close>
  breaks a modification time into the fields the code asks \<^verbatim>\<open>time.Time\<close> for, and
  \<open>lt_ctime\<close> is its rendering in the ctime layout.
\<close>

section \<open>Data\<close>

definition maxFormatBytes :: nat where
  "maxFormatBytes = 10 * 1024 * 1024"

definition errFormatLimit :: string where
  "errFormatLimit = ''format width limit exceeded ('' @ show_nat maxFormatBytes @ '' bytes)''"

record printfData =
  pd_path :: string
  pd_name :: string
  pd_size :: int
  pd_mtime :: int
  pd_mode :: fmode
  pd_isDir :: bool
  pd_depth :: nat
  pd_start :: string

record local_time =
  lt_milli :: int
  lt_year :: int
  lt_month :: nat
  lt_day :: nat
  lt_hour :: nat
  lt_minute :: nat
  lt_second :: nat
  lt_ctime :: string

abbreviation rn :: "char \<Rightarrow> rune" where "rn c \<equiv> byte_val c"

section \<open>Escapes\<close>

definition isHex :: "char \<Rightarrow> bool" where
  "isHex c \<longleftrightarrow> in_range 48 57 (byte_val c) \<or> in_range 97 102 (byte_val c) \<or> in_range 65 70 (byte_val c)"

definition isOct :: "char \<Rightarrow> bool" where
  "isOct c \<longleftrightarrow> in_range 48 55 (byte_val c)"

fun number :: "nat \<Rightarrow> nat \<Rightarrow> string \<Rightarrow> nat" where
  "number b acc [] = acc"
| "number b acc (c # cs) = number b (acc * b + the (digit_val c)) cs"

text \<open>The escapes of one letter that stand for one byte.\<close>

definition simple_escape :: "char \<Rightarrow> nat option" where
  "simple_escape c = map_of
     [(CHR ''n'', 10), (CHR ''t'', 9), (CHR ''r'', 13), (backslash, 92), (CHR ''a'', 7),
      (CHR ''b'', 8), (CHR ''f'', 12), (CHR ''v'', 11), (CHR ''e'', 27), (CHR ''E'', 27)] c"

function (sequential) processEscapes :: "string \<Rightarrow> string" where
  "processEscapes [] = []"
| "processEscapes [c] = [c]"
| "processEscapes (c # nx # r) =
     (if c \<noteq> backslash then c # processEscapes (nx # r)
      else case simple_escape nx of
        Some b \<Rightarrow> char_of b # processEscapes r
      | None \<Rightarrow>
        if isOct nx then
          (let ds = takeWhile isOct (take 3 (nx # r))
           in char_of (number 8 0 ds) # processEscapes (drop (length ds) (nx # r)))
        else if nx = CHR ''x'' then
          (if 2 \<le> length r \<and> isHex (r ! 0) \<and> isHex (r ! 1)
           then char_of (number 16 0 (take 2 r)) # processEscapes (drop 2 r)
           else c # processEscapes (nx # r))
        else if nx = CHR ''u'' \<or> nx = CHR ''U'' then
          (let hs = takeWhile isHex (take (if nx = CHR ''U'' then 8 else 4) r)
           in if hs = [] then c # nx # processEscapes r
              else encodeRune (number 16 0 hs) @ processEscapes (drop (length hs) r))
        else c # processEscapes (nx # r))"
  by pat_completeness auto
termination
  by (relation "measure length")
     (auto simp: less_Suc_eq_le take_Cons' split: if_splits)

section \<open>Width and precision\<close>

fun pw_digits :: "nat \<Rightarrow> string \<Rightarrow> (nat \<times> string) option" where
  "pw_digits n [] = Some (n, [])"
| "pw_digits n (c # cs) =
     (if is_digit c then
        (let n' = n * 10 + (byte_val c - 48)
         in if n' > maxFormatBytes then None else pw_digits n' cs)
      else Some (n, c # cs))"

definition parseWidthPrecision :: "string \<Rightarrow> (int \<times> int \<times> nat) option" where
  "parseWidthPrecision s =
     (let left = hasPrefix s ''-'';
          s1 = (if left then drop 1 s else s)
      in case pw_digits 0 s1 of
           None \<Rightarrow> None
         | Some (w, s2) \<Rightarrow>
             (let width = (if left then - int w else int w)
              in if hasPrefix s2 ''.'' then
                   (case pw_digits 0 (drop 1 s2) of
                      None \<Rightarrow> None
                    | Some (p, s3) \<Rightarrow> Some (width, int p, length s - length s3))
                 else Some (width, -1, length s - length s2)))"

definition applyWidth :: "string \<Rightarrow> int \<Rightarrow> int \<Rightarrow> string" where
  "applyWidth value0 width precision =
     (let value = (if precision \<ge> 0 \<and> int (length (runes value0)) > precision
                   then utf8_string (take (nat precision) (runes value0)) else value0);
          n = int (length (runes value))
      in if \<bar>width\<bar> \<le> n then value
         else let pad = replicate (nat (\<bar>width\<bar> - n)) CHR '' ''
              in if width < 0 then value @ pad else pad @ value)"

section \<open>Directives\<close>

definition formatMode :: "fmode \<Rightarrow> bool \<Rightarrow> string" where
  "formatMode mode isDir =
     (if isDir then CHR ''d'' else CHR ''-'') #
     map (\<lambda>i. if mode_perm mode AND push_bit (8 - i) 1 \<noteq> 0 then ''rwxrwxrwx'' ! i else CHR ''-'') [0..<9]"

definition pad2 :: "nat \<Rightarrow> string" where
  "pad2 n = (if n < 10 then CHR ''0'' # show_nat n else show_nat n)"

definition pad4 :: "int \<Rightarrow> string" where
  "pad4 y = (let ds = show_nat (nat \<bar>y\<bar>)
             in (if y < 0 then ''-'' else []) @ replicate (4 - length ds) CHR ''0'' @ ds)"

text \<open>
  \<^verbatim>\<open>FormatFloat(float64(ms)/1000, 'f', -1, 64)\<close>: the decimal fraction without trailing
  zeros (exact for every time whose milliseconds have at most 15 digits).
\<close>

definition fmt_millis :: "int \<Rightarrow> string" where
  "fmt_millis ms =
     (let a = nat \<bar>ms\<bar>; f = a mod 1000;
          digits = (if f = 0 then [] else CHR ''.'' # trimRightByte
             (replicate (3 - length (show_nat f)) CHR ''0'' @ show_nat f) CHR ''0'')
      in (if ms < 0 then ''-'' else []) @ show_nat (a div 1000) @ digits)"

definition formatTimeField :: "local_time \<Rightarrow> rune \<Rightarrow> string" where
  "formatTimeField t field =
     (if field = rn CHR ''@'' then fmt_millis (lt_milli t)
      else if field = rn CHR ''Y'' then itoa (lt_year t)
      else if field = rn CHR ''m'' then pad2 (lt_month t)
      else if field = rn CHR ''d'' then pad2 (lt_day t)
      else if field = rn CHR ''H'' then pad2 (lt_hour t)
      else if field = rn CHR ''M'' then pad2 (lt_minute t)
      else if field = rn CHR ''S'' then pad2 (lt_second t)
      else if field = rn CHR ''T'' then
        pad2 (lt_hour t) @ '':'' @ pad2 (lt_minute t) @ '':'' @ pad2 (lt_second t)
      else if field = rn CHR ''F'' then
        pad4 (lt_year t) @ ''-'' @ pad2 (lt_month t) @ ''-'' @ pad2 (lt_day t)
      else ''%T'' @ encodeRune field)"

text \<open>The value of a directive other than \<^verbatim>\<open>%T\<close>; \<^const>\<open>None\<close> when it is unknown.\<close>

definition directive_value :: "(int \<Rightarrow> local_time) \<Rightarrow> printfData \<Rightarrow> rune \<Rightarrow> string option" where
  "directive_value lt d directive =
     (if directive = rn CHR ''f'' then Some (pd_name d)
      else if directive = rn CHR ''h'' then
        Some (case lastIndexByte (pd_path d) slash of
                Some idx \<Rightarrow> if idx > 0 then take idx (pd_path d) else ''.''
              | None \<Rightarrow> ''.'')
      else if directive = rn CHR ''p'' then Some (pd_path d)
      else if directive = rn CHR ''P'' then
        (let sp = pd_start d; value = trimPrefix (pd_path d) sp
         in Some (if \<not> hasSuffix sp ''/'' then trimPrefix value ''/'' else value))
      else if directive = rn CHR ''s'' then Some (itoa (pd_size d))
      else if directive = rn CHR ''d'' then Some (itoa (int (pd_depth d)))
      else if directive = rn CHR ''m'' then Some (format_nat 8 (unat (mode_perm (pd_mode d))))
      else if directive = rn CHR ''M'' then Some (formatMode (pd_mode d) (pd_isDir d))
      else if directive = rn CHR ''t'' then Some (lt_ctime (lt (pd_mtime d)))
      else None)"

function (sequential) printf_loop :: "(int \<Rightarrow> local_time) \<Rightarrow> printfData \<Rightarrow> string \<Rightarrow> string" where
  "printf_loop lt d [] = []"
| "printf_loop lt d [c] = [c]"
| "printf_loop lt d (c # c1 # r) =
     (if c \<noteq> CHR ''%'' then c # printf_loop lt d (c1 # r)
      else if c1 = CHR ''%'' then c1 # printf_loop lt d r
      else let (width, precision, consumed) =
                 (case parseWidthPrecision (c1 # r) of None \<Rightarrow> (0, 0, 0) | Some x \<Rightarrow> x);
               s1 = drop consumed (c1 # r)
           in if s1 = [] then ''%''
              else let directive = fst (decodeRune s1); s2 = drop (snd (decodeRune s1)) s1
              in if directive = rn CHR ''T'' then
                   (if s2 = [] then applyWidth ''%T'' width precision @ printf_loop lt d []
                    else applyWidth (formatTimeField (lt (pd_mtime d)) (fst (decodeRune s2)))
                           width precision
                         @ printf_loop lt d (drop (snd (decodeRune s2)) s2))
                 else case directive_value lt d directive of
                   None \<Rightarrow> take (Suc (Suc (length r)) - length s2) (c # c1 # r) @ printf_loop lt d s2
                 | Some v \<Rightarrow> applyWidth v width precision @ printf_loop lt d s2)"
  by pat_completeness auto
termination
  by (relation "measure (\<lambda>(lt, d, s). length s)") auto

definition formatPrintf :: "(int \<Rightarrow> local_time) \<Rightarrow> string \<Rightarrow> printfData \<Rightarrow> string" where
  "formatPrintf lt format d = printf_loop lt d (processEscapes format)"

text \<open>\<open>checkPrintf\<close> returns the error message, or \<^const>\<open>None\<close>.\<close>

function (sequential) check_loop :: "string \<Rightarrow> string option" where
  "check_loop [] = None"
| "check_loop [c] = None"
| "check_loop (c # c1 # r) =
     (if c \<noteq> CHR ''%'' then check_loop (c1 # r)
      else if c1 = CHR ''%'' then check_loop r
      else case parseWidthPrecision (c1 # r) of
        None \<Rightarrow> Some errFormatLimit
      | Some (width, precision, consumed) \<Rightarrow>
          (let s1 = drop consumed (c1 # r)
           in if s1 = [] then None
              else let directive = fst (decodeRune s1); s2 = drop (snd (decodeRune s1)) s1
              in if directive = rn CHR ''T'' \<and> s2 \<noteq> []
                 then check_loop (drop (snd (decodeRune s2)) s2)
                 else check_loop s2))"
  by pat_completeness auto
termination
  by (relation "measure length") auto

definition checkPrintf :: "string \<Rightarrow> string option" where
  "checkPrintf format = check_loop (processEscapes format)"

section \<open>Properties\<close>

lemma spaces_ascii: "\<forall>c \<in> set (replicate n CHR '' ''). byte_val c < 0x80"
  by simp

text \<open>\<open>applyWidth\<close> truncates to the precision and pads to the width, counted in runes: its result has max(|width|, min(precision, n)) runes for a value of n runes, whatever bytes the value has.\<close>

theorem applyWidth_runes:
  "length (runes (applyWidth v w p)) =
     max (nat \<bar>w\<bar>) (if 0 \<le> p then min (nat p) (length (runes v)) else length (runes v))"
  by (auto simp: applyWidth_def Let_def runes_append_ascii[OF spaces_ascii]
        runes_ascii_append[OF spaces_ascii])

text \<open>A directive as a user writes it: a flag for left justification, a width, a precision.\<close>

definition spec_text :: "bool \<Rightarrow> nat option \<Rightarrow> nat option \<Rightarrow> string" where
  "spec_text left w p =
     (if left then ''-'' else []) @ (case w of None \<Rightarrow> [] | Some n \<Rightarrow> show_nat n)
       @ (case p of None \<Rightarrow> [] | Some n \<Rightarrow> CHR ''.'' # show_nat n)"

definition spec_stop :: "char \<Rightarrow> bool" where
  "spec_stop c \<longleftrightarrow> \<not> is_digit c \<and> c \<noteq> CHR ''.'' \<and> c \<noteq> CHR ''-''"

lemma pw_digits_eq:
  assumes "\<forall>c \<in> set ds. is_digit c" and "s = [] \<or> \<not> is_digit (hd s)" and "n \<le> maxFormatBytes"
  shows "pw_digits n (ds @ s) =
    (if dec_value n ds \<le> maxFormatBytes then Some (dec_value n ds, s) else None)"
  using assms
proof (induction ds arbitrary: n)
  case Nil
  then show ?case by (cases s) auto
next
  case (Cons c ds)
  then show ?case
    using dec_value_mono[of "n * 10 + (byte_val c - 48)" ds]
    by (cases "n * 10 + (byte_val c - 48) \<le> maxFormatBytes") (auto simp: Let_def)
qed

lemma pw_digits_show:
  "s = [] \<or> \<not> is_digit (hd s) \<Longrightarrow>
   pw_digits 0 (show_nat n @ s) = (if n \<le> maxFormatBytes then Some (n, s) else None)"
  by (simp add: pw_digits_eq format_nat_digits dec_value_show)

lemma pw_digits_none: "s = [] \<or> \<not> is_digit (hd s) \<Longrightarrow> pw_digits 0 s = Some (0, s)"
  by (cases s) auto

definition opt_le :: "nat option \<Rightarrow> bool" where
  "opt_le w \<longleftrightarrow> (case w of None \<Rightarrow> True | Some n \<Rightarrow> n \<le> maxFormatBytes)"

definition signed_width :: "bool \<Rightarrow> nat option \<Rightarrow> int" where
  "signed_width left w = (let n = int (case w of None \<Rightarrow> 0 | Some n \<Rightarrow> n) in if left then - n else n)"

definition int_prec :: "nat option \<Rightarrow> int" where
  "int_prec p = (case p of None \<Rightarrow> -1 | Some n \<Rightarrow> int n)"

lemma opt_width_digits:
  "spec_stop c \<Longrightarrow>
   pw_digits 0 ((case w of None \<Rightarrow> [] | Some n \<Rightarrow> show_nat n)
       @ (case p of None \<Rightarrow> [] | Some n \<Rightarrow> CHR ''.'' # show_nat n) @ c # r) =
     (if opt_le w
      then Some (case w of None \<Rightarrow> 0 | Some n \<Rightarrow> n, (case p of None \<Rightarrow> [] | Some n \<Rightarrow> CHR ''.'' # show_nat n) @ c # r)
      else None)"
  by (cases w; cases p)
     (auto simp: opt_le_def pw_digits_none pw_digits_show spec_stop_def is_digit_def[of "CHR ''.''"])

lemma opt_width_no_dash:
  "spec_stop c \<Longrightarrow>
   \<not> hasPrefix ((case w of None \<Rightarrow> [] | Some n \<Rightarrow> show_nat n)
       @ (case p of None \<Rightarrow> [] | Some n \<Rightarrow> CHR ''.'' # show_nat n) @ c # r) ''-''"
  using show_nat_no_sign
  by (cases w; cases p) (auto simp: spec_stop_def hasPrefix_iff append_eq_Cons_conv)

lemma parseWidthPrecision_spec:
  assumes "spec_stop c"
  shows "parseWidthPrecision (spec_text left w p @ c # r) =
    (if opt_le w \<and> opt_le p
     then Some (signed_width left w, int_prec p, length (spec_text left w p)) else None)"
proof -
  let ?P = "case p of None \<Rightarrow> [] | Some n \<Rightarrow> CHR ''.'' # show_nat n"
  let ?W = "case w of None \<Rightarrow> [] | Some n \<Rightarrow> show_nat n"
  let ?s = "spec_text left w p @ c # r"
  have left: "hasPrefix ?s ''-'' = left"
    using opt_width_no_dash[OF assms, of w p r] by (simp add: spec_text_def)
  have rest: "(if left then drop 1 ?s else ?s) = ?W @ ?P @ c # r"
    by (simp add: spec_text_def)
  have digits: "pw_digits 0 (case p of None \<Rightarrow> c # r | Some n \<Rightarrow> show_nat n @ c # r) =
      (if p = None then Some (0, c # r) else if opt_le p then Some (the p, c # r) else None)"
    using assms by (cases p) (auto simp: opt_le_def pw_digits_show pw_digits_none spec_stop_def)
  show ?thesis
    unfolding parseWidthPrecision_def left Let_def rest opt_width_digits[OF assms]
    using assms digits
    by (cases p) (auto simp: spec_stop_def signed_width_def int_prec_def spec_text_def opt_le_def)
qed

lemma processEscapes_Cons: "c \<noteq> backslash \<Longrightarrow> processEscapes (c # s) = c # processEscapes s"
  by (cases s) auto

lemma processEscapes_plain: "backslash \<notin> set a \<Longrightarrow> processEscapes (a @ s) = a @ processEscapes s"
  by (induction a) (auto simp: processEscapes_Cons)

lemma printf_loop_plain: "CHR ''%'' \<notin> set a \<Longrightarrow> printf_loop lt d (a @ s) = a @ printf_loop lt d s"
proof (induction a)
  case (Cons c a)
  then show ?case by (cases "a @ s") auto
qed simp

lemma check_loop_plain: "CHR ''%'' \<notin> set a \<Longrightarrow> check_loop (a @ s) = check_loop s"
proof (induction a)
  case (Cons c a)
  then show ?case by (cases "a @ s") auto
qed simp

lemma spec_text_chars: "x \<in> set (spec_text left w p) \<Longrightarrow> is_digit x \<or> x = CHR ''-'' \<or> x = CHR ''.''"
  using format_nat_digits by (auto simp: spec_text_def split: option.splits if_splits)

lemma spec_text_plain: "backslash \<notin> set (spec_text left w p)" "CHR ''%'' \<notin> set (spec_text left w p)"
  using spec_text_chars by (fastforce simp: is_digit_def)+

definition plain_directive :: "char \<Rightarrow> bool" where
  "plain_directive c \<longleftrightarrow> spec_stop c \<and> c \<noteq> backslash \<and> c \<noteq> CHR ''%'' \<and> c \<noteq> CHR ''T'' \<and> byte_val c < 0x80"

lemma decodeRune_ascii: "byte_val c < 0x80 \<Longrightarrow> decodeRune (c # s) = (byte_val c, 1)"
  by (simp add: decodeRune_def decode_bytes_def)

lemma spec_front:
  assumes "plain_directive c"
  obtains c1 r1 where "spec_text left w p @ c # r = c1 # r1" and "c1 \<noteq> CHR ''%''"
proof (cases "spec_text left w p")
  case Nil
  then show ?thesis using that assms by (auto simp: plain_directive_def)
next
  case (Cons x xs)
  then show ?thesis using that spec_text_plain(2)[of left w p] by auto
qed

lemma directive_T: "rn c = rn CHR ''T'' \<longleftrightarrow> c = CHR ''T''"
  by (rule of_char_eq_iff)

lemma printf_loop_spec:
  assumes c: "plain_directive c" and le: "opt_le w" "opt_le p" and v: "directive_value lt d (rn c) = Some v"
  shows "printf_loop lt d (CHR ''%'' # spec_text left w p @ c # s) =
    applyWidth v (signed_width left w) (int_prec p) @ printf_loop lt d s"
proof -
  obtain c1 r1 where f: "spec_text left w p @ c # s = c1 # r1" "c1 \<noteq> CHR ''%''"
    using spec_front[OF c] by blast
  have stop: "spec_stop c" and T: "\<not> rn c = rn CHR ''T''"
    using c directive_T[of c] unfolding plain_directive_def by blast+
  have "parseWidthPrecision (c1 # r1) = Some (signed_width left w, int_prec p, length (spec_text left w p))"
    using parseWidthPrecision_spec[OF stop] le f by metis
  moreover have "drop (length (spec_text left w p)) (c1 # r1) = c # s"
    using f by (metis append_eq_conv_conj)
  moreover have "length (spec_text left w p) < Suc (length r1)"
    using arg_cong[OF f(1), of length] by simp
  moreover have "decodeRune (c # s) = (rn c, 1)"
    using c by (simp add: plain_directive_def decodeRune_ascii)
  ultimately show ?thesis
    unfolding f(1) using f(2) v T by (simp add: Let_def del: of_char_eq_iff)
qed

lemma check_loop_spec:
  assumes c: "plain_directive c"
  shows "check_loop (CHR ''%'' # spec_text left w p @ c # s) =
    (if opt_le w \<and> opt_le p then check_loop s else Some errFormatLimit)"
proof -
  obtain c1 r1 where f: "spec_text left w p @ c # s = c1 # r1" "c1 \<noteq> CHR ''%''"
    using spec_front[OF c] by blast
  have stop: "spec_stop c" and T: "\<not> rn c = rn CHR ''T''"
    using c directive_T[of c] unfolding plain_directive_def by blast+
  have "parseWidthPrecision (c1 # r1) = (if opt_le w \<and> opt_le p
      then Some (signed_width left w, int_prec p, length (spec_text left w p)) else None)"
    using parseWidthPrecision_spec[OF stop] f by metis
  moreover have "drop (length (spec_text left w p)) (c1 # r1) = c # s"
    using f by (metis append_eq_conv_conj)
  moreover have "length (spec_text left w p) < Suc (length r1)"
    using arg_cong[OF f(1), of length] by simp
  moreover have "decodeRune (c # s) = (rn c, 1)"
    using c by (simp add: plain_directive_def decodeRune_ascii)
  ultimately show ?thesis
    unfolding f(1) using f(2) T by (simp add: Let_def del: of_char_eq_iff)
qed

lemma directive_plain: "directive_value lt d (rn c) = Some v \<Longrightarrow> plain_directive c"
  by (auto simp: directive_value_def plain_directive_def spec_stop_def is_digit_def split: if_splits)

text \<open>A directive written with an optional minus, width and precision prints its value through \<open>applyWidth\<close> with exactly that width and precision, between the literal text before it and the expansion of the rest.\<close>

theorem formatPrintf_directive:
  assumes lit: "backslash \<notin> set lit" "CHR ''%'' \<notin> set lit"
    and le: "opt_le w" "opt_le p"
    and v: "directive_value lt d (rn c) = Some v"
  shows "formatPrintf lt (lit @ ''%'' @ spec_text left w p @ c # rest) d =
    lit @ applyWidth v (signed_width left w) (int_prec p) @ formatPrintf lt rest d"
proof -
  have c: "plain_directive c" by (rule directive_plain[OF v])
  then have "processEscapes (lit @ ''%'' @ spec_text left w p @ c # rest) =
      lit @ CHR ''%'' # spec_text left w p @ c # processEscapes rest"
    using lit(1) spec_text_plain(1)
    by (simp add: processEscapes_plain processEscapes_Cons plain_directive_def)
  then show ?thesis
    using printf_loop_plain[OF lit(2)] printf_loop_spec[OF c le v] by (simp add: formatPrintf_def)
qed

definition printf_demo :: printfData where
  "printf_demo = \<lparr>pd_path = ''src/main.go'', pd_name = ''main.go'', pd_size = 42, pd_mtime = 0,
     pd_mode = 0x1A4, pd_isDir = False, pd_depth = 1, pd_start = ''src''\<rparr>"

theorem formatPrintf_directive_witness:
  "formatPrintf (\<lambda>_. undefined) (''<'' @ ''%'' @ spec_text True (Some 9) None @ CHR ''f'' # ''>'') printf_demo
     = ''<'' @ applyWidth ''main.go'' (-9) (-1) @ formatPrintf (\<lambda>_. undefined) ''>'' printf_demo
   \<and> applyWidth ''main.go'' (-9) (-1) = ''main.go  ''"
proof -
  have "opt_le (Some 9)" "opt_le None" by (simp_all add: opt_le_def maxFormatBytes_def)
  moreover have "directive_value (\<lambda>_. undefined) printf_demo (rn CHR ''f'') = Some ''main.go''"
    by (simp add: directive_value_def printf_demo_def)
  moreover have "applyWidth ''main.go'' (-9) (-1) = ''main.go  ''"
    by (simp add: applyWidth_def ascii_runes numeral_eq_Suc)
  ultimately show ?thesis
    using formatPrintf_directive[of "''<''" "Some 9" None "\<lambda>_. undefined" printf_demo
        "CHR ''f''" "''main.go''" True "''>''"]
    by (simp add: signed_width_def int_prec_def)
qed

text \<open>\<open>checkPrintf\<close> accepts such a format exactly when the width and the precision stay within \<open>maxFormatBytes\<close> and the rest of the format is accepted.\<close>

theorem checkPrintf_limit:
  assumes lit: "backslash \<notin> set lit" "CHR ''%'' \<notin> set lit" and c: "plain_directive c"
  shows "checkPrintf (lit @ ''%'' @ spec_text left w p @ c # rest) =
    (if opt_le w \<and> opt_le p then checkPrintf rest else Some errFormatLimit)"
proof -
  have "processEscapes (lit @ ''%'' @ spec_text left w p @ c # rest) =
      lit @ CHR ''%'' # spec_text left w p @ c # processEscapes rest"
    using lit(1) spec_text_plain(1) c
    by (simp add: processEscapes_plain processEscapes_Cons plain_directive_def)
  then show ?thesis
    using check_loop_plain[OF lit(2)] check_loop_spec[OF c] by (simp add: checkPrintf_def)
qed

theorem checkPrintf_limit_witness:
  "checkPrintf (''a'' @ ''%'' @ spec_text False (Some 999999999) None @ CHR ''f'' # []) = Some errFormatLimit"
  using checkPrintf_limit[of "''a''" "CHR ''f''" False "Some 999999999" None "[]"]
  by (simp add: opt_le_def maxFormatBytes_def plain_directive_def spec_stop_def is_digit_def)

end
