(* ===== verification/Find_Parser.thy ===== *)
theory Find_Parser
  imports Find_Printf
begin

text \<open>
  The expression parser of find (\<^verbatim>\<open>command/internal/find/parser.go\<close>): predicates and their
  operands, then a recursive descent over the tokens.  Go's \<^verbatim>\<open>regexp\<close> engine is a
  parameter: \<open>valid\<close> says whether \<^verbatim>\<open>regexp.Compile\<close> accepts a source, and a compiled
  expression is represented by the source it was compiled from.  A pointer to an action is
  its field \<open>act_id\<close>, the number of arguments left when it was parsed, which no two
  actions of one command line share.
\<close>

section \<open>Data\<close>

definition maxSafeInteger :: int where
  "maxSafeInteger = 2 ^ 53 - 1"

datatype comparison = cmpExact | cmpMore | cmpLess

datatype permMatch = permExact | permAll | permAny

datatype actionKind = actPrint | actPrint0 | actPrintf | actDelete | actExec

record action =
  act_id :: nat
  act_kind :: actionKind
  act_format :: string
  act_command :: "string list"
  act_batch :: bool

definition plain_action :: "nat \<Rightarrow> actionKind \<Rightarrow> action" where
  "plain_action i k = \<lparr>act_id = i, act_kind = k, act_format = [], act_command = [], act_batch = False\<rparr>"

datatype expr =
    exprName string bool
  | exprPath string bool
  | exprRegex string bool string
  | exprType char
  | exprEmpty
  | exprMtime comparison int
  | exprNewer string
  | exprSize comparison int char
  | exprPerm permMatch int
  | exprPrune
  | exprTrue
  | exprAction action
  | exprNot expr
  | exprAnd expr expr
  | exprOr expr expr

record options =
  o_expr :: "expr option"
  maxDepth :: int
  minDepth :: int
  depthFirst :: bool
  xdev :: bool
  o_help :: bool

datatype token = tokExpr expr | tokAnd | tokOr | tokNot | tokLParen | tokRParen

section \<open>Operands\<close>

definition compileRegex :: "(string \<Rightarrow> bool) \<Rightarrow> string \<Rightarrow> bool \<Rightarrow> string option" where
  "compileRegex valid pattern ignoreCase =
     (if \<not> valid pattern then None
      else let src = (if ignoreCase then ''(?i)'' else []) @ ''^(?:'' @ pattern @ '')$''
           in if valid src then Some src else None)"

definition splitComparison :: "string \<Rightarrow> comparison \<times> string" where
  "splitComparison raw =
     (if raw \<noteq> [] \<and> hd raw = CHR ''+'' then (cmpMore, tl raw)
      else if raw \<noteq> [] \<and> hd raw = CHR ''-'' then (cmpLess, tl raw)
      else (cmpExact, raw))"

definition parseSafeUint :: "string \<Rightarrow> int option" where
  "parseSafeUint s =
     (if s = [] then None
      else if \<exists>c \<in> set s. \<not> is_digit c then None
      else case parseInt s 10 64 of
        None \<Rightarrow> None
      | Some n \<Rightarrow> if n > maxSafeInteger then None else Some n)"

definition sizeMultiplier :: "char \<Rightarrow> int" where
  "sizeMultiplier unit =
     (if unit = CHR ''c'' then 1
      else if unit = CHR ''k'' then 1024
      else if unit = CHR ''M'' then 1024 * 1024
      else if unit = CHR ''G'' then 1024 * 1024 * 1024
      else 512)"

definition size_unit :: "string \<Rightarrow> char \<times> string" where
  "size_unit rest =
     (if rest \<noteq> [] \<and> last rest \<in> set ''ckMGb'' then (last rest, butlast rest) else (CHR ''b'', rest))"

definition parseSize :: "string \<Rightarrow> expr option" where
  "parseSize raw =
     (let (cmp, rest) = splitComparison raw; (unit, digits) = size_unit rest
      in case parseSafeUint digits of
           None \<Rightarrow> None
         | Some n \<Rightarrow>
             if n > maxSafeInteger div sizeMultiplier unit then None
             else Some (exprSize cmp n unit))"

definition parsePerm :: "string \<Rightarrow> expr option" where
  "parsePerm raw =
     (let (match, digits) =
            (if raw \<noteq> [] \<and> hd raw = CHR ''-'' then (permAll, tl raw)
             else if raw \<noteq> [] \<and> hd raw = CHR ''/'' then (permAny, tl raw)
             else (permExact, raw))
      in if length digits < 1 \<or> length digits > 4 then None
         else if \<exists>c \<in> set digits. \<not> isOct c then None
         else case parseInt digits 8 64 of
           None \<Rightarrow> None
         | Some mode \<Rightarrow> Some (exprPerm match mode))"

definition countBraces :: "string list \<Rightarrow> nat" where
  "countBraces parts = length (filter (\<lambda>p. p = ''{}'') parts)"

text \<open>
  The scan of a \<^verbatim>\<open>-exec\<close> command up to its terminator: the command, whether it ended with
  a batch \<^verbatim>\<open>+\<close>, and the arguments after it.  \<^const>\<open>None\<close> when no terminator follows.
\<close>

fun exec_scan :: "string list \<Rightarrow> string list \<Rightarrow> (string list \<times> bool \<times> string list) option" where
  "exec_scan command [] = None"
| "exec_scan command (a # as) =
     (if a = '';'' then Some (command, False, as)
      else if a = ''+'' \<and> command \<noteq> [] \<and> last command = ''{}'' then Some (command, True, as)
      else exec_scan (command @ [a]) as)"

section \<open>Arguments\<close>

definition missingArgument :: "string \<Rightarrow> string" where
  "missingArgument pred = ''find: missing argument to '' @ [backquote] @ pred @ [squote, newline]"

definition invalidArgument :: "string \<Rightarrow> string \<Rightarrow> string" where
  "invalidArgument pred val =
     ''find: invalid argument '' @ [backquote] @ val @ [squote] @ '' to '' @ [backquote] @ pred @ [squote, newline]"

datatype arg_step =
    ArgErr string
  | ArgHelp options
  | ArgNext options "token list" "string list"

text \<open>A predicate with one operand: \<open>f\<close> gives the message or the expression of the operand.\<close>

definition with_operand ::
  "string \<Rightarrow> string list \<Rightarrow> (string \<Rightarrow> string list \<Rightarrow> arg_step) \<Rightarrow> arg_step" where
  "with_operand arg rest f = (case rest of [] \<Rightarrow> ArgErr (missingArgument arg) | v # rest' \<Rightarrow> f v rest')"

definition parse_depth :: "options \<Rightarrow> string \<Rightarrow> string \<Rightarrow> options option" where
  "parse_depth opts arg raw =
     (case parseSafeUint raw of
        None \<Rightarrow> None
      | Some depth \<Rightarrow>
          if depth > 2 ^ 63 - 1 then None
          else Some (if arg = ''-maxdepth'' then opts\<lparr>maxDepth := depth\<rparr> else opts\<lparr>minDepth := depth\<rparr>))"

definition parse_exec :: "options \<Rightarrow> token list \<Rightarrow> string list \<Rightarrow> arg_step" where
  "parse_exec opts toks rest =
     (case exec_scan [] rest of
        None \<Rightarrow> ArgErr (missingArgument ''-exec'')
      | Some (command, batch, rest') \<Rightarrow>
          if command = [] then ArgErr (missingArgument ''-exec'')
          else if batch \<and> countBraces command \<noteq> 1 then ArgErr (invalidArgument ''-exec'' ''+'')
          else ArgNext opts
            (toks @ [tokExpr (exprAction \<lparr>act_id = length rest, act_kind = actExec, act_format = [],
                        act_command = command, act_batch = batch\<rparr>)]) rest')"

text \<open>One round of the argument loop; \<open>rest\<close> are the arguments after \<open>arg\<close>.\<close>

definition parse_arg ::
  "(string \<Rightarrow> bool) \<Rightarrow> options \<Rightarrow> token list \<Rightarrow> string \<Rightarrow> string list \<Rightarrow> arg_step" where
  "parse_arg valid opts toks arg rest =
     (let tok = (\<lambda>t. ArgNext opts (toks @ [t]) rest);
          push = (\<lambda>e. tok (tokExpr e));
          pushv = (\<lambda>e r. ArgNext opts (toks @ [tokExpr e]) r);
          pushm = (\<lambda>raw oe r. case oe of None \<Rightarrow> ArgErr (invalidArgument arg raw) | Some e \<Rightarrow> pushv e r)
      in if arg = ''('' \<or> arg = backslash # ''('' then tok tokLParen
      else if arg = '')'' \<or> arg = backslash # '')'' then tok tokRParen
      else if arg = ''--help'' then ArgHelp (opts\<lparr>o_help := True\<rparr>)
      else if arg = ''-name'' \<or> arg = ''-iname'' \<or> arg = ''-path'' \<or> arg = ''-ipath'' then
        with_operand arg rest (\<lambda>v. pushv
          ((if arg = ''-path'' \<or> arg = ''-ipath'' then exprPath else exprName) v (arg ! 1 = CHR ''i'')))
      else if arg = ''-regex'' \<or> arg = ''-iregex'' then
        with_operand arg rest (\<lambda>pattern. let ignoreCase = (arg = ''-iregex'')
          in pushm pattern (map_option (exprRegex pattern ignoreCase) (compileRegex valid pattern ignoreCase)))
      else if arg = ''-type'' then
        with_operand arg rest (\<lambda>fileType r.
          if length fileType \<noteq> 1 \<or> \<not> strContains ''bcdflps'' fileType
          then ArgErr (''find: Unknown argument to -type: '' @ fileType @ nl)
          else pushv (exprType (fileType ! 0)) r)
      else if arg = ''-empty'' then push exprEmpty
      else if arg = ''-mtime'' then
        with_operand arg rest (\<lambda>raw. let (cmp, digits) = splitComparison raw
          in pushm raw (map_option (exprMtime cmp) (parseSafeUint digits)))
      else if arg = ''-newer'' then with_operand arg rest (\<lambda>v. pushv (exprNewer v))
      else if arg = ''-size'' then with_operand arg rest (\<lambda>raw. pushm raw (parseSize raw))
      else if arg = ''-perm'' then with_operand arg rest (\<lambda>raw. pushm raw (parsePerm raw))
      else if arg = ''-prune'' then push exprPrune
      else if arg = ''-xdev'' then ArgNext (opts\<lparr>xdev := True\<rparr>) (toks @ [tokExpr exprTrue]) rest
      else if arg = ''-not'' \<or> arg = ''!'' then tok tokNot
      else if arg = ''-o'' \<or> arg = ''-or'' then tok tokOr
      else if arg = ''-a'' \<or> arg = ''-and'' then tok tokAnd
      else if arg = ''-maxdepth'' \<or> arg = ''-mindepth'' then
        with_operand arg rest (\<lambda>raw r. case parse_depth opts arg raw of
            None \<Rightarrow> ArgErr (invalidArgument arg raw)
          | Some opts' \<Rightarrow> ArgNext opts' toks r)
      else if arg = ''-depth'' then ArgNext (opts\<lparr>depthFirst := True\<rparr>) toks rest
      else if arg = ''-exec'' then parse_exec opts toks rest
      else if arg = ''-print'' then push (exprAction (plain_action (length rest) actPrint))
      else if arg = ''-print0'' then push (exprAction (plain_action (length rest) actPrint0))
      else if arg = ''-printf'' then
        with_operand arg rest (\<lambda>format r. case checkPrintf format of
            Some err \<Rightarrow> ArgErr (''find: '' @ err @ nl)
          | None \<Rightarrow> pushv (exprAction ((plain_action (length rest) actPrintf)\<lparr>act_format := format\<rparr>)) r)
      else if arg = ''-delete'' then push (exprAction (plain_action (length rest) actDelete))
      else if arg \<noteq> [] \<and> arg ! 0 = CHR ''-'' then
        ArgErr (''find: unknown predicate '' @ [squote] @ arg @ [squote, newline])
      else ArgErr (''find: paths must precede expression: '' @ [backquote] @ arg @ [squote, newline]))"

text \<open>Every round leaves at most the arguments after its own, so the loop ends.\<close>

lemma exec_scan_shorter: "exec_scan c as = Some (cmd, b, r) \<Longrightarrow> length r < length as"
  by (induction c as rule: exec_scan.induct) (auto split: if_splits)

definition leaves_at_most :: "nat \<Rightarrow> arg_step \<Rightarrow> bool" where
  "leaves_at_most n st \<longleftrightarrow> (case st of ArgNext _ _ r \<Rightarrow> length r \<le> n | _ \<Rightarrow> True)"

lemma leaves_simps:
  "leaves_at_most n (ArgErr m)" "leaves_at_most n (ArgHelp o')"
  "length r \<le> n \<Longrightarrow> leaves_at_most n (ArgNext o' t r)"
  by (auto simp: leaves_at_most_def)

lemma leaves_if: "leaves_at_most n a \<Longrightarrow> leaves_at_most n b \<Longrightarrow> leaves_at_most n (if c then a else b)"
  by simp

lemma leaves_option:
  "leaves_at_most n a \<Longrightarrow> (\<And>x. leaves_at_most n (f x)) \<Longrightarrow>
   leaves_at_most n (case v of None \<Rightarrow> a | Some x \<Rightarrow> f x)"
  by (cases v) auto

lemma leaves_operand:
  "(\<And>v r. length r \<le> length rest \<Longrightarrow> leaves_at_most (length rest) (f v r)) \<Longrightarrow>
   leaves_at_most (length rest) (with_operand arg rest f)"
  by (auto simp: with_operand_def leaves_simps split: list.splits)

lemma leaves_pair: "(\<And>a b. leaves_at_most n (f a b r)) \<Longrightarrow> leaves_at_most n ((case x of (a, b) \<Rightarrow> f a b) r)"
  by (cases x) auto

lemma leaves_exec: "leaves_at_most (length rest) (parse_exec opts toks rest)"
  by (auto simp: parse_exec_def leaves_simps dest: exec_scan_shorter split: option.split)

lemma parse_arg_leaves: "leaves_at_most (length rest) (parse_arg valid opts toks arg rest)"
  unfolding parse_arg_def Let_def
  by (intro leaves_if leaves_option leaves_operand leaves_pair leaves_exec leaves_simps order_refl)

lemma parse_arg_shorter: "parse_arg valid opts toks arg rest = ArgNext o' t' r \<Longrightarrow> length r \<le> length rest"
  using parse_arg_leaves[of rest valid opts toks arg] by (simp add: leaves_at_most_def)

function (sequential) parse_loop ::
  "(string \<Rightarrow> bool) \<Rightarrow> options \<Rightarrow> token list \<Rightarrow> string list \<Rightarrow> arg_step" where
  "parse_loop valid opts toks [] = ArgNext opts toks []"
| "parse_loop valid opts toks (arg # rest) =
     (case parse_arg valid opts toks arg rest of
        ArgNext opts' toks' rest' \<Rightarrow> parse_loop valid opts' toks' rest'
      | stop \<Rightarrow> stop)"
  by pat_completeness auto
termination
  by (relation "measure (\<lambda>(v, o', t, as). length as)") (auto dest: parse_arg_shorter)

section \<open>The expression tree\<close>

text \<open>
  The closures of \<open>buildExpressionTree\<close> share the position and the error message; here they
  take and return the tokens left and the message, with an expression or nil.  The outer
  \<^const>\<open>None\<close> is the exhaustion of the fuel, which never happens with the fuel
  \<open>buildExpressionTree\<close> gives.
\<close>

type_synonym parse_result = "(expr option \<times> token list \<times> string) option"

definition after_o :: string where
  "after_o = ''find: expected an expression after '' @ [backquote] @ ''-o'' @ [squote, newline]"
definition after_a :: string where
  "after_a = ''find: expected an expression after '' @ [backquote] @ ''-a'' @ [squote, newline]"
definition after_not :: string where
  "after_not = ''find: expected an expression after '' @ [backquote] @ ''!'' @ [squote, newline]"
definition missing_paren :: string where
  "missing_paren = ''find: missing closing '' @ [backquote] @ '')'' @ [squote, newline]"
definition unexpected_paren :: string where
  "unexpected_paren = ''find: unexpected '' @ [backquote] @ '')'' @ [squote, newline]"
definition invalid_expression :: string where
  "invalid_expression = ''find: invalid expression'' @ nl"
definition negated_delete :: string where
  "negated_delete = ''find: refusing to evaluate '' @ [backquote] @ ''-delete'' @ [squote] @ '' under negation'' @ nl"

function (sequential) parseOr :: "nat \<Rightarrow> token list \<Rightarrow> string \<Rightarrow> parse_result"
and parseOr_loop :: "nat \<Rightarrow> expr \<Rightarrow> token list \<Rightarrow> string \<Rightarrow> parse_result"
and parseAnd :: "nat \<Rightarrow> token list \<Rightarrow> string \<Rightarrow> parse_result"
and parseAnd_loop :: "nat \<Rightarrow> expr \<Rightarrow> token list \<Rightarrow> string \<Rightarrow> parse_result"
and parseNot :: "nat \<Rightarrow> token list \<Rightarrow> string \<Rightarrow> parse_result"
and parsePrimary :: "nat \<Rightarrow> token list \<Rightarrow> string \<Rightarrow> parse_result" where
  "parseOr 0 s e = None"
| "parseOr (Suc n) s e =
     (case parseAnd n s e of
        None \<Rightarrow> None
      | Some (None, s', e') \<Rightarrow> Some (None, s', e')
      | Some (Some left, s', e') \<Rightarrow> parseOr_loop n left s' e')"
| "parseOr_loop 0 left s e = None"
| "parseOr_loop (Suc n) left s e =
     (case s of
        tokOr # s1 \<Rightarrow>
          (case parseAnd n s1 e of
             None \<Rightarrow> None
           | Some (None, s', e') \<Rightarrow> Some (None, s', after_o)
           | Some (Some right, s', e') \<Rightarrow> parseOr_loop n (exprOr left right) s' e')
      | _ \<Rightarrow> Some (Some left, s, e))"
| "parseAnd 0 s e = None"
| "parseAnd (Suc n) s e =
     (case parseNot n s e of
        None \<Rightarrow> None
      | Some (None, s', e') \<Rightarrow> Some (None, s', e')
      | Some (Some left, s', e') \<Rightarrow> parseAnd_loop n left s' e')"
| "parseAnd_loop 0 left s e = None"
| "parseAnd_loop (Suc n) left s e =
     (case s of
        [] \<Rightarrow> Some (Some left, s, e)
      | tokAnd # s1 \<Rightarrow>
          (case parseNot n s1 e of
             None \<Rightarrow> None
           | Some (None, s', e') \<Rightarrow> Some (None, s', after_a)
           | Some (Some right, s', e') \<Rightarrow> parseAnd_loop n (exprAnd left right) s' e')
      | tokOr # s1 \<Rightarrow> Some (Some left, s, e)
      | tokRParen # s1 \<Rightarrow> Some (Some left, s, e)
      | _ \<Rightarrow>
          (case parseNot n s e of
             None \<Rightarrow> None
           | Some (None, s', e') \<Rightarrow> Some (Some left, s', e')
           | Some (Some right, s', e') \<Rightarrow> parseAnd_loop n (exprAnd left right) s' e'))"
| "parseNot 0 s e = None"
| "parseNot (Suc n) s e =
     (case s of
        tokNot # s1 \<Rightarrow>
          (case parseNot n s1 e of
             None \<Rightarrow> None
           | Some (None, s', e') \<Rightarrow> Some (None, s', after_not)
           | Some (Some inner, s', e') \<Rightarrow> Some (Some (exprNot inner), s', e'))
      | _ \<Rightarrow> parsePrimary n s e)"
| "parsePrimary 0 s e = None"
| "parsePrimary (Suc n) s e =
     (case s of
        tokLParen # s1 \<Rightarrow>
          (case parseOr n s1 e of
             None \<Rightarrow> None
           | Some (Some inner, tokRParen # s', e') \<Rightarrow> Some (Some inner, s', e')
           | Some (_, s', e') \<Rightarrow> Some (None, s', missing_paren))
      | tokExpr x # s1 \<Rightarrow> Some (Some x, s1, e)
      | _ \<Rightarrow> Some (None, s, e))"

  by pat_completeness auto
termination
  by (relation "measure (case_sum (case_sum fst (case_sum fst fst)) (case_sum fst (case_sum fst fst)))")
     (simp_all only: wf_measure in_measure sum.case fst_conv lessI)

fun containsNegatedDelete :: "expr \<Rightarrow> bool \<Rightarrow> bool" where
  "containsNegatedDelete (exprAction act) negated = (negated \<and> act_kind act = actDelete)"
| "containsNegatedDelete (exprNot e) negated = containsNegatedDelete e (\<not> negated)"
| "containsNegatedDelete (exprAnd l r) negated = (containsNegatedDelete l negated \<or> containsNegatedDelete r negated)"
| "containsNegatedDelete (exprOr l r) negated = (containsNegatedDelete l negated \<or> containsNegatedDelete r negated)"
| "containsNegatedDelete _ negated = False"

definition tree_fuel :: "token list \<Rightarrow> nat" where
  "tree_fuel tokens = 6 * length tokens + 6"

text \<open>The result of \<open>buildExpressionTree\<close>: an error message, or the tree (nil as \<^const>\<open>None\<close>).\<close>

definition buildExpressionTree :: "token list \<Rightarrow> (string + expr option) option" where
  "buildExpressionTree tokens =
     (case parseOr (tree_fuel tokens) tokens [] of
        None \<Rightarrow> None
      | Some (e, s, errMsg) \<Rightarrow>
          (let errMsg1 = (if errMsg = [] \<and> s \<noteq> []
                          then (if hd s = tokRParen then unexpected_paren else invalid_expression)
                          else errMsg);
               errMsg2 = (if errMsg1 = [] \<and> e \<noteq> None \<and> containsNegatedDelete (the e) False
                          then negated_delete else errMsg1)
           in Some (if errMsg2 \<noteq> [] then Inl errMsg2 else Inr e)))"

definition default_options :: options where
  "default_options = \<lparr>o_expr = None, maxDepth = -1, minDepth = 0, depthFirst = False, xdev = False, o_help = False\<rparr>"

definition parseExpression :: "(string \<Rightarrow> bool) \<Rightarrow> string list \<Rightarrow> (string + options) option" where
  "parseExpression valid args =
     (case parse_loop valid default_options [] args of
        ArgErr m \<Rightarrow> Some (Inl m)
      | ArgHelp opts \<Rightarrow> Some (Inr opts)
      | ArgNext opts tokens _ \<Rightarrow>
          if tokens = [] then Some (Inr opts)
          else (case buildExpressionTree tokens of
                  None \<Rightarrow> None
                | Some (Inl m) \<Rightarrow> Some (Inl m)
                | Some (Inr e) \<Rightarrow> Some (Inr (opts\<lparr>o_expr := e\<rparr>))))"

section \<open>The parser consumes what it builds\<close>

fun leaves :: "expr \<Rightarrow> expr list" where
  "leaves (exprNot e) = leaves e"
| "leaves (exprAnd l r) = leaves l @ leaves r"
| "leaves (exprOr l r) = leaves l @ leaves r"
| "leaves e = [e]"

definition tok_exprs :: "token list \<Rightarrow> expr list" where
  "tok_exprs ts = concat (map (\<lambda>t. case t of tokExpr x \<Rightarrow> leaves x | _ \<Rightarrow> []) ts)"

lemma tok_exprs_simps [simp]:
  "tok_exprs [] = []" "tok_exprs (tokExpr x # ts) = leaves x @ tok_exprs ts"
  "tok_exprs (tokAnd # ts) = tok_exprs ts" "tok_exprs (tokOr # ts) = tok_exprs ts"
  "tok_exprs (tokNot # ts) = tok_exprs ts" "tok_exprs (tokLParen # ts) = tok_exprs ts"
  "tok_exprs (tokRParen # ts) = tok_exprs ts"
  "tok_exprs (as @ bs) = tok_exprs as @ tok_exprs bs"
  by (simp_all add: tok_exprs_def)

lemma messages_not_empty [simp]:
  "after_o \<noteq> []" "after_a \<noteq> []" "after_not \<noteq> []" "missing_paren \<noteq> []"
  "unexpected_paren \<noteq> []" "invalid_expression \<noteq> []" "negated_delete \<noteq> []"
  by (simp_all add: after_o_def after_a_def after_not_def missing_paren_def unexpected_paren_def
       invalid_expression_def negated_delete_def)

text \<open>
  What a call of the parser does to the tokens: none reappears, an expression costs at least
  one (\<open>strict\<close>), and as long as no message is set the leaves of the result are those of the
  accumulator \<open>ls\<close> followed by the predicates consumed.
\<close>

definition consumes :: "bool \<Rightarrow> expr list \<Rightarrow> token list \<Rightarrow> string \<Rightarrow> parse_result \<Rightarrow> bool" where
  "consumes strict ls s e r \<longleftrightarrow>
     (\<forall>x s' e'. r = Some (x, s', e') \<longrightarrow>
        length s' \<le> length s \<and> (strict \<longrightarrow> x \<noteq> None \<longrightarrow> length s' < length s) \<and>
        (e' = [] \<longrightarrow> e = [] \<and> (case x of None \<Rightarrow> strict \<and> s' = s
           | Some t \<Rightarrow> \<exists>c. s = c @ s' \<and> leaves t = ls @ tok_exprs c)))"

lemma consumesD:
  assumes "consumes strict ls s e (Some (x, s', e'))"
  shows "length s' \<le> length s" "strict \<Longrightarrow> x \<noteq> None \<Longrightarrow> length s' < length s"
    "e' = [] \<Longrightarrow> e = []" "e' = [] \<Longrightarrow> x = None \<Longrightarrow> s' = s"
    "e' = [] \<Longrightarrow> x = Some t \<Longrightarrow> \<exists>c. s = c @ s' \<and> leaves t = ls @ tok_exprs c"
  using assms by (auto simp: consumes_def)

lemma consumes_step:
  assumes "consumes True [] s1 e (Some (Some t, s', e'))" and "consumes False (ls @ leaves t) s' e' r"
    and "s = c @ s1" and "tok_exprs c = []"
  shows "consumes strict ls s e r"
proof -
  have len: "length s' < length s1" using consumesD(2)[OF assms(1)] by simp
  have ls: "e' = [] \<Longrightarrow> e = [] \<and> (\<exists>d. s1 = d @ s' \<and> leaves t = tok_exprs d)"
    using consumesD(3,5)[OF assms(1)] by simp
  have "length s2 < length s \<and> (e2 = [] \<longrightarrow> e = [] \<and> (case x of None \<Rightarrow> False
      | Some u \<Rightarrow> \<exists>d. s = d @ s2 \<and> leaves u = ls @ tok_exprs d))"
    if r: "r = Some (x, s2, e2)" for x s2 e2
  proof -
    have two: "consumes False (ls @ leaves t) s' e' (Some (x, s2, e2))" using assms(2) r by simp
    have "length s2 \<le> length s'" using consumesD(1)[OF two] .
    moreover have "e = [] \<and> (case x of None \<Rightarrow> False | Some u \<Rightarrow> \<exists>d. s = d @ s2 \<and> leaves u = ls @ tok_exprs d)"
      if e2: "e2 = []"
    proof (cases x)
      case None
      then show ?thesis using two e2 by (simp add: consumes_def)
    next
      case (Some u)
      have e': "e' = []" using consumesD(3)[OF two e2] .
      obtain d where d: "s1 = d @ s'" "leaves t = tok_exprs d" and e: "e = []" using ls[OF e'] by blast
      obtain d2 where d2: "s' = d2 @ s2" "leaves u = (ls @ leaves t) @ tok_exprs d2"
        using consumesD(5)[OF two e2 Some] by blast
      have "s = (c @ d @ d2) @ s2" "leaves u = ls @ tok_exprs (c @ d @ d2)"
        using d d2 assms(3,4) by simp_all
      then show ?thesis using e Some by (simp only: option.case) blast
    qed
    ultimately show ?thesis using len assms(3) by auto
  qed
  then show ?thesis
    unfolding consumes_def by (auto simp: less_imp_le split: option.splits)
qed

lemma consumes_case:
  assumes "consumes True [] s1 e r" and "s = c @ s1" and "tok_exprs c = []"
    and "\<And>s' e'. r = Some (None, s', e') \<Longrightarrow> length s' \<le> length s \<Longrightarrow> consumes strict ls s e (f s' e')"
    and "\<And>t s' e'. r = Some (Some t, s', e') \<Longrightarrow> consumes False (ls @ leaves t) s' e' (g t s' e')"
  shows "consumes strict ls s e
    (case r of None \<Rightarrow> None | Some (None, s', e') \<Rightarrow> f s' e' | Some (Some t, s', e') \<Rightarrow> g t s' e')"
proof (cases r)
  case None
  then show ?thesis by (simp add: consumes_def)
next
  case (Some p)
  obtain x s' e' where p: "p = (x, s', e')" by (cases p)
  show ?thesis
  proof (cases x)
    case None
    then show ?thesis
      using assms(1-3) assms(4)[of s' e'] consumesD(1)[of True "[]" s1 e x s' e'] Some p by simp
  next
    case (Some t)
    then show ?thesis
      using consumes_step[OF _ assms(5) assms(2,3)] assms(1) \<open>r = Some p\<close> p by simp
  qed
qed

lemma consumes_error: "length s' \<le> length s \<Longrightarrow> m \<noteq> [] \<Longrightarrow> consumes strict ls s e (Some (None, s', m))"
  by (simp add: consumes_def)

lemma consumes_done: "consumes False (leaves l) s e (Some (Some l, s, e))"
  by (simp add: consumes_def)

lemma consumes_none: "consumes strict ls s e None"
  by (simp add: consumes_def)

lemma parseOr_loop_consumes:
  assumes AND: "\<And>s e. consumes True [] s e (parseAnd n s e)"
    and LOOP: "\<And>l s e. consumes False (leaves l) s e (parseOr_loop n l s e)"
  shows "consumes False (leaves l) s e (parseOr_loop (Suc n) l s e)"
proof (cases "\<exists>s1. s = tokOr # s1")
  case True
  then obtain s1 where s: "s = tokOr # s1" by blast
  have "consumes False (leaves l) s e (parseOr_loop (Suc n) l s e)"
    unfolding s parseOr_loop.simps list.case token.case
    by (rule consumes_case[OF AND, where c = "[tokOr]"])
       (auto intro: consumes_error LOOP[of "exprOr l _", simplified])
  then show ?thesis .
next
  case False
  then have "parseOr_loop (Suc n) l s e = Some (Some l, s, e)"
    by (auto split: list.split token.split)
  then show ?thesis by (simp add: consumes_done)
qed

lemma parseAnd_loop_consumes:
  assumes NOT: "\<And>s e. consumes True [] s e (parseNot n s e)"
    and LOOP: "\<And>l s e. consumes False (leaves l) s e (parseAnd_loop n l s e)"
  shows "consumes False (leaves l) s e (parseAnd_loop (Suc n) l s e)"
proof -
  have implicit: "consumes False (leaves l) s e (case parseNot n s e of None \<Rightarrow> None
      | Some (None, s', e') \<Rightarrow> Some (Some l, s', e')
      | Some (Some right, s', e') \<Rightarrow> parseAnd_loop n (exprAnd l right) s' e')"
  proof (rule consumes_case[OF NOT, where c = "[]"])
    fix s' e' assume "parseNot n s e = Some (None, s', e')"
    then have "consumes True [] s e (Some (None, s', e'))" using NOT[of s e] by simp
    then show "consumes False (leaves l) s e (Some (Some l, s', e'))"
      by (auto simp: consumes_def)
  qed (auto intro: LOOP[of "exprAnd l _", simplified])
  have explicit: "consumes False (leaves l) (tokAnd # s1) e (case parseNot n s1 e of None \<Rightarrow> None
      | Some (None, s', e') \<Rightarrow> Some (None, s', after_a)
      | Some (Some right, s', e') \<Rightarrow> parseAnd_loop n (exprAnd l right) s' e')" for s1
    by (rule consumes_case[OF NOT, where c = "[tokAnd]"])
       (auto intro: consumes_error LOOP[of "exprAnd l _", simplified])
  show ?thesis
    using implicit explicit consumes_done[of l] by (auto split: list.split token.split)
qed

lemma parseNot_consumes:
  assumes NOT: "\<And>s e. consumes True [] s e (parseNot n s e)"
    and PRIMARY: "\<And>s e. consumes True [] s e (parsePrimary n s e)"
  shows "consumes True [] s e (parseNot (Suc n) s e)"
proof (cases "\<exists>s1. s = tokNot # s1")
  case True
  then obtain s1 where s: "s = tokNot # s1" by blast
  have "consumes True [] s e (parseNot (Suc n) s e)"
    unfolding s parseNot.simps list.case token.case
    by (rule consumes_case[OF NOT, where c = "[tokNot]"])
       (auto intro: consumes_error consumes_done[of "exprNot _", simplified])
  then show ?thesis .
next
  case False
  then have "parseNot (Suc n) s e = parsePrimary n s e"
    by (auto split: list.split token.split)
  then show ?thesis using PRIMARY by simp
qed

lemma parsePrimary_consumes:
  assumes OR: "\<And>s e. consumes True [] s e (parseOr n s e)"
  shows "consumes True [] s e (parsePrimary (Suc n) s e)"
proof -
  have paren: "consumes True [] (tokLParen # s1) e (parsePrimary (Suc n) (tokLParen # s1) e)" for s1
  proof (cases "\<exists>t s' e'. parseOr n s1 e = Some (Some t, tokRParen # s', e')")
    case True
    then obtain t s' e' where r: "parseOr n s1 e = Some (Some t, tokRParen # s', e')" by blast
    then have "consumes True [] s1 e (Some (Some t, tokRParen # s', e'))" using OR[of s1 e] by simp
    from consumesD(1,3,5)[OF this] show ?thesis
      using r by (fastforce simp: consumes_def append_eq_Cons_conv)
  next
    case False
    then have "parseOr n s1 e = None \<or> (\<exists>x s' e'. parseOr n s1 e = Some (x, s', e') \<and>
        parsePrimary (Suc n) (tokLParen # s1) e = Some (None, s', missing_paren))"
      by (auto split: option.split list.split token.split prod.split)
    then show ?thesis
      using OR[of s1 e] consumesD(1)
      by (fastforce intro: consumes_error le_SucI simp: consumes_none)
  qed
  show ?thesis
    using paren by (auto simp: consumes_def split: list.splits token.splits)
qed

lemma parser_consumes:
  "consumes True [] s e (parseOr n s e)"
  "consumes False (leaves l) s e (parseOr_loop n l s e)"
  "consumes True [] s e (parseAnd n s e)"
  "consumes False (leaves l) s e (parseAnd_loop n l s e)"
  "consumes True [] s e (parseNot n s e)"
  "consumes True [] s e (parsePrimary n s e)"
proof (induction n arbitrary: s e l)
  case 0
  case 1 show ?case by (simp add: consumes_none)
  case 2 show ?case by (simp add: consumes_none)
  case 3 show ?case by (simp add: consumes_none)
  case 4 show ?case by (simp add: consumes_none)
  case 5 show ?case by (simp add: consumes_none)
  case 6 show ?case by (simp add: consumes_none)
next
  case (Suc n)
  note IH = Suc.IH
  case 1
  have "consumes True [] s e (Some (None, s', e'))" if "parseAnd n s e = Some (None, s', e')" for s' e'
    using IH(3)[of s e] that by simp
  then show ?case
    using IH(2) by (auto intro!: consumes_case[OF IH(3), where c = "[]"])
  case 2 show ?case by (rule parseOr_loop_consumes[OF IH(3,2)])
  case 3
  have "consumes True [] s e (Some (None, s', e'))" if "parseNot n s e = Some (None, s', e')" for s' e'
    using IH(5)[of s e] that by simp
  then show ?case
    using IH(4) by (auto intro!: consumes_case[OF IH(5), where c = "[]"])
  case 4 show ?case by (rule parseAnd_loop_consumes[OF IH(5,4)])
  case 5 show ?case by (rule parseNot_consumes[OF IH(5,6)])
  case 6 show ?case by (rule parsePrimary_consumes[OF IH(1)])
qed

section \<open>Fuel\<close>

declare parseOr.simps [simp del] parseOr_loop.simps [simp del] parseAnd.simps [simp del]
  parseAnd_loop.simps [simp del] parseNot.simps [simp del] parsePrimary.simps [simp del]

lemmas parser_zero = parseOr.simps(1) parseOr_loop.simps(1) parseAnd.simps(1)
  parseAnd_loop.simps(1) parseNot.simps(1) parsePrimary.simps(1)

definition returned :: "parse_result \<Rightarrow> bool" where
  "returned r \<longleftrightarrow> r \<noteq> None"

lemma returned_case:
  assumes "returned r" "\<And>s' e'. r = Some (None, s', e') \<Longrightarrow> returned (f s' e')"
    "\<And>t s' e'. r = Some (Some t, s', e') \<Longrightarrow> returned (g t s' e')"
  shows "returned (case r of None \<Rightarrow> None | Some (None, s', e') \<Rightarrow> f s' e' | Some (Some t, s', e') \<Rightarrow> g t s' e')"
  using assms by (auto simp: returned_def split: option.split)

lemma returned_simps [simp]: "returned (Some r)" "\<not> returned None"
  by (auto simp: returned_def)

lemma returned_paren:
  "returned r \<Longrightarrow> returned (case r of None \<Rightarrow> None
     | Some (Some inner, tokRParen # s', e') \<Rightarrow> Some (Some inner, s', e')
     | Some (_, s', e') \<Rightarrow> Some (None, s', missing_paren))"
  by (cases r) (auto split: option.split prod.split list.split token.split)

lemma consumed: "consumes True ls s e r \<Longrightarrow> r = Some (Some t, s', e') \<Longrightarrow> length s' < length s"
  by (auto simp: consumes_def)

lemma consumedI:
  "parseAnd n s e = Some (Some t, s', e') \<Longrightarrow> length s' < length s"
  "parseNot n s e = Some (Some t, s', e') \<Longrightarrow> length s' < length s"
  using parser_consumes(3,5) consumed by blast+

lemma parser_fuel:
  "6 * length s + 6 \<le> n \<Longrightarrow> returned (parseOr n s e)"
  "6 * length s + 5 \<le> n \<Longrightarrow> returned (parseOr_loop n l s e)"
  "6 * length s + 4 \<le> n \<Longrightarrow> returned (parseAnd n s e)"
  "6 * length s + 3 \<le> n \<Longrightarrow> returned (parseAnd_loop n l s e)"
  "6 * length s + 2 \<le> n \<Longrightarrow> returned (parseNot n s e)"
  "6 * length s + 1 \<le> n \<Longrightarrow> returned (parsePrimary n s e)"
proof (induction n arbitrary: s e l)
  case (Suc n)
  note IH = Suc.IH
  {
  case 1
  then show ?case
    unfolding parseOr.simps(2) by (intro returned_case) (auto intro!: IH(2,3) dest!: consumedI)
  next
  case 2
  then show ?case
    unfolding parseOr_loop.simps(2)
    by (auto split: list.split token.split intro!: returned_case IH(2,3) dest!: consumedI)
  next
  case 3
  then show ?case
    unfolding parseAnd.simps(2) by (intro returned_case) (auto intro!: IH(4,5) dest!: consumedI)
  next
  case 4
  then show ?case
    unfolding parseAnd_loop.simps(2)
    by (auto split: list.split token.split intro!: returned_case IH(4,5) dest!: consumedI)
  next
  case 5
  then show ?case
    unfolding parseNot.simps(2)
    by (auto split: list.split token.split intro!: returned_case IH(5,6))
  next
  case 6
  then show ?case
    unfolding parsePrimary.simps(2)
    by (auto split: list.split token.split intro!: returned_paren IH(1))
  }
qed auto

text \<open>More fuel does not change a result.\<close>

lemma case_mono:
  assumes "(case r of None \<Rightarrow> None | Some (None, s', e') \<Rightarrow> f s' e' | Some (Some t, s', e') \<Rightarrow> g t s' e') = Some v"
    and "\<And>v. r = Some v \<Longrightarrow> r' = Some v"
    and "\<And>t s' e' v. g t s' e' = Some v \<Longrightarrow> g' t s' e' = Some v"
  shows "(case r' of None \<Rightarrow> None | Some (None, s', e') \<Rightarrow> f s' e' | Some (Some t, s', e') \<Rightarrow> g' t s' e') = Some v"
  using assms by (auto split: option.splits)

lemma parser_mono:
  "parseOr n s e = Some v \<Longrightarrow> parseOr (Suc n) s e = Some v"
  "parseOr_loop n l s e = Some v \<Longrightarrow> parseOr_loop (Suc n) l s e = Some v"
  "parseAnd n s e = Some v \<Longrightarrow> parseAnd (Suc n) s e = Some v"
  "parseAnd_loop n l s e = Some v \<Longrightarrow> parseAnd_loop (Suc n) l s e = Some v"
  "parseNot n s e = Some v \<Longrightarrow> parseNot (Suc n) s e = Some v"
  "parsePrimary n s e = Some v \<Longrightarrow> parsePrimary (Suc n) s e = Some v"
proof (induction n arbitrary: s e l v)
  case (Suc n)
  note IH = Suc.IH
  {
  case 1
  then show ?case
    unfolding parseOr.simps(2)[of n s e] parseOr.simps(2)[of "Suc n" s e] by - (erule case_mono, blast intro: IH, blast intro: IH)
  next
  case 2
  then show ?case
    unfolding parseOr_loop.simps(2)[of n l s e] parseOr_loop.simps(2)[of "Suc n" l s e]
    by (auto split: list.splits token.splits elim!: case_mono intro: IH)
  next
  case 3
  then show ?case
    unfolding parseAnd.simps(2)[of n s e] parseAnd.simps(2)[of "Suc n" s e] by - (erule case_mono, blast intro: IH, blast intro: IH)
  next
  case 4
  then show ?case
    unfolding parseAnd_loop.simps(2)[of n l s e] parseAnd_loop.simps(2)[of "Suc n" l s e]
    by (auto split: list.splits token.splits elim!: case_mono intro: IH)
  next
  case 5
  then show ?case
    unfolding parseNot.simps(2)[of n s e] parseNot.simps(2)[of "Suc n" s e]
    by (auto split: list.splits token.splits elim!: case_mono intro: IH)
  next
  case 6
  then show ?case
    unfolding parsePrimary.simps(2)[of n s e] parsePrimary.simps(2)[of "Suc n" s e]
    using IH(1) by (fastforce split: list.splits token.splits option.splits)
  }
qed (auto simp: parser_zero)

section \<open>Evaluation without fuel\<close>

definition evaluates :: "(nat \<Rightarrow> parse_result) \<Rightarrow> expr option \<times> token list \<times> string \<Rightarrow> bool" where
  "evaluates f v \<longleftrightarrow> (\<exists>n. f n = Some v)"

definition fuel_mono :: "(nat \<Rightarrow> parse_result) \<Rightarrow> bool" where
  "fuel_mono f \<longleftrightarrow> (\<forall>n v. f n = Some v \<longrightarrow> f (Suc n) = Some v)"

lemma parser_fuel_mono:
  "fuel_mono (\<lambda>n. parseOr n s e)" "fuel_mono (\<lambda>n. parseOr_loop n l s e)"
  "fuel_mono (\<lambda>n. parseAnd n s e)" "fuel_mono (\<lambda>n. parseAnd_loop n l s e)"
  "fuel_mono (\<lambda>n. parseNot n s e)" "fuel_mono (\<lambda>n. parsePrimary n s e)"
  by (auto simp: fuel_mono_def parser_mono)

lemma fuel_more: "fuel_mono f \<Longrightarrow> f n = Some v \<Longrightarrow> n \<le> m \<Longrightarrow> f m = Some v"
  by (induction m) (auto simp: le_Suc_eq fuel_mono_def simp del: split_paired_All)

lemma evaluates_both:
  assumes "fuel_mono f" "fuel_mono g" "evaluates f u" "evaluates g v"
  obtains n where "f n = Some u" "g n = Some v"
  using assms fuel_more[of f] fuel_more[of g] unfolding evaluates_def
  by (metis max.cobounded1 max.cobounded2)

lemma evaluates_SucI: "f (Suc n) = Some v \<Longrightarrow> evaluates f v"
  by (auto simp: evaluates_def)

lemma ev_or:
  assumes "evaluates (\<lambda>n. parseAnd n s e) (Some l, s', e')" "evaluates (\<lambda>n. parseOr_loop n l s' e') v"
  shows "evaluates (\<lambda>n. parseOr n s e) v"
  using evaluates_both[OF parser_fuel_mono(3,2) assms]
  by (metis (no_types, lifting) evaluates_SucI parseOr.simps(2) option.case prod.case)

lemma ev_or_loop:
  assumes "evaluates (\<lambda>n. parseAnd n s1 e) (Some r, s', e')"
    "evaluates (\<lambda>n. parseOr_loop n (exprOr l r) s' e') v"
  shows "evaluates (\<lambda>n. parseOr_loop n l (tokOr # s1) e) v"
  by (rule evaluates_both[OF parser_fuel_mono(3,2) assms], rule_tac n = n in evaluates_SucI)
     (simp add: parseOr_loop.simps)

lemma ev_and:
  assumes "evaluates (\<lambda>n. parseNot n s e) (Some l, s', e')" "evaluates (\<lambda>n. parseAnd_loop n l s' e') v"
  shows "evaluates (\<lambda>n. parseAnd n s e) v"
  by (rule evaluates_both[OF parser_fuel_mono(5,4) assms], rule_tac n = n in evaluates_SucI)
     (simp add: parseAnd.simps)

lemma ev_and_loop:
  assumes "evaluates (\<lambda>n. parseNot n s1 e) (Some r, s', e')"
    "evaluates (\<lambda>n. parseAnd_loop n (exprAnd l r) s' e') v"
  shows "evaluates (\<lambda>n. parseAnd_loop n l (tokAnd # s1) e) v"
  by (rule evaluates_both[OF parser_fuel_mono(5,4) assms], rule_tac n = n in evaluates_SucI)
     (simp add: parseAnd_loop.simps)

definition starts_operand :: "token list \<Rightarrow> bool" where
  "starts_operand s \<longleftrightarrow> s \<noteq> [] \<and> hd s \<noteq> tokAnd \<and> hd s \<noteq> tokOr \<and> hd s \<noteq> tokRParen"

lemma ev_and_implicit:
  assumes "evaluates (\<lambda>n. parseNot n s e) (Some r, s', e')"
    "evaluates (\<lambda>n. parseAnd_loop n (exprAnd l r) s' e') v" "starts_operand s"
  shows "evaluates (\<lambda>n. parseAnd_loop n l s e) v"
  by (rule evaluates_both[OF parser_fuel_mono(5,4) assms(1,2)], rule_tac n = n in evaluates_SucI)
     (use assms(3) in \<open>auto simp: parseAnd_loop.simps(2)[of _ l s e] starts_operand_def split: list.split token.split\<close>)

text \<open>Where an operand of \<^verbatim>\<open>-a\<close> ends: at the end, at \<^verbatim>\<open>-o\<close> or at a closing parenthesis.\<close>

definition ends_and :: "token list \<Rightarrow> bool" where
  "ends_and s \<longleftrightarrow> s = [] \<or> hd s = tokOr \<or> hd s = tokRParen"

lemma ev_and_stop: "ends_and s \<Longrightarrow> evaluates (\<lambda>n. parseAnd_loop n l s e) (Some l, s, e)"
  by (rule evaluates_SucI[of _ 0]) (auto simp: ends_and_def parseAnd_loop.simps split: list.split)

lemma ev_or_stop: "s = [] \<or> hd s \<noteq> tokOr \<Longrightarrow> evaluates (\<lambda>n. parseOr_loop n l s e) (Some l, s, e)"
  by (rule evaluates_SucI[of _ 0]) (auto simp: parseOr_loop.simps split: list.split token.split)

lemma ev_not:
  "evaluates (\<lambda>n. parseNot n s e) (Some x, s', e') \<Longrightarrow>
   evaluates (\<lambda>n. parseNot n (tokNot # s) e) (Some (exprNot x), s', e')"
  unfolding evaluates_def[of "\<lambda>n. parseNot n s e"]
  by (elim exE, rule_tac n = n in evaluates_SucI) (simp add: parseNot.simps)

lemma ev_leaf: "evaluates (\<lambda>n. parseNot n (tokExpr x # s) e) (Some x, s, e)"
  by (rule evaluates_SucI[of _ 1]) (simp add: parseNot.simps parsePrimary.simps)

lemma ev_paren:
  "evaluates (\<lambda>n. parseOr n s e) (Some x, tokRParen # s', e') \<Longrightarrow>
   evaluates (\<lambda>n. parseNot n (tokLParen # s) e) (Some x, s', e')"
  unfolding evaluates_def[of "\<lambda>n. parseOr n s e"]
  by (elim exE, rule_tac n = "Suc n" in evaluates_SucI) (simp add: parseNot.simps parsePrimary.simps)

lemma evaluates_parseOr:
  assumes "evaluates (\<lambda>n. parseOr n s e) v"
  shows "parseOr (tree_fuel s) s e = Some v"
proof -
  obtain w where "parseOr (tree_fuel s) s e = Some w"
    using parser_fuel(1)[of s "tree_fuel s" e] by (auto simp: tree_fuel_def returned_def)
  moreover from this have "evaluates (\<lambda>n. parseOr n s e) w" by (auto simp: evaluates_def)
  ultimately show ?thesis
    using evaluates_both[OF parser_fuel_mono(1,1) assms] by (metis option.inject)
qed

section \<open>Printing and parsing back\<close>

text \<open>
  An expression written as tokens with the parentheses that the precedences ask for.
  \<open>p\<close> is the context (0: operand on the left of \<^verbatim>\<open>-o\<close>, 1: left of \<^verbatim>\<open>-a\<close>, 2: operand of
  \<^verbatim>\<open>!\<close> or right of \<^verbatim>\<open>-a\<close>), \<open>explicit\<close> says whether \<^verbatim>\<open>-a\<close> is written.
\<close>

definition paren :: "bool \<Rightarrow> token list \<Rightarrow> token list" where
  "paren b ts = (if b then tokLParen # ts @ [tokRParen] else ts)"

fun toks :: "bool \<Rightarrow> nat \<Rightarrow> expr \<Rightarrow> token list" where
  "toks explicit p (exprOr l r) = paren (p > 0) (toks explicit 0 l @ tokOr # toks explicit 1 r)"
| "toks explicit p (exprAnd l r) =
     paren (p > 1) (toks explicit 1 l @ (if explicit then [tokAnd] else []) @ toks explicit 2 r)"
| "toks explicit p (exprNot x) = tokNot # toks explicit 2 x"
| "toks explicit p x = [tokExpr x]"

lemma starts_Cons: "starts_operand (t # s) \<longleftrightarrow> t \<noteq> tokAnd \<and> t \<noteq> tokOr \<and> t \<noteq> tokRParen"
  by (simp add: starts_operand_def)

lemma starts_append: "starts_operand s \<Longrightarrow> starts_operand (s @ t)"
  by (auto simp: starts_operand_def)

lemma starts_paren: "starts_operand s \<Longrightarrow> starts_operand (paren b s)"
  by (simp add: paren_def starts_Cons)

lemma starts_toks1: "starts_operand (toks b p x)"
  by (induction x arbitrary: p) (simp_all add: starts_Cons starts_append starts_paren)

lemma starts_toks: "starts_operand (toks b p x @ s)"
  by (intro starts_append starts_toks1)

text \<open>What the parser must do with an expression written in each of the three contexts.\<close>

definition reads_not :: "bool \<Rightarrow> expr \<Rightarrow> bool" where
  "reads_not b x \<longleftrightarrow> (\<forall>s e. evaluates (\<lambda>n. parseNot n (toks b 2 x @ s) e) (Some x, s, e))"

definition reads_and :: "bool \<Rightarrow> expr \<Rightarrow> bool" where
  "reads_and b x \<longleftrightarrow> (\<forall>s e v. evaluates (\<lambda>n. parseAnd_loop n x s e) v \<longrightarrow>
     evaluates (\<lambda>n. parseAnd n (toks b 1 x @ s) e) v)"

definition reads_or :: "bool \<Rightarrow> expr \<Rightarrow> bool" where
  "reads_or b x \<longleftrightarrow> (\<forall>s e v. ends_and s \<longrightarrow> evaluates (\<lambda>n. parseOr_loop n x s e) v \<longrightarrow>
     evaluates (\<lambda>n. parseOr n (toks b 0 x @ s) e) v)"

lemma reads_andD: "reads_and b x \<Longrightarrow> evaluates (\<lambda>n. parseAnd_loop n x s e) v \<Longrightarrow>
    evaluates (\<lambda>n. parseAnd n (toks b 1 x @ s) e) v"
  unfolding reads_and_def by blast

lemma reads_orD: "reads_or b x \<Longrightarrow> ends_and s \<Longrightarrow> evaluates (\<lambda>n. parseOr_loop n x s e) v \<Longrightarrow>
    evaluates (\<lambda>n. parseOr n (toks b 0 x @ s) e) v"
  unfolding reads_or_def by blast

lemma reads_not_and: "reads_not b x \<Longrightarrow> toks b 1 x = toks b 2 x \<Longrightarrow> reads_and b x"
  unfolding reads_not_def reads_and_def using ev_and by metis

lemma reads_and_or: "reads_and b x \<Longrightarrow> toks b 0 x = toks b 1 x \<Longrightarrow> reads_or b x"
  unfolding reads_and_def reads_or_def using ev_or ev_and_stop by metis

lemma reads_or_Or: "reads_or b l \<Longrightarrow> reads_and b r \<Longrightarrow> reads_or b (exprOr l r)"
  unfolding reads_or_def[of b "exprOr l r"]
proof (intro allI impI)
  fix s e v
  assume l: "reads_or b l" and r: "reads_and b r" and s: "ends_and s"
    and v: "evaluates (\<lambda>n. parseOr_loop n (exprOr l r) s e) v"
  have "evaluates (\<lambda>n. parseAnd n (toks b 1 r @ s) e) (Some r, s, e)"
    using r ev_and_stop[OF s] by (simp add: reads_and_def)
  then have "evaluates (\<lambda>n. parseOr_loop n l (tokOr # toks b 1 r @ s) e) v"
    using v by (rule ev_or_loop)
  then show "evaluates (\<lambda>n. parseOr n (toks b 0 (exprOr l r) @ s) e) v"
    using reads_orD[OF l, of "tokOr # toks b 1 r @ s" e v] by (simp add: paren_def ends_and_def)
qed

lemma reads_and_And: "reads_and b l \<Longrightarrow> reads_not b r \<Longrightarrow> reads_and b (exprAnd l r)"
  unfolding reads_and_def[of b "exprAnd l r"]
proof (intro allI impI)
  fix s e v
  assume l: "reads_and b l" and r: "reads_not b r"
    and v: "evaluates (\<lambda>n. parseAnd_loop n (exprAnd l r) s e) v"
  have r': "evaluates (\<lambda>n. parseNot n (toks b 2 r @ s) e) (Some r, s, e)"
    using r by (simp add: reads_not_def)
  have "evaluates (\<lambda>n. parseAnd_loop n l ((if b then [tokAnd] else []) @ toks b 2 r @ s) e) v"
    using ev_and_loop[OF r' v] ev_and_implicit[OF r' v starts_toks] by (cases b) simp_all
  then show "evaluates (\<lambda>n. parseAnd n (toks b 1 (exprAnd l r) @ s) e) v"
    using reads_andD[OF l] by (simp add: paren_def)
qed

lemma reads_or_not:
  "reads_or b x \<Longrightarrow> toks b 2 x = tokLParen # toks b 0 x @ [tokRParen] \<Longrightarrow> reads_not b x"
  unfolding reads_not_def
proof (intro allI)
  fix s e
  assume x: "reads_or b x" and t: "toks b 2 x = tokLParen # toks b 0 x @ [tokRParen]"
  have "evaluates (\<lambda>n. parseOr n (toks b 0 x @ tokRParen # s) e) (Some x, tokRParen # s, e)"
    using reads_orD[OF x _ ev_or_stop] by (simp add: ends_and_def)
  then show "evaluates (\<lambda>n. parseNot n (toks b 2 x @ s) e) (Some x, s, e)"
    unfolding t by (simp add: ev_paren)
qed

lemma reads_not_Not: "reads_not b x \<Longrightarrow> reads_not b (exprNot x)"
  by (simp add: reads_not_def ev_not)

lemma reads_leaf: "toks b 2 x = [tokExpr x] \<Longrightarrow> reads_not b x"
  by (simp add: reads_not_def ev_leaf)

lemma parser_reads: "reads_not b x \<and> reads_and b x \<and> reads_or b x"
proof (induction x)
  case (exprNot x)
  then show ?case by (simp add: reads_not_Not reads_not_and reads_and_or)
next
  case (exprAnd l r)
  then have "reads_and b (exprAnd l r)" by (simp add: reads_and_And)
  then show ?case by (simp add: reads_and_or reads_or_not paren_def)
next
  case (exprOr l r)
  then have "reads_or b (exprOr l r)" by (simp add: reads_or_Or)
  then show ?case by (simp add: reads_or_not reads_not_and paren_def)
qed (simp_all add: reads_leaf reads_not_and reads_and_or)

lemma parseOr_toks: "parseOr (tree_fuel (toks b 0 x)) (toks b 0 x) e = Some (Some x, [], e)"
  using reads_orD[of b x "[]", OF _ _ ev_or_stop] parser_reads[of b x]
  by (intro evaluates_parseOr) (simp add: ends_and_def)

section \<open>Properties\<close>

text \<open>C2: Printing an expression with the parentheses its precedences need and parsing the tokens gives the same tree back, with -a written or left out; only a -delete under negation is refused.\<close>

theorem parse_print_roundtrip:
  "buildExpressionTree (toks explicit 0 x) =
     Some (if containsNegatedDelete x False then Inl negated_delete else Inr (Some x))"
  by (simp add: buildExpressionTree_def parseOr_toks)

lemma buildExpressionTree_cases:
  obtains e s m where "parseOr (tree_fuel tokens) tokens [] = Some (e, s, m)"
    "consumes True [] tokens [] (Some (e, s, m))"
  using parser_fuel(1)[of tokens "tree_fuel tokens" "[]"] parser_consumes(1)[of tokens "[]" "tree_fuel tokens"]
  by (auto simp: tree_fuel_def returned_def)

text \<open>C30: Whatever the tokens, the parser ends; when it accepts a nonempty list it returns a tree whose leaves are exactly the predicates of the command line, in order, and no -delete of it stands under an odd number of negations.\<close>

theorem buildExpressionTree_sound:
  assumes "tokens \<noteq> []"
  shows "(\<exists>m. m \<noteq> [] \<and> buildExpressionTree tokens = Some (Inl m)) \<or>
    (\<exists>t. buildExpressionTree tokens = Some (Inr (Some t)) \<and> leaves t = tok_exprs tokens \<and>
         \<not> containsNegatedDelete t False)"
proof -
  obtain e s m where p: "parseOr (tree_fuel tokens) tokens [] = Some (e, s, m)"
    and c: "consumes True [] tokens [] (Some (e, s, m))"
    by (rule buildExpressionTree_cases)
  show ?thesis
  proof (cases "m = [] \<and> s = []")
    case True
    then obtain t where "e = Some t" "leaves t = tok_exprs tokens"
      using c assms by (cases e) (auto simp: consumes_def)
    then show ?thesis using p True by (auto simp: buildExpressionTree_def)
  next
    case False
    then show ?thesis using p by (auto simp: buildExpressionTree_def Let_def)
  qed
qed

theorem buildExpressionTree_sound_witness:
  "let ts = [tokExpr exprEmpty, tokOr, tokExpr exprPrune, tokExpr exprTrue] in
     ts \<noteq> [] \<and> (\<exists>t. buildExpressionTree ts = Some (Inr (Some t)) \<and> leaves t = tok_exprs ts)"
proof -
  let ?ts = "[tokExpr exprEmpty, tokOr, tokExpr exprPrune, tokExpr exprTrue]"
  have "buildExpressionTree ?ts = Some (Inr (Some (exprOr exprEmpty (exprAnd exprPrune exprTrue))))"
    by code_simp
  then show ?thesis using buildExpressionTree_sound[of ?ts] by auto
qed

text \<open>Whatever the arguments, parsing a command line ends with a message or with options.\<close>

theorem parseExpression_total:
  "(\<exists>m. parseExpression valid args = Some (Inl m)) \<or> (\<exists>opts. parseExpression valid args = Some (Inr opts))"
proof -
  have tree: "\<exists>r. buildExpressionTree ts = Some r" for ts
    by (rule buildExpressionTree_cases[of ts]) (simp add: buildExpressionTree_def Let_def)
  have "\<exists>r. parseExpression valid args = Some r"
  proof (cases "parse_loop valid default_options [] args")
    case (ArgNext o' ts as)
    then show ?thesis
      using tree[of ts] by (elim exE, rename_tac r, case_tac r) (auto simp: parseExpression_def)
  qed (simp_all add: parseExpression_def)
  then obtain r where r: "parseExpression valid args = Some r" ..
  then show ?thesis by (cases r) simp_all
qed

lemma parseSafeUint_show:
  "parseSafeUint (show_nat n) = (if int n \<le> maxSafeInteger then Some (int n) else None)"
proof -
  have digits: "\<not> (\<exists>c \<in> set (show_nat n). \<not> is_digit c)" using format_nat_digits by blast
  show ?thesis
  proof (cases "int n \<le> maxSafeInteger")
    case True
    then have "n < 2 ^ 64" "\<not> 2 ^ 63 \<le> n" by (auto simp: maxSafeInteger_def)
    then have "parseInt (show_nat n) 10 64 = Some (int n)"
      by (simp add: parseInt_def show_nat_no_sign parseUint_show10)
    then show ?thesis using True digits by (simp add: parseSafeUint_def)
  next
    case False
    then have "parseInt (show_nat n) 10 64 = None \<or> parseInt (show_nat n) 10 64 = Some (int n)"
      by (auto simp: parseInt_def show_nat_no_sign parseUint_def parse_format_nat)
    then show ?thesis using False digits by (auto simp: parseSafeUint_def)
  qed
qed

definition cmp_text :: "comparison \<Rightarrow> string" where
  "cmp_text c = (case c of cmpExact \<Rightarrow> [] | cmpMore \<Rightarrow> ''+'' | cmpLess \<Rightarrow> ''-'')"

lemma splitComparison_text:
  assumes "s \<noteq> []" "is_digit (hd s)"
  shows "splitComparison (cmp_text c @ s) = (c, s)"
proof -
  have "hd s \<noteq> CHR ''+'' \<and> hd s \<noteq> CHR ''-''" using is_digit_not_sign[OF assms(2)] by simp
  then show ?thesis using assms(1) by (cases c) (simp_all add: splitComparison_def cmp_text_def)
qed

lemma show_nat_front: "is_digit (hd (show_nat n))" "is_digit (last (show_nat n))"
  using format_nat_digits[of n] by simp_all

lemma size_unit_text:
  "size_unit (show_nat n) = (CHR ''b'', show_nat n)"
  "u \<in> set ''ckMGb'' \<Longrightarrow> size_unit (show_nat n @ [u]) = (u, show_nat n)"
  using show_nat_front(2)[of n] by (auto simp: size_unit_def is_digit_def)

text \<open>A -size operand written as comparison sign, number and unit letter parses to exactly that test, unless the number of bytes it stands for is over 2^53 - 1; no product with the unit can overflow an int64.\<close>

theorem parseSize_text:
  assumes "u \<in> set ''ckMGb''"
  shows "parseSize (cmp_text c @ show_nat n @ [u]) =
    (if int n * sizeMultiplier u \<le> 2 ^ 53 - 1 then Some (exprSize c (int n) u) else None)"
proof -
  have split: "splitComparison (cmp_text c @ show_nat n @ [u]) = (c, show_nat n @ [u])"
    by (rule splitComparison_text) (use show_nat_front[of n] in \<open>auto simp: hd_append\<close>)
  have pos: "0 < sizeMultiplier u" "int n \<le> int n * sizeMultiplier u"
    by (auto simp: sizeMultiplier_def)
  have le: "int n > maxSafeInteger div sizeMultiplier u \<longleftrightarrow> \<not> int n * sizeMultiplier u \<le> maxSafeInteger"
    using pos(1) by (auto simp: sizeMultiplier_def)
  show ?thesis
    unfolding parseSize_def split prod.case Let_def size_unit_text(2)[OF assms] parseSafeUint_show
    using le pos(2) by (auto simp: maxSafeInteger_def)
qed

theorem parseSize_text_witness:
  "parseSize (cmp_text cmpMore @ show_nat 3 @ ''M'') = Some (exprSize cmpMore 3 (CHR ''M'')) \<and>
   parseSize (cmp_text cmpLess @ show_nat 9007199254740991 @ ''k'') = None"
  using parseSize_text[of "CHR ''M''" cmpMore 3] parseSize_text[of "CHR ''k''" cmpLess 9007199254740991]
  by (simp add: sizeMultiplier_def)

end
