(* ===== verification/Find_Glob.thy ===== *)
theory Find_Glob
  imports Find_Printf
begin

text \<open>
  Shell patterns of find (\<^verbatim>\<open>matchGlob\<close> and its helpers in
  \<^verbatim>\<open>command/internal/find/matcher.go\<close>).  Positions in the pattern and in the name are
  the suffixes that start there.  The classification tables of Go's \<^verbatim>\<open>unicode\<close> package and
  \<^verbatim>\<open>strings.ToLower\<close> are the fields of the parameter \<open>unicode\<close>; nothing is assumed about
  them.  The loop of \<open>matchGlob\<close> is a partial function, so that running forever would be the
  value \<^const>\<open>None\<close>; it is shown to return what a naive recursive matcher returns.
\<close>

section \<open>Bracket expressions\<close>

definition inClass :: "unicode \<Rightarrow> string \<Rightarrow> rune \<Rightarrow> bool \<Rightarrow> bool" where
  "inClass U name c fd =
     (if fd \<and> (name = ''upper'' \<or> name = ''lower'') then IsUpper U c \<or> IsLower U c
      else if name = ''alnum'' then IsLetter U c \<or> IsDigit U c
      else if name = ''alpha'' then IsLetter U c
      else if name = ''blank'' then c = rn CHR '' '' \<or> c = rn tab
      else if name = ''cntrl'' then IsControl U c
      else if name = ''digit'' then c \<ge> rn CHR ''0'' \<and> c \<le> rn CHR ''9''
      else if name = ''graph'' then IsPrint U c \<and> c \<noteq> rn CHR '' ''
      else if name = ''lower'' then IsLower U c
      else if name = ''print'' then IsPrint U c
      else if name = ''punct'' then IsPunct U c \<or> IsSymbol U c
      else if name = ''space'' then IsSpace U c
      else if name = ''upper'' then IsUpper U c
      else if name = ''xdigit'' then c < 0x80 \<and> isHex (char_of c)
      else False)"

text \<open>
  \<open>classEnd\<close> on the pattern from the start of the class name: the name, and the pattern
  after the closing \<^verbatim>\<open>:]\<close>.
\<close>

fun classEnd :: "unicode \<Rightarrow> rune list \<Rightarrow> (rune list \<times> rune list) option" where
  "classEnd U (a # b # t) =
     (if a = rn CHR '':'' \<and> b = rn CHR '']'' then Some ([], t)
      else if \<not> IsLower U a then None
      else map_option (\<lambda>(name, t'). (a # name, t')) (classEnd U (b # t)))"
| "classEnd U _ = None"

lemma classEnd_shorter: "classEnd U q = Some (name, t) \<Longrightarrow> length t < length q"
  by (induction U q arbitrary: name rule: classEnd.induct) (fastforce split: if_splits)+

text \<open>A rune of a range, which a backslash may quote, and the pattern after it.\<close>

definition quoted :: "rune \<Rightarrow> rune list \<Rightarrow> rune \<times> rune list" where
  "quoted x r = (if x = rn backslash \<and> r \<noteq> [] then (hd r, tl r) else (x, r))"

definition range_end :: "rune \<Rightarrow> rune list \<Rightarrow> rune \<times> rune list" where
  "range_end lo r =
     (if length r \<ge> 2 \<and> r ! 0 = rn CHR ''-'' \<and> r ! 1 \<noteq> rn CHR '']''
      then quoted (r ! 1) (drop 2 r) else (lo, r))"

text \<open>
  One round of the loop of \<open>matchBracket\<close> at an item that starts with \<open>x\<close>: the runes the
  item matches, and the pattern after it.
\<close>

definition bracket_item :: "unicode \<Rightarrow> bool \<Rightarrow> rune \<Rightarrow> rune list \<Rightarrow> (rune \<Rightarrow> bool) \<times> rune list" where
  "bracket_item U fd x r =
     (case (if x = rn CHR ''['' \<and> r \<noteq> [] \<and> hd r = rn CHR '':'' then classEnd U (tl r) else None) of
        Some (name, t) \<Rightarrow> (\<lambda>c. inClass U (utf8_string name) c fd, t)
      | None \<Rightarrow>
          (let (lo, r1) = quoted x r; (hi, r2) = range_end lo r1 in (\<lambda>c. lo \<le> c \<and> c \<le> hi, r2)))"

lemma quoted_shorter: "quoted x r = (y, t) \<Longrightarrow> length t \<le> length r"
  by (auto simp: quoted_def split: if_splits)

lemma range_end_shorter: "range_end lo r = (hi, t) \<Longrightarrow> length t \<le> length r"
  by (auto simp: range_end_def split: if_splits dest: quoted_shorter)

lemma bracket_item_shorter: "length (snd (bracket_item U fd x r)) \<le> length r"
  by (fastforce simp: bracket_item_def dest: quoted_shorter range_end_shorter classEnd_shorter
        split: option.split prod.split if_splits)

text \<open>The loop of \<open>matchBracket\<close>: whether an item matched, and the pattern after \<^verbatim>\<open>]\<close>.\<close>

function (sequential) bracket_loop ::
  "unicode \<Rightarrow> bool \<Rightarrow> rune \<Rightarrow> bool \<Rightarrow> bool \<Rightarrow> rune list \<Rightarrow> (bool \<times> rune list) option" where
  "bracket_loop U fd c first matched [] = None"
| "bracket_loop U fd c first matched (x # r) =
     (if x = rn CHR '']'' \<and> \<not> first then Some (matched, r)
      else bracket_loop U fd c False (matched \<or> fst (bracket_item U fd x r) c) (snd (bracket_item U fd x r)))"
  by pat_completeness auto
termination
  by (relation "measure (\<lambda>(U, f, c, b, m, q). length q)")
     (simp_all add: bracket_item_shorter le_imp_less_Suc)

definition matchBracket :: "unicode \<Rightarrow> rune list \<Rightarrow> rune \<Rightarrow> bool \<Rightarrow> (nat \<times> bool) option" where
  "matchBracket U p c fd =
     (let r = tl p;
          negate = (r \<noteq> [] \<and> (hd r = rn CHR ''!'' \<or> hd r = rn CHR ''^''));
          r1 = (if negate then tl r else r)
      in case bracket_loop U fd c True False r1 of
           None \<Rightarrow> None
         | Some (matched, t) \<Rightarrow> Some (length p - length t, matched \<noteq> negate))"

definition matchOne :: "unicode \<Rightarrow> rune list \<Rightarrow> rune \<Rightarrow> bool \<Rightarrow> nat \<times> bool" where
  "matchOne U p c fd =
     (if hd p = rn CHR ''?'' then (1, True)
      else if hd p = rn backslash then
        (if length p > 1 then (2, p ! 1 = c) else (1, c = rn backslash))
      else if hd p = rn CHR ''['' then
        (case matchBracket U p c fd of
           Some (width, matched) \<Rightarrow> (width, matched)
         | None \<Rightarrow> (1, c = rn CHR ''[''))
      else (1, hd p = c))"

section \<open>The matching loop\<close>

abbreviation star :: rune where "star \<equiv> 42"

definition only_stars :: "rune list \<Rightarrow> bool" where
  "only_stars p \<longleftrightarrow> dropWhile (\<lambda>r. r = star) p = []"

text \<open>
  \<open>p\<close> and \<open>s\<close> start at \<^verbatim>\<open>pi\<close> and \<^verbatim>\<open>si\<close>; the last star is the pattern after it and the
  name from \<^verbatim>\<open>starS\<close>.
\<close>

partial_function (option) glob_loop ::
  "unicode \<Rightarrow> bool \<Rightarrow> rune list \<Rightarrow> rune list \<Rightarrow> (rune list \<times> rune list) option \<Rightarrow> bool option" where
  [code]: "glob_loop U fd p s last_star =
     (if s = [] then Some (only_stars p)
      else if p \<noteq> [] \<and> hd p = star then glob_loop U fd (tl p) s (Some (tl p, s))
      else if p \<noteq> [] \<and> snd (matchOne U p (hd s) fd)
      then glob_loop U fd (drop (fst (matchOne U p (hd s) fd)) p) (tl s) last_star
      else case last_star of
        None \<Rightarrow> Some False
      | Some (sp, ss) \<Rightarrow> glob_loop U fd sp (tl ss) (Some (sp, tl ss)))"

definition matchGlob :: "unicode \<Rightarrow> string \<Rightarrow> string \<Rightarrow> bool \<Rightarrow> bool option" where
  "matchGlob U pattern name ignoreCase =
     (let pattern1 = (if ignoreCase then ToLower U pattern else pattern);
          name1 = (if ignoreCase then ToLower U name else name)
      in glob_loop U ignoreCase (runes pattern1) (runes name1) None)"

section \<open>The width of a pattern element\<close>

text \<open>How much of the pattern one element takes does not depend on the rune it is tried on.\<close>

lemma bracket_rest:
  "map_option snd (bracket_loop U fd c first m q) = map_option snd (bracket_loop U fd c' first m' q)"
  by (induction U fd c first m q arbitrary: m' rule: bracket_loop.induct) simp_all

lemma bracket_rest_shorter: "bracket_loop U fd c first m q = Some (m', t) \<Longrightarrow> length t < length q"
proof (induction U fd c first m q rule: bracket_loop.induct)
  case (2 U fd c first matched x r)
  then show ?case using bracket_item_shorter[of U fd x r] by (fastforce split: if_splits)
qed simp

lemma matchBracket_width: "map_option fst (matchBracket U p c fd) = map_option fst (matchBracket U p c' fd)"
proof -
  define r where "r = (if tl p \<noteq> [] \<and> (hd (tl p) = rn CHR ''!'' \<or> hd (tl p) = rn CHR ''^'') then tl (tl p) else tl p)"
  have "map_option fst (matchBracket U p c fd) =
      map_option (\<lambda>t. length p - length t) (map_option snd (bracket_loop U fd c True False r))" for c
    by (cases "bracket_loop U fd c True False r") (simp_all add: matchBracket_def r_def Let_def split: prod.split)
  then show ?thesis using bracket_rest[of U fd c True False r c' False] by simp
qed

definition one_width :: "unicode \<Rightarrow> bool \<Rightarrow> rune list \<Rightarrow> nat" where
  "one_width U fd p = fst (matchOne U p 0 fd)"

lemma matchOne_width: "fst (matchOne U p c fd) = one_width U fd p"
  using matchBracket_width[of U p c fd 0]
  by (auto simp: one_width_def matchOne_def split: option.splits)

lemma matchBracket_bounds:
  assumes "p \<noteq> []" "matchBracket U p c fd = Some (w, b)"
  shows "1 \<le> w \<and> w \<le> length p"
proof -
  define r where "r = (if tl p \<noteq> [] \<and> (hd (tl p) = rn CHR ''!'' \<or> hd (tl p) = rn CHR ''^'') then tl (tl p) else tl p)"
  obtain m t where t: "bracket_loop U fd c True False r = Some (m, t)" and w: "w = length p - length t"
    using assms(2) by (cases "bracket_loop U fd c True False r")
      (auto simp: matchBracket_def r_def Let_def split: prod.splits)
  have "length t < length r" "length r \<le> length p"
    using bracket_rest_shorter[OF t] by (auto simp: r_def)
  then show ?thesis using w by simp
qed

lemma one_width_bounds:
  assumes "p \<noteq> []"
  shows "1 \<le> one_width U fd p \<and> one_width U fd p \<le> length p"
proof (cases "matchBracket U p 0 fd")
  case None
  then show ?thesis using assms by (cases p) (auto simp: one_width_def matchOne_def Suc_le_eq)
next
  case (Some wb)
  then show ?thesis
    using assms matchBracket_bounds[OF assms, of U 0 fd "fst wb" "snd wb"]
    by (cases p) (auto simp: one_width_def matchOne_def Suc_le_eq split: prod.split)
qed

section \<open>A reference matcher\<close>

text \<open>The meaning of a pattern by plain recursion: a star tries every remaining suffix.\<close>

function (sequential) glob_ref :: "unicode \<Rightarrow> bool \<Rightarrow> rune list \<Rightarrow> rune list \<Rightarrow> bool" where
  "glob_ref U fd [] s = (s = [])"
| "glob_ref U fd (x # p) [] = (x = star \<and> glob_ref U fd p [])"
| "glob_ref U fd (x # p) (c # s) =
     (if x = star then glob_ref U fd p (c # s) \<or> glob_ref U fd (x # p) s
      else snd (matchOne U (x # p) c fd) \<and> glob_ref U fd (drop (one_width U fd (x # p)) (x # p)) s)"
  by pat_completeness auto
termination
  by (relation "measure (\<lambda>(U, f, p, s). length p + length s)") auto

section \<open>The loop implements the reference\<close>

text \<open>The pattern left after \<open>k\<close> elements that are not stars.\<close>

fun after_ones :: "unicode \<Rightarrow> bool \<Rightarrow> nat \<Rightarrow> rune list \<Rightarrow> rune list option" where
  "after_ones U fd 0 p = Some p"
| "after_ones U fd (Suc k) p =
     (if p = [] \<or> hd p = star then None else after_ones U fd k (drop (one_width U fd p) p))"

lemma after_ones_step:
  "after_ones U fd k sp = Some p \<Longrightarrow> p \<noteq> [] \<Longrightarrow> hd p \<noteq> star \<Longrightarrow>
   after_ones U fd (Suc k) sp = Some (drop (one_width U fd p) p)"
proof (induction k arbitrary: sp)
  case (Suc k)
  then have sp: "sp \<noteq> []" "hd sp \<noteq> star" "after_ones U fd k (drop (one_width U fd sp) sp) = Some p"
    by (auto split: if_splits)
  show ?case
    using Suc.IH[OF sp(3) Suc.prems(2,3)] sp(1,2) by (simp only: after_ones.simps(2)[of U fd "Suc k" sp] simp_thms if_False)
qed simp

lemma after_ones_length: "after_ones U fd k sp = Some p \<Longrightarrow> length p \<le> length sp"
  by (induction k arbitrary: sp) (fastforce split: if_splits)+

lemma after_ones_ref:
  "after_ones U fd k sp = Some p \<Longrightarrow> glob_ref U fd sp x \<Longrightarrow> k \<le> length x \<and> glob_ref U fd p (drop k x)"
proof (induction k arbitrary: sp x)
  case (Suc k)
  then obtain y q where sp: "sp = y # q" "y \<noteq> star" by (cases sp) (auto split: if_splits)
  with Suc.prems(2) obtain c t where x: "x = c # t" by (cases x) auto
  show ?case using Suc.IH[of "drop (one_width U fd sp) sp" t] Suc.prems sp x by simp
qed simp

lemma glob_ref_Nil: "glob_ref U fd p [] = only_stars p"
  by (induction p) (auto simp: only_stars_def)

lemma glob_ref_star: "glob_ref U fd (star # p) s \<longleftrightarrow> (\<exists>i \<le> length s. glob_ref U fd p (drop i s))"
proof (induction s)
  case (Cons c s)
  have "(\<exists>i \<le> length (c # s). glob_ref U fd p (drop i (c # s))) \<longleftrightarrow>
      glob_ref U fd p (c # s) \<or> (\<exists>i \<le> length s. glob_ref U fd p (drop i s))"
    by (metis (no_types, lifting) Suc_le_mono drop0 drop_Suc_Cons le0 length_Cons not0_implies_Suc)
  then show ?case using Cons by simp
qed simp

lemma glob_ref_star_absorbs: "glob_ref U fd (star # p) (drop j s) \<Longrightarrow> glob_ref U fd (star # p) s"
  unfolding glob_ref_star
  by (metis (no_types, lifting) drop_drop drop_all le_cases order_refl)

text \<open>An earlier star can only find what the last one finds too.\<close>

lemma earlier_star:
  assumes "after_ones U fd k sp = Some (star # q)" and "glob_ref U fd (star # sp) (tl ss)"
  shows "glob_ref U fd (star # q) (drop k ss)"
proof -
  obtain i where "glob_ref U fd sp (drop i (tl ss))"
    using assms(2) unfolding glob_ref_star by blast
  then have "glob_ref U fd (star # q) (drop k (drop i (tl ss)))"
    using after_ones_ref[OF assms(1)] by blast
  moreover have "drop k (drop i (tl ss)) = drop (Suc i) (drop k ss)"
    by (simp add: drop_Suc[symmetric] add.commute)
  ultimately show ?thesis using glob_ref_star_absorbs by metis
qed

text \<open>When the name is used up, an earlier start of the last star leaves even less of it.\<close>

lemma name_used_up:
  assumes "after_ones U fd (length ss) sp = Some p" and "ss \<noteq> []"
  shows "\<not> glob_ref U fd (star # sp) (tl ss)"
proof
  assume "glob_ref U fd (star # sp) (tl ss)"
  then obtain i where "glob_ref U fd sp (drop i (tl ss))" unfolding glob_ref_star by blast
  from after_ones_ref[OF assms(1) this] show False using assms(2) by (cases ss) auto
qed

lemma glob_loop_star:
  assumes "after_ones U fd k sp = Some p" and "k \<le> length ss" and "s = drop k ss"
  shows "glob_loop U fd p s (Some (sp, ss)) =
    Some (glob_ref U fd p s \<or> (ss \<noteq> [] \<and> glob_ref U fd (star # sp) (tl ss)))"
  using assms
proof (induction "(length sp, length ss, length s)" arbitrary: sp ss k p s
    rule: wf_induct_rule[OF wf_lex_prod[OF wf_less_than wf_lex_prod[OF wf_less_than wf_less_than]]])
  case (1 sp ss s k p)
  note IH = 1(1)
  note inv = 1(2-4)
  show ?case
  proof (cases s)
    case Nil
    then have "k = length ss" using inv by simp
    then show ?thesis
      using Nil inv(1) name_used_up[of U fd ss sp p]
      by (subst glob_loop.simps) (auto simp: glob_ref_Nil)
  next
    case (Cons c t)
    have ss: "ss \<noteq> []" using Cons inv(3) by auto
    have k: "k < length ss" using Cons inv(2,3) by (metis drop_all leI list.distinct(1))
    have bk: "glob_loop U fd sp (tl ss) (Some (sp, tl ss)) = Some (glob_ref U fd (star # sp) (tl ss))"
    proof -
      obtain a r where ar: "ss = a # r" using ss by (cases ss) auto
      show ?thesis using IH[of sp r r 0 sp] ar by (cases r) (auto simp: only_stars_def glob_ref_Nil)
    qed
    show ?thesis
    proof (cases "p \<noteq> [] \<and> hd p = star")
      case True
      then obtain q where p: "p = star # q" by (cases p) auto
      have "length q < length sp" using after_ones_length[OF inv(1)] p by simp
      then have "glob_loop U fd q s (Some (q, s)) = Some (glob_ref U fd p s)"
        using IH[of q s s 0 q] Cons p by simp
      moreover have "glob_ref U fd (star # sp) (tl ss) \<Longrightarrow> glob_ref U fd p s"
        using earlier_star[of U fd k sp q ss] inv p by simp
      ultimately show ?thesis using Cons p ss by (subst glob_loop.simps) auto
    next
      case False
      show ?thesis
      proof (cases "p \<noteq> [] \<and> snd (matchOne U p c fd)")
        case True
        have t: "t = drop (Suc k) ss" using Cons inv(3) by (metis drop_Suc list.sel(3) tl_drop)
        have "glob_loop U fd (drop (one_width U fd p) p) t (Some (sp, ss)) =
            Some (glob_ref U fd (drop (one_width U fd p) p) t \<or> (ss \<noteq> [] \<and> glob_ref U fd (star # sp) (tl ss)))"
          using IH[of sp ss t "Suc k" "drop (one_width U fd p) p"]
            after_ones_step[OF inv(1)] True False t k Cons by simp
        then show ?thesis
          using True False Cons by (subst glob_loop.simps) (cases p; simp add: matchOne_width)
      next
        case nomatch: False
        then have "\<not> glob_ref U fd p s" using False Cons by (cases p) auto
        then show ?thesis
          using nomatch False Cons bk ss by (subst glob_loop.simps) auto
      qed
    qed
  qed
qed

lemma glob_loop_ref: "glob_loop U fd p s None = Some (glob_ref U fd p s)"
proof (induction s arbitrary: p)
  case Nil
  then show ?case by (subst glob_loop.simps) (simp add: glob_ref_Nil)
next
  case (Cons c s)
  show ?case
  proof (cases "p \<noteq> [] \<and> hd p = star")
    case True
    then obtain q where p: "p = star # q" by (cases p) auto
    show ?thesis
      using glob_loop_star[of U fd 0 q q "c # s" "c # s"] p by (subst glob_loop.simps) simp
  next
    case False
    then show ?thesis
      using Cons by (subst glob_loop.simps) (cases p; simp add: matchOne_width)
  qed
qed

text \<open>C3: The backtracking loop of \<open>matchGlob\<close>, which only ever goes back to the last star, returns for every pattern and name what the reference matcher returns, so it ends and misses no match.\<close>

theorem matchGlob_ref:
  "matchGlob U pattern name ignoreCase =
     Some (if ignoreCase then glob_ref U True (runes (ToLower U pattern)) (runes (ToLower U name))
           else glob_ref U False (runes pattern) (runes name))"
  by (simp add: matchGlob_def glob_loop_ref)

end
