(* ===== verification/Find_Eval.thy ===== *)
theory Find_Eval
  imports Find_Parser Find_Glob
begin

unbundle bit_operations_syntax

text \<open>
  Evaluation of a find expression on one entry (\<^verbatim>\<open>command/internal/find/matcher.go\<close>).
  The closure \<^verbatim>\<open>isEmpty\<close> reads a directory the first time it is called and changes the
  walker, so evaluation threads a state \<open>'w\<close> through it.  Times are nanoseconds since the
  epoch; the number of days is the exact quotient, where Go divides in \<^verbatim>\<open>float64\<close>.
  \<open>re_match\<close> is \<^verbatim>\<open>MatchString\<close> of Go's regexp engine on a compiled source.
\<close>

section \<open>Data\<close>

record 'w evalCtx =
  c_name :: string
  c_path :: string
  c_typ :: fmode
  c_isEmpty :: "'w \<Rightarrow> bool \<times> 'w"
  c_mtime :: int
  c_size :: int
  c_mode :: fmode
  c_now :: int
  c_newer :: "string \<rightharpoonup> int"

record evalResult =
  er_matches :: bool
  er_pruned :: bool
  er_actions :: "action list"

record libs =
  lib_unicode :: unicode
  lib_re_match :: "string \<Rightarrow> string \<Rightarrow> bool"

section \<open>Tests\<close>

definition compare :: "int \<Rightarrow> comparison \<Rightarrow> int \<Rightarrow> bool" where
  "compare got cmp n =
     (case cmp of cmpMore \<Rightarrow> got > n | cmpLess \<Rightarrow> got < n | cmpExact \<Rightarrow> got = n)"

definition fileTypeLetter :: "fmode \<Rightarrow> char" where
  "fileTypeLetter typ =
     (if mode_isRegular typ then CHR ''f''
      else if typ AND ModeDir \<noteq> 0 then CHR ''d''
      else if typ AND ModeSymlink \<noteq> 0 then CHR ''l''
      else if typ AND ModeNamedPipe \<noteq> 0 then CHR ''p''
      else if typ AND ModeSocket \<noteq> 0 then CHR ''s''
      else if typ AND ModeCharDevice \<noteq> 0 then CHR ''c''
      else if typ AND ModeDevice \<noteq> 0 then CHR ''b''
      else CHR 0x00)"

definition unixMode :: "fmode \<Rightarrow> int" where
  "unixMode m =
     (uint (mode_perm m)
       OR (if m AND ModeSetuid \<noteq> 0 then 0x800 else 0)
       OR (if m AND ModeSetgid \<noteq> 0 then 0x400 else 0)
       OR (if m AND ModeSticky \<noteq> 0 then 0x200 else 0))"

definition concatActions :: "action list \<Rightarrow> action list \<Rightarrow> action list" where
  "concatActions a b = (if a = [] then b else if b = [] then a else a @ b)"

text \<open>Go's integer division truncates; \<^verbatim>\<open>time.Duration\<close> saturates at 64 bits.\<close>

definition go_div :: "int \<Rightarrow> int \<Rightarrow> int" where
  "go_div a b = (if a < 0 then - ((- a) div b) else a div b)"

definition time_sub :: "int \<Rightarrow> int \<Rightarrow> int" where
  "time_sub t u = max (- (2 ^ 63)) (min (2 ^ 63 - 1) (t - u))"

definition day_ns :: int where
  "day_ns = 24 * 60 * 60 * 1000000000"

definition size_test :: "int \<Rightarrow> comparison \<Rightarrow> int \<Rightarrow> char \<Rightarrow> bool" where
  "size_test sz cmp n unit =
     (if unit = CHR ''b'' then compare (go_div (sz + 511) 512) cmp n
      else if unit = CHR ''c'' then compare sz cmp n
      else compare sz cmp (n * sizeMultiplier unit))"

definition perm_test :: "fmode \<Rightarrow> permMatch \<Rightarrow> int \<Rightarrow> bool" where
  "perm_test m match v =
     (let fileMode = unixMode m; want = v AND 0xFFF
      in case match of
           permAll \<Rightarrow> fileMode AND want = want
         | permAny \<Rightarrow> fileMode AND want \<noteq> 0
         | permExact \<Rightarrow> fileMode = want)"

section \<open>Evaluation\<close>

definition matched :: "bool \<Rightarrow> evalResult" where
  "matched b = \<lparr>er_matches = b, er_pruned = False, er_actions = []\<rparr>"

definition both :: "evalResult \<Rightarrow> evalResult \<Rightarrow> evalResult" where
  "both left right =
     \<lparr>er_matches = er_matches right, er_pruned = er_pruned left \<or> er_pruned right,
      er_actions = concatActions (er_actions left) (er_actions right)\<rparr>"

fun eval :: "libs \<Rightarrow> 'w evalCtx \<Rightarrow> expr \<Rightarrow> 'w \<Rightarrow> evalResult \<times> 'w" where
  "eval L c (exprName pattern ic) w = (matched (matchGlob (lib_unicode L) pattern (c_name c) ic = Some True), w)"
| "eval L c (exprPath pattern ic) w = (matched (matchGlob (lib_unicode L) pattern (c_path c) ic = Some True), w)"
| "eval L c (exprRegex pattern ic re) w = (matched (lib_re_match L re (c_path c)), w)"
| "eval L c (exprType t) w = (matched (fileTypeLetter (c_typ c) = t), w)"
| "eval L c exprEmpty w = (let (b, w') = c_isEmpty c w in (matched b, w'))"
| "eval L c (exprMtime cmp n) w =
     (let days = time_sub (c_now c) (c_mtime c) div day_ns in (matched (compare days cmp n), w))"
| "eval L c (exprNewer refPath) w =
     (matched (case c_newer c refPath of None \<Rightarrow> False | Some ref \<Rightarrow> c_mtime c > ref), w)"
| "eval L c (exprSize cmp n unit) w = (matched (size_test (c_size c) cmp n unit), w)"
| "eval L c (exprPerm match n) w = (matched (perm_test (c_mode c) match n), w)"
| "eval L c exprPrune w = ((matched True)\<lparr>er_pruned := True\<rparr>, w)"
| "eval L c exprTrue w = (matched True, w)"
| "eval L c (exprAction act) w = ((matched True)\<lparr>er_actions := [act]\<rparr>, w)"
| "eval L c (exprNot e) w = (let (inner, w') = eval L c e w in (inner\<lparr>er_matches := \<not> er_matches inner\<rparr>, w'))"
| "eval L c (exprAnd l r) w =
     (let (left, w1) = eval L c l w
      in if \<not> er_matches left then (left, w1)
         else let (right, w2) = eval L c r w1 in (both left right, w2))"
| "eval L c (exprOr l r) w =
     (let (left, w1) = eval L c l w
      in if er_matches left then (left, w1)
         else let (right, w2) = eval L c r w1 in (both left right, w2))"

section \<open>Walking the expression\<close>

text \<open>\<open>walk\<close> visits an expression before its parts; the callers fold over that order.\<close>

fun walk :: "expr \<Rightarrow> expr list" where
  "walk (exprNot e) = exprNot e # walk e"
| "walk (exprAnd l r) = exprAnd l r # walk l @ walk r"
| "walk (exprOr l r) = exprOr l r # walk l @ walk r"
| "walk e = [e]"

definition walk_opt :: "expr option \<Rightarrow> expr list" where
  "walk_opt e = (case e of None \<Rightarrow> [] | Some x \<Rightarrow> walk x)"

fun stat_kind :: "expr \<Rightarrow> bool" where
  "stat_kind exprEmpty = True"
| "stat_kind (exprMtime _ _) = True"
| "stat_kind (exprNewer _) = True"
| "stat_kind (exprSize _ _ _) = True"
| "stat_kind (exprPerm _ _) = True"
| "stat_kind _ = False"

definition needsStat :: "expr option \<Rightarrow> bool" where
  "needsStat e = (\<exists>x \<in> set (walk_opt e). stat_kind x)"

definition actions :: "expr option \<Rightarrow> action list" where
  "actions e = concat (map (\<lambda>x. case x of exprAction a \<Rightarrow> [a] | _ \<Rightarrow> []) (walk_opt e))"

definition newerRefs :: "expr option \<Rightarrow> string list" where
  "newerRefs e = concat (map (\<lambda>x. case x of exprNewer p \<Rightarrow> [p] | _ \<Rightarrow> []) (walk_opt e))"

section \<open>Properties\<close>

text \<open>
  The truth value an expression has by itself, with no order of evaluation; \<open>w\<close> is the state
  before the entry is looked at.
\<close>

fun holds :: "libs \<Rightarrow> 'w evalCtx \<Rightarrow> 'w \<Rightarrow> expr \<Rightarrow> bool" where
  "holds L c w (exprNot e) = (\<not> holds L c w e)"
| "holds L c w (exprAnd l r) = (holds L c w l \<and> holds L c w r)"
| "holds L c w (exprOr l r) = (holds L c w l \<or> holds L c w r)"
| "holds L c w e = er_matches (fst (eval L c e w))"

lemma concatActions_append [simp]: "concatActions a b = a @ b"
  by (simp add: concatActions_def)

lemma matched_simps [simp]:
  "er_matches (matched b) = b" "er_actions (matched b) = []" "er_pruned (matched b) = False"
  by (simp_all add: matched_def)

lemma both_simps [simp]:
  "er_matches (both l r) = er_matches r" "er_pruned (both l r) = (er_pruned l \<or> er_pruned r)"
  "er_actions (both l r) = er_actions l @ er_actions r"
  by (simp_all add: both_def)

lemma eval_projections:
  "eval L c exprEmpty w = (matched (fst (c_isEmpty c w)), snd (c_isEmpty c w))"
  "eval L c (exprNot e) w =
     ((fst (eval L c e w))\<lparr>er_matches := \<not> er_matches (fst (eval L c e w))\<rparr>, snd (eval L c e w))"
  "eval L c (exprAnd l r) w =
     (if er_matches (fst (eval L c l w))
      then (both (fst (eval L c l w)) (fst (eval L c r (snd (eval L c l w)))), snd (eval L c r (snd (eval L c l w))))
      else eval L c l w)"
  "eval L c (exprOr l r) w =
     (if er_matches (fst (eval L c l w)) then eval L c l w
      else (both (fst (eval L c l w)) (fst (eval L c r (snd (eval L c l w)))), snd (eval L c r (snd (eval L c l w)))))"
  by (simp_all add: Let_def split: prod.split)

declare eval.simps(5,13,14,15) [simp del]

lemma actions_simps [simp]:
  "actions None = []"
  "actions (Some (exprNot e)) = actions (Some e)"
  "actions (Some (exprAnd l r)) = actions (Some l) @ actions (Some r)"
  "actions (Some (exprOr l r)) = actions (Some l) @ actions (Some r)"
  "actions (Some (exprAction a)) = [a]"
  by (simp_all add: actions_def walk_opt_def)

text \<open>
  What the evaluator needs of the \<^verbatim>\<open>isEmpty\<close> closure: asking a second time gives the same
  answer and changes nothing.
\<close>

locale empty_test =
  fixes isEmpty :: "'w \<Rightarrow> bool \<times> 'w"
  assumes asked_again: "isEmpty (snd (isEmpty w)) = (fst (isEmpty w), snd (isEmpty w))"
begin

lemma eval_state:
  assumes c: "c_isEmpty c = isEmpty"
  shows "w' \<in> {w, snd (isEmpty w)} \<Longrightarrow> snd (eval L c e w') \<in> {w, snd (isEmpty w)}"
proof (induction e arbitrary: w')
  case exprEmpty
  then show ?case using asked_again[of w] c by (auto simp: eval_projections)
next
  case (exprAnd l r)
  then show ?case by (simp add: eval_projections)
next
  case (exprOr l r)
  then show ?case by (simp add: eval_projections)
qed (simp_all add: eval_projections(2) Let_def)

lemma eval_holds:
  assumes c: "c_isEmpty c = isEmpty"
  shows "w' \<in> {w, snd (isEmpty w)} \<Longrightarrow> er_matches (fst (eval L c e w')) = holds L c w e"
proof (induction e arbitrary: w')
  case exprEmpty
  then show ?case using asked_again[of w] c by (auto simp: eval_projections)
next
  case (exprAnd l r)
  then show ?case using eval_state[OF c exprAnd.prems] by (simp add: eval_projections)
next
  case (exprOr l r)
  then show ?case using eval_state[OF c exprOr.prems] by (simp add: eval_projections)
qed (simp_all add: eval_projections(2) Let_def)

end

lemma eval_actions_subseq': "subseq (er_actions (fst (eval L c e w))) (actions (Some e))"
proof (induction e arbitrary: w)
  case (exprAnd l r)
  then show ?case by (simp add: eval_projections list_emb_append_mono list_emb_prefix)
next
  case (exprOr l r)
  then show ?case by (simp add: eval_projections list_emb_append_mono list_emb_prefix)
qed (simp_all add: eval_projections Let_def)

text \<open>Evaluation reaches actions in the order they are written and each at most as often as it is written: the actions reached are a subsequence of the actions of the expression.\<close>

theorem eval_actions_subseq: "subseq (er_actions (fst (eval L c e w))) (actions (Some e))"
  by (rule eval_actions_subseq')

text \<open>Without a unit letter -size counts 512-byte blocks rounded up: -size n holds exactly for the sizes that need n blocks, -size +n for more and -size -n for fewer.\<close>

theorem size_blocks:
  assumes "0 \<le> sz"
  shows "size_test sz cmp n (CHR ''b'') \<longleftrightarrow>
    (case cmp of cmpExact \<Rightarrow> 512 * (n - 1) < sz \<and> sz \<le> 512 * n
     | cmpMore \<Rightarrow> 512 * n < sz | cmpLess \<Rightarrow> sz \<le> 512 * (n - 1))"
  using assms by (cases cmp) (auto simp: size_test_def compare_def go_div_def)

theorem size_blocks_witness:
  "size_test 513 cmpExact 2 (CHR ''b'') \<and> \<not> size_test 512 cmpExact 2 (CHR ''b'')"
  using size_blocks[of 513 cmpExact 2] size_blocks[of 512 cmpExact 2] by simp

lemma unixMode_nonneg: "0 \<le> unixMode m"
  by (auto simp: unixMode_def)

text \<open>-perm -MODE holds when every bit of MODE is set in the Unix mode of the entry and -perm /MODE when at least one is, for the twelve mode bits.\<close>

theorem perm_bits:
  "(perm_test m permAll v \<longleftrightarrow> {i. i < 12 \<and> bit v i} \<subseteq> {i. bit (unixMode m) i}) \<and>
   (perm_test m permAny v \<longleftrightarrow> {i. i < 12 \<and> bit v i} \<inter> {i. bit (unixMode m) i} \<noteq> {})"
proof -
  have mask: "(0xFFF :: int) = mask 12" by (simp add: mask_eq_exp_minus_1)
  show ?thesis
    unfolding perm_test_def mask Let_def
    by (auto simp: bit_eq_iff bit_and_iff bit_mask_iff)
qed

end
