(* ===== verification/Cmd_Path.thy ===== *)
theory Cmd_Path
  imports Registry
begin

text \<open>
  How commands turn an operand into a path of their filesystem.  Twelve commands hold the same
  copy of \<open>resolvePath\<close> (the one of \<^verbatim>\<open>command/internal/find/find.go\<close> is modelled);
  grep has its own, which roots the path before cleaning it.
\<close>

definition resolvePath :: "string \<Rightarrow> string \<Rightarrow> string" where
  "resolvePath ecdir p =
     (let dir = (if ecdir = [] then ''.'' else ecdir)
      in if path_isAbs p then
           (let p1 = trimPrefix p ''/'' in if p1 = [] then ''.'' else path_clean p1)
         else
           (let joined = path_join [dir, p] in if joined = [] then ''.'' else joined))"

definition grep_resolvePath :: "string \<Rightarrow> string \<Rightarrow> string" where
  "grep_resolvePath ecdir p =
     (let p1 = (if \<not> path_isAbs p then path_join [ecdir, p] else p);
          p2 = trimPrefix (path_clean (CHR ''/'' # p1)) ''/''
      in if p2 = [] then ''.'' else p2)"

section \<open>Where the resolved paths lie\<close>

lemma resolvePath_not_Nil [simp]: "resolvePath d p \<noteq> []"
  by (simp add: resolvePath_def Let_def)

lemma normal_comps_unrooted: "normal_comps True cs \<Longrightarrow> normal_comps False cs"
  unfolding normal_comps_def by blast

lemma grep_resolvePath_render:
  "\<exists>cs. grep_resolvePath d p = render_path False cs \<and> normal_comps True cs"
proof -
  define p1 where "p1 = (if \<not> path_isAbs p then path_join [d, p] else p)"
  obtain rooted cs where c: "path_clean (CHR ''/'' # p1) = render_path rooted cs"
    and n: "normal_comps rooted cs" and r: "rooted = path_isAbs (CHR ''/'' # p1)"
    by (rule path_clean_cases[of "CHR ''/'' # p1"])
  have rooted: "rooted" using r by (simp add: path_isAbs_def)
  have "cs \<noteq> [] \<Longrightarrow> joinWith ''/'' cs \<noteq> []"
    using n joinWith_hd[of cs "''/''"] by (auto simp: normal_comps_nonempty)
  then have "grep_resolvePath d p = render_path False cs"
    using c rooted by (auto simp: grep_resolvePath_def p1_def[symmetric] Let_def render_path_def trimPrefix_def)
  then show ?thesis using n rooted by auto
qed

lemma grep_resolvePath_ok: "pwd_ok (grep_resolvePath d p)"
proof -
  obtain cs where cs: "grep_resolvePath d p = render_path False cs" "normal_comps True cs"
    using grep_resolvePath_render by blast
  have "\<not> (cs \<noteq> [] \<and> hd cs = ''..'')"
    using cs(2) normal_comps_rooted dotdot_not_proper by (metis hd_in_set)
  then show ?thesis
    using cs by (simp add: pwd_ok_def path_clean_render render_escapes normal_comps_unrooted)
qed

interpretation grep: path_resolver "grep_resolvePath d" for d
  by unfold_locales (rule grep_resolvePath_ok)

text \<open>The resolver of grep keeps every operand inside the filesystem: whatever the working directory and the operand, its result is a clean relative path with no \<^verbatim>\<open>..\<close> component.\<close>

theorem grep_resolvePath_confined:
  "path_clean (grep_resolvePath d p) = grep_resolvePath d p \<and> \<not> escapes (grep_resolvePath d p)
   \<and> \<not> path_isAbs (grep_resolvePath d p)"
proof -
  have "\<not> path_isAbs (grep_resolvePath d p)"
    using grep_resolvePath_render[of d p] isAbs_render normal_comps_unrooted by metis
  then show ?thesis using grep.resolve_inside grep.resolve_stable by blast
qed

text \<open>The resolver of the other commands always gives a clean, nonempty path, but an operand with enough \<^verbatim>\<open>..\<close> components leaves the root: from the root directory, \<^verbatim>\<open>../x\<close> stays \<^verbatim>\<open>../x\<close>.\<close>

theorem resolvePath_clean_not_confined:
  "path_clean (resolvePath d p) = resolvePath d p \<and> resolvePath ''.'' ''../x'' = ''../x'' \<and> escapes ''../x''"
proof -
  have "path_clean (resolvePath d p) = resolvePath d p"
    by (auto simp: resolvePath_def Let_def path_join_def split: list.split)
  moreover have "resolvePath ''.'' ''../x'' = ''../x''" "escapes ''../x''" by code_simp+
  ultimately show ?thesis by blast
qed

end
