(* ===== verification/Find_Walk.thy ===== *)
theory Find_Walk
  imports Find_Eval Cmd_Path
begin

unbundle bit_operations_syntax

text \<open>
  The walk of find and the actions it collects (\<^verbatim>\<open>command/internal/find/find.go\<close>).  The
  filesystem is not changed while the walk runs, so it is part of the environment
  \<open>walk_env\<close>; the fields of \<^verbatim>\<open>walker\<close> that change are the record \<open>walker\<close>.
  \<open>we_ctx k\<close> is the error of the \<open>k\<close>-th check of the context, \<open>w_ticks\<close> counts the
  checks.  The recursion of \<open>visit\<close> follows the depth of the directories, which only the
  filesystem bounds, so it takes fuel and gives \<^const>\<open>None\<close> when the fuel does not
  suffice.  The shell that \<^verbatim>\<open>-exec\<close> runs is a parameter.
\<close>

section \<open>Data\<close>

datatype walk_err = Fatal string fs_err | CtxErr string

datatype effect = Message string | Act action string printfData

record 's walk_env =
  we_fs :: "'s billy"
  we_state :: 's
  we_libs :: libs
  we_opts :: options
  we_hasAction :: bool
  we_needsStat :: bool
  we_followStart :: bool
  we_now :: int
  we_newer :: "string \<rightharpoonup> int"
  we_ctx :: "nat \<Rightarrow> string option"

record walker =
  w_start :: string
  w_startDev :: "nat option"
  w_effects :: "effect list"
  w_fatal :: "walk_err option"
  w_ticks :: nat

record node =
  n_display :: string
  n_fsPath :: string
  n_name :: string
  n_depth :: nat
  n_typ :: fmode
  n_isFile :: bool
  n_isDir :: bool
  n_info :: "file_info option"
  n_read :: bool
  n_entries :: "dir_entry list"
  n_unreadable :: string

section \<open>Errors\<close>

definition unreadableReason :: "fs_err \<Rightarrow> string option" where
  "unreadableReason err = (case err of
     ErrPermission \<Rightarrow> Some ''Permission denied''
   | ErrNotExist \<Rightarrow> Some ''No such file or directory''
   | ENOTDIR \<Rightarrow> Some ''Not a directory''
   | EIO \<Rightarrow> Some ''Input/output error''
   | ELOOP \<Rightarrow> Some ''Too many levels of symbolic links''
   | ENAMETOOLONG \<Rightarrow> Some ''File name too long''
   | _ \<Rightarrow> None)"

datatype del_err = ErrDirNotEmpty | DelFs fs_err

text \<open>The message of an error outside the known ones; \<^verbatim>\<open>fs.ErrExist\<close> has a fixed text.\<close>

definition err_text :: "fs_err \<Rightarrow> string" where
  "err_text err = (case err of ErrOther m \<Rightarrow> m | ErrExist \<Rightarrow> ''file already exists'' | _ \<Rightarrow> [])"

definition errorReason :: "del_err \<Rightarrow> string" where
  "errorReason e = (case e of
     ErrDirNotEmpty \<Rightarrow> ''Directory not empty''
   | DelFs err \<Rightarrow> (case unreadableReason err of Some r \<Rightarrow> r | None \<Rightarrow> err_text err))"

section \<open>Nodes\<close>

definition joinDisplay :: "string \<Rightarrow> string \<Rightarrow> string" where
  "joinDisplay parent name = (if hasSuffix parent ''/'' then parent @ name else parent @ ''/'' @ name)"

definition bare_node :: "string \<Rightarrow> string \<Rightarrow> string \<Rightarrow> nat \<Rightarrow> fmode \<Rightarrow> node" where
  "bare_node display fsPath name depth typ =
     \<lparr>n_display = display, n_fsPath = fsPath, n_name = name, n_depth = depth, n_typ = typ,
      n_isFile = mode_isRegular typ, n_isDir = mode_isDir typ, n_info = None, n_read = False,
      n_entries = [], n_unreadable = []\<rparr>"

definition newNode :: "string \<Rightarrow> string \<Rightarrow> string \<Rightarrow> nat \<Rightarrow> file_info \<Rightarrow> node" where
  "newNode display fsPath name depth info =
     (bare_node display fsPath name depth (mode_type (fi_mode info)))\<lparr>n_info := Some info\<rparr>"

definition otherDevice :: "'s walk_env \<Rightarrow> walker \<Rightarrow> node \<Rightarrow> bool" where
  "otherDevice E w n =
     (if \<not> xdev (we_opts E) then False
      else case (w_startDev w, n_info n) of
        (Some startDev, Some info) \<Rightarrow>
          (case fi_dev info of Some dev \<Rightarrow> dev \<noteq> startDev | None \<Rightarrow> False)
      | _ \<Rightarrow> False)"

definition readDir :: "'s walk_env \<Rightarrow> node \<times> walker \<Rightarrow> node \<times> walker" where
  "readDir E nw =
     (let (n, w) = nw in
      if n_read n then (n, w)
      else let n1 = n\<lparr>n_read := True\<rparr> in
        case fs_readdir (we_fs E) (we_state E) (n_fsPath n) of
          Inl err \<Rightarrow>
            (case unreadableReason err of
               None \<Rightarrow> (n1, if w_fatal w = None then w\<lparr>w_fatal := Some (Fatal (n_display n) err)\<rparr> else w)
             | Some reason \<Rightarrow> (n1\<lparr>n_unreadable := reason\<rparr>, w))
        | Inr entries \<Rightarrow> (n1\<lparr>n_entries := sort_entries entries\<rparr>, w))"

definition diagnose :: "node \<Rightarrow> walker \<Rightarrow> walker" where
  "diagnose n w =
     (if n_unreadable n \<noteq> []
      then w\<lparr>w_effects := w_effects w @ [Message (''find: '' @ n_display n @ '': '' @ n_unreadable n @ nl)]\<rparr>
      else w)"

section \<open>Evaluation of a node\<close>

definition node_data :: "'s walk_env \<Rightarrow> walker \<Rightarrow> node \<Rightarrow> printfData" where
  "node_data E w n =
     \<lparr>pd_path = n_display n, pd_name = n_name n,
      pd_size = (case n_info n of None \<Rightarrow> 0 | Some i \<Rightarrow> fi_size i),
      pd_mtime = (case n_info n of None \<Rightarrow> we_now E | Some i \<Rightarrow> fi_mtime i),
      pd_mode = (case n_info n of None \<Rightarrow> 0x1A4 | Some i \<Rightarrow> fi_mode i),
      pd_isDir = n_isDir n, pd_depth = n_depth n, pd_start = w_start w\<rparr>"

definition node_isEmpty :: "'s walk_env \<Rightarrow> int \<Rightarrow> node \<times> walker \<Rightarrow> bool \<times> node \<times> walker" where
  "node_isEmpty E sz nw =
     (let (n, w) = nw in
      if n_isFile n then (sz = 0, nw)
      else if \<not> n_isDir n then (False, nw)
      else let (n1, w1) = readDir E nw
           in (n_unreadable n1 = [] \<and> w_fatal w1 = None \<and> n_entries n1 = [], (n1, w1)))"

definition node_ctx :: "'s walk_env \<Rightarrow> printfData \<Rightarrow> node \<Rightarrow> (node \<times> walker) evalCtx" where
  "node_ctx E data n =
     \<lparr>c_name = n_name n, c_path = n_display n, c_typ = n_typ n,
      c_isEmpty = node_isEmpty E (pd_size data), c_mtime = pd_mtime data, c_size = pd_size data,
      c_mode = pd_mode data, c_now = we_now E, c_newer = we_newer E\<rparr>"

text \<open>\<open>evaluate\<close> returns the effects, whether \<^verbatim>\<open>-prune\<close> fired, and the node and walker after it.\<close>

definition evaluate :: "'s walk_env \<Rightarrow> node \<Rightarrow> walker \<Rightarrow> effect list \<times> bool \<times> node \<times> walker" where
  "evaluate E n w =
     (if int (n_depth n) < minDepth (we_opts E) then ([], False, n, w)
      else
        let data = node_data E w n;
            (res, n1, w1) = (case o_expr (we_opts E) of
               None \<Rightarrow> (matched True, n, w)
             | Some e \<Rightarrow> eval (we_libs E) (node_ctx E data n) e (n, w));
            reached = (if \<not> we_hasAction E \<and> er_matches res then [plain_action 0 actPrint]
                       else er_actions res)
        in (map (\<lambda>a. Act a (n_fsPath n) data) reached, er_pruned res, n1, w1))"

section \<open>The walk\<close>

definition child_node :: "'s walk_env \<Rightarrow> node \<Rightarrow> dir_entry \<Rightarrow> node option" where
  "child_node E n entry =
     (let display = joinDisplay (n_display n) (de_name entry);
          fsPath = path_join [n_fsPath n, de_name entry]
      in if we_needsStat E then
           (case fs_lstat (we_fs E) (we_state E) fsPath of
              Inl _ \<Rightarrow> None
            | Inr info \<Rightarrow> Some (newNode display fsPath (de_name entry) (Suc (n_depth n)) info))
         else Some (bare_node display fsPath (de_name entry) (Suc (n_depth n)) (de_type entry)))"

text \<open>The loop of \<open>visitChildren\<close>; \<open>visit\<close> is the recursive call.\<close>

fun visitChildren ::
  "(node \<Rightarrow> walker \<Rightarrow> (walk_err option \<times> walker) option) \<Rightarrow> 's walk_env \<Rightarrow> node \<Rightarrow> dir_entry list
   \<Rightarrow> walker \<Rightarrow> (walk_err option \<times> walker) option" where
  "visitChildren visit E n [] w = Some (None, w)"
| "visitChildren visit E n (entry # es) w =
     (case child_node E n entry of
        None \<Rightarrow> visitChildren visit E n es w
      | Some child \<Rightarrow>
          (case visit child w of
             None \<Rightarrow> None
           | Some (Some err, w') \<Rightarrow> Some (Some err, w')
           | Some (None, w') \<Rightarrow> visitChildren visit E n es w'))"

definition at_max :: "options \<Rightarrow> nat \<Rightarrow> bool" where
  "at_max opts depth \<longleftrightarrow> maxDepth opts \<ge> 0 \<and> int depth \<ge> maxDepth opts"

definition add_effects :: "effect list \<Rightarrow> walker \<Rightarrow> walker" where
  "add_effects es w = w\<lparr>w_effects := w_effects w @ es\<rparr>"

definition visit_depth ::
  "(node \<Rightarrow> walker \<Rightarrow> (walk_err option \<times> walker) option) \<Rightarrow> 's walk_env \<Rightarrow> node \<Rightarrow> walker
   \<Rightarrow> (walk_err option \<times> walker) option" where
  "visit_depth visit E n w =
     (let descend = (n_isDir n \<and> \<not> at_max (we_opts E) (n_depth n) \<and> \<not> otherDevice E w n);
          (n1, w1) = (if descend then readDir E (n, w) else (n, w))
      in case (if descend then visitChildren visit E n1 (n_entries n1) w1 else Some (None, w1)) of
           None \<Rightarrow> None
         | Some (Some err, w2) \<Rightarrow> Some (Some err, w2)
         | Some (None, w2) \<Rightarrow>
             (let (evaluated, pruned, n3, w3) = evaluate E n1 w2
              in if w_fatal w3 \<noteq> None then Some (w_fatal w3, w3)
                 else Some (None, add_effects evaluated (diagnose n3 w3))))"

definition visit_pre ::
  "(node \<Rightarrow> walker \<Rightarrow> (walk_err option \<times> walker) option) \<Rightarrow> 's walk_env \<Rightarrow> node \<Rightarrow> walker
   \<Rightarrow> (walk_err option \<times> walker) option" where
  "visit_pre visit E n w =
     (let (evaluated, pruned, n1, w1) = evaluate E n w;
          w2 = add_effects evaluated w1;
          descend = (n_isDir n1 \<and> \<not> pruned \<and> \<not> at_max (we_opts E) (n_depth n1) \<and> \<not> otherDevice E w2 n1);
          (n3, w3) = (if descend then readDir E (n1, w2) else (n1, w2))
      in if w_fatal w3 \<noteq> None then Some (w_fatal w3, w3)
         else let w4 = diagnose n3 w3
              in if descend then visitChildren visit E n3 (n_entries n3) w4 else Some (None, w4))"

primrec visit :: "nat \<Rightarrow> 's walk_env \<Rightarrow> node \<Rightarrow> walker \<Rightarrow> (walk_err option \<times> walker) option" where
  "visit 0 E n w = None"
| "visit (Suc fuel) E n w =
     (case we_ctx E (w_ticks w) of
        Some m \<Rightarrow> Some (Some (CtxErr m), w\<lparr>w_ticks := Suc (w_ticks w)\<rparr>)
      | None \<Rightarrow>
          (let w1 = w\<lparr>w_ticks := Suc (w_ticks w)\<rparr>
           in if depthFirst (we_opts E) then visit_depth (visit fuel E) E n w1
              else visit_pre (visit fuel E) E n w1))"

definition start_name :: "string \<Rightarrow> string" where
  "start_name start =
     (let name = trimRightByte start slash
      in if name = [] then ''/''
         else case lastIndexByte name slash of None \<Rightarrow> name | Some idx \<Rightarrow> drop (Suc idx) name)"

definition walkStart ::
  "nat \<Rightarrow> 's walk_env \<Rightarrow> string \<Rightarrow> string \<Rightarrow> walker \<Rightarrow> (walk_err option \<times> walker) option" where
  "walkStart fuel E dir start w0 =
     (let w = w0\<lparr>w_start := start\<rparr>; fsPath = resolvePath dir start
      in case fs_lstat (we_fs E) (we_state E) fsPath of
           Inl _ \<Rightarrow> Some (None, add_effects [Message (''find: '' @ start @ '': No such file or directory'' @ nl)] w)
         | Inr linfo \<Rightarrow>
             (let info = (if we_followStart E \<and> fi_mode linfo AND ModeSymlink \<noteq> 0
                          then (case fs_stat (we_fs E) (we_state E) fsPath of Inr target \<Rightarrow> target | Inl _ \<Rightarrow> linfo)
                          else linfo)
              in visit fuel E (newNode start fsPath (start_name start) 0 info) (w\<lparr>w_startDev := fi_dev info\<rparr>)))"

fun walk_starts ::
  "nat \<Rightarrow> 's walk_env \<Rightarrow> string \<Rightarrow> string list \<Rightarrow> walker \<Rightarrow> (walk_err option \<times> walker) option" where
  "walk_starts fuel E dir [] w = Some (None, w)"
| "walk_starts fuel E dir (start # rest) w =
     (case walkStart fuel E dir start w of
        None \<Rightarrow> None
      | Some (Some err, w') \<Rightarrow> Some (Some err, w')
      | Some (None, w') \<Rightarrow> walk_starts fuel E dir rest w')"

section \<open>Applying the effects\<close>

text \<open>
  The shell interpreter and its parser are mvdan.cc/sh: quoting an argument may fail, parsing
  may fail, and running a program gives its error value, its output and the filesystem after
  it.  \<open>sh_q\<close> is the rendering of \<^verbatim>\<open>%q\<close>.
\<close>

record 's shell =
  sh_quote :: "string \<Rightarrow> string option"
  sh_parse :: "string \<Rightarrow> bool"
  sh_run :: "string \<Rightarrow> 's \<Rightarrow> exit_result \<times> string \<times> string \<times> 's"
  sh_q :: "string \<Rightarrow> string"

record 's apply_state =
  a_out :: string
  a_err :: string
  a_state :: 's
  a_exit :: nat
  a_order :: "action list"
  a_batches :: "nat \<rightharpoonup> string list"
  a_fail :: "string option"

text \<open>The quoting loop of \<open>runExec\<close>: \<^const>\<open>Inl\<close> the argument that cannot be quoted.\<close>

fun quote_args :: "'s shell \<Rightarrow> string list \<Rightarrow> string + string list" where
  "quote_args S [] = Inr []"
| "quote_args S (a # as) =
     (case sh_quote S a of
        None \<Rightarrow> Inl a
      | Some q \<Rightarrow> (case quote_args S as of Inl b \<Rightarrow> Inl b | Inr qs \<Rightarrow> Inr (q # qs)))"

definition runExec :: "'s shell \<Rightarrow> string list \<Rightarrow> 's apply_state \<Rightarrow> 's apply_state" where
  "runExec S argv st =
     (case quote_args S argv of
        Inl a \<Rightarrow> st\<lparr>a_err := a_err st @ ''find: cannot quote argument '' @ sh_q S a @ nl, a_exit := 1\<rparr>
      | Inr qs \<Rightarrow>
          (let src = joinWith '' '' qs
           in if \<not> sh_parse S src
              then st\<lparr>a_err := a_err st @ ''find: cannot parse -exec command'' @ nl, a_exit := 1\<rparr>
              else let (r, out, err, fsst) = sh_run S src (a_state st);
                       st1 = st\<lparr>a_out := a_out st @ out, a_err := a_err st @ err, a_state := fsst\<rparr>
                   in case r of
                        ExitOk \<Rightarrow> st1
                      | ExitStatus c \<Rightarrow>
                          (let code = c mod 256 in if code \<noteq> 0 then st1\<lparr>a_exit := code\<rparr> else st1)
                      | ExitErr m \<Rightarrow> st1\<lparr>a_fail := Some m\<rparr>))"

definition deleteEntry :: "'s billy \<Rightarrow> 's \<Rightarrow> string \<Rightarrow> del_err option \<times> 's" where
  "deleteEntry F st p =
     (case fs_lstat F st p of
        Inl err \<Rightarrow> (Some (DelFs err), st)
      | Inr info \<Rightarrow>
          (let refuse = (if fi_isDir info
                         then (case fs_readdir F st p of
                                 Inl err \<Rightarrow> Some (DelFs err)
                               | Inr entries \<Rightarrow> if entries \<noteq> [] then Some ErrDirNotEmpty else None)
                         else None)
           in case refuse of
                Some e \<Rightarrow> (Some e, st)
              | None \<Rightarrow> (case fs_remove F st p of (r, st') \<Rightarrow> (map_option DelFs r, st'))))"

definition add_batch :: "action \<Rightarrow> string \<Rightarrow> 's apply_state \<Rightarrow> 's apply_state" where
  "add_batch a p st =
     (case a_batches st (act_id a) of
        None \<Rightarrow> st\<lparr>a_order := a_order st @ [a], a_batches := (a_batches st)(act_id a \<mapsto> [p])\<rparr>
      | Some ps \<Rightarrow> st\<lparr>a_batches := (a_batches st)(act_id a \<mapsto> ps @ [p])\<rparr>)"

definition apply_effect ::
  "'s shell \<Rightarrow> 's billy \<Rightarrow> (int \<Rightarrow> local_time) \<Rightarrow> effect \<Rightarrow> 's apply_state \<Rightarrow> 's apply_state" where
  "apply_effect S F lt e st =
     (if a_fail st \<noteq> None then st
      else case e of
        Message m \<Rightarrow> st\<lparr>a_err := a_err st @ m, a_exit := 1\<rparr>
      | Act a p d \<Rightarrow>
          (case act_kind a of
             actPrint \<Rightarrow> st\<lparr>a_out := a_out st @ pd_path d @ nl\<rparr>
           | actPrint0 \<Rightarrow> st\<lparr>a_out := a_out st @ pd_path d @ [CHR 0x00]\<rparr>
           | actPrintf \<Rightarrow> st\<lparr>a_out := a_out st @ formatPrintf lt (act_format a) d\<rparr>
           | actDelete \<Rightarrow>
               (case deleteEntry F (a_state st) p of
                  (None, fsst) \<Rightarrow> st\<lparr>a_state := fsst\<rparr>
                | (Some err, fsst) \<Rightarrow>
                    st\<lparr>a_state := fsst, a_exit := 1,
                       a_err := a_err st @ ''find: cannot delete '' @ [squote] @ pd_path d @ [squote] @ '': '' @ errorReason err @ nl\<rparr>)
           | actExec \<Rightarrow>
               (if act_batch a then add_batch a (pd_path d) st
                else runExec S (map (\<lambda>part. replaceAll part ''{}'' (pd_path d)) (act_command a)) st)))"

definition batch_argv :: "action \<Rightarrow> string list \<Rightarrow> string list" where
  "batch_argv a ps = concat (map (\<lambda>part. if part = ''{}'' then ps else [part]) (act_command a))"

definition run_batch :: "'s shell \<Rightarrow> action \<Rightarrow> 's apply_state \<Rightarrow> 's apply_state" where
  "run_batch S a st =
     (if a_fail st \<noteq> None then st
      else runExec S (batch_argv a (case a_batches st (act_id a) of None \<Rightarrow> [] | Some ps \<Rightarrow> ps)) st)"

definition apply_start :: "'s \<Rightarrow> 's apply_state" where
  "apply_start st = \<lparr>a_out = [], a_err = [], a_state = st, a_exit = 0, a_order = [],
     a_batches = Map.empty, a_fail = None\<rparr>"

definition needs_runner :: "effect \<Rightarrow> bool" where
  "needs_runner e = (case e of Message _ \<Rightarrow> False | Act a _ _ \<Rightarrow> act_kind a = actExec)"

definition apply_effects ::
  "'s shell \<Rightarrow> 's billy \<Rightarrow> (int \<Rightarrow> local_time) \<Rightarrow> bool \<Rightarrow> effect list \<Rightarrow> 's \<Rightarrow> 's cmd_result" where
  "apply_effects S F lt runner effects st =
     (if \<not> runner \<and> (\<exists>e \<in> set effects. needs_runner e)
      then \<lparr>r_stdout = [], r_stderr = ''find: -exec not supported in this context'' @ nl,
            r_exit = ExitStatus 1, r_state = st\<rparr>
      else let a1 = foldl (\<lambda>a e. apply_effect S F lt e a) (apply_start st) effects;
               a2 = foldl (\<lambda>a b. run_batch S b a) a1 (a_order a1)
           in \<lparr>r_stdout = a_out a2, r_stderr = a_err a2,
               r_exit = (case a_fail a2 of Some m \<Rightarrow> ExitErr m
                         | None \<Rightarrow> if a_exit a2 \<noteq> 0 then ExitStatus (a_exit a2) else ExitOk),
               r_state = a_state a2\<rparr>)"

section \<open>The command\<close>

definition helpOptions :: "string list" where
  "helpOptions =
    [''-H               follow symbolic links given as starting points'',
     ''-P               never follow symbolic links (default)'',
     ''-name PATTERN    file name matches shell pattern PATTERN'',
     ''-iname PATTERN   like -name but case insensitive'',
     ''-path PATTERN    file path matches shell pattern PATTERN'',
     ''-ipath PATTERN   like -path but case insensitive'',
     ''-regex PATTERN   file path matches regular expression PATTERN'',
     ''-iregex PATTERN  like -regex but case insensitive'',
     ''-type TYPE       file is of type: f (regular file), d (directory), l (symbolic link),'',
     ''                 p (FIFO), s (socket), b (block device), c (character device)'',
     ''-empty           file is empty or directory is empty'',
     ''-mtime N         file'' @ [squote] @ ''s data was modified N*24 hours ago'',
     ''-newer FILE      file was modified more recently than FILE'',
     ''-size N[ckMGb]   file uses N units of space (c=bytes, k=KB, M=MB, G=GB, b=512B blocks)'',
     ''-perm MODE       file'' @ [squote] @ ''s permission bits are exactly MODE (octal)'',
     ''-perm -MODE      all permission bits MODE are set'',
     ''-perm /MODE      any permission bits MODE are set'',
     ''-maxdepth LEVELS descend at most LEVELS directories'',
     ''-mindepth LEVELS do not apply tests at levels less than LEVELS'',
     ''-depth           process directory contents before directory itself'',
     ''-prune           do not descend into this directory'',
     ''-xdev            do not descend into directories on other devices'',
     ''-not, !          negate the following expression'',
     ''-a, -and         logical AND (default)'',
     ''-o, -or          logical OR'',
     ''-exec CMD {} ;   execute CMD on each file ({} is replaced by filename)'',
     ''-exec CMD {} +   execute CMD with multiple files at once'',
     ''-print           print the full file name (default action)'',
     ''-print0          print the full file name followed by a null character'',
     ''-printf FORMAT   print FORMAT with directives: %f %h %p %P %s %d %m %M %t'',
     ''-delete          delete found files/directories'',
     ''    --help       display this help and exit'']"

definition find_usage :: string where
  "find_usage =
     ''find - search for files in a directory hierarchy'' @ nl @ nl
       @ ''Usage: find [-H|-P] [path...] [expression]'' @ nl @ nl @ ''Options:'' @ nl
       @ concat (map (\<lambda>opt. ''  '' @ opt @ nl) helpOptions)"

text \<open>The leading options: \<^const>\<open>None\<close> when \<^verbatim>\<open>-L\<close> is met.\<close>

fun option_loop :: "bool \<Rightarrow> string list \<Rightarrow> (bool \<times> string list) option" where
  "option_loop followStart [] = Some (followStart, [])"
| "option_loop followStart (a # as) =
     (if a = ''-H'' then option_loop True as
      else if a = ''-P'' then option_loop False as
      else if a = ''-L'' then None
      else if a = ''--'' then Some (followStart, as)
      else Some (followStart, a # as))"

definition starts_expr :: "string \<Rightarrow> bool" where
  "starts_expr arg \<longleftrightarrow> hasPrefix arg ''-'' \<or> arg = ''('' \<or> arg = backslash # ''('' \<or> arg = '')''
     \<or> arg = backslash # '')'' \<or> arg = ''!''"

text \<open>
  \<^verbatim>\<open>%[-+]?[0-9]*\.?[0-9]*[smMtT]\<close> somewhere in the format.  The parts are disjoint
  character classes, so taking each as long as possible finds a match when there is one.
\<close>

definition stat_directive_at :: "string \<Rightarrow> bool" where
  "stat_directive_at s =
     (let s1 = (if s \<noteq> [] \<and> (hd s = CHR ''-'' \<or> hd s = CHR ''+'') then tl s else s);
          s2 = dropWhile is_digit s1;
          s3 = (if s2 \<noteq> [] \<and> hd s2 = CHR ''.'' then tl s2 else s2);
          s4 = dropWhile is_digit s3
      in s4 \<noteq> [] \<and> hd s4 \<in> set ''smMtT'')"

fun printfStatDirective :: "string \<Rightarrow> bool" where
  "printfStatDirective [] = False"
| "printfStatDirective (c # s) = ((c = CHR ''%'' \<and> stat_directive_at s) \<or> printfStatDirective s)"

definition printf_needs_stat :: "action list \<Rightarrow> bool" where
  "printf_needs_stat acts =
     (\<exists>a \<in> set acts. act_kind a = actPrintf \<and> printfStatDirective (replaceAll (act_format a) ''%%'' []))"

definition find_env ::
  "'s billy \<Rightarrow> 's \<Rightarrow> string \<Rightarrow> libs \<Rightarrow> (nat \<Rightarrow> string option) \<Rightarrow> int \<Rightarrow> bool \<Rightarrow> options \<Rightarrow> 's walk_env" where
  "find_env F st dir L ctx now followStart opts0 =
     (let acts = actions (o_expr opts0);
          opts = (if \<exists>a \<in> set acts. act_kind a = actDelete then opts0\<lparr>depthFirst := True\<rparr> else opts0)
      in \<lparr>we_fs = F, we_state = st, we_libs = L, we_opts = opts, we_hasAction = (acts \<noteq> []),
          we_needsStat = (needsStat (o_expr opts) \<or> printf_needs_stat acts \<or> xdev opts),
          we_followStart = followStart, we_now = now,
          we_newer = foldl (\<lambda>m ref. case fs_stat F st (resolvePath dir ref) of
                              Inl _ \<Rightarrow> m | Inr info \<Rightarrow> m(ref \<mapsto> fi_mtime info))
                           Map.empty (newerRefs (o_expr opts)),
          we_ctx = ctx\<rparr>)"

definition walker_start :: walker where
  "walker_start = \<lparr>w_start = [], w_startDev = None, w_effects = [], w_fatal = None, w_ticks = 0\<rparr>"

definition fail_result :: "'s \<Rightarrow> string \<Rightarrow> exit_result \<Rightarrow> 's cmd_result" where
  "fail_result st err ex = \<lparr>r_stdout = [], r_stderr = err, r_exit = ex, r_state = st\<rparr>"

definition find_Exec ::
  "nat \<Rightarrow> libs \<Rightarrow> (string \<Rightarrow> bool) \<Rightarrow> 's shell \<Rightarrow> (int \<Rightarrow> local_time) \<Rightarrow> (nat \<Rightarrow> string option) \<Rightarrow> int
   \<Rightarrow> 's exec_context \<Rightarrow> string list \<Rightarrow> 's cmd_result option" where
  "find_Exec fuel L valid S lt ctx now ec args0 =
     (let st = ec_state ec in
      case option_loop False args0 of
        None \<Rightarrow> Some (fail_result st (''find: -L is not supported'' @ nl) (ExitStatus 1))
      | Some (followStart, args) \<Rightarrow>
          (let starts0 = takeWhile (\<lambda>a. \<not> starts_expr a) args;
               rest = dropWhile (\<lambda>a. \<not> starts_expr a) args;
               starts = (if starts0 = [] then [''.''] else starts0)
           in case parseExpression valid rest of
                None \<Rightarrow> None
              | Some (Inl errMsg) \<Rightarrow> Some (fail_result st errMsg (ExitStatus 1))
              | Some (Inr opts) \<Rightarrow>
                  if o_help opts then Some (fail_result st find_usage ExitOk)
                  else (case ec_fs ec of
                    None \<Rightarrow> Some (fail_result st [] (ExitErr ''find: ExecContext has no filesystem''))
                  | Some F \<Rightarrow>
                      (let E = find_env F st (ec_dir ec) L ctx now followStart opts
                       in case walk_starts fuel E (ec_dir ec) starts walker_start of
                            None \<Rightarrow> None
                          | Some (Some (Fatal p err), _) \<Rightarrow>
                              Some (fail_result st (''find: '' @ p @ '': '' @ errorReason (DelFs err) @ nl) (ExitStatus 1))
                          | Some (Some (CtxErr m), _) \<Rightarrow> Some (fail_result st [] (ExitErr m))
                          | Some (None, w) \<Rightarrow> Some (apply_effects S F lt (ec_runner ec) (w_effects w) st)))))"

section \<open>Reading and evaluating a node\<close>

text \<open>What a node is: nothing of it changes during a visit but what was read of the directory.\<close>

definition node_id :: "node \<Rightarrow> string \<times> string \<times> nat" where
  "node_id n = (n_display n, n_fsPath n, n_depth n)"

definition same_node :: "node \<Rightarrow> node \<Rightarrow> bool" where
  "same_node n n' \<longleftrightarrow> node_id n' = node_id n \<and> n_isDir n' = n_isDir n \<and> n_info n' = n_info n
     \<and> n_name n' = n_name n \<and> n_isFile n' = n_isFile n"

definition same_walk :: "walker \<Rightarrow> walker \<Rightarrow> bool" where
  "same_walk w w' \<longleftrightarrow> w_start w' = w_start w \<and> w_startDev w' = w_startDev w \<and> w_effects w' = w_effects w"

lemma same_refl [simp]: "same_node n n" "same_walk w w"
  by (simp_all add: same_node_def same_walk_def)

lemma readDir_same: "readDir E (n, w) = (n', w') \<Longrightarrow> same_node n n' \<and> same_walk w w'"
  by (auto simp: readDir_def Let_def same_node_def same_walk_def node_id_def
        split: if_splits sum.splits option.splits)

lemma readDir_read: "n_read (fst (readDir E nw))"
  by (cases nw) (auto simp: readDir_def Let_def split: sum.split option.split)

lemma readDir_again: "n_read n \<Longrightarrow> readDir E (n, w) = (n, w)"
  by (simp add: readDir_def)

text \<open>Where a directory's entries come from.\<close>

definition entries_ok :: "'s walk_env \<Rightarrow> node \<Rightarrow> bool" where
  "entries_ok E n \<longleftrightarrow> n_entries n = [] \<or>
     (\<exists>es. fs_readdir (we_fs E) (we_state E) (n_fsPath n) = Inr es \<and> n_entries n = sort_entries es)"

lemma readDir_entries: "entries_ok E n \<Longrightarrow> readDir E (n, w) = (n', w') \<Longrightarrow> entries_ok E n'"
  by (auto simp: readDir_def Let_def entries_ok_def split: if_splits sum.splits option.splits)

interpretation closure: empty_test "node_isEmpty E sz" for E sz
proof
  fix nw :: "node \<times> walker"
  obtain n w where nw: "nw = (n, w)" by fastforce
  obtain n' w' where r: "readDir E (n, w) = (n', w')" by fastforce
  have "n_read n'" using readDir_read[of E "(n, w)"] r by simp
  then have "readDir E (n', w') = (n', w')" by (rule readDir_again)
  moreover have "n_isFile n' = n_isFile n" "n_isDir n' = n_isDir n"
    using readDir_same[OF r] by (auto simp: same_node_def)
  ultimately show "node_isEmpty E sz (snd (node_isEmpty E sz nw)) =
      (fst (node_isEmpty E sz nw), snd (node_isEmpty E sz nw))"
    using r by (simp add: node_isEmpty_def nw)
qed

lemma isEmpty_state: "snd (node_isEmpty E sz nw) \<in> {nw, readDir E nw}"
  by (cases nw) (auto simp: node_isEmpty_def Let_def split: prod.split)

lemma evaluate_cases:
  "evaluate E n w =
     (if int (n_depth n) < minDepth (we_opts E) then ([], False, n, w)
      else let data = node_data E w n;
               r = (case o_expr (we_opts E) of None \<Rightarrow> (matched True, n, w)
                    | Some e \<Rightarrow> eval (we_libs E) (node_ctx E data n) e (n, w))
           in (map (\<lambda>a. Act a (n_fsPath n) data)
                 (if \<not> we_hasAction E \<and> er_matches (fst r) then [plain_action 0 actPrint] else er_actions (fst r)),
               er_pruned (fst r), snd r))"
  by (simp add: evaluate_def Let_def split: prod.split)

lemma evaluate_frame:
  assumes "evaluate E n w = (es, pr, n', w')"
  shows "(n', w') = (n, w) \<or> (n', w') = readDir E (n, w)"
proof (cases "int (n_depth n) < minDepth (we_opts E) \<or> o_expr (we_opts E) = None")
  case True
  then show ?thesis using assms by (auto simp: evaluate_cases Let_def split: if_splits)
next
  case False
  then obtain e where e: "o_expr (we_opts E) = Some e" by blast
  let ?d = "node_data E w n"
  have "(n', w') = snd (eval (we_libs E) (node_ctx E ?d n) e (n, w))"
    using assms False e by (simp add: evaluate_cases Let_def)
  then have "(n', w') \<in> {(n, w), snd (node_isEmpty E (pd_size ?d) (n, w))}"
    using closure.eval_state[of "node_ctx E ?d n" E "pd_size ?d" "(n, w)" "(n, w)" "we_libs E" e]
    by (simp add: node_ctx_def)
  then show ?thesis using isEmpty_state[of E "pd_size ?d" "(n, w)"] by auto
qed

lemma evaluate_same:
  assumes "evaluate E n w = (es, pr, n', w')"
  shows "same_node n n' \<and> same_walk w w' \<and> (entries_ok E n \<longrightarrow> entries_ok E n')"
  using evaluate_frame[OF assms] readDir_same[of E n w n' w'] readDir_entries[of E n w n' w']
  by auto

lemma evaluate_effects:
  assumes "evaluate E n w = (es, pr, n', w')" and "e \<in> set es"
  shows "\<exists>a. e = Act a (n_fsPath n) (node_data E w n) \<and> minDepth (we_opts E) \<le> int (n_depth n)"
  using assms by (auto simp: evaluate_def Let_def split: if_splits option.splits prod.splits)

section \<open>An invariant of the walk\<close>

text \<open>
  A property \<open>Q\<close> of the effects under a node holds of everything a visit adds when it holds
  of the node's own effects, of messages, and passes from a child to its parent.
\<close>

definition adds :: "(effect \<Rightarrow> bool) \<Rightarrow> walker \<Rightarrow> walker \<Rightarrow> bool" where
  "adds P w w' \<longleftrightarrow> w_start w' = w_start w \<and> w_startDev w' = w_startDev w \<and>
     (\<exists>es. w_effects w' = w_effects w @ es \<and> (\<forall>e \<in> set es. P e))"

lemma adds_refl: "same_walk w w' \<Longrightarrow> adds P w w'"
  by (simp add: adds_def same_walk_def)

lemma adds_trans: "adds P w1 w2 \<Longrightarrow> adds P w2 w3 \<Longrightarrow> adds P w1 w3"
  by (auto simp: adds_def)

lemma adds_mono: "adds P w w' \<Longrightarrow> (\<And>e. P e \<Longrightarrow> Q e) \<Longrightarrow> adds Q w w'"
  by (auto simp: adds_def)

lemma adds_effects: "(\<And>e. e \<in> set es \<Longrightarrow> P e) \<Longrightarrow> adds P w (add_effects es w)"
  by (auto simp: adds_def add_effects_def)

lemma adds_diagnose: "(\<And>m. P (Message m)) \<Longrightarrow> adds P w (diagnose n w)"
  by (auto simp: adds_def diagnose_def)

lemma visitChildren_adds:
  assumes "visitChildren v E n es w = Some (r, w')"
    and "\<And>entry ch w r w'. entry \<in> set es \<Longrightarrow> child_node E n entry = Some ch \<Longrightarrow> v ch w = Some (r, w') \<Longrightarrow>
      w_start w = s \<Longrightarrow> adds P w w'"
    and "w_start w = s"
  shows "adds P w w'"
  using assms
proof (induction es arbitrary: w)
  case (Cons entry es)
  show ?case
  proof (cases "child_node E n entry")
    case None
    then have "visitChildren v E n es w = Some (r, w')" using Cons.prems(1) by simp
    then show ?thesis by (rule Cons.IH[OF _ _ Cons.prems(3)]) (auto intro: Cons.prems(2))
  next
    case (Some ch)
    then obtain r1 w1 where v: "v ch w = Some (r1, w1)"
      using Cons.prems(1) by (auto split: option.splits)
    have one: "adds P w w1" using Cons.prems(2)[OF _ Some v Cons.prems(3)] by simp
    show ?thesis
    proof (cases r1)
      case None
      then have rest: "visitChildren v E n es w1 = Some (r, w')" using Cons.prems(1) Some v by simp
      have "w_start w1 = s" using one Cons.prems(3) by (simp add: adds_def)
      then have "adds P w1 w'"
        by (rule Cons.IH[OF rest, rotated]) (auto intro: Cons.prems(2))
      then show ?thesis using one adds_trans by blast
    next
      case (Some err)
      then show ?thesis using one Cons.prems(1) \<open>child_node E n entry = Some ch\<close> v by simp
    qed
  qed
qed (simp add: adds_def)

definition listed :: "'s walk_env \<Rightarrow> node \<Rightarrow> dir_entry \<Rightarrow> bool" where
  "listed E n entry \<longleftrightarrow>
     (\<exists>es. fs_readdir (we_fs E) (we_state E) (n_fsPath n) = Inr es \<and> entry \<in> set es)"

lemma entries_listed: "entries_ok E n \<Longrightarrow> entry \<in> set (n_entries n) \<Longrightarrow> listed E n entry"
  by (auto simp: entries_ok_def listed_def)

lemma child_fresh: "child_node E n entry = Some ch \<Longrightarrow> entries_ok E ch"
  by (auto simp: child_node_def Let_def newNode_def bare_node_def entries_ok_def split: if_splits sum.splits)

text \<open>The premises under which \<open>Q\<close> is an invariant of a walk from the starting point \<open>s\<close>.\<close>

definition walk_inv :: "'s walk_env \<Rightarrow> string \<Rightarrow> (string \<times> string \<times> nat \<Rightarrow> effect \<Rightarrow> bool) \<Rightarrow> bool" where
  "walk_inv E s Q \<longleftrightarrow>
     (\<forall>n w a. w_start w = s \<longrightarrow> minDepth (we_opts E) \<le> int (n_depth n) \<longrightarrow>
        Q (node_id n) (Act a (n_fsPath n) (node_data E w n))) \<and>
     (\<forall>i m. Q i (Message m)) \<and>
     (\<forall>n entry ch e. child_node E n entry = Some ch \<longrightarrow> listed E n entry \<longrightarrow>
        \<not> at_max (we_opts E) (n_depth n) \<longrightarrow> Q (node_id ch) e \<longrightarrow> Q (node_id n) e)"

lemma walk_inv_message: "walk_inv E s Q \<Longrightarrow> Q i (Message m)"
  unfolding walk_inv_def by blast

lemma evaluate_adds:
  assumes "walk_inv E s Q" "evaluate E n w = (es, pr, n', w')" "w_start w = s" "e \<in> set es"
  shows "Q (node_id n) e"
  using evaluate_effects[OF assms(2,4)] assms(1,3) by (auto simp: walk_inv_def)

lemma children_add:
  assumes inv: "walk_inv E s Q" and v: "\<And>ch w r w'. v ch w = Some (r, w') \<Longrightarrow> w_start w = s \<Longrightarrow>
      entries_ok E ch \<Longrightarrow> adds (Q (node_id ch)) w w'"
    and run: "visitChildren v E n (n_entries n) w = Some (r, w')" and w: "w_start w = s"
    and n: "entries_ok E n" "\<not> at_max (we_opts E) (n_depth n)"
  shows "adds (Q (node_id n)) w w'"
proof (rule visitChildren_adds[OF run _ w])
  fix entry ch w r w'
  assume e: "entry \<in> set (n_entries n)" and ch: "child_node E n entry = Some ch"
    and r: "v ch w = Some (r, w')" and w: "w_start w = s"
  have "adds (Q (node_id ch)) w w'" by (rule v[OF r w child_fresh[OF ch]])
  then show "adds (Q (node_id n)) w w'"
    by (rule adds_mono) (use inv ch entries_listed[OF n(1) e] n(2) in \<open>auto simp: walk_inv_def\<close>)
qed

lemma visit_depth_adds:
  assumes inv: "walk_inv E s Q" and v: "\<And>ch w r w'. v ch w = Some (r, w') \<Longrightarrow> w_start w = s \<Longrightarrow>
      entries_ok E ch \<Longrightarrow> adds (Q (node_id ch)) w w'"
    and run: "visit_depth v E n w = Some (r, w')" and w: "w_start w = s" and n: "entries_ok E n"
  shows "adds (Q (node_id n)) w w'"
proof -
  define descend where "descend = (n_isDir n \<and> \<not> at_max (we_opts E) (n_depth n) \<and> \<not> otherDevice E w n)"
  obtain n1 w1 where nw1: "(if descend then readDir E (n, w) else (n, w)) = (n1, w1)" by fastforce
  have s1: "same_node n n1" "same_walk w w1" "entries_ok E n1"
    using nw1 readDir_same[of E n w n1 w1] readDir_entries[OF n, of w n1 w1] n by (auto split: if_splits)
  have id: "node_id n1 = node_id n" "n_depth n1 = n_depth n"
    using s1(1) by (auto simp: same_node_def node_id_def)
  have ws1: "w_start w1 = s" using s1(2) w by (simp add: same_walk_def)
  obtain r2 w2 where c: "(if descend then visitChildren v E n1 (n_entries n1) w1 else Some (None, w1)) = Some (r2, w2)"
    using run nw1 by (auto simp: visit_depth_def descend_def[symmetric] Let_def split: option.splits prod.splits)
  have a2: "adds (Q (node_id n)) w w2"
  proof (cases descend)
    case True
    then have "adds (Q (node_id n1)) w1 w2"
      using c id by (intro children_add[OF inv v]) (auto simp: descend_def s1 ws1)
    then show ?thesis using adds_trans[OF adds_refl[OF s1(2)]] id by simp
  next
    case False
    then show ?thesis using c adds_refl[OF s1(2)] by simp
  qed
  show ?thesis
  proof (cases r2)
    case (Some err)
    then show ?thesis
      using run nw1 c a2 by (simp add: visit_depth_def descend_def[symmetric] Let_def)
  next
    case None
    obtain es pr n3 w3 where ev: "evaluate E n1 w2 = (es, pr, n3, w3)" by (metis prod_cases4)
    have ws2: "w_start w2 = s" using a2 w by (simp add: adds_def)
    have s3: "same_walk w2 w3" using evaluate_same[OF ev] by simp
    have "w' = w3 \<or> w' = add_effects es (diagnose n3 w3)"
      using run nw1 c None ev by (auto simp: visit_depth_def descend_def[symmetric] Let_def split: if_splits)
    moreover have "adds (Q (node_id n)) w3 (add_effects es (diagnose n3 w3))"
      using adds_trans[OF adds_diagnose[of "Q (node_id n)", OF walk_inv_message[OF inv]] adds_effects]
        evaluate_adds[OF inv ev ws2] id(1) by simp
    moreover have "adds (Q (node_id n)) w w3" using adds_trans[OF a2 adds_refl[OF s3]] .
    ultimately show ?thesis using adds_trans by blast
  qed
qed

lemma visit_pre_adds:
  assumes inv: "walk_inv E s Q" and v: "\<And>ch w r w'. v ch w = Some (r, w') \<Longrightarrow> w_start w = s \<Longrightarrow>
      entries_ok E ch \<Longrightarrow> adds (Q (node_id ch)) w w'"
    and run: "visit_pre v E n w = Some (r, w')" and w: "w_start w = s" and n: "entries_ok E n"
  shows "adds (Q (node_id n)) w w'"
proof -
  obtain es pr n1 w1 where ev: "evaluate E n w = (es, pr, n1, w1)" by (metis prod_cases4)
  have s1: "same_node n n1" "same_walk w w1" "entries_ok E n1"
    using evaluate_same[OF ev] n by auto
  have id1: "node_id n1 = node_id n" "n_depth n1 = n_depth n"
    using s1(1) by (auto simp: same_node_def node_id_def)
  define w2 where "w2 = add_effects es w1"
  have a2: "adds (Q (node_id n)) w w2"
    unfolding w2_def
    by (rule adds_trans[OF adds_refl[OF s1(2)] adds_effects]) (rule evaluate_adds[OF inv ev w])
  define descend where "descend = (n_isDir n1 \<and> \<not> pr \<and> \<not> at_max (we_opts E) (n_depth n1) \<and> \<not> otherDevice E w2 n1)"
  obtain n3 w3 where nw3: "(if descend then readDir E (n1, w2) else (n1, w2)) = (n3, w3)" by fastforce
  have s3: "same_node n1 n3" "same_walk w2 w3" "entries_ok E n3"
    using nw3 readDir_same[of E n1 w2 n3 w3] readDir_entries[OF s1(3), of w2 n3 w3] s1(3) by (auto split: if_splits)
  have id3: "node_id n3 = node_id n" "n_depth n3 = n_depth n"
    using s3(1) id1 by (auto simp: same_node_def node_id_def)
  have a3: "adds (Q (node_id n)) w w3" using adds_trans[OF a2 adds_refl[OF s3(2)]] .
  have a4: "adds (Q (node_id n)) w (diagnose n3 w3)"
    by (rule adds_trans[OF a3 adds_diagnose]) (rule walk_inv_message[OF inv])
  have run': "(if w_fatal w3 \<noteq> None then Some (w_fatal w3, w3)
      else if descend then visitChildren v E n3 (n_entries n3) (diagnose n3 w3)
      else Some (None, diagnose n3 w3)) = Some (r, w')"
    using run unfolding visit_pre_def ev prod.case Let_def w2_def[symmetric] descend_def[symmetric] nw3 .
  show ?thesis
  proof (cases "w_fatal w3 = None \<and> descend")
    case True
    have "w_start (diagnose n3 w3) = s" using a4 w by (simp add: adds_def)
    then have "adds (Q (node_id n3)) (diagnose n3 w3) w'"
      using run' True id1 id3 s3(3) by (intro children_add[OF inv v]) (auto simp: descend_def)
    then show ?thesis using adds_trans[OF a4] id3 by simp
  next
    case False
    then show ?thesis using run' a3 a4 by (auto split: if_splits)
  qed
qed

lemma visit_adds:
  assumes "walk_inv E s Q"
  shows "visit fuel E n w = Some (r, w') \<Longrightarrow> w_start w = s \<Longrightarrow> entries_ok E n \<Longrightarrow> adds (Q (node_id n)) w w'"
proof (induction fuel arbitrary: n w r w')
  case (Suc fuel)
  define w1 where "w1 = w\<lparr>w_ticks := Suc (w_ticks w)\<rparr>"
  have w1: "same_walk w w1" "w_start w1 = s" using Suc.prems(2) by (simp_all add: w1_def same_walk_def)
  have "w' = w1 \<or> visit_depth (visit fuel E) E n w1 = Some (r, w') \<or> visit_pre (visit fuel E) E n w1 = Some (r, w')"
    using Suc.prems(1) by (auto simp: w1_def Let_def split: option.splits if_splits)
  moreover have "adds (Q (node_id n)) w1 w'" if "visit_depth (visit fuel E) E n w1 = Some (r, w')"
    by (rule visit_depth_adds[OF assms Suc.IH that w1(2) Suc.prems(3)])
  moreover have "adds (Q (node_id n)) w1 w'" if "visit_pre (visit fuel E) E n w1 = Some (r, w')"
    by (rule visit_pre_adds[OF assms Suc.IH that w1(2) Suc.prems(3)])
  ultimately show ?case using adds_trans[OF adds_refl[OF w1(1)]] adds_refl[OF w1(1)] by blast
qed simp

lemma newNode_fresh: "entries_ok E (newNode d p nm k i)"
  by (simp add: newNode_def bare_node_def entries_ok_def)

lemma newNode_id [simp]: "node_id (newNode d p nm k i) = (d, p, k)"
  by (simp add: newNode_def bare_node_def node_id_def)

text \<open>The effects a starting point adds.\<close>

lemma walkStart_adds:
  assumes "walk_inv E start Q" and "walkStart fuel E dir start w = Some (r, w')"
  shows "\<exists>es. w_effects w' = w_effects w @ es \<and> (\<forall>e \<in> set es. Q (start, resolvePath dir start, 0) e)"
proof (cases "fs_lstat (we_fs E) (we_state E) (resolvePath dir start)")
  case (Inl err)
  then show ?thesis
    using assms by (auto simp: walkStart_def Let_def add_effects_def walk_inv_def)
next
  case (Inr linfo)
  then obtain info w1 where v: "visit fuel E (newNode start (resolvePath dir start) (start_name start) 0 info) w1 = Some (r, w')"
      and w1: "w_start w1 = start" "w_effects w1 = w_effects w"
    using assms(2) by (fastforce simp: walkStart_def Let_def)
  from visit_adds[OF assms(1) v w1(1) newNode_fresh] w1(2) show ?thesis
    by (auto simp: adds_def)
qed

end
