(* ===== verification/Find_Properties.thy ===== *)
theory Find_Properties
  imports Find_Walk
begin

text \<open>
  What a walk of find guarantees: it ends on every finite tree, what it collects stays within
  the depth limits and below its starting point, \<^verbatim>\<open>-depth\<close> (and so \<^verbatim>\<open>-delete\<close>) handles the
  contents of a directory before the directory, and the effects are applied in order with each
  batched command run once.
\<close>

section \<open>The walk ends\<close>

lemma visitChildren_returns:
  "(\<And>entry ch w. entry \<in> set es \<Longrightarrow> child_node E n entry = Some ch \<Longrightarrow> v ch w \<noteq> None) \<Longrightarrow>
   visitChildren v E n es w \<noteq> None"
proof (induction es arbitrary: w)
  case (Cons entry es)
  have rest: "visitChildren v E n es w' \<noteq> None" for w'
    by (rule Cons.IH, rule Cons.prems) simp_all
  show ?case
  proof (cases "child_node E n entry")
    case None
    then show ?thesis using rest by simp
  next
    case (Some ch)
    then obtain r w1 where "v ch w = Some (r, w1)"
      using Cons.prems[of entry ch w] by auto
    then show ?thesis using Some rest[of w1] by (cases r) auto
  qed
qed simp

lemma visit_depth_returns:
  assumes v: "\<And>n1 entry ch w. same_node n n1 \<Longrightarrow> entries_ok E n1 \<Longrightarrow> entry \<in> set (n_entries n1) \<Longrightarrow>
      \<not> at_max (we_opts E) (n_depth n) \<Longrightarrow> child_node E n1 entry = Some ch \<Longrightarrow> v ch w \<noteq> None"
    and n: "entries_ok E n"
  shows "visit_depth v E n w \<noteq> None"
proof -
  obtain n1 w1 where nw1: "readDir E (n, w) = (n1, w1)" by fastforce
  have "visitChildren v E n1 (n_entries n1) w1 \<noteq> None" if "\<not> at_max (we_opts E) (n_depth n)"
    using v[OF _ readDir_entries[OF n nw1] _ that] readDir_same[OF nw1] by (intro visitChildren_returns) blast
  then show ?thesis
    by (cases "at_max (we_opts E) (n_depth n)")
       (auto simp: visit_depth_def Let_def nw1 split: option.split prod.split)
qed

lemma visit_pre_returns:
  assumes v: "\<And>n1 entry ch w. same_node n n1 \<Longrightarrow> entries_ok E n1 \<Longrightarrow> entry \<in> set (n_entries n1) \<Longrightarrow>
      \<not> at_max (we_opts E) (n_depth n) \<Longrightarrow> child_node E n1 entry = Some ch \<Longrightarrow> v ch w \<noteq> None"
    and n: "entries_ok E n"
  shows "visit_pre v E n w \<noteq> None"
proof -
  obtain es pr n1 w1 where ev: "evaluate E n w = (es, pr, n1, w1)" by (metis prod_cases4)
  have s1: "same_node n n1" "entries_ok E n1" using evaluate_same[OF ev] n by auto
  obtain n3 w3 where nw3: "readDir E (n1, add_effects es w1) = (n3, w3)" by fastforce
  have s3: "same_node n n3" using readDir_same[OF nw3] s1(1) by (simp add: same_node_def)
  have d: "n_depth n1 = n_depth n" using s1(1) by (simp add: same_node_def node_id_def)
  have "visitChildren v E n3 (n_entries n3) w4 \<noteq> None" if "\<not> at_max (we_opts E) (n_depth n)" for w4
    using v[OF s3 readDir_entries[OF s1(2) nw3] _ that] by (intro visitChildren_returns) blast
  then show ?thesis
    by (auto simp: visit_pre_def Let_def ev nw3 d)
qed

text \<open>A measure on filesystem paths that goes down from a directory to each of its entries.\<close>

definition finite_tree :: "'s walk_env \<Rightarrow> (string \<Rightarrow> nat) \<Rightarrow> bool" where
  "finite_tree E height \<longleftrightarrow>
     (\<forall>p es entry. fs_readdir (we_fs E) (we_state E) p = Inr es \<longrightarrow> entry \<in> set es \<longrightarrow>
        height (path_join [p, de_name entry]) < height p)"

lemma child_fsPath: "child_node E n entry = Some ch \<Longrightarrow> n_fsPath ch = path_join [n_fsPath n, de_name entry]"
  by (auto simp: child_node_def Let_def newNode_def bare_node_def split: if_splits sum.splits)

lemma child_depth: "child_node E n entry = Some ch \<Longrightarrow> n_depth ch = Suc (n_depth n)"
  by (auto simp: child_node_def Let_def newNode_def bare_node_def split: if_splits sum.splits)

lemma child_lower:
  assumes "finite_tree E height" "same_node n n1" "entries_ok E n1" "entry \<in> set (n_entries n1)"
    "child_node E n1 entry = Some ch"
  shows "height (n_fsPath ch) < height (n_fsPath n)"
proof -
  have "listed E n1 entry" by (rule entries_listed[OF assms(3,4)])
  then show ?thesis
    using assms(1,2) child_fsPath[OF assms(5)]
    by (auto simp: listed_def finite_tree_def same_node_def node_id_def)
qed

lemma visit_returns:
  assumes tree: "finite_tree E height"
  shows "height (n_fsPath n) < fuel \<Longrightarrow> entries_ok E n \<Longrightarrow> visit fuel E n w \<noteq> None"
proof (induction fuel arbitrary: n w)
  case (Suc fuel)
  have v: "visit fuel E ch w' \<noteq> None"
    if "same_node n n1" "entries_ok E n1" "entry \<in> set (n_entries n1)" "child_node E n1 entry = Some ch"
    for n1 entry ch w'
    using Suc.IH[OF _ child_fresh[OF that(4)]] child_lower[OF tree that] Suc.prems(1) by simp
  have "visit_depth (visit fuel E) E n w' \<noteq> None" "visit_pre (visit fuel E) E n w' \<noteq> None" for w'
    by (rule visit_depth_returns visit_pre_returns; use v Suc.prems(2) in blast)+
  then show ?case by (simp add: Let_def split: option.split)
qed simp

lemma visit_returns_maxdepth:
  assumes "0 \<le> maxDepth (we_opts E)"
  shows "0 < fuel \<Longrightarrow> maxDepth (we_opts E) < int (n_depth n) + int fuel \<Longrightarrow> entries_ok E n \<Longrightarrow>
    visit fuel E n w \<noteq> None"
proof (induction fuel arbitrary: n w)
  case (Suc fuel)
  have v: "visit fuel E ch w' \<noteq> None"
    if "same_node n n1" "child_node E n1 entry = Some ch" "\<not> at_max (we_opts E) (n_depth n)"
    for n1 entry ch w'
    using Suc.IH[OF _ _ child_fresh[OF that(2)]] child_depth[OF that(2)] that(1,3) Suc.prems(2) assms
    by (auto simp: at_max_def same_node_def node_id_def)
  have "visit_depth (visit fuel E) E n w' \<noteq> None" "visit_pre (visit fuel E) E n w' \<noteq> None" for w'
    by (rule visit_depth_returns visit_pre_returns; use v Suc.prems(3) in blast)+
  then show ?case by (simp add: Let_def split: option.split)
qed simp

lemma walkStart_returns:
  assumes "\<And>n w. n_fsPath n = resolvePath dir start \<Longrightarrow> n_depth n = 0 \<Longrightarrow> entries_ok E n \<Longrightarrow> visit fuel E n w \<noteq> None"
  shows "walkStart fuel E dir start w \<noteq> None"
proof (cases "fs_lstat (we_fs E) (we_state E) (resolvePath dir start)")
  case (Inr linfo)
  have "visit fuel E (newNode start (resolvePath dir start) nm 0 i) w' \<noteq> None" for nm i w'
    using assms[OF _ _ newNode_fresh] by (simp add: newNode_def bare_node_def)
  then show ?thesis using Inr by (simp add: walkStart_def Let_def)
qed (simp add: walkStart_def Let_def)

lemma walk_starts_returns:
  "(\<And>start w. start \<in> set starts \<Longrightarrow> walkStart fuel E dir start w \<noteq> None) \<Longrightarrow>
   walk_starts fuel E dir starts w \<noteq> None"
proof (induction starts arbitrary: w)
  case (Cons start starts)
  then obtain r w1 where r: "walkStart fuel E dir start w = Some (r, w1)" by fastforce
  have "walk_starts fuel E dir starts w1 \<noteq> None" using Cons by simp
  then show ?case using r by (cases r) auto
qed simp

text \<open>C27: On every filesystem whose directories form a finite tree, and on any filesystem when -maxdepth is given, the walk of all starting points ends: fuel above the height of the starting points, or above the depth limit, is enough.\<close>

theorem walk_ends:
  assumes "(finite_tree E height \<and> (\<forall>start \<in> set starts. height (resolvePath dir start) < fuel)) \<or>
    (0 \<le> maxDepth (we_opts E) \<and> maxDepth (we_opts E) < int fuel)"
  shows "\<exists>r w'. walk_starts fuel E dir starts w = Some (r, w')"
proof -
  have "walkStart fuel E dir start w \<noteq> None" if "start \<in> set starts" for start w
  proof (rule walkStart_returns)
    fix n w
    assume "n_fsPath n = resolvePath dir start" "n_depth n = 0" "entries_ok E n"
    then show "visit fuel E n w \<noteq> None"
      using assms that visit_returns[of E height n fuel w] visit_returns_maxdepth[of E fuel n w] by auto
  qed
  then have "walk_starts fuel E dir starts w \<noteq> None" by (rule walk_starts_returns)
  then show ?thesis by auto
qed

section \<open>A small filesystem\<close>

text \<open>A directory with one directory, which holds one file; witnesses walk it.\<close>

definition demo_info :: "string \<Rightarrow> fmode \<Rightarrow> file_info" where
  "demo_info name m = \<lparr>fi_name = name, fi_size = 5, fi_mode = m, fi_mtime = 0, fi_dev = None\<rparr>"

definition demo_fs :: "unit billy" where
  "demo_fs =
     \<lparr>fs_stat = (\<lambda>_ p. Inr (demo_info p (if p = ''d/f'' then 0x1A4 else 0x800001ED))),
      fs_lstat = (\<lambda>_ p. Inr (demo_info p (if p = ''d/f'' then 0x1A4 else 0x800001ED))),
      fs_readdir = (\<lambda>_ p. if p = ''.'' then Inr [\<lparr>de_name = ''d'', de_type = 0x80000000, de_info = Inl ErrNotExist\<rparr>]
                          else if p = ''d'' then Inr [\<lparr>de_name = ''f'', de_type = 0, de_info = Inl ErrNotExist\<rparr>]
                          else Inl ENOTDIR),
      fs_open = (\<lambda>_ _. Inl ErrNotExist), fs_readlink = (\<lambda>_ _. Inl ErrNotExist),
      fs_remove = (\<lambda>st _. (None, st)), fs_symlinks = False\<rparr>"

definition demo_unicode :: unicode where
  "demo_unicode =
     \<lparr>IsLower = (\<lambda>c. 97 \<le> c \<and> c \<le> 122), IsUpper = (\<lambda>c. 65 \<le> c \<and> c \<le> 90),
      IsLetter = (\<lambda>c. 97 \<le> c \<and> c \<le> 122 \<or> 65 \<le> c \<and> c \<le> 90), IsDigit = (\<lambda>c. 48 \<le> c \<and> c \<le> 57),
      IsControl = (\<lambda>c. c < 32), IsPrint = (\<lambda>c. 32 \<le> c), IsPunct = (\<lambda>c. False), IsSymbol = (\<lambda>c. False),
      IsSpace = (\<lambda>c. c = 32), ToLower = (\<lambda>s. s)\<rparr>"

definition demo_env :: "options \<Rightarrow> unit walk_env" where
  "demo_env opts = find_env demo_fs () [] \<lparr>lib_unicode = demo_unicode, lib_re_match = (\<lambda>_ _. False)\<rparr>
     (\<lambda>_. None) 0 False opts"

definition demo_height :: "string \<Rightarrow> nat" where
  "demo_height p = (if p = ''.'' then 2 else if p = ''d'' then 1 else 0)"

lemma demo_finite: "finite_tree (demo_env opts) demo_height"
proof -
  have "path_join [''.'', ''d''] = ''d''" "path_join [''d'', ''f''] = ''d/f''" by code_simp+
  then show ?thesis
    by (auto simp: finite_tree_def demo_env_def find_env_def Let_def demo_fs_def demo_height_def split: if_splits)
qed

theorem walk_ends_witness:
  "\<exists>r w'. walk_starts 3 (demo_env default_options) [] [''.''] walker_start = Some (r, w')"
proof -
  have "resolvePath [] ''.'' = ''.''" by code_simp
  then show ?thesis
    using walk_ends[of "demo_env default_options" demo_height "[''.'']" "[]" 3 walker_start]
      demo_finite[of default_options] by (simp add: demo_height_def)
qed

section \<open>Depth limits and paths\<close>

lemma joinDisplay_compose: "\<exists>rel. joinDisplay (joinDisplay p a) r = joinDisplay p rel"
proof (cases "a = []")
  case True
  then show ?thesis by (auto simp: joinDisplay_def)
next
  case False
  have "hasSuffix (q @ a) ''/'' = hasSuffix a ''/''" for q
    using False by (cases a rule: rev_cases) (auto simp: hasSuffix_iff)
  then have "joinDisplay (joinDisplay p a) r = joinDisplay p (joinDisplay a r)"
    by (auto simp: joinDisplay_def simp flip: append_Cons append_assoc)
  then show ?thesis by blast
qed

definition in_limits :: "options \<Rightarrow> string \<Rightarrow> string \<times> string \<times> nat \<Rightarrow> effect \<Rightarrow> bool" where
  "in_limits opts s i e = (case (i, e) of
     ((disp, fp, k), Message _) \<Rightarrow> True
   | ((disp, fp, k), Act a p d) \<Rightarrow>
       minDepth opts \<le> int (pd_depth d) \<and> (maxDepth opts < 0 \<or> int (pd_depth d) \<le> max (maxDepth opts) (int k))
       \<and> pd_start d = s \<and> (pd_path d = disp \<or> (\<exists>rel. pd_path d = joinDisplay disp rel)))"

lemma child_display: "child_node E n entry = Some ch \<Longrightarrow> n_display ch = joinDisplay (n_display n) (de_name entry)"
  by (auto simp: child_node_def Let_def newNode_def bare_node_def split: if_splits sum.splits)

lemma walk_inv_limits: "walk_inv E s (in_limits (we_opts E) s)"
  unfolding walk_inv_def
proof (intro conjI allI impI)
  fix n entry ch e
  assume ch: "child_node E n entry = Some ch" and m: "\<not> at_max (we_opts E) (n_depth n)"
    and q: "in_limits (we_opts E) s (node_id ch) e"
  show "in_limits (we_opts E) s (node_id n) e"
    using q m joinDisplay_compose[of "n_display n" "de_name entry"]
    by (cases e) (fastforce simp: in_limits_def node_id_def child_display[OF ch] child_depth[OF ch] at_max_def)+
qed (auto simp: in_limits_def node_id_def node_data_def)

lemma percent_P:
  "pd_path d = joinDisplay (pd_start d) rel \<Longrightarrow> directive_value lt d (rn CHR ''P'') = Some rel"
  "pd_path d = pd_start d \<Longrightarrow> directive_value lt d (rn CHR ''P'') = Some []"
  using hasPrefix_append[of "pd_start d" "[]"]
  by (auto simp: directive_value_def Let_def joinDisplay_def trimPrefix_def hasSuffix_iff)

text \<open>C29: Everything a starting point adds to the effects lies between -mindepth and -maxdepth, is printed as the starting point itself or as the starting point joined with a relative path, and %P prints exactly that relative path.\<close>

theorem walk_effects_limits:
  assumes "walkStart fuel E dir start w = Some (r, w')" and "w_effects w = []"
    and "Act a p d \<in> set (w_effects w')"
  shows "minDepth (we_opts E) \<le> int (pd_depth d) \<and>
    (maxDepth (we_opts E) < 0 \<or> int (pd_depth d) \<le> maxDepth (we_opts E)) \<and>
    (\<exists>rel. directive_value lt d (rn CHR ''P'') = Some rel \<and>
       (pd_path d = joinDisplay start rel \<or> pd_path d = start \<and> rel = []))"
proof -
  have "in_limits (we_opts E) start (start, resolvePath dir start, 0) (Act a p d)"
    using walkStart_adds[OF walk_inv_limits assms(1)] assms(2,3) by auto
  then show ?thesis
    using percent_P[of d] by (auto simp: in_limits_def)
qed

definition effect_path :: "effect \<Rightarrow> string option" where
  "effect_path e = (case e of Message _ \<Rightarrow> None | Act a p d \<Rightarrow> Some (pd_path d))"

lemma effect_path_Some: "effect_path e = Some p \<longleftrightarrow> (\<exists>a f d. e = Act a f d \<and> pd_path d = p)"
  by (cases e) (auto simp: effect_path_def)

definition paths_of :: "(walk_err option \<times> walker) option \<Rightarrow> (string option list) option" where
  "paths_of r = map_option (\<lambda>(e, w). map effect_path (w_effects w)) r"

lemma demo_walk:
  "paths_of (walkStart 3 (demo_env (default_options\<lparr>maxDepth := 1\<rparr>)) [] ''.'' walker_start)
     = Some [Some ''.'', Some ''./d'']"
  by code_simp

theorem walk_effects_limits_witness:
  "\<exists>r w' a p d. walkStart 3 (demo_env (default_options\<lparr>maxDepth := 1\<rparr>)) [] ''.'' walker_start = Some (r, w') \<and>
     Act a p d \<in> set (w_effects w') \<and> pd_path d = ''./d'' \<and>
     directive_value (\<lambda>_. undefined) d (rn CHR ''P'') = Some ''d''"
proof -
  obtain r w' where run: "walkStart 3 (demo_env (default_options\<lparr>maxDepth := 1\<rparr>)) [] ''.'' walker_start = Some (r, w')"
    and ps: "map effect_path (w_effects w') = [Some ''.'', Some ''./d'']"
    using demo_walk by (auto simp: paths_of_def)
  have "Some ''./d'' \<in> set (map effect_path (w_effects w'))" unfolding ps by simp
  then obtain a p d where e: "Act a p d \<in> set (w_effects w')" "pd_path d = ''./d''"
    by (fastforce simp: effect_path_Some dest: sym)
  have "w_effects walker_start = []" by (simp add: walker_start_def)
  then have "directive_value (\<lambda>_. undefined) d (rn CHR ''P'') = Some ''d''"
    using walk_effects_limits[OF run _ e(1), of "\<lambda>_. undefined"] e(2)
    by (auto simp: joinDisplay_def hasSuffix_iff)
  then show ?thesis using run e by blast
qed

section \<open>Contents before their directory\<close>

definition below :: "string \<Rightarrow> string \<Rightarrow> bool" where
  "below p q \<longleftrightarrow> (\<exists>r. r \<noteq> [] \<and> q = joinDisplay p r)"

definition effect_below :: "effect \<Rightarrow> effect \<Rightarrow> bool" where
  "effect_below e1 e2 = (case (effect_path e1, effect_path e2) of (Some p, Some q) \<Rightarrow> below p q | _ \<Rightarrow> False)"

text \<open>No effect is followed by one on a path below its own.\<close>

abbreviation contents_first :: "effect list \<Rightarrow> bool" where
  "contents_first es \<equiv> sorted_wrt (\<lambda>e1 e2. \<not> effect_below e1 e2) es"

definition subtree :: "string \<Rightarrow> effect \<Rightarrow> bool" where
  "subtree disp e = (case effect_path e of None \<Rightarrow> True | Some q \<Rightarrow> q = disp \<or> below disp q)"

text \<open>What \<^verbatim>\<open>ReadDir\<close> promises of the names it returns.\<close>

definition good_listing :: "'s walk_env \<Rightarrow> bool" where
  "good_listing E \<longleftrightarrow>
     (\<forall>p es. fs_readdir (we_fs E) (we_state E) p = Inr es \<longrightarrow>
        distinct (map de_name es) \<and> (\<forall>x \<in> set es. de_name x \<noteq> [] \<and> slash \<notin> set (de_name x)))"

lemma below_longer: "below p q \<Longrightarrow> length p < length q"
  by (auto simp: below_def joinDisplay_def)

definition dir_prefix :: "string \<Rightarrow> string" where
  "dir_prefix d = (if hasSuffix d ''/'' then d else d @ ''/'')"

lemma joinDisplay_prefix: "joinDisplay d x = dir_prefix d @ x"
  by (simp add: joinDisplay_def dir_prefix_def)

lemma no_trailing_slash: "x \<noteq> [] \<Longrightarrow> slash \<notin> set x \<Longrightarrow> \<not> hasSuffix (p @ x) ''/''"
  by (cases x rule: rev_cases) (auto simp: hasSuffix_iff)

lemma subtree_child_path:
  assumes "subtree (joinDisplay d x) e" "x \<noteq> []" "slash \<notin> set x" "effect_path e = Some q"
  shows "\<exists>t. q = dir_prefix d @ x @ t \<and> (t = [] \<or> hd t = slash)"
proof -
  have "q = dir_prefix d @ x \<or> below (dir_prefix d @ x) q"
    using assms(1,4) by (simp add: subtree_def joinDisplay_prefix)
  then show ?thesis
    using no_trailing_slash[OF assms(2,3), of "dir_prefix d"] by (auto simp: below_def joinDisplay_def)
qed

lemma takeWhile_comp: "slash \<notin> set x \<Longrightarrow> t = [] \<or> hd t = slash \<Longrightarrow> takeWhile (\<lambda>c. c \<noteq> slash) (x @ t) = x"
  by (cases t) (auto simp: takeWhile_tail takeWhile_eq_all_conv)

lemma siblings_apart:
  assumes "subtree (joinDisplay d x) e1" "subtree (joinDisplay d y) e2" "x \<noteq> y"
    and "x \<noteq> []" "slash \<notin> set x" "y \<noteq> []" "slash \<notin> set y"
  shows "\<not> effect_below e1 e2"
proof
  assume "effect_below e1 e2"
  then obtain p q where pq: "effect_path e1 = Some p" "effect_path e2 = Some q" "below p q"
    by (auto simp: effect_below_def split: option.splits)
  obtain t where p: "p = dir_prefix d @ x @ t" "t = [] \<or> hd t = slash"
    using subtree_child_path[OF assms(1,4,5) pq(1)] by blast
  obtain u where q: "q = dir_prefix d @ y @ u" "u = [] \<or> hd u = slash"
    using subtree_child_path[OF assms(2,6,7) pq(2)] by blast
  have "t = [] \<Longrightarrow> \<not> hasSuffix p ''/''"
    using no_trailing_slash[OF assms(4,5), of "dir_prefix d"] p(1) by simp
  then obtain v where v: "q = p @ v" "t = [] \<longrightarrow> hd v = slash"
    using pq(3) by (cases "hasSuffix p ''/''") (auto simp: below_def joinDisplay_def)
  have "y @ u = x @ (t @ v)" using v(1) p(1) q(1) by simp
  moreover have "t @ v = [] \<or> hd (t @ v) = slash" using v(2) p(2) by (cases t) auto
  ultimately show False
    using takeWhile_comp[OF assms(7) q(2)] takeWhile_comp[OF assms(5)] assms(3) by metis
qed

lemma listed_good: "good_listing E \<Longrightarrow> listed E n entry \<Longrightarrow> de_name entry \<noteq> [] \<and> slash \<notin> set (de_name entry)"
  by (auto simp: good_listing_def listed_def)

lemma entries_good:
  assumes "good_listing E" "entries_ok E n"
  shows "distinct (map de_name (n_entries n))" "\<forall>x \<in> set (n_entries n). de_name x \<noteq> [] \<and> slash \<notin> set (de_name x)"
proof -
  show "distinct (map de_name (n_entries n))"
    using assms by (fastforce simp: entries_ok_def good_listing_def sort_entries_def distinct_map)
  show "\<forall>x \<in> set (n_entries n). de_name x \<noteq> [] \<and> slash \<notin> set (de_name x)"
    using assms entries_listed listed_good by blast
qed

lemma walk_inv_subtree:
  assumes "good_listing E"
  shows "walk_inv E s (\<lambda>i e. subtree (fst i) e)"
  unfolding walk_inv_def
proof (intro conjI allI impI)
  fix n entry ch e
  assume ch: "child_node E n entry = Some ch" and l: "listed E n entry" and q: "subtree (fst (node_id ch)) e"
  show "subtree (fst (node_id n)) e"
  proof (cases "effect_path e")
    case (Some q')
    have nm: "de_name entry \<noteq> []" "slash \<notin> set (de_name entry)" using listed_good[OF assms l] by auto
    have "subtree (joinDisplay (n_display n) (de_name entry)) e"
      using q child_display[OF ch] by (simp add: node_id_def)
    then obtain t where "q' = joinDisplay (n_display n) (de_name entry @ t)"
      using subtree_child_path[OF _ nm Some] by (auto simp: joinDisplay_prefix)
    then show ?thesis using Some nm by (auto simp: subtree_def below_def node_id_def)
  qed (simp add: subtree_def)
qed (auto simp: subtree_def effect_path_def node_id_def node_data_def)

text \<open>What is asked of a visit: it only adds effects of its subtree, contents first.\<close>

definition orderly :: "string \<Rightarrow> walker \<Rightarrow> walker \<Rightarrow> bool" where
  "orderly disp w w' \<longleftrightarrow>
     (\<exists>es. w_effects w' = w_effects w @ es \<and> contents_first es \<and> (\<forall>e \<in> set es. subtree disp e))"

lemma visitChildren_orderly:
  assumes "visitChildren v E n es w = Some (r, w')"
    and "\<And>entry ch w r w'. entry \<in> set es \<Longrightarrow> child_node E n entry = Some ch \<Longrightarrow> v ch w = Some (r, w') \<Longrightarrow>
      orderly (joinDisplay (n_display n) (de_name entry)) w w'"
    and "distinct (map de_name es)" "\<forall>x \<in> set es. de_name x \<noteq> [] \<and> slash \<notin> set (de_name x)"
  shows "\<exists>fs. w_effects w' = w_effects w @ fs \<and> contents_first fs \<and>
    (\<forall>e \<in> set fs. \<exists>entry \<in> set es. subtree (joinDisplay (n_display n) (de_name entry)) e)"
  using assms
proof (induction es arbitrary: w)
  case (Cons entry es)
  have IH: "\<exists>fs. w_effects w' = w_effects w @ fs \<and> contents_first fs \<and>
      (\<forall>e \<in> set fs. \<exists>entry \<in> set es. subtree (joinDisplay (n_display n) (de_name entry)) e)"
    if "visitChildren v E n es w = Some (r, w')" for w
    by (rule Cons.IH[OF that]) (use Cons.prems(3,4) in \<open>auto intro: Cons.prems(2)\<close>)
  show ?case
  proof (cases "child_node E n entry")
    case None
    then have "visitChildren v E n es w = Some (r, w')" using Cons.prems(1) by simp
    from IH[OF this] show ?thesis by (meson list.set_intros(2))
  next
    case (Some ch)
    then obtain r1 w1 where v: "v ch w = Some (r1, w1)"
      using Cons.prems(1) by (auto split: option.splits)
    obtain f1 where f1: "w_effects w1 = w_effects w @ f1" "contents_first f1"
        "\<forall>e \<in> set f1. subtree (joinDisplay (n_display n) (de_name entry)) e"
      using Cons.prems(2)[OF _ Some v] by (auto simp: orderly_def)
    show ?thesis
    proof (cases r1)
      case None
      then have "visitChildren v E n es w1 = Some (r, w')" using Cons.prems(1) Some v by simp
      from IH[OF this] obtain f2 where f2: "w_effects w' = w_effects w1 @ f2" "contents_first f2"
          "\<forall>e \<in> set f2. \<exists>x \<in> set es. subtree (joinDisplay (n_display n) (de_name x)) e"
        by blast
      have "\<not> effect_below e1 e2" if "e1 \<in> set f1" "e2 \<in> set f2" for e1 e2
        using f1(3) f2(3) that siblings_apart Cons.prems(3,4) by (fastforce simp: image_iff)
      then have "contents_first (f1 @ f2)" using f1(2) f2(2) by (simp add: sorted_wrt_append)
      then show ?thesis using f1(1,3) f2(1,3) by (intro exI[of _ "f1 @ f2"]) auto
    next
      case (Some err)
      then show ?thesis
        using Cons.prems(1) \<open>child_node E n entry = Some ch\<close> v f1 by (intro exI[of _ f1]) auto
    qed
  qed
qed simp

lemma own_effects_last:
  assumes "contents_first fs" "\<forall>e \<in> set fs. subtree d e"
    and "\<forall>e \<in> set own. effect_path e = None \<or> effect_path e = Some d"
  shows "contents_first (fs @ own) \<and> (\<forall>e \<in> set (fs @ own). subtree d e)"
proof -
  have "\<not> effect_below e1 e2" if "subtree d e1" "effect_path e2 = None \<or> effect_path e2 = Some d" for e1 e2
    using that below_longer[of d] below_longer[of _ d]
    by (fastforce simp: subtree_def effect_below_def split: option.splits)
  moreover have own: "\<forall>e \<in> set own. subtree d e" using assms(3) by (auto simp: subtree_def)
  ultimately have apart: "\<not> effect_below e1 e2" if "e1 \<in> set fs \<union> set own" "e2 \<in> set own" for e1 e2
    using assms(2,3) that by blast
  have "contents_first zs" if "set zs \<subseteq> set own" for zs
    using that apart by (induction zs) auto
  then show ?thesis
    using assms(1,2) own apart by (auto simp: sorted_wrt_append)
qed

lemma evaluate_own:
  assumes "evaluate E n w = (es, pr, n', w')" "e \<in> set es"
  shows "effect_path e = Some (n_display n)"
  using evaluate_effects[OF assms] by (auto simp: effect_path_def node_data_def)

lemma diagnose_own: "\<exists>ms. w_effects (diagnose n w) = w_effects w @ ms \<and> (\<forall>e \<in> set ms. effect_path e = None)"
  by (auto simp: diagnose_def effect_path_def)

lemma children_orderly:
  assumes good: "good_listing E" and v: "\<And>ch w r w'. v ch w = Some (r, w') \<Longrightarrow> entries_ok E ch \<Longrightarrow> orderly (n_display ch) w w'"
    and run: "visitChildren v E n (n_entries n) w = Some (r, w')" and n: "entries_ok E n"
  shows "orderly (n_display n) w w'"
proof -
  have step: "orderly (joinDisplay (n_display n) (de_name entry)) w w'"
    if "entry \<in> set (n_entries n)" "child_node E n entry = Some ch" "v ch w = Some (r, w')"
    for entry ch w r w'
    using v[OF that(3) child_fresh[OF that(2)]] child_display[OF that(2)] by simp
  have "\<exists>fs. w_effects w' = w_effects w @ fs \<and> contents_first fs \<and>
      (\<forall>e \<in> set fs. \<exists>entry \<in> set (n_entries n). subtree (joinDisplay (n_display n) (de_name entry)) e)"
    by (rule visitChildren_orderly[OF run _ entries_good[OF good n]]) (rule step)
  then obtain fs
    where fs: "w_effects w' = w_effects w @ fs" "contents_first fs"
      "\<forall>e \<in> set fs. \<exists>entry \<in> set (n_entries n). subtree (joinDisplay (n_display n) (de_name entry)) e"
    by blast
  have "subtree (n_display n) e" if e: "e \<in> set fs" for e
  proof (cases "effect_path e")
    case (Some q)
    obtain entry where x: "entry \<in> set (n_entries n)" "subtree (joinDisplay (n_display n) (de_name entry)) e"
      using fs(3) e by blast
    have nm: "de_name entry \<noteq> []" "slash \<notin> set (de_name entry)" using entries_good(2)[OF good n] x(1) by auto
    obtain t where "q = joinDisplay (n_display n) (de_name entry @ t)"
      using subtree_child_path[OF x(2) nm Some] by (auto simp: joinDisplay_prefix)
    then show ?thesis using Some nm by (auto simp: subtree_def below_def)
  qed (simp add: subtree_def)
  then show ?thesis using fs(1,2) by (auto simp: orderly_def)
qed

lemma visit_depth_orderly:
  assumes good: "good_listing E" and v: "\<And>ch w r w'. v ch w = Some (r, w') \<Longrightarrow> entries_ok E ch \<Longrightarrow> orderly (n_display ch) w w'"
    and run: "visit_depth v E n w = Some (r, w')" and n: "entries_ok E n"
  shows "orderly (n_display n) w w'"
proof -
  define descend where "descend = (n_isDir n \<and> \<not> at_max (we_opts E) (n_depth n) \<and> \<not> otherDevice E w n)"
  obtain n1 w1 where nw1: "(if descend then readDir E (n, w) else (n, w)) = (n1, w1)" by fastforce
  have s1: "n_display n1 = n_display n" "w_effects w1 = w_effects w" "entries_ok E n1"
    using nw1 readDir_same[of E n w n1 w1] readDir_entries[OF n, of w n1 w1] n
    by (auto simp: same_node_def node_id_def same_walk_def split: if_splits)
  obtain r2 w2 where c: "(if descend then visitChildren v E n1 (n_entries n1) w1 else Some (None, w1)) = Some (r2, w2)"
    using run nw1 by (auto simp: visit_depth_def descend_def[symmetric] Let_def split: option.splits prod.splits)
  have "orderly (n_display n1) w1 w2"
    using c children_orderly[OF good v _ s1(3)] by (cases descend) (auto simp: orderly_def)
  then obtain fs where fs: "w_effects w2 = w_effects w @ fs" "contents_first fs" "\<forall>e \<in> set fs. subtree (n_display n) e"
    using s1 by (auto simp: orderly_def)
  show ?thesis
  proof (cases r2)
    case (Some err)
    then show ?thesis
      using run nw1 c fs by (auto simp: orderly_def visit_depth_def descend_def[symmetric] Let_def)
  next
    case None
    obtain es pr n3 w3 where ev: "evaluate E n1 w2 = (es, pr, n3, w3)" by (metis prod_cases4)
    have w3: "w_effects w3 = w_effects w @ fs" using evaluate_same[OF ev] fs(1) by (simp add: same_walk_def)
    obtain ms where ms: "w_effects (diagnose n3 w3) = w_effects w3 @ ms" "\<forall>e \<in> set ms. effect_path e = None"
      using diagnose_own by blast
    have "w' = w3 \<or> w' = add_effects es (diagnose n3 w3)"
      using run nw1 c None ev by (auto simp: visit_depth_def descend_def[symmetric] Let_def split: if_splits)
    moreover have "contents_first (fs @ (ms @ es)) \<and> (\<forall>e \<in> set (fs @ (ms @ es)). subtree (n_display n) e)"
      by (rule own_effects_last[OF fs(2,3)]) (use ms(2) evaluate_own[OF ev] s1(1) in auto)
    ultimately show ?thesis
      using w3 ms(1) fs(2,3) by (auto simp: orderly_def add_effects_def)
  qed
qed

lemma visit_orderly:
  assumes "depthFirst (we_opts E)" "good_listing E"
  shows "visit fuel E n w = Some (r, w') \<Longrightarrow> entries_ok E n \<Longrightarrow> orderly (n_display n) w w'"
proof (induction fuel arbitrary: n w r w')
  case (Suc fuel)
  define w1 where "w1 = w\<lparr>w_ticks := Suc (w_ticks w)\<rparr>"
  have "w' = w1 \<or> visit_depth (visit fuel E) E n w1 = Some (r, w')"
    using Suc.prems(1) assms(1) by (auto simp: w1_def Let_def split: option.splits)
  moreover have "orderly (n_display n) w1 w'" if "visit_depth (visit fuel E) E n w1 = Some (r, w')"
    by (rule visit_depth_orderly[OF assms(2) Suc.IH that Suc.prems(2)])
  ultimately show ?case by (auto simp: orderly_def w1_def)
qed simp

text \<open>C12: With -depth, which -delete implies, no effect of a starting point is followed by an effect on a path below its own: everything in a directory is handled before the directory, for every filesystem whose listings have distinct, nonempty names without a slash.\<close>

theorem depth_first_contents_first:
  assumes "depthFirst (we_opts E)" and "good_listing E"
    and "walkStart fuel E dir start w = Some (r, w')" and "w_effects w = []"
  shows "contents_first (w_effects w')"
proof (cases "fs_lstat (we_fs E) (we_state E) (resolvePath dir start)")
  case (Inl err)
  then show ?thesis using assms(3,4) by (auto simp: walkStart_def Let_def add_effects_def)
next
  case (Inr linfo)
  then obtain nm info w1 where v: "visit fuel E (newNode start (resolvePath dir start) nm 0 info) w1 = Some (r, w')"
      and w1: "w_effects w1 = []"
    using assms(3,4) by (fastforce simp: walkStart_def Let_def)
  from visit_orderly[OF assms(1,2) v newNode_fresh] w1 show ?thesis
    by (auto simp: orderly_def)
qed

lemma demo_good: "good_listing (demo_env opts)"
  by (auto simp: good_listing_def demo_env_def find_env_def Let_def demo_fs_def split: if_splits)

lemma demo_depth_walk:
  "paths_of (walkStart 4 (demo_env (default_options\<lparr>depthFirst := True\<rparr>)) [] ''.'' walker_start)
     = Some [Some ''./d/f'', Some ''./d'', Some ''.'']"
  by code_simp

theorem depth_first_contents_first_witness:
  "\<exists>r w'. walkStart 4 (demo_env (default_options\<lparr>depthFirst := True\<rparr>)) [] ''.'' walker_start = Some (r, w') \<and>
     map effect_path (w_effects w') = [Some ''./d/f'', Some ''./d'', Some ''.''] \<and> contents_first (w_effects w')"
proof -
  let ?o = "default_options\<lparr>depthFirst := True\<rparr>"
  obtain r w' where run: "walkStart 4 (demo_env ?o) [] ''.'' walker_start = Some (r, w')"
    and ps: "map effect_path (w_effects w') = [Some ''./d/f'', Some ''./d'', Some ''.'']"
    using demo_depth_walk by (auto simp: paths_of_def)
  have "depthFirst (we_opts (demo_env ?o))"
    by (simp add: demo_env_def find_env_def Let_def default_options_def)
  then show ?thesis
    using depth_first_contents_first[OF _ demo_good run] run ps by (auto simp: walker_start_def)
qed

section \<open>What is printed\<close>

text \<open>C28: An expression without an action prints an entry exactly when the expression is true of it as a Boolean formula, although evaluation stops early and may read the directory on the way.\<close>

theorem evaluate_prints_matches:
  assumes "o_expr (we_opts E) = Some e" and "actions (Some e) = []" and "\<not> we_hasAction E"
    and "minDepth (we_opts E) \<le> int (n_depth n)"
  shows "fst (evaluate E n w) =
    (if holds (we_libs E) (node_ctx E (node_data E w n) n) (n, w) e
     then [Act (plain_action 0 actPrint) (n_fsPath n) (node_data E w n)] else [])"
proof -
  let ?c = "node_ctx E (node_data E w n) n"
  have "er_matches (fst (eval (we_libs E) ?c e (n, w))) = holds (we_libs E) ?c (n, w) e"
    by (rule closure.eval_holds[of _ E "pd_size (node_data E w n)"]) (simp_all add: node_ctx_def)
  moreover have "er_actions (fst (eval (we_libs E) ?c e (n, w))) = []"
    using eval_actions_subseq'[of "we_libs E" ?c e "(n, w)"] assms(2) by simp
  ultimately show ?thesis using assms by (simp add: evaluate_cases Let_def)
qed

theorem evaluate_prints_matches_witness:
  "let E = demo_env (default_options\<lparr>o_expr := Some (exprNot exprEmpty)\<rparr>);
       n = newNode ''.'' ''.'' ''.'' 0 (demo_info ''.'' 0x800001ED); w = walker_start
   in fst (evaluate E n w) = (if holds (we_libs E) (node_ctx E (node_data E w n) n) (n, w) (exprNot exprEmpty)
        then [Act (plain_action 0 actPrint) ''.'' (node_data E w n)] else [])"
proof -
  let ?E = "demo_env (default_options\<lparr>o_expr := Some (exprNot exprEmpty)\<rparr>)"
  let ?n = "newNode ''.'' ''.'' ''.'' 0 (demo_info ''.'' 0x800001ED)"
  have E: "o_expr (we_opts ?E) = Some (exprNot exprEmpty)" "\<not> we_hasAction ?E"
      "minDepth (we_opts ?E) \<le> int (n_depth ?n)" "n_fsPath ?n = ''.''"
    by (simp_all add: demo_env_def find_env_def Let_def default_options_def newNode_def bare_node_def
          actions_def walk_opt_def)
  show ?thesis
    using evaluate_prints_matches[OF E(1) _ E(2,3), of walker_start] E(4)
    by (simp add: Let_def actions_def walk_opt_def)
qed

section \<open>Batched commands\<close>

definition batch_path :: "nat \<Rightarrow> effect \<Rightarrow> string list" where
  "batch_path i e = (case e of
     Message _ \<Rightarrow> []
   | Act a p d \<Rightarrow> if act_kind a = actExec \<and> act_batch a \<and> act_id a = i then [pd_path d] else [])"

definition batch_paths :: "nat \<Rightarrow> effect list \<Rightarrow> string list" where
  "batch_paths i es = concat (map (batch_path i) es)"

definition batches_ok :: "effect list \<Rightarrow> 's apply_state \<Rightarrow> bool" where
  "batches_ok es st \<longleftrightarrow>
     (\<forall>i. a_batches st i = (if batch_paths i es = [] then None else Some (batch_paths i es))) \<and>
     distinct (map act_id (a_order st)) \<and> (\<forall>i. i \<in> act_id ` set (a_order st) \<longleftrightarrow> batch_paths i es \<noteq> [])"

lemma runExec_batches [simp]:
  "a_batches (runExec S argv st) = a_batches st" "a_order (runExec S argv st) = a_order st"
  by (auto simp: runExec_def Let_def split: sum.split prod.split exit_result.split)

lemma not_batch:
  assumes "\<And>i. batch_path i e = []"
    and "a_batches st' = a_batches st" "a_order st' = a_order st" "batches_ok es st"
  shows "batches_ok (es @ [e]) st'"
  using assms by (simp add: batches_ok_def batch_paths_def)

lemma add_batch_ok:
  assumes ok: "batches_ok es st" and a: "act_kind a = actExec" "act_batch a"
  shows "batches_ok (es @ [Act a p d]) (add_batch a (pd_path d) st)"
proof -
  have bp: "batch_paths i (es @ [Act a p d]) = batch_paths i es @ (if act_id a = i then [pd_path d] else [])" for i
    using a by (simp add: batch_paths_def batch_path_def)
  show ?thesis
  proof (cases "batch_paths (act_id a) es = []")
    case True
    then show ?thesis
      using ok by (auto simp: batches_ok_def add_batch_def bp)
  next
    case False
    then show ?thesis
      using ok by (auto simp: batches_ok_def add_batch_def bp)
  qed
qed

lemma apply_effect_ok:
  assumes ok: "batches_ok es st" and f: "a_fail st = None"
  shows "batches_ok (es @ [e]) (apply_effect S F lt e st)"
proof (cases e)
  case (Message m)
  then show ?thesis
    using f by (intro not_batch[OF _ _ _ ok]) (simp_all add: apply_effect_def batch_path_def)
next
  case (Act a p d)
  show ?thesis
  proof (cases "act_kind a = actExec \<and> act_batch a")
    case True
    then show ?thesis using add_batch_ok[OF ok] Act f by (simp add: apply_effect_def)
  next
    case False
    then show ?thesis
      using Act f
      by (intro not_batch[OF _ _ _ ok])
         (auto simp: apply_effect_def batch_path_def split: actionKind.split prod.split option.split)
  qed
qed

lemma apply_effect_fail: "a_fail (apply_effect S F lt e st) = None \<Longrightarrow> a_fail st = None"
  by (auto simp: apply_effect_def split: if_splits)

text \<open>Applying the effects gathers for every batched -exec the paths it was reached on, in traversal order, and schedules each batched -exec that was reached exactly once.\<close>

theorem batches_gathered:
  assumes "a_fail (foldl (\<lambda>a e. apply_effect S F lt e a) (apply_start st) es) = None"
  shows "batches_ok es (foldl (\<lambda>a e. apply_effect S F lt e a) (apply_start st) es)"
  using assms
proof (induction es rule: rev_induct)
  case Nil
  then show ?case by (simp add: apply_start_def batches_ok_def batch_paths_def)
next
  case (snoc e es)
  then show ?case by (simp add: apply_effect_ok apply_effect_fail)
qed

definition demo_shell :: "unit shell" where
  "demo_shell = \<lparr>sh_quote = Some, sh_parse = (\<lambda>_. True), sh_run = (\<lambda>s st. (ExitOk, s, [], st)), sh_q = (\<lambda>s. s)\<rparr>"

theorem batches_gathered_witness:
  "let act = \<lparr>act_id = 3, act_kind = actExec, act_format = [], act_command = [''rm'', ''{}''], act_batch = True\<rparr>;
       es = [Act act ''a'' printf_demo, Message ''m'', Act act ''b'' printf_demo];
       a = foldl (\<lambda>a e. apply_effect demo_shell demo_fs (\<lambda>_. undefined) e a) (apply_start ()) es
   in a_batches a 3 = Some [''src/main.go'', ''src/main.go''] \<and> a_order a = [act] \<and> batches_ok es a"
proof -
  define act where "act = \<lparr>act_id = 3, act_kind = actExec, act_format = [], act_command = [''rm'', ''{}''], act_batch = True\<rparr>"
  define es where "es = [Act act ''a'' printf_demo, Message ''m'', Act act ''b'' printf_demo]"
  define a where "a = foldl (\<lambda>a e. apply_effect demo_shell demo_fs (\<lambda>_. undefined) e a) (apply_start ()) es"
  have "a_fail a = None" "a_batches a 3 = Some [''src/main.go'', ''src/main.go'']" "a_order a = [act]"
    by (simp_all add: a_def es_def act_def apply_effect_def apply_start_def add_batch_def printf_demo_def)
  then show ?thesis
    using batches_gathered[of demo_shell demo_fs "\<lambda>_. undefined" "()" es]
    unfolding act_def[symmetric] es_def[symmetric] a_def[symmetric] Let_def by simp
qed

end
