(* ===== verification/S3fs_Temp.thy ===== *)
theory S3fs_Temp
  imports Registry
begin

text \<open>
  In-memory temporary files of the S3 filesystem (\<^verbatim>\<open>s3fs/tempfs.go\<close>).  A buffer is shared
  by the registry, one writer and any number of readers, so buffers live in a store and
  handles hold an address; the mutex of a buffer makes each of its operations one step.  A
  read is given the length of the caller's slice and returns the bytes it filled in.
\<close>

section \<open>Errors\<close>

text \<open>
  The error values of the package.  \<open>Panic\<close> is a nil pointer dereference; \<open>Wrapped\<close> is an
  error of the S3 client with the text the code puts before it.
\<close>

datatype s3_err = ApiErr string | ClientErr string

datatype io_err =
    EOF
  | FileClosed
  | CantWriteToReadOnly
  | CantReadFromWriteOnly
  | TruncateNotSupported
  | LockNotSupported
  | SymLinkNotSupported
  | NotImplemented string string
  | IsDirectory string string
  | NotExist string string
  | Wrapped string s3_err
  | Failed string
  | Panic

section \<open>Buffers\<close>

type_synonym temp_store = "nat \<Rightarrow> string"

definition buf_write :: "nat \<Rightarrow> string \<Rightarrow> temp_store \<Rightarrow> (nat \<times> io_err option) \<times> temp_store" where
  "buf_write b p h = ((length p, None), h(b := h b @ p))"

definition buf_readAt :: "nat \<Rightarrow> nat \<Rightarrow> int \<Rightarrow> temp_store \<Rightarrow> string \<times> io_err option" where
  "buf_readAt b n off h =
     (if off < 0 then ([], Some (Failed ''s3fs: negative offset''))
      else if off \<ge> int (length (h b)) then ([], Some EOF)
      else (take n (drop (nat off) (h b)), None))"

definition buf_size :: "nat \<Rightarrow> temp_store \<Rightarrow> int" where
  "buf_size b h = int (length (h b))"

definition buf_snapshot :: "nat \<Rightarrow> temp_store \<Rightarrow> string" where
  "buf_snapshot b h = h b"

section \<open>Handles\<close>

record tempWriteFile =
  tw_buf :: nat
  tw_name :: string
  tw_closed :: bool

definition tempWrite_Write :: "tempWriteFile \<Rightarrow> string \<Rightarrow> temp_store \<Rightarrow> (nat \<times> io_err option) \<times> temp_store" where
  "tempWrite_Write f p h = (if tw_closed f then ((0, Some FileClosed), h) else buf_write (tw_buf f) p h)"

definition tempWrite_Close :: "tempWriteFile \<Rightarrow> io_err option \<times> tempWriteFile" where
  "tempWrite_Close f = (if tw_closed f then (Some FileClosed, f) else (None, f\<lparr>tw_closed := True\<rparr>))"

record tempReadFile =
  tr_buf :: nat
  tr_name :: string
  tr_pos :: int
  tr_closed :: bool

definition tempRead_Read :: "tempReadFile \<Rightarrow> nat \<Rightarrow> temp_store \<Rightarrow> (string \<times> io_err option) \<times> tempReadFile" where
  "tempRead_Read f n h =
     (if tr_closed f then (([], Some FileClosed), f)
      else let (bs, err) = buf_readAt (tr_buf f) n (tr_pos f) h
           in ((bs, err), f\<lparr>tr_pos := tr_pos f + int (length bs)\<rparr>))"

definition tempRead_ReadAt :: "tempReadFile \<Rightarrow> nat \<Rightarrow> int \<Rightarrow> temp_store \<Rightarrow> string \<times> io_err option" where
  "tempRead_ReadAt f n off h =
     (if tr_closed f then ([], Some FileClosed) else buf_readAt (tr_buf f) n off h)"

text \<open>\<^verbatim>\<open>io.SeekStart\<close>, \<^verbatim>\<open>io.SeekCurrent\<close> and \<^verbatim>\<open>io.SeekEnd\<close> are 0, 1 and 2.\<close>

definition tempRead_Seek :: "tempReadFile \<Rightarrow> int \<Rightarrow> int \<Rightarrow> temp_store \<Rightarrow> (int \<times> io_err option) \<times> tempReadFile" where
  "tempRead_Seek f offset whence h =
     (if tr_closed f then ((0, Some FileClosed), f)
      else if whence \<noteq> 0 \<and> whence \<noteq> 1 \<and> whence \<noteq> 2
      then ((0, Some (Failed (''s3fs: invalid whence '' @ itoa whence))), f)
      else let pos = (if whence = 0 then offset
                      else if whence = 1 then tr_pos f + offset
                      else buf_size (tr_buf f) h + offset)
           in ((pos, None), f\<lparr>tr_pos := pos\<rparr>))"

definition tempRead_Close :: "tempReadFile \<Rightarrow> io_err option \<times> tempReadFile" where
  "tempRead_Close f = (if tr_closed f then (Some FileClosed, f) else (None, f\<lparr>tr_closed := True\<rparr>))"

section \<open>An append-only buffer\<close>

text \<open>
  What a reader of a buffer relies on: a write appends to what reading from the front gives,
  and a read at a position inside returns the bytes from there.
\<close>

locale append_buffer =
  fixes contents :: "'h \<Rightarrow> string"
    and append :: "string \<Rightarrow> 'h \<Rightarrow> 'h"
    and read_at :: "nat \<Rightarrow> nat \<Rightarrow> 'h \<Rightarrow> string"
  assumes contents_append: "contents (append p h) = contents h @ p"
    and read_at_contents: "read_at n off h = take n (drop off (contents h))"
begin

text \<open>One writer appends and one reader advances, in any order.\<close>

fun run :: "(string + nat) list \<Rightarrow> 'h \<Rightarrow> nat \<Rightarrow> string \<Rightarrow> 'h \<times> nat \<times> string" where
  "run [] h pos got = (h, pos, got)"
| "run (Inl p # ops) h pos got = run ops (append p h) pos got"
| "run (Inr n # ops) h pos got =
     (let bs = read_at n pos h in run ops h (pos + length bs) (got @ bs))"

lemma run_prefix:
  assumes "got = take pos (contents h)" and "pos \<le> length (contents h)" and "run ops h pos got = (h', pos', got')"
  shows "got' = take pos' (contents h') \<and> pos' \<le> length (contents h')
    \<and> contents h' = contents h @ concat (map (\<lambda>op. case op of Inl p \<Rightarrow> p | Inr n \<Rightarrow> []) ops)"
  using assms
proof (induction ops arbitrary: h pos got)
  case (Cons op ops)
  show ?case
  proof (cases op)
    case (Inl p)
    then have "run ops (append p h) pos got = (h', pos', got')" using Cons.prems(3) by simp
    from Cons.IH[OF _ _ this] show ?thesis using Cons.prems(1,2) Inl by (auto simp: contents_append)
  next
    case (Inr n)
    define bs where "bs = read_at n pos h"
    have step: "got @ bs = take (pos + length bs) (contents h)" "pos + length bs \<le> length (contents h)"
      using Cons.prems(1,2) by (auto simp: bs_def read_at_contents take_add min_def)
    have "run ops h (pos + length bs) (got @ bs) = (h', pos', got')"
      using Cons.prems(3) Inr by (simp add: bs_def Let_def)
    from Cons.IH[OF step this] show ?thesis using Inr by auto
  qed
qed simp

end

text \<open>The buffer at address \<open>b\<close>, with the end-of-file answer of \<open>buf_readAt\<close> as an empty read.\<close>

interpretation tempbuf: append_buffer "\<lambda>h. h b" "\<lambda>p h. snd (buf_write b p h)"
  "\<lambda>n off h. fst (buf_readAt b n (int off) h)" for b
  by unfold_locales (auto simp: buf_write_def buf_readAt_def)

section \<open>Reading while writing\<close>

text \<open>A session of one writer and one reader: \<^const>\<open>Inl\<close> writes bytes, \<^const>\<open>Inr\<close> reads up to \<open>n\<close>.\<close>

fun temp_session ::
  "(string + nat) list \<Rightarrow> tempWriteFile \<Rightarrow> tempReadFile \<Rightarrow> temp_store \<Rightarrow> string \<Rightarrow> temp_store \<times> tempReadFile \<times> string" where
  "temp_session [] f r h got = (h, r, got)"
| "temp_session (Inl p # ops) f r h got = temp_session ops f r (snd (tempWrite_Write f p h)) got"
| "temp_session (Inr n # ops) f r h got =
     (let ((bs, err), r') = tempRead_Read r n h in temp_session ops f r' h (got @ bs))"

lemma session_run:
  assumes "tr_buf r = tw_buf f" "\<not> tw_closed f" "\<not> tr_closed r" "tr_pos r = int pos"
    and "temp_session ops f r h got = (h', r', got')"
  shows "\<exists>pos'. tempbuf.run (tw_buf f) ops h pos got = (h', pos', got') \<and> tr_pos r' = int pos'"
  using assms
proof (induction ops arbitrary: r h pos got)
  case (Cons op ops)
  show ?case
  proof (cases op)
    case (Inl p)
    then show ?thesis using Cons by (simp add: tempWrite_Write_def)
  next
    case (Inr n)
    obtain bs err where b: "buf_readAt (tw_buf f) n (int pos) h = (bs, err)" by fastforce
    define r1 where "r1 = r\<lparr>tr_pos := tr_pos r + int (length bs)\<rparr>"
    have "temp_session ops f r1 h (got @ bs) = (h', r', got')"
      using Cons.prems Inr b by (simp add: tempRead_Read_def r1_def)
    from Cons.IH[OF _ _ _ _ this, of "pos + length bs"] show ?thesis
      using Cons.prems(1-4) Inr b by (simp add: r1_def)
  qed
qed simp

text \<open>C23: A reader of a temporary file that is still being written sees exactly a prefix of the bytes written so far, with no gap, repetition or reordering, in every interleaving of writes and reads; the buffer holds the concatenation of all writes.\<close>

theorem temp_read_while_write:
  assumes "tr_buf r = tw_buf f" "\<not> tw_closed f" "\<not> tr_closed r" "tr_pos r = 0" "h (tw_buf f) = []"
    and "temp_session ops f r h [] = (h', r', got)"
  shows "h' (tw_buf f) = concat (map (\<lambda>op. case op of Inl p \<Rightarrow> p | Inr n \<Rightarrow> []) ops) \<and>
    got = take (nat (tr_pos r')) (h' (tw_buf f)) \<and> 0 \<le> tr_pos r' \<and> tr_pos r' \<le> buf_size (tw_buf f) h'"
proof -
  obtain pos where "tempbuf.run (tw_buf f) ops h 0 [] = (h', pos, got)" "tr_pos r' = int pos"
    using session_run[OF assms(1-3) _ assms(6), of 0] assms(4) by auto
  then show ?thesis
    using tempbuf.run_prefix[of "[]" 0 h "tw_buf f" ops h' pos got] assms(5) by (auto simp: buf_size_def)
qed

theorem temp_read_while_write_witness:
  "let f = \<lparr>tw_buf = 0, tw_name = ''t'', tw_closed = False\<rparr>;
       r = \<lparr>tr_buf = 0, tr_name = ''t'', tr_pos = 0, tr_closed = False\<rparr>;
       (h', r', got) = temp_session [Inl ''abc'', Inr 2, Inl ''de'', Inr 9, Inr 1] f r (\<lambda>_. []) []
   in h' 0 = ''abcde'' \<and> got = ''abcde''"
proof -
  let ?f = "\<lparr>tw_buf = 0, tw_name = ''t'', tw_closed = False\<rparr>"
  let ?r = "\<lparr>tr_buf = 0, tr_name = ''t'', tr_pos = 0, tr_closed = False\<rparr>"
  let ?ops = "[Inl ''abc'', Inr 2, Inl ''de'', Inr 9, Inr 1]"
  obtain h' r' got where s: "temp_session ?ops ?f ?r (\<lambda>_. []) [] = (h', r', got)" by (metis prod_cases3)
  have "tr_pos r' = 5"
    using s by (auto simp: tempWrite_Write_def tempRead_Read_def buf_write_def buf_readAt_def)
  then show ?thesis
    using temp_read_while_write[of ?r ?f "\<lambda>_. []" ?ops h' r' got] s by simp
qed

end
