(* ===== verification/Unixmeta.thy ===== *)
theory Unixmeta
  imports Go_Fs
begin

unbundle bit_operations_syntax

text \<open>
  POSIX attributes as S3 user metadata (\<^verbatim>\<open>s3fs/unixmeta/unixmeta.go\<close>).  Modes, owners and
  device numbers are 32-bit words; a time is in nanoseconds since the epoch, so
  \<^verbatim>\<open>Unix()\<close> is the floor of its quotient by a billion.  Metadata is a map from keys to
  strings.  \<^verbatim>\<open>url.QueryEscape\<close> and \<^verbatim>\<open>url.QueryUnescape\<close> are modelled.
\<close>

section \<open>Query escaping\<close>

definition unreserved :: "char \<Rightarrow> bool" where
  "unreserved c \<longleftrightarrow> is_digit c \<or> (65 \<le> byte_val c \<and> byte_val c \<le> 90) \<or> (97 \<le> byte_val c \<and> byte_val c \<le> 122)
     \<or> c = CHR ''-'' \<or> c = CHR ''_'' \<or> c = CHR ''.'' \<or> c = CHR ''~''"

definition hex_digit :: "nat \<Rightarrow> char" where
  "hex_digit n = ''0123456789ABCDEF'' ! n"

definition hex_val :: "char \<Rightarrow> nat option" where
  "hex_val c =
     (if is_digit c then Some (byte_val c - 48)
      else if 97 \<le> byte_val c \<and> byte_val c \<le> 102 then Some (byte_val c - 97 + 10)
      else if 65 \<le> byte_val c \<and> byte_val c \<le> 70 then Some (byte_val c - 65 + 10)
      else None)"

fun queryEscape :: "string \<Rightarrow> string" where
  "queryEscape [] = []"
| "queryEscape (c # s) =
     (if unreserved c then [c]
      else if c = CHR '' '' then ''+''
      else [CHR ''%'', hex_digit (byte_val c div 16), hex_digit (byte_val c mod 16)]) @ queryEscape s"

fun queryUnescape :: "string \<Rightarrow> string option" where
  "queryUnescape [] = Some []"
| "queryUnescape (c # s) =
     (if c = CHR ''%'' then
        (case s of
           a # b # r \<Rightarrow>
             (case (hex_val a, hex_val b) of
                (Some x, Some y) \<Rightarrow> map_option (\<lambda>t. char_of (x * 16 + y) # t) (queryUnescape r)
              | _ \<Rightarrow> None)
         | _ \<Rightarrow> None)
      else map_option (\<lambda>t. (if c = CHR ''+'' then CHR '' '' else c) # t) (queryUnescape s))"

section \<open>Attributes\<close>

definition keyUID :: string where "keyUID = ''uid''"
definition keyGID :: string where "keyGID = ''gid''"
definition keyMode :: string where "keyMode = ''mode''"
definition keyRdev :: string where "keyRdev = ''rdev''"
definition keyMtime :: string where "keyMtime = ''mtime''"
definition keySymlinkTarget :: string where "keySymlinkTarget = ''--symlink-target''"

lemmas meta_keys = keyUID_def keyGID_def keyMode_def keyRdev_def keyMtime_def keySymlinkTarget_def

definition modeTypeMask :: "32 word" where "modeTypeMask = 0xF000"
definition modeRegular :: "32 word" where "modeRegular = 0x8000"
definition modeDir :: "32 word" where "modeDir = 0x4000"
definition modeSymlink :: "32 word" where "modeSymlink = 0xA000"
definition modeBlock :: "32 word" where "modeBlock = 0x6000"
definition modeChar :: "32 word" where "modeChar = 0x2000"
definition modeFIFO :: "32 word" where "modeFIFO = 0x1000"
definition modeSocket :: "32 word" where "modeSocket = 0xC000"

lemmas posix_modes = modeTypeMask_def modeRegular_def modeDir_def modeSymlink_def modeBlock_def
  modeChar_def modeFIFO_def modeSocket_def

record attrs =
  at_UID :: "32 word"
  at_GID :: "32 word"
  at_Mode :: fmode
  at_Rdev :: "32 word"
  at_Mtime :: int
  at_SymlinkTarget :: string

definition PosixMode :: "fmode \<Rightarrow> 32 word" where
  "PosixMode m =
     (let out0 = mode_perm m;
          out1 = (if m AND ModeSetuid \<noteq> 0 then out0 OR 0x800 else out0);
          out2 = (if m AND ModeSetgid \<noteq> 0 then out1 OR 0x400 else out1);
          out3 = (if m AND ModeSticky \<noteq> 0 then out2 OR 0x200 else out2)
      in if m AND ModeDir \<noteq> 0 then out3 OR modeDir
         else if m AND ModeSymlink \<noteq> 0 then out3 OR modeSymlink
         else if m AND ModeDevice \<noteq> 0 \<and> m AND ModeCharDevice \<noteq> 0 then out3 OR modeChar
         else if m AND ModeDevice \<noteq> 0 then out3 OR modeBlock
         else if m AND ModeNamedPipe \<noteq> 0 then out3 OR modeFIFO
         else if m AND ModeSocket \<noteq> 0 then out3 OR modeSocket
         else out3 OR modeRegular)"

definition GoFileMode :: "32 word \<Rightarrow> fmode" where
  "GoFileMode p =
     (let m0 = p AND 0x1FF;
          m1 = (if p AND 0x800 \<noteq> 0 then m0 OR ModeSetuid else m0);
          m2 = (if p AND 0x400 \<noteq> 0 then m1 OR ModeSetgid else m1);
          m3 = (if p AND 0x200 \<noteq> 0 then m2 OR ModeSticky else m2);
          t = p AND modeTypeMask
      in if t = modeDir then m3 OR ModeDir
         else if t = modeSymlink then m3 OR ModeSymlink
         else if t = modeChar then m3 OR (ModeDevice OR ModeCharDevice)
         else if t = modeBlock then m3 OR ModeDevice
         else if t = modeFIFO then m3 OR ModeNamedPipe
         else if t = modeSocket then m3 OR ModeSocket
         else m3)"

definition format_word :: "32 word \<Rightarrow> string" where
  "format_word w = show_nat (unat w)"

definition unix_seconds :: "int \<Rightarrow> int" where
  "unix_seconds t = t div 1000000000"

definition Encode :: "attrs \<Rightarrow> string \<rightharpoonup> string" where
  "Encode a =
     (let m0 = [keyUID \<mapsto> format_word (at_UID a), keyGID \<mapsto> format_word (at_GID a),
                keyMode \<mapsto> format_word (PosixMode (at_Mode a)), keyMtime \<mapsto> itoa (unix_seconds (at_Mtime a))];
          m1 = (if at_Mode a AND (ModeDevice OR ModeCharDevice) \<noteq> 0 then m0(keyRdev \<mapsto> format_word (at_Rdev a)) else m0)
      in if at_SymlinkTarget a \<noteq> [] then m1(keySymlinkTarget \<mapsto> queryEscape (at_SymlinkTarget a)) else m1)"

text \<open>A header that is missing or malformed leaves the default.\<close>

definition header :: "(string \<rightharpoonup> string) \<Rightarrow> string \<Rightarrow> (string \<Rightarrow> 'a option) \<Rightarrow> ('a \<Rightarrow> 'b) \<Rightarrow> 'b \<Rightarrow> 'b" where
  "header meta k parse f dflt =
     (case meta k of
        None \<Rightarrow> dflt
      | Some s \<Rightarrow> (case parse s of None \<Rightarrow> dflt | Some v \<Rightarrow> f v))"

definition parse_u32 :: "string \<Rightarrow> nat option" where
  "parse_u32 s = parseUint s 0 32"

definition Decode :: "(string \<rightharpoonup> string) \<Rightarrow> attrs \<Rightarrow> attrs" where
  "Decode meta d =
     \<lparr>at_UID = header meta keyUID parse_u32 of_nat (at_UID d),
      at_GID = header meta keyGID parse_u32 of_nat (at_GID d),
      at_Mode = header meta keyMode parse_u32 (\<lambda>v. GoFileMode (of_nat v)) (at_Mode d),
      at_Rdev = header meta keyRdev parse_u32 of_nat (at_Rdev d),
      at_Mtime = header meta keyMtime (\<lambda>s. parseInt s 0 64) (\<lambda>v. v * 1000000000) (at_Mtime d),
      at_SymlinkTarget = header meta keySymlinkTarget queryUnescape (\<lambda>s. s) (at_SymlinkTarget d)\<rparr>"

text \<open>\<open>LookupUID\<close> and \<open>LookupGID\<close>, with the host's database as a parameter.\<close>

definition lookup_id :: "(string \<Rightarrow> string option) \<Rightarrow> string \<Rightarrow> (32 word) option" where
  "lookup_id db name =
     (case db name of
        Some num \<Rightarrow> map_option of_nat (parseUint num 10 32)
      | None \<Rightarrow> map_option of_nat (parseUint name 10 32))"

definition LookupUID :: "(string \<Rightarrow> string option) \<Rightarrow> string \<Rightarrow> (32 word) option" where
  "LookupUID passwd name = lookup_id passwd name"

definition LookupGID :: "(string \<Rightarrow> string option) \<Rightarrow> string \<Rightarrow> (32 word) option" where
  "LookupGID groups name = lookup_id groups name"

section \<open>Modes\<close>

datatype file_type = Regular | Directory | Symlink | CharDev | BlockDev | Fifo | Socket

definition go_type :: "file_type \<Rightarrow> fmode" where
  "go_type t = (case t of Regular \<Rightarrow> 0 | Directory \<Rightarrow> ModeDir | Symlink \<Rightarrow> ModeSymlink
     | CharDev \<Rightarrow> ModeDevice OR ModeCharDevice | BlockDev \<Rightarrow> ModeDevice | Fifo \<Rightarrow> ModeNamedPipe | Socket \<Rightarrow> ModeSocket)"

definition posix_type :: "file_type \<Rightarrow> 32 word" where
  "posix_type t = (case t of Regular \<Rightarrow> modeRegular | Directory \<Rightarrow> modeDir | Symlink \<Rightarrow> modeSymlink
     | CharDev \<Rightarrow> modeChar | BlockDev \<Rightarrow> modeBlock | Fifo \<Rightarrow> modeFIFO | Socket \<Rightarrow> modeSocket)"

text \<open>The mode of a file of type \<open>t\<close> with permission bits \<open>p\<close> and the three special bits.\<close>

definition go_mode :: "fmode \<Rightarrow> bool \<Rightarrow> bool \<Rightarrow> bool \<Rightarrow> file_type \<Rightarrow> fmode" where
  "go_mode p su sg st t = (p AND 0x1FF) OR (if su then ModeSetuid else 0) OR (if sg then ModeSetgid else 0)
     OR (if st then ModeSticky else 0) OR go_type t"

definition posix_mode :: "32 word \<Rightarrow> bool \<Rightarrow> bool \<Rightarrow> bool \<Rightarrow> file_type \<Rightarrow> 32 word" where
  "posix_mode p su sg st t = (p AND 0x1FF) OR (if su then 0x800 else 0) OR (if sg then 0x400 else 0)
     OR (if st then 0x200 else 0) OR posix_type t"

lemmas mask_simps = bit.conj_disj_distrib2 and.assoc

lemma PosixMode_go_mode: "PosixMode (go_mode p su sg st t) = posix_mode p su sg st t"
  by (cases su; cases sg; cases st; cases t)
     (simp_all add: PosixMode_def go_mode_def posix_mode_def go_type_def posix_type_def mode_bits
        mode_perm_def posix_modes mask_simps or.assoc)

lemma GoFileMode_posix_mode: "GoFileMode (posix_mode p su sg st t) = go_mode p su sg st t"
  by (cases su; cases sg; cases st; cases t)
     (simp_all add: GoFileMode_def go_mode_def posix_mode_def go_type_def posix_type_def mode_bits
        posix_modes mask_simps or.assoc)

text \<open>The two mode conversions are inverse to each other on every POSIX file type, permission and special bit: converting to mode_t and back gives the same Go mode, and converting from mode_t and back the same mode_t.\<close>

theorem mode_roundtrip:
  "GoFileMode (PosixMode (go_mode p su sg st t)) = go_mode p su sg st t \<and>
   PosixMode (GoFileMode (posix_mode p su sg st t)) = posix_mode p su sg st t"
  by (simp add: PosixMode_go_mode GoFileMode_posix_mode)

section \<open>Escaping\<close>

lemma hex_digit_val: "n < 16 \<Longrightarrow> hex_val (hex_digit n) = Some n"
proof -
  assume "n < 16"
  then have "n \<in> set [0..<16]" by simp
  then show ?thesis
    by (simp only: upt_rec[of 0 16] set_simps) (auto simp: hex_digit_def hex_val_def is_digit_def upt_rec)
qed

lemma byte_hex: "char_of (byte_val c div 16 * 16 + byte_val c mod 16) = c"
  by simp

lemma byte_div: "byte_val c div 16 < 16"
  by (rule less_mult_imp_div_less) simp

lemma unescape_escape: "queryUnescape (queryEscape s) = Some s"
proof (induction s)
  case (Cons c s)
  have "unreserved c \<Longrightarrow> c \<noteq> CHR ''%'' \<and> c \<noteq> CHR ''+''"
    by (auto simp: unreserved_def is_digit_def)
  then show ?case
    using Cons byte_div[of c] by (auto simp: hex_digit_val)
qed simp

section \<open>Attributes\<close>

lemma parse_format_word [simp]: "parse_u32 (format_word w) = Some (unat w)"
  using unsigned_less[of w, where ?'a = nat] by (simp add: parse_u32_def format_word_def parseUint_show0)

definition is_device :: "attrs \<Rightarrow> bool" where
  "is_device a \<longleftrightarrow> at_Mode a AND (ModeDevice OR ModeCharDevice) \<noteq> 0"

lemma keys_distinct [simp]:
  "keyUID \<noteq> keyGID" "keyUID \<noteq> keyMode" "keyUID \<noteq> keyRdev" "keyUID \<noteq> keyMtime" "keyUID \<noteq> keySymlinkTarget"
  "keyGID \<noteq> keyMode" "keyGID \<noteq> keyRdev" "keyGID \<noteq> keyMtime" "keyGID \<noteq> keySymlinkTarget"
  "keyMode \<noteq> keyRdev" "keyMode \<noteq> keyMtime" "keyMode \<noteq> keySymlinkTarget"
  "keyRdev \<noteq> keyMtime" "keyRdev \<noteq> keySymlinkTarget" "keyMtime \<noteq> keySymlinkTarget"
  by (simp_all add: meta_keys)

lemma Encode_lookup:
  "Encode a keyUID = Some (format_word (at_UID a))"
  "Encode a keyGID = Some (format_word (at_GID a))"
  "Encode a keyMode = Some (format_word (PosixMode (at_Mode a)))"
  "Encode a keyMtime = Some (itoa (unix_seconds (at_Mtime a)))"
  "Encode a keyRdev = (if is_device a then Some (format_word (at_Rdev a)) else None)"
  "Encode a keySymlinkTarget =
     (if at_SymlinkTarget a \<noteq> [] then Some (queryEscape (at_SymlinkTarget a)) else None)"
  using keys_distinct keys_distinct[symmetric]
  by (simp_all add: Encode_def Let_def is_device_def)

lemma Decode_Encode_attrs:
  assumes "- (2 ^ 63) \<le> unix_seconds (at_Mtime a)" and "unix_seconds (at_Mtime a) < 2 ^ 63"
    and "at_Mode a = go_mode p su sg st t"
  shows "Decode (Encode a) d =
    a\<lparr>at_Mtime := unix_seconds (at_Mtime a) * 1000000000,
      at_Rdev := (if is_device a then at_Rdev a else at_Rdev d),
      at_SymlinkTarget := (if at_SymlinkTarget a \<noteq> [] then at_SymlinkTarget a else at_SymlinkTarget d)\<rparr>"
proof -
  have t: "parseInt (itoa (unix_seconds (at_Mtime a))) 0 64 = Some (unix_seconds (at_Mtime a))"
    by (rule parseInt_itoa0) (use assms in auto)
  have m: "GoFileMode (PosixMode (at_Mode a)) = at_Mode a"
    using assms(3) by (simp add: PosixMode_go_mode GoFileMode_posix_mode)
  show ?thesis
    by (rule attrs.equality) (simp_all add: Decode_def header_def Encode_lookup t m unescape_escape)
qed

text \<open>C25: Reading back the metadata an object was written with gives its attributes: owner and group, mode, device number of a device, target of a symbolic link, and the modification time cut to the second; what was not written keeps the default.\<close>

theorem Decode_Encode:
  assumes "- (2 ^ 63) \<le> unix_seconds (at_Mtime a)" and "unix_seconds (at_Mtime a) < 2 ^ 63"
    and "at_Mode a = go_mode p su sg st t"
  shows "Decode (Encode a) d =
    a\<lparr>at_Mtime := unix_seconds (at_Mtime a) * 1000000000,
      at_Rdev := (if is_device a then at_Rdev a else at_Rdev d),
      at_SymlinkTarget := (if at_SymlinkTarget a \<noteq> [] then at_SymlinkTarget a else at_SymlinkTarget d)\<rparr>"
  by (rule Decode_Encode_attrs[OF assms])

definition demo_attrs :: attrs where
  "demo_attrs = \<lparr>at_UID = 1000, at_GID = 100, at_Mode = go_mode 0x1A4 False False True Directory,
     at_Rdev = 0, at_Mtime = 1700000000123456789, at_SymlinkTarget = ''a b''\<rparr>"

theorem Decode_Encode_witness:
  "Decode (Encode demo_attrs) demo_attrs = demo_attrs\<lparr>at_Mtime := 1700000000000000000\<rparr>"
proof -
  have "unix_seconds (at_Mtime demo_attrs) = 1700000000"
    by (simp add: demo_attrs_def unix_seconds_def)
  then show ?thesis
    using Decode_Encode[where a = demo_attrs and p = "0x1A4" and su = False and sg = False and st = True and t = Directory and d = demo_attrs]
    by (simp add: demo_attrs_def)
qed

end
