(* ===== verification/S3fs.thy ===== *)
theory S3fs
  imports S3fs_Temp Unixmeta
begin

unbundle bit_operations_syntax

text \<open>
  The S3 filesystem (\<^verbatim>\<open>s3fs/\<close>: \<^verbatim>\<open>filesystem.go\<close>, \<^verbatim>\<open>basic.go\<close>, \<^verbatim>\<open>dir.go\<close>,
  \<^verbatim>\<open>chroot.go\<close>, \<^verbatim>\<open>symlink.go\<close>, \<^verbatim>\<open>fileinfo.go\<close>, \<^verbatim>\<open>file.go\<close>, \<^verbatim>\<open>tempfile.go\<close>).  The
  Tigris storage client is the record \<open>s3_client\<close> of functions over a bucket state \<open>'s\<close>; what
  the properties need of it are named hypotheses.  The world is that state, the store of
  temporary buffers and the clock.  A filesystem value carries its own table of temporary
  files, as \<^verbatim>\<open>S3FS\<close> does.  The SDK's pointers to a content length and a modification time
  are taken to be set, as they are in every response to a successful head request.
\<close>

section \<open>The client\<close>

record s3_head =
  hd_size :: int
  hd_mtime :: int
  hd_meta :: "string \<rightharpoonup> string"

record s3_object =
  ob_key :: string
  ob_size :: int
  ob_mtime :: int

record s3_page =
  pg_prefixes :: "string list"
  pg_contents :: "s3_object list"
  pg_truncated :: bool
  pg_next :: "string option"

type_synonym metadata = "(string \<rightharpoonup> string) option"

text \<open>Every function takes the bucket first; \<open>cl_get\<close> also gives the outcome of reading the body.\<close>

record 's s3_client =
  cl_head :: "string \<Rightarrow> string \<Rightarrow> 's \<Rightarrow> s3_err + s3_head"
  cl_get :: "string \<Rightarrow> string \<Rightarrow> 's \<Rightarrow> s3_err + (string + string)"
  cl_put :: "string \<Rightarrow> string \<Rightarrow> string \<Rightarrow> metadata \<Rightarrow> 's \<Rightarrow> s3_err option \<times> 's"
  cl_rename :: "string \<Rightarrow> string \<Rightarrow> string \<Rightarrow> 's \<Rightarrow> s3_err option \<times> 's"
  cl_delete :: "string \<Rightarrow> string \<Rightarrow> 's \<Rightarrow> s3_err option \<times> 's"
  cl_list :: "string \<Rightarrow> string \<Rightarrow> string \<Rightarrow> string option \<Rightarrow> nat option \<Rightarrow> 's \<Rightarrow> s3_err + s3_page"
  cl_create_mp :: "string \<Rightarrow> string \<Rightarrow> metadata \<Rightarrow> 's \<Rightarrow> (s3_err + string) \<times> 's"
  cl_upload_part :: "string \<Rightarrow> string \<Rightarrow> string \<Rightarrow> nat \<Rightarrow> string \<Rightarrow> 's \<Rightarrow> s3_err option \<times> 's"
  cl_complete_mp :: "string \<Rightarrow> string \<Rightarrow> string \<Rightarrow> 's \<Rightarrow> s3_err option \<times> 's"

record 's world =
  wd_s3 :: 's
  wd_bufs :: temp_store
  wd_next :: nat
  wd_now :: int

section \<open>The filesystem value\<close>

definition DefaultSeparator :: string where
  "DefaultSeparator = ''/''"

record unixMetaConfig =
  um_uid :: "32 word"
  um_gid :: "32 word"
  um_umask :: fmode

record s3fs =
  s3_bucket :: string
  s3_root :: string
  s3_separator :: string
  s3_unixMeta :: "unixMetaConfig option"
  s3_temps :: "string \<rightharpoonup> nat"

definition WithUnixMetadata :: "32 word \<Rightarrow> 32 word \<Rightarrow> fmode \<Rightarrow> s3fs \<Rightarrow> s3fs" where
  "WithUnixMetadata uid gid umask fs = fs\<lparr>s3_unixMeta := Some \<lparr>um_uid = uid, um_gid = gid, um_umask = umask\<rparr>\<rparr>"

definition NewS3FS :: "'s s3_client option \<Rightarrow> string \<Rightarrow> (s3fs \<Rightarrow> s3fs) list \<Rightarrow> io_err + s3fs" where
  "NewS3FS client bucket opts =
     (if client = None then Inl (Failed ''s3 client cannot be nil'')
      else Inr (foldl (\<lambda>fs opt. opt fs)
        \<lparr>s3_bucket = bucket, s3_root = [], s3_separator = DefaultSeparator, s3_unixMeta = None, s3_temps = Map.empty\<rparr>
        opts))"

definition cleanPath :: "s3fs \<Rightarrow> string list \<Rightarrow> string" where
  "cleanPath fs p =
     (let j = path_join p; c = path_clean j; f = path_join [s3_root fs, c] in path_clean f)"

definition key :: "s3fs \<Rightarrow> string \<Rightarrow> string" where
  "key fs name = trimPrefix (cleanPath fs [name]) ''/''"

definition s3_Join :: "string list \<Rightarrow> string" where
  "s3_Join elem = path_clean (path_join elem)"

definition Chroot :: "s3fs \<Rightarrow> string \<Rightarrow> s3fs" where
  "Chroot fs p =
     \<lparr>s3_bucket = s3_bucket fs, s3_root = s3_Join [s3_root fs, p], s3_separator = s3_separator fs,
      s3_unixMeta = s3_unixMeta fs, s3_temps = Map.empty\<rparr>"

section \<open>File information\<close>

record s3_info =
  si_name :: string
  si_size :: int
  si_mode :: fmode
  si_mtime :: int
  si_sys :: "(32 word \<times> 32 word) option"

definition newFileInfo :: "string \<Rightarrow> int \<Rightarrow> int \<Rightarrow> s3_info" where
  "newFileInfo name sz modTime =
     \<lparr>si_name = name, si_size = sz, si_mode = 0x1B6, si_mtime = modTime, si_sys = None\<rparr>"

definition newDirInfo :: "string \<Rightarrow> int \<Rightarrow> s3_info" where
  "newDirInfo name now = \<lparr>si_name = name, si_size = 0, si_mode = ModeDir, si_mtime = now, si_sys = None\<rparr>"

text \<open>\<^verbatim>\<open>0o666 &^ umask\<close>.\<close>

definition default_mode :: "unixMetaConfig \<Rightarrow> fmode" where
  "default_mode cfg = 0x1B6 AND NOT (um_umask cfg)"

definition newFileInfoFromHead :: "string \<Rightarrow> s3_head \<Rightarrow> unixMetaConfig option \<Rightarrow> s3_info" where
  "newFileInfoFromHead name head ocfg =
     (case ocfg of
        None \<Rightarrow> newFileInfo name (hd_size head) (hd_mtime head)
      | Some cfg \<Rightarrow>
          (let a = Decode (hd_meta head)
                     \<lparr>at_UID = um_uid cfg, at_GID = um_gid cfg, at_Mode = default_mode cfg, at_Rdev = 0,
                      at_Mtime = hd_mtime head, at_SymlinkTarget = []\<rparr>
           in \<lparr>si_name = name, si_size = hd_size head, si_mode = at_Mode a, si_mtime = at_Mtime a,
               si_sys = Some (at_UID a, at_GID a)\<rparr>))"

definition enrichedFileInfo :: "s3_head \<Rightarrow> string \<Rightarrow> fmode \<Rightarrow> s3_info" where
  "enrichedFileInfo head k m =
     \<lparr>si_name = k, si_size = hd_size head, si_mode = m, si_mtime = hd_mtime head, si_sys = None\<rparr>"

definition newFileMetadata :: "unixMetaConfig option \<Rightarrow> int \<Rightarrow> metadata" where
  "newFileMetadata ocfg now =
     map_option (\<lambda>cfg. Encode \<lparr>at_UID = um_uid cfg, at_GID = um_gid cfg, at_Mode = default_mode cfg, at_Rdev = 0,
                               at_Mtime = now, at_SymlinkTarget = []\<rparr>) ocfg"

section \<open>The table of temporary files\<close>

definition temps_get :: "s3fs \<Rightarrow> string \<Rightarrow> nat option" where
  "temps_get fs k = s3_temps fs k"

definition temps_put :: "string \<Rightarrow> nat \<Rightarrow> s3fs \<Rightarrow> s3fs" where
  "temps_put k b fs = fs\<lparr>s3_temps := (s3_temps fs)(k \<mapsto> b)\<rparr>"

definition lookupTemp :: "s3fs \<Rightarrow> string \<Rightarrow> nat option" where
  "lookupTemp fs name = temps_get fs (key fs name)"

definition registerTemp :: "string \<Rightarrow> nat \<Rightarrow> s3fs \<Rightarrow> s3fs" where
  "registerTemp name b fs = temps_put (key fs name) b fs"

definition detachTemp :: "string \<Rightarrow> s3fs \<Rightarrow> nat option \<times> s3fs" where
  "detachTemp name fs =
     (let k = key fs name in
      case temps_get fs k of
        None \<Rightarrow> (None, fs)
      | Some b \<Rightarrow> (Some b, fs\<lparr>s3_temps := (s3_temps fs)(k := None)\<rparr>))"

text \<open>\<open>rnd\<close> are the sixteen bytes of \<^verbatim>\<open>crypto/rand\<close>, or its error.\<close>

definition hex_encode :: "nat list \<Rightarrow> string" where
  "hex_encode bs = concat (map (\<lambda>b. [''0123456789abcdef'' ! (b div 16 mod 16), ''0123456789abcdef'' ! (b mod 16)]) bs)"

definition TempFile ::
  "string + nat list \<Rightarrow> string \<Rightarrow> string \<Rightarrow> s3fs \<Rightarrow> 's world \<Rightarrow> (io_err + tempWriteFile) \<times> s3fs \<times> 's world" where
  "TempFile rnd dir pfx fs w =
     (case rnd of
        Inl m \<Rightarrow> (Inl (Failed (''s3fs: generating temp file name: '' @ m)), fs, w)
      | Inr bs \<Rightarrow>
          (let name = s3_Join [dir, pfx @ hex_encode bs]; b = wd_next w
           in (Inr \<lparr>tw_buf = b, tw_name = name, tw_closed = False\<rparr>, registerTemp name b fs,
               w\<lparr>wd_bufs := (wd_bufs w)(b := []), wd_next := Suc b\<rparr>)))"

section \<open>File handles\<close>

text \<open>A \<^verbatim>\<open>bytes.Reader\<close>: its bytes and the position.\<close>

record s3ReadFile =
  rf_bucket :: string
  rf_key :: string
  rf_name :: string
  rf_closed :: bool
  rf_reader :: "(string \<times> nat) option"
  rf_head :: s3_head

record s3WriteFile =
  wf_bucket :: string
  wf_key :: string
  wf_name :: string
  wf_closed :: bool
  wf_buf :: string
  wf_unixMeta :: "unixMetaConfig option"

record s3MultipartUploadFile =
  mf_bucket :: string
  mf_key :: string
  mf_name :: string
  mf_closed :: bool
  mf_uploadID :: string
  mf_uploadN :: nat

record s3DirFile =
  df_name :: string
  df_bucket :: string
  df_closed :: bool

datatype bfile =
    FRead s3ReadFile
  | FWrite s3WriteFile
  | FMulti s3MultipartUploadFile
  | FDir s3DirFile
  | FTempW tempWriteFile
  | FTempR tempReadFile

definition newS3ReadFile :: "'s s3_client \<Rightarrow> string \<Rightarrow> string \<Rightarrow> string \<Rightarrow> 's world \<Rightarrow> io_err + s3ReadFile" where
  "newS3ReadFile C bucket k name w =
     (case cl_head C bucket k (wd_s3 w) of
        Inl err \<Rightarrow> Inl (Wrapped (''read '' @ k) err)
      | Inr ho \<Rightarrow>
          (case cl_get C bucket k (wd_s3 w) of
             Inl err \<Rightarrow> Inl (Wrapped ''unable to perform GetObject operation'' err)
           | Inr (Inl m) \<Rightarrow> Inl (Failed (''unable to read file body: '' @ m))
           | Inr (Inr bs) \<Rightarrow>
               Inr \<lparr>rf_bucket = bucket, rf_key = k, rf_name = name, rf_closed = False,
                    rf_reader = Some (bs, 0), rf_head = ho\<rparr>))"

definition newS3WriteFile :: "string \<Rightarrow> string \<Rightarrow> string \<Rightarrow> unixMetaConfig option \<Rightarrow> s3WriteFile" where
  "newS3WriteFile bucket k name cfg =
     \<lparr>wf_bucket = bucket, wf_key = k, wf_name = name, wf_closed = False, wf_buf = [], wf_unixMeta = cfg\<rparr>"

definition newS3MultipartUploadFile ::
  "'s s3_client \<Rightarrow> string \<Rightarrow> string \<Rightarrow> string \<Rightarrow> unixMetaConfig option \<Rightarrow> 's world
   \<Rightarrow> (io_err + s3MultipartUploadFile) \<times> 's world" where
  "newS3MultipartUploadFile C bucket k name cfg w =
     (let (r, s) = cl_create_mp C bucket k (newFileMetadata cfg (wd_now w)) (wd_s3 w); w' = w\<lparr>wd_s3 := s\<rparr>
      in case r of
           Inl err \<Rightarrow> (Inl (Wrapped ''unable to create multipart upload'' err), w')
         | Inr uid \<Rightarrow>
             (Inr \<lparr>mf_bucket = bucket, mf_key = k, mf_name = name, mf_closed = False, mf_uploadID = uid,
                   mf_uploadN = 1\<rparr>, w'))"

definition newS3DirFile :: "string \<Rightarrow> string \<Rightarrow> s3DirFile" where
  "newS3DirFile name bucket = \<lparr>df_name = name, df_bucket = bucket, df_closed = False\<rparr>"

text \<open>Go's \<^verbatim>\<open>bytes.Reader\<close>; a nil reader panics.\<close>

definition reader_read :: "(string \<times> nat) option \<Rightarrow> nat \<Rightarrow> (string \<times> io_err option) \<times> (string \<times> nat) option" where
  "reader_read rd n =
     (case rd of
        None \<Rightarrow> (([], Some Panic), None)
      | Some (bs, i) \<Rightarrow>
          if i \<ge> length bs then (([], Some EOF), rd)
          else let got = take n (drop i bs) in ((got, None), Some (bs, i + length got)))"

definition reader_readAt :: "(string \<times> nat) option \<Rightarrow> nat \<Rightarrow> int \<Rightarrow> string \<times> io_err option" where
  "reader_readAt rd n off =
     (case rd of
        None \<Rightarrow> ([], Some Panic)
      | Some (bs, i) \<Rightarrow>
          if off < 0 then ([], Some (Failed ''bytes.Reader.ReadAt: negative offset''))
          else if off \<ge> int (length bs) then ([], Some EOF)
          else let got = take n (drop (nat off) bs)
               in (got, if length got < n then Some EOF else None))"

definition reader_seek :: "(string \<times> nat) option \<Rightarrow> int \<Rightarrow> int \<Rightarrow> (int \<times> io_err option) \<times> (string \<times> nat) option" where
  "reader_seek rd offset whence =
     (case rd of
        None \<Rightarrow> ((0, Some Panic), None)
      | Some (bs, i) \<Rightarrow>
          if whence \<noteq> 0 \<and> whence \<noteq> 1 \<and> whence \<noteq> 2
          then ((0, Some (Failed ''bytes.Reader.Seek: invalid whence'')), rd)
          else let p = (if whence = 0 then offset else if whence = 1 then int i + offset else int (length bs) + offset)
               in if p < 0 then ((0, Some (Failed ''bytes.Reader.Seek: negative position'')), rd)
                  else ((p, None), Some (bs, nat p)))"

fun file_Name :: "bfile \<Rightarrow> string" where
  "file_Name (FRead f) = rf_name f"
| "file_Name (FWrite f) = wf_name f"
| "file_Name (FMulti f) = mf_name f"
| "file_Name (FDir f) = df_name f"
| "file_Name (FTempW f) = tw_name f"
| "file_Name (FTempR f) = tr_name f"

definition multi_Write ::
  "'s s3_client \<Rightarrow> s3MultipartUploadFile \<Rightarrow> string \<Rightarrow> 's world \<Rightarrow> (nat \<times> io_err option) \<times> s3MultipartUploadFile \<times> 's world" where
  "multi_Write C f p w =
     (let (r, s) = cl_upload_part C (mf_bucket f) (mf_key f) (mf_uploadID f) (mf_uploadN f) p (wd_s3 w);
          w' = w\<lparr>wd_s3 := s\<rparr>
      in case r of
           Some err \<Rightarrow> ((0, Some (Wrapped (''unable to upload part '' @ show_nat (mf_uploadN f)) err)), f, w')
         | None \<Rightarrow> ((length p, None), f\<lparr>mf_uploadN := Suc (mf_uploadN f)\<rparr>, w'))"

fun file_Write :: "'s s3_client \<Rightarrow> bfile \<Rightarrow> string \<Rightarrow> 's world \<Rightarrow> (nat \<times> io_err option) \<times> bfile \<times> 's world" where
  "file_Write C (FRead f) p w = ((0, Some CantWriteToReadOnly), FRead f, w)"
| "file_Write C (FWrite f) p w =
     (if wf_closed f then ((0, Some FileClosed), FWrite f, w)
      else ((length p, None), FWrite (f\<lparr>wf_buf := wf_buf f @ p\<rparr>), w))"
| "file_Write C (FMulti f) p w = (let (r, f', w') = multi_Write C f p w in (r, FMulti f', w'))"
| "file_Write C (FDir f) p w = ((0, Some (IsDirectory ''write'' (df_name f))), FDir f, w)"
| "file_Write C (FTempW f) p w =
     (let (r, h) = tempWrite_Write f p (wd_bufs w) in (r, FTempW f, w\<lparr>wd_bufs := h\<rparr>))"
| "file_Write C (FTempR f) p w = ((0, Some CantWriteToReadOnly), FTempR f, w)"

fun file_WriteAt :: "bfile \<Rightarrow> string \<Rightarrow> int \<Rightarrow> io_err" where
  "file_WriteAt (FRead f) p off = CantWriteToReadOnly"
| "file_WriteAt (FWrite f) p off = NotImplemented ''write'' (wf_key f)"
| "file_WriteAt (FMulti f) p off = NotImplemented ''write'' (mf_key f)"
| "file_WriteAt (FDir f) p off = IsDirectory ''write'' (df_name f)"
| "file_WriteAt (FTempW f) p off = NotImplemented ''write'' (tw_name f)"
| "file_WriteAt (FTempR f) p off = CantWriteToReadOnly"

fun file_Read :: "bfile \<Rightarrow> nat \<Rightarrow> 's world \<Rightarrow> (string \<times> io_err option) \<times> bfile" where
  "file_Read (FRead f) n w = (let (r, rd) = reader_read (rf_reader f) n in (r, FRead (f\<lparr>rf_reader := rd\<rparr>)))"
| "file_Read (FWrite f) n w = (([], Some CantReadFromWriteOnly), FWrite f)"
| "file_Read (FMulti f) n w = (([], Some CantReadFromWriteOnly), FMulti f)"
| "file_Read (FDir f) n w = (([], Some (IsDirectory ''read'' (df_name f))), FDir f)"
| "file_Read (FTempW f) n w = (([], Some CantReadFromWriteOnly), FTempW f)"
| "file_Read (FTempR f) n w = (let (r, f') = tempRead_Read f n (wd_bufs w) in (r, FTempR f'))"

fun file_ReadAt :: "bfile \<Rightarrow> nat \<Rightarrow> int \<Rightarrow> 's world \<Rightarrow> string \<times> io_err option" where
  "file_ReadAt (FRead f) n off w = reader_readAt (rf_reader f) n off"
| "file_ReadAt (FWrite f) n off w = ([], Some CantReadFromWriteOnly)"
| "file_ReadAt (FMulti f) n off w = ([], Some CantReadFromWriteOnly)"
| "file_ReadAt (FDir f) n off w = ([], Some (IsDirectory ''read'' (df_name f)))"
| "file_ReadAt (FTempW f) n off w = ([], Some CantReadFromWriteOnly)"
| "file_ReadAt (FTempR f) n off w = tempRead_ReadAt f n off (wd_bufs w)"

fun file_Seek :: "bfile \<Rightarrow> int \<Rightarrow> int \<Rightarrow> 's world \<Rightarrow> (int \<times> io_err option) \<times> bfile" where
  "file_Seek (FRead f) off wh w = (let (r, rd) = reader_seek (rf_reader f) off wh in (r, FRead (f\<lparr>rf_reader := rd\<rparr>)))"
| "file_Seek (FWrite f) off wh w = ((0, Some (NotImplemented ''seek'' (wf_key f))), FWrite f)"
| "file_Seek (FMulti f) off wh w = ((0, Some (NotImplemented ''seek'' (mf_key f))), FMulti f)"
| "file_Seek (FDir f) off wh w = ((0, Some (IsDirectory ''seek'' (df_name f))), FDir f)"
| "file_Seek (FTempW f) off wh w = ((0, Some (NotImplemented ''seek'' (tw_name f))), FTempW f)"
| "file_Seek (FTempR f) off wh w = (let (r, f') = tempRead_Seek f off wh (wd_bufs w) in (r, FTempR f'))"

definition write_Close :: "'s s3_client \<Rightarrow> s3WriteFile \<Rightarrow> 's world \<Rightarrow> io_err option \<times> s3WriteFile \<times> 's world" where
  "write_Close C f w =
     (if wf_closed f then (Some FileClosed, f, w)
      else let (r, s) = cl_put C (wf_bucket f) (wf_key f) (wf_buf f) (newFileMetadata (wf_unixMeta f) (wd_now w)) (wd_s3 w)
           in (map_option (Wrapped ''unable to perform GetObject operation'') r, f\<lparr>wf_closed := True\<rparr>, w\<lparr>wd_s3 := s\<rparr>))"

definition multi_Close ::
  "'s s3_client \<Rightarrow> s3MultipartUploadFile \<Rightarrow> 's world \<Rightarrow> io_err option \<times> s3MultipartUploadFile \<times> 's world" where
  "multi_Close C f w =
     (if mf_closed f then (Some FileClosed, f, w)
      else let (r, s) = cl_complete_mp C (mf_bucket f) (mf_key f) (mf_uploadID f) (wd_s3 w)
           in (map_option (Wrapped ''unable to complete multipart upload'') r, f\<lparr>mf_closed := True\<rparr>, w\<lparr>wd_s3 := s\<rparr>))"

fun file_Close :: "'s s3_client \<Rightarrow> bfile \<Rightarrow> 's world \<Rightarrow> io_err option \<times> bfile \<times> 's world" where
  "file_Close C (FRead f) w =
     (if rf_closed f then (Some FileClosed, FRead f, w)
      else (None, FRead (f\<lparr>rf_reader := None, rf_closed := True\<rparr>), w))"
| "file_Close C (FWrite f) w = (let (r, f', w') = write_Close C f w in (r, FWrite f', w'))"
| "file_Close C (FMulti f) w = (let (r, f', w') = multi_Close C f w in (r, FMulti f', w'))"
| "file_Close C (FDir f) w =
     (if df_closed f then (Some FileClosed, FDir f, w) else (None, FDir (f\<lparr>df_closed := True\<rparr>), w))"
| "file_Close C (FTempW f) w = (let (r, f') = tempWrite_Close f in (r, FTempW f', w))"
| "file_Close C (FTempR f) w = (let (r, f') = tempRead_Close f in (r, FTempR f', w))"

fun file_Truncate :: "bfile \<Rightarrow> io_err" where
  "file_Truncate (FDir f) = IsDirectory ''truncate'' (df_name f)"
| "file_Truncate _ = TruncateNotSupported"

definition file_Lock :: "bfile \<Rightarrow> io_err" where
  "file_Lock f = LockNotSupported"

definition dir_Stat :: "'s s3_client \<Rightarrow> s3DirFile \<Rightarrow> 's world \<Rightarrow> io_err + s3_info" where
  "dir_Stat C f w =
     (case cl_head C (df_bucket f) (df_name f) (wd_s3 w) of
        Inl err \<Rightarrow> Inl (Wrapped [] err)
      | Inr ho \<Rightarrow>
          Inr (enrichedFileInfo ho (df_name f)
                 (if hasSuffix (df_name f) ''/'' \<or> hd_size ho = 0 then ModeDir else 0)))"

fun file_Stat :: "'s s3_client \<Rightarrow> bfile \<Rightarrow> 's world \<Rightarrow> io_err + s3_info" where
  "file_Stat C (FRead f) w = Inr (enrichedFileInfo (rf_head f) (rf_key f) 0x1FF)"
| "file_Stat C (FWrite f) w = Inr (newFileInfo (wf_key f) (-1) (wd_now w))"
| "file_Stat C (FMulti f) w = Inr (newFileInfo (mf_key f) (-1) (wd_now w))"
| "file_Stat C (FDir f) w = dir_Stat C f w"
| "file_Stat C (FTempW f) w = Inr (newFileInfo (tw_name f) (buf_size (tw_buf f) (wd_bufs w)) (wd_now w))"
| "file_Stat C (FTempR f) w = Inr (newFileInfo (tr_name f) (buf_size (tr_buf f) (wd_bufs w)) (wd_now w))"

section \<open>Operations\<close>

definition SupportedOFlags :: nat where "SupportedOFlags = 5"

definition api_code :: "s3_err \<Rightarrow> string option" where
  "api_code e = (case e of ApiErr code \<Rightarrow> Some code | ClientErr _ \<Rightarrow> None)"

definition missing_code :: "s3_err \<Rightarrow> bool" where
  "missing_code e \<longleftrightarrow> api_code e = Some ''NoSuchKey'' \<or> api_code e = Some ''NotFound''"

text \<open>The probe for a directory: whether any key or prefix lies under the key.\<close>

definition probe_dir :: "'s s3_client \<Rightarrow> s3fs \<Rightarrow> string \<Rightarrow> 's world \<Rightarrow> io_err + bool" where
  "probe_dir C fs k w =
     (case cl_list C (s3_bucket fs) (k @ ''/'') (s3_separator fs) None (Some 1) (wd_s3 w) of
        Inl err \<Rightarrow> Inl (Wrapped [] err)
      | Inr page \<Rightarrow> Inr (pg_contents page \<noteq> [] \<or> pg_prefixes page \<noteq> []))"

definition open_read :: "'s s3_client \<Rightarrow> s3fs \<Rightarrow> string \<Rightarrow> 's world \<Rightarrow> io_err + bfile" where
  "open_read C fs filename w =
     (let k = key fs filename in
      if k = [] \<or> k = ''.'' then Inr (FDir (newS3DirFile k (s3_bucket fs)))
      else case lookupTemp fs filename of
        Some b \<Rightarrow> Inr (FTempR \<lparr>tr_buf = b, tr_name = filename, tr_pos = 0, tr_closed = False\<rparr>)
      | None \<Rightarrow>
          (case newS3ReadFile C (s3_bucket fs) k filename w of
             Inr f \<Rightarrow> Inr (FRead f)
           | Inl (Wrapped ctx e) \<Rightarrow>
               if \<not> missing_code e then Inl (Wrapped ctx e)
               else (case probe_dir C fs k w of
                       Inl lerr \<Rightarrow> Inl lerr
                     | Inr True \<Rightarrow> Inr (FDir (newS3DirFile k (s3_bucket fs)))
                     | Inr False \<Rightarrow> Inl (NotExist ''open'' filename))
           | Inl err \<Rightarrow> Inl err))"

definition OpenFile :: "'s s3_client \<Rightarrow> s3fs \<Rightarrow> string \<Rightarrow> nat \<Rightarrow> 's world \<Rightarrow> (io_err + bfile) \<times> 's world" where
  "OpenFile C fs filename flag w =
     (if flag AND SupportedOFlags \<noteq> flag then (Inl (Failed ''unsupported open flag''), w)
      else if flag = 0 then (open_read C fs filename w, w)
      else if flag = 1 then
        (Inr (FWrite (newS3WriteFile (s3_bucket fs) (key fs filename) filename (s3_unixMeta fs))), w)
      else if flag = 4 then
        (let (r, w') = newS3MultipartUploadFile C (s3_bucket fs) (key fs filename) filename (s3_unixMeta fs) w
         in (map_sum id FMulti r, w'))
      else (Inl (Failed ''unsupported open flag''), w))"

definition s3_Create :: "'s s3_client \<Rightarrow> s3fs \<Rightarrow> string \<Rightarrow> 's world \<Rightarrow> (io_err + bfile) \<times> 's world" where
  "s3_Create C fs filename w = OpenFile C fs filename 1 w"

definition s3_Open :: "'s s3_client \<Rightarrow> s3fs \<Rightarrow> string \<Rightarrow> 's world \<Rightarrow> (io_err + bfile) \<times> 's world" where
  "s3_Open C fs filename w = OpenFile C fs filename 0 w"

definition s3_Stat :: "'s s3_client \<Rightarrow> s3fs \<Rightarrow> string \<Rightarrow> 's world \<Rightarrow> io_err + s3_info" where
  "s3_Stat C fs filename w =
     (let k = trimPrefix (cleanPath fs [filename]) ''/'' in
      if k = [] \<or> k = ''.'' then Inr (newDirInfo ''/'' (wd_now w))
      else case lookupTemp fs filename of
        Some b \<Rightarrow> Inr (newFileInfo (path_base filename) (buf_size b (wd_bufs w)) (wd_now w))
      | None \<Rightarrow>
          (case cl_head C (s3_bucket fs) k (wd_s3 w) of
             Inr head \<Rightarrow> Inr (newFileInfoFromHead (path_base k) head (s3_unixMeta fs))
           | Inl e \<Rightarrow>
               if \<not> missing_code e then Inl (Wrapped [] e)
               else (case probe_dir C fs k w of
                       Inl lerr \<Rightarrow> Inl lerr
                     | Inr True \<Rightarrow> Inr (newDirInfo (path_base k) (wd_now w))
                     | Inr False \<Rightarrow> Inl (NotExist ''stat'' filename))))"

definition s3_Lstat :: "'s s3_client \<Rightarrow> s3fs \<Rightarrow> string \<Rightarrow> 's world \<Rightarrow> io_err + s3_info" where
  "s3_Lstat C fs filename w = s3_Stat C fs filename w"

definition s3_Rename ::
  "'s s3_client \<Rightarrow> string \<Rightarrow> string \<Rightarrow> s3fs \<Rightarrow> 's world \<Rightarrow> io_err option \<times> s3fs \<times> 's world" where
  "s3_Rename C oldpath newpath fs w =
     (let src = key fs oldpath; dst = key fs newpath
      in case detachTemp oldpath fs of
           (Some b, fs') \<Rightarrow>
             (let (r, s) = cl_put C (s3_bucket fs) dst (buf_snapshot b (wd_bufs w)) None (wd_s3 w)
              in (map_option (Wrapped ''failed to upload temp'') r, fs', w\<lparr>wd_s3 := s\<rparr>))
         | (None, _) \<Rightarrow>
             (let (r, s) = cl_rename C (s3_bucket fs) (s3_bucket fs @ ''/'' @ src) dst (wd_s3 w)
              in (map_option (Wrapped ''failed to rename'') r, fs, w\<lparr>wd_s3 := s\<rparr>)))"

definition s3_Remove :: "'s s3_client \<Rightarrow> string \<Rightarrow> s3fs \<Rightarrow> 's world \<Rightarrow> io_err option \<times> s3fs \<times> 's world" where
  "s3_Remove C filename fs w =
     (case detachTemp filename fs of
        (Some b, fs') \<Rightarrow> (None, fs', w)
      | (None, _) \<Rightarrow>
          (let (r, s) = cl_delete C (s3_bucket fs) (key fs filename) (wd_s3 w)
           in (map_option (Wrapped ''failed to remove file'') r, fs, w\<lparr>wd_s3 := s\<rparr>)))"

definition s3_Symlink :: "string \<Rightarrow> string \<Rightarrow> io_err option" where
  "s3_Symlink target link = Some SymLinkNotSupported"

definition s3_Readlink :: "string \<Rightarrow> io_err + string" where
  "s3_Readlink link = Inl SymLinkNotSupported"

definition MkdirAll :: "'s s3_client \<Rightarrow> s3fs \<Rightarrow> string \<Rightarrow> 's world \<Rightarrow> io_err option \<times> 's world" where
  "MkdirAll C fs filename w =
     (let (r, s) = cl_put C (s3_bucket fs) filename [] None (wd_s3 w)
      in (map_option (Wrapped []) r, w\<lparr>wd_s3 := s\<rparr>))"

section \<open>Listing\<close>

definition list_prefix :: "s3fs \<Rightarrow> string \<Rightarrow> string" where
  "list_prefix fs dir =
     (let k = trimPrefix (cleanPath fs [dir]) ''/'' in if k \<noteq> [] \<and> k \<noteq> ''.'' then k @ ''/'' else [])"

definition page_dirs :: "string \<Rightarrow> int \<Rightarrow> s3_page \<Rightarrow> s3_info list" where
  "page_dirs pfx now page =
     map (\<lambda>name. newDirInfo name now)
       (filter (\<lambda>name. name \<noteq> []) (map (\<lambda>d. trimSuffix (trimPrefix d pfx) ''/'') (pg_prefixes page)))"

definition page_files :: "string \<Rightarrow> s3_page \<Rightarrow> s3_info list" where
  "page_files pfx page =
     map (\<lambda>f. newFileInfo (path_base (trimPrefix (ob_key f) pfx)) (ob_size f) (ob_mtime f))
       (filter (\<lambda>f. ob_key f \<noteq> pfx \<and> trimPrefix (ob_key f) pfx \<noteq> []) (pg_contents page))"

text \<open>The loop over result pages; \<^const>\<open>None\<close> when the fuel, the number of pages, is used up.\<close>

fun list_loop ::
  "nat \<Rightarrow> 's s3_client \<Rightarrow> s3fs \<Rightarrow> string \<Rightarrow> string option \<Rightarrow> s3_info list \<Rightarrow> s3_info list \<Rightarrow> 's world
   \<Rightarrow> (io_err + s3_info list) option" where
  "list_loop 0 C fs pfx ct dirs files w = None"
| "list_loop (Suc n) C fs pfx ct dirs files w =
     (case cl_list C (s3_bucket fs) pfx (s3_separator fs) ct None (wd_s3 w) of
        Inl err \<Rightarrow> Some (Inl (Wrapped [] err))
      | Inr page \<Rightarrow>
          (let dirs' = dirs @ page_dirs pfx (wd_now w) page; files' = files @ page_files pfx page
           in if \<not> pg_truncated page then Some (Inr (dirs' @ files'))
              else list_loop n C fs pfx (pg_next page) dirs' files' w))"

definition ReadDir :: "nat \<Rightarrow> 's s3_client \<Rightarrow> s3fs \<Rightarrow> string \<Rightarrow> 's world \<Rightarrow> (io_err + s3_info list) option" where
  "ReadDir fuel C fs dir w = list_loop fuel C fs (list_prefix fs dir) None [] [] w"

end
