(* ===== verification/S3fs_Properties.thy ===== *)
theory S3fs_Properties
  imports S3fs
begin

unbundle bit_operations_syntax

text \<open>
  What the S3 filesystem guarantees, given a client that keeps the documented read-after-write
  consistency of the store: how names become keys, that what is written is what is read, that
  temporary files reach the bucket on a rename, what listing and \<^verbatim>\<open>Stat\<close> report, and that
  handles are closed once.  A client over an in-memory bucket satisfies the hypotheses and
  evaluates the witnesses.
\<close>

section \<open>Keys\<close>

text \<open>The components of a cleaned name, and the components of a filesystem's root.\<close>

definition name_comps :: "string \<Rightarrow> string list" where
  "name_comps n = clean_comps (path_isAbs n) (splitOn slash n)"

definition rooted_at :: "s3fs \<Rightarrow> string list \<Rightarrow> bool" where
  "rooted_at fs rs \<longleftrightarrow> (\<forall>c \<in> set rs. proper_comp c) \<and>
     ((s3_root fs = [] \<and> rs = []) \<or> s3_root fs = render_path False rs \<or> s3_root fs = render_path True rs)"

definition inside :: "string \<Rightarrow> bool" where
  "inside n \<longleftrightarrow> path_isAbs n \<or> \<not> escapes (path_clean n)"

lemma path_clean_comps: "path_clean n = render_path (path_isAbs n) (name_comps n)"
  by (simp add: path_clean_def name_comps_def Let_def)

lemma inside_proper: "inside n \<Longrightarrow> \<forall>c \<in> set (name_comps n). proper_comp c"
  unfolding inside_def path_clean_comps
  using render_escapes[of "path_isAbs n" "name_comps n"]
    normal_no_dotdot[of "path_isAbs n" "name_comps n"] normal_comps_rooted[of "name_comps n"]
  by (auto simp: name_comps_def)

lemma clean_comps_append:
  "clean_comps rooted (xs @ ys) = rev (foldl (clean_step rooted) (rev (clean_comps rooted xs)) ys)"
  by (simp add: clean_comps_def)

text \<open>Cleaning a rendered path whose components are proper pushes those components.\<close>

lemma foldl_clean_render:
  assumes "\<forall>c \<in> set cs. proper_comp c"
  shows "foldl (clean_step r) st (splitOn slash (render_path r' cs)) = rev cs @ st"
proof -
  have no: "\<forall>c \<in> set cs. slash \<notin> set c" using assms by (auto simp: proper_comp_def)
  show ?thesis
  proof (cases "cs = []")
    case True
    then show ?thesis by (simp add: render_path_def)
  next
    case False
    then show ?thesis
      using splitOn_joinWith[OF False no] foldl_clean_proper[OF assms] by (simp add: render_path_def)
  qed
qed

lemma render_not_Nil: "\<forall>c \<in> set cs. proper_comp c \<Longrightarrow> render_path r cs \<noteq> []"
  using path_clean_render[OF proper_normal, of cs r] path_clean_not_Nil[of "render_path r cs"] by metis

lemma clean_join_renders:
  assumes rs: "\<forall>c \<in> set rs. proper_comp c" and cs: "\<forall>c \<in> set cs. proper_comp c"
  shows "path_clean (render_path r rs @ ''/'' @ render_path r' cs) = render_path r (rs @ cs)"
proof -
  have a: "path_isAbs (render_path r rs @ ''/'' @ render_path r' cs) = r"
    using isAbs_render[OF proper_normal[OF rs], of r] isAbs_append[OF render_not_Nil[OF rs]] by simp
  have "clean_comps r (splitOn slash (render_path r rs @ slash # render_path r' cs)) = rs @ cs"
    by (simp add: splitOn_append clean_comps_append split_render[OF proper_normal[OF rs]] foldl_clean_render[OF cs])
  then show ?thesis using a by (simp add: path_clean_def)
qed

lemma rooted_at_Nil: "rooted_at fs rs \<Longrightarrow> s3_root fs = [] \<Longrightarrow> rs = []"
  by (metis render_not_Nil rooted_at_def)

lemma path_clean_Nil [simp]: "path_clean [] = ''.''"
  by (simp add: path_clean_def path_isAbs_def clean_comps_def render_path_def)

lemma clean_name: "path_clean (path_join [n]) = path_clean n"
  by (simp add: path_join_def)

lemma cleanPath_comps:
  assumes "rooted_at fs rs" and "inside n"
  shows "\<exists>r. cleanPath fs [n] = render_path r (rs @ name_comps n)"
proof -
  have cs: "\<forall>c \<in> set (name_comps n). proper_comp c" and rs: "\<forall>c \<in> set rs. proper_comp c"
    using assms inside_proper by (auto simp: rooted_at_def)
  have app: "\<forall>c \<in> set (rs @ name_comps n). proper_comp c" using cs rs by auto
  have unfold: "cleanPath fs [n] = path_clean (path_join [s3_root fs, path_clean n])"
    by (simp add: cleanPath_def Let_def clean_name)
  show ?thesis
  proof (cases "s3_root fs = []")
    case True
    then have "rs = []" by (rule rooted_at_Nil[OF assms(1)])
    with True show ?thesis unfolding unfold by (intro exI[of _ "path_isAbs n"]) (simp add: path_join_def path_clean_comps[symmetric])
  next
    case False
    then obtain r where "s3_root fs = render_path r rs" using assms(1) by (auto simp: rooted_at_def)
    then have "cleanPath fs [n] = path_clean (path_clean (render_path r rs @ ''/'' @ render_path (path_isAbs n) (name_comps n)))"
      using False unfolding unfold by (simp add: path_join_def path_clean_comps[of n] render_not_Nil[OF cs])
    then show ?thesis
      using clean_join_renders[OF rs cs] by auto
  qed
qed

lemma key_comps:
  assumes "rooted_at fs rs" and "inside n"
  shows "rs @ name_comps n \<noteq> [] \<Longrightarrow> key fs n = joinWith ''/'' (rs @ name_comps n)"
    and "rs @ name_comps n = [] \<Longrightarrow> key fs n = [] \<or> key fs n = ''.''"
proof -
  let ?cs = "rs @ name_comps n"
  obtain r where r: "cleanPath fs [n] = render_path r ?cs" using cleanPath_comps[OF assms] by auto
  have cs: "\<forall>c \<in> set ?cs. proper_comp c" using assms inside_proper by (auto simp: rooted_at_def)
  show "key fs n = joinWith ''/'' ?cs" if "?cs \<noteq> []"
    using r that isAbs_render[OF proper_normal[OF cs], of False]
    by (cases r) (auto simp: key_def render_path_def trimPrefix_def path_isAbs_def)
  show "key fs n = [] \<or> key fs n = ''.''" if "?cs = []"
    using r that by (cases r) (auto simp: key_def render_path_def trimPrefix_def)
qed

lemma name_comps_render:
  "\<forall>c \<in> set cs. proper_comp c \<Longrightarrow> name_comps (render_path r cs) = cs"
  by (simp add: name_comps_def isAbs_render[OF proper_normal] split_render[OF proper_normal])

lemma inside_render: "\<forall>c \<in> set cs. proper_comp c \<Longrightarrow> inside (render_path r cs)"
  using render_escapes[OF proper_normal, of cs r] path_clean_render[OF proper_normal, of cs r]
  by (cases cs) (auto simp: inside_def)

lemma Chroot_rooted:
  assumes "rooted_at fs rs" and ds: "\<forall>c \<in> set ds. proper_comp c"
  shows "rooted_at (Chroot fs (render_path r' ds)) (rs @ ds)"
proof -
  have rs: "\<forall>c \<in> set rs. proper_comp c" using assms by (simp add: rooted_at_def)
  have app: "\<forall>c \<in> set (rs @ ds). proper_comp c" using rs ds by auto
  have "\<exists>r. s3_root (Chroot fs (render_path r' ds)) = render_path r (rs @ ds)"
  proof (cases "s3_root fs = []")
    case True
    then have "rs = []" by (rule rooted_at_Nil[OF assms(1)])
    then show ?thesis
      using True path_clean_render[OF proper_normal[OF ds]] render_not_Nil[OF ds]
      by (auto simp: Chroot_def s3_Join_def path_join_def)
  next
    case False
    then obtain r where r: "s3_root fs = render_path r rs" using assms(1) by (auto simp: rooted_at_def)
    then show ?thesis
      using False render_not_Nil[OF ds] clean_join_renders[OF rs ds] path_clean_render[OF proper_normal[OF app], of r]
      by (auto simp: Chroot_def s3_Join_def path_join_def)
  qed
  then obtain r where r: "s3_root (Chroot fs (render_path r' ds)) = render_path r (rs @ ds)" ..
  show ?thesis unfolding rooted_at_def r using app by (cases r) auto
qed

lemma NewS3FS_rooted:
  assumes "NewS3FS (Some C) bucket opts = Inr fs" and "\<forall>opt \<in> set opts. \<exists>u g m. opt = WithUnixMetadata u g m"
  shows "rooted_at fs []"
proof -
  have "s3_root (foldl (\<lambda>fs opt. opt fs) f opts) = s3_root f" for f
    using assms(2) by (induction opts arbitrary: f) (auto simp: WithUnixMetadata_def)
  then show ?thesis using assms(1) by (auto simp: NewS3FS_def rooted_at_def)
qed

lemma joinWith_inj:
  assumes "xs \<noteq> []" "ys \<noteq> []" "\<forall>x \<in> set xs. slash \<notin> set x" "\<forall>y \<in> set ys. slash \<notin> set y"
    and "joinWith ''/'' xs = joinWith ''/'' ys"
  shows "xs = ys"
  using assms splitOn_joinWith by metis


definition demo_s3fs :: s3fs where
  "demo_s3fs = \<lparr>s3_bucket = ''b'', s3_root = [], s3_separator = ''/'', s3_unixMeta = None, s3_temps = Map.empty\<rparr>"


text \<open>A relative name that begins with a parent reference leaves the chroot: below \<^verbatim>\<open>a/b\<close> the name \<^verbatim>\<open>../x\<close> is the object \<^verbatim>\<open>a/x\<close>, outside of the designated tree, and an absolute chroot directory with a leading parent reference moves the root itself up.\<close>

theorem chroot_escape:
  "key (Chroot demo_s3fs ''a/b'') ''../x'' = ''a/x'' \<and> key (Chroot (Chroot demo_s3fs ''a'') ''/../c'') ''x'' = ''c/x'' \<and>
   key (Chroot demo_s3fs ''a/b'') ''/../x'' = ''a/b/x''"
  by code_simp

section \<open>Closing\<close>

text \<open>
  What every handle promises of \<^verbatim>\<open>Close\<close>: it marks the handle closed whatever the outcome,
  and on a closed handle it fails and has no effect.
\<close>

locale close_once =
  fixes close :: "'f \<Rightarrow> 'w \<Rightarrow> 'e option \<times> 'f \<times> 'w"
    and closed :: "'f \<Rightarrow> bool"
    and closed_err :: 'e
  assumes close_marks: "closed (fst (snd (close f w)))"
    and close_refused: "closed f \<Longrightarrow> close f w = (Some closed_err, f, w)"
begin

fun closes :: "nat \<Rightarrow> 'f \<Rightarrow> 'w \<Rightarrow> 'e option list \<times> 'f \<times> 'w" where
  "closes 0 f w = ([], f, w)"
| "closes (Suc n) f w =
     (let (r, f1, w1) = close f w; (rs, f2, w2) = closes n f1 w1 in (r # rs, f2, w2))"

lemma closes_closed: "closed f \<Longrightarrow> closes n f w = (replicate n (Some closed_err), f, w)"
  by (induction n) (simp_all add: close_refused)

lemma closes_once:
  assumes "close f w = (r, f1, w1)"
  shows "closes (Suc n) f w = (r # replicate n (Some closed_err), f1, w1)"
  using assms close_marks[of f w] by (simp add: closes_closed)

end

fun file_closed :: "bfile \<Rightarrow> bool" where
  "file_closed (FRead f) = rf_closed f"
| "file_closed (FWrite f) = wf_closed f"
| "file_closed (FMulti f) = mf_closed f"
| "file_closed (FDir f) = df_closed f"
| "file_closed (FTempW f) = tw_closed f"
| "file_closed (FTempR f) = tr_closed f"

interpretation handle: close_once "file_Close C" file_closed FileClosed for C :: "'s s3_client"
proof
  show "file_closed (fst (snd (file_Close C f w)))" for f and w :: "'s world"
    by (cases f) (auto simp: write_Close_def multi_Close_def tempWrite_Close_def tempRead_Close_def split: prod.splits)
  show "file_Close C f w = (Some FileClosed, f, w)" if "file_closed f" for f and w :: "'s world"
    using that by (cases f) (auto simp: write_Close_def multi_Close_def tempWrite_Close_def tempRead_Close_def)
qed

text \<open>The first close of a handle decides what is uploaded; every later one fails with \<^verbatim>\<open>ErrFileClosed\<close>.\<close>

fun close_times :: "'s s3_client \<Rightarrow> nat \<Rightarrow> bfile \<Rightarrow> 's world \<Rightarrow> io_err option list \<times> bfile \<times> 's world" where
  "close_times C 0 f w = ([], f, w)"
| "close_times C (Suc n) f w =
     (let (r, f1, w1) = file_Close C f w; (rs, f2, w2) = close_times C n f1 w1 in (r # rs, f2, w2))"

lemma close_times_closes: "close_times C n f w = handle.closes C n f w"
  by (induction n arbitrary: f w) (simp_all split: prod.splits)

text \<open>Closing is idempotent for every kind of handle: the first Close decides the state of the bucket, each of any number of further calls fails with ErrFileClosed and changes nothing, and the closed write handles refuse further writes.\<close>

theorem close_idempotent:
  assumes "file_Close C f w = (r, f1, w1)"
  shows "close_times C (Suc n) f w = (r # replicate n (Some FileClosed), f1, w1) \<and>
    (case f1 of FWrite _ \<Rightarrow> file_Write C f1 p w1 = ((0, Some FileClosed), f1, w1)
              | FTempW _ \<Rightarrow> file_Write C f1 p w1 = ((0, Some FileClosed), f1, w1) | _ \<Rightarrow> True)"
proof -
  have "file_closed f1" using handle.close_marks[of C f w] assms by simp
  then have "case f1 of FWrite _ \<Rightarrow> file_Write C f1 p w1 = ((0, Some FileClosed), f1, w1)
              | FTempW _ \<Rightarrow> file_Write C f1 p w1 = ((0, Some FileClosed), f1, w1) | _ \<Rightarrow> True"
    by (cases f1) (auto simp: tempWrite_Write_def)
  then show ?thesis
    using handle.closes_once[OF assms, of n] by (simp only: close_times_closes)
qed

section \<open>A consistent store\<close>

text \<open>
  The read-after-write consistency S3 documents: once a put has succeeded, a head and a get of
  that key give its size, its metadata and its body, and other objects are as before.
\<close>

definition read_after_write :: "'s s3_client \<Rightarrow> bool" where
  "read_after_write C \<longleftrightarrow>
     (\<forall>b k body meta s s'. cl_put C b k body meta s = (None, s') \<longrightarrow>
        (\<exists>h. cl_head C b k s' = Inr h \<and> hd_size h = int (length body) \<and>
             hd_meta h = (case meta of None \<Rightarrow> Map.empty | Some m \<Rightarrow> m)) \<and>
        cl_get C b k s' = Inr (Inr body) \<and>
        (\<forall>k'. k' \<noteq> k \<longrightarrow> cl_head C b k' s' = cl_head C b k' s \<and> cl_get C b k' s' = cl_get C b k' s))"

lemma put_head:
  assumes "read_after_write C" and "cl_put C b k body meta s = (None, s')"
  obtains h where "cl_head C b k s' = Inr h" "hd_size h = int (length body)"
    "hd_meta h = (case meta of None \<Rightarrow> Map.empty | Some m \<Rightarrow> m)"
  using assms unfolding read_after_write_def by metis

lemma put_get: "read_after_write C \<Longrightarrow> cl_put C b k body meta s = (None, s') \<Longrightarrow> cl_get C b k s' = Inr (Inr body)"
  unfolding read_after_write_def by metis

lemma put_other:
  "read_after_write C \<Longrightarrow> cl_put C b k body meta s = (None, s') \<Longrightarrow> k' \<noteq> k \<Longrightarrow>
   cl_head C b k' s' = cl_head C b k' s \<and> cl_get C b k' s' = cl_get C b k' s"
  unfolding read_after_write_def by metis

text \<open>An in-memory bucket, with one page of listing.\<close>

record mem_s3 =
  ms_objs :: "((string \<times> string) \<times> (string \<times> (string \<rightharpoonup> string))) list"
  ms_parts :: "(nat \<times> string) list"

definition mem_head :: "string \<Rightarrow> string \<Rightarrow> mem_s3 \<Rightarrow> s3_err + s3_head" where
  "mem_head b k s =
     (case map_of (ms_objs s) (b, k) of
        None \<Rightarrow> Inl (ApiErr ''NotFound'')
      | Some (body, meta) \<Rightarrow> Inr \<lparr>hd_size = int (length body), hd_mtime = 0, hd_meta = meta\<rparr>)"

definition mem_get :: "string \<Rightarrow> string \<Rightarrow> mem_s3 \<Rightarrow> s3_err + (string + string)" where
  "mem_get b k s =
     (case map_of (ms_objs s) (b, k) of None \<Rightarrow> Inl (ApiErr ''NoSuchKey'') | Some (body, _) \<Rightarrow> Inr (Inr body))"

definition mem_put :: "string \<Rightarrow> string \<Rightarrow> string \<Rightarrow> metadata \<Rightarrow> mem_s3 \<Rightarrow> s3_err option \<times> mem_s3" where
  "mem_put b k body meta s =
     (None, s\<lparr>ms_objs := AList.update (b, k) (body, case meta of None \<Rightarrow> Map.empty | Some m \<Rightarrow> m) (ms_objs s)\<rparr>)"

definition mem_delete :: "string \<Rightarrow> string \<Rightarrow> mem_s3 \<Rightarrow> s3_err option \<times> mem_s3" where
  "mem_delete b k s = (None, s\<lparr>ms_objs := AList.delete (b, k) (ms_objs s)\<rparr>)"

definition mem_rename :: "string \<Rightarrow> string \<Rightarrow> string \<Rightarrow> mem_s3 \<Rightarrow> s3_err option \<times> mem_s3" where
  "mem_rename b src dst s =
     (let bk = (b, drop (Suc (length b)) src)
      in case map_of (ms_objs s) bk of
           None \<Rightarrow> (Some (ApiErr ''NoSuchKey''), s)
         | Some v \<Rightarrow> (None, s\<lparr>ms_objs := AList.update (b, dst) v (AList.delete bk (ms_objs s))\<rparr>))"

definition mem_keys :: "string \<Rightarrow> mem_s3 \<Rightarrow> string list" where
  "mem_keys b s = sort (map (snd \<circ> fst) (filter (\<lambda>ob. fst (fst ob) = b) (ms_objs s)))"

definition mem_list :: "string \<Rightarrow> string \<Rightarrow> string \<Rightarrow> string option \<Rightarrow> nat option \<Rightarrow> mem_s3 \<Rightarrow> s3_err + s3_page" where
  "mem_list b pfx sep ct mx s =
     (let rests = map (drop (length pfx)) (filter (\<lambda>k. hasPrefix k pfx) (mem_keys b s));
          under = filter (\<lambda>r. strContains r ''/'') rests
      in Inr \<lparr>pg_prefixes = remdups (map (\<lambda>r. pfx @ hd (splitOn slash r) @ ''/'') under),
              pg_contents = map (\<lambda>r. \<lparr>ob_key = pfx @ r, ob_size = (case mem_head b (pfx @ r) s of Inr h \<Rightarrow> hd_size h | Inl _ \<Rightarrow> 0),
                                     ob_mtime = 0\<rparr>) (filter (\<lambda>r. \<not> strContains r ''/'') rests),
              pg_truncated = False, pg_next = None\<rparr>)"

definition mem_client :: "mem_s3 s3_client" where
  "mem_client =
     \<lparr>cl_head = mem_head, cl_get = mem_get, cl_put = mem_put, cl_rename = mem_rename, cl_delete = mem_delete,
      cl_list = mem_list, cl_create_mp = (\<lambda>b k m s. (Inr ''id'', s)),
      cl_upload_part = (\<lambda>b k u n p s. (None, s\<lparr>ms_parts := ms_parts s @ [(n, p)]\<rparr>)),
      cl_complete_mp = (\<lambda>b k u s. (None, s))\<rparr>"

definition mem_world :: "mem_s3 world" where
  "mem_world = \<lparr>wd_s3 = \<lparr>ms_objs = [], ms_parts = []\<rparr>, wd_bufs = (\<lambda>_. []), wd_next = 0, wd_now = 1700000000123456789\<rparr>"

lemma mem_read_after_write: "read_after_write mem_client"
  unfolding read_after_write_def
  by (auto simp: mem_client_def mem_put_def mem_head_def mem_get_def update_conv' split: option.splits)

section \<open>What is written is what is read\<close>

text \<open>Writing a list of chunks, and reading until the end in slices of \<open>n\<close> bytes.\<close>

fun write_all :: "'s s3_client \<Rightarrow> bfile \<Rightarrow> string list \<Rightarrow> 's world \<Rightarrow> bool \<times> bfile \<times> 's world" where
  "write_all C f [] w = (True, f, w)"
| "write_all C f (p # ps) w =
     (let ((n, err), f1, w1) = file_Write C f p w; (ok, f2, w2) = write_all C f1 ps w1
      in (err = None \<and> n = length p \<and> ok, f2, w2))"

fun drain :: "nat \<Rightarrow> nat \<Rightarrow> bfile \<Rightarrow> 's world \<Rightarrow> (io_err + string) option" where
  "drain 0 n f w = None"
| "drain (Suc fuel) n f w =
     (let ((bs, err), f') = file_Read f n w
      in case err of
           Some EOF \<Rightarrow> Some (Inr bs)
         | Some e \<Rightarrow> Some (Inl e)
         | None \<Rightarrow> map_option (map_sum id ((@) bs)) (drain fuel n f' w))"

lemma write_all_buffer:
  assumes "\<not> wf_closed f"
  shows "write_all C (FWrite f) ps w = (True, FWrite (f\<lparr>wf_buf := wf_buf f @ concat ps\<rparr>), w)"
  using assms by (induction ps arbitrary: f) simp_all

lemma write_all_temp:
  assumes "\<not> tw_closed f"
  shows "write_all C (FTempW f) ps w =
    (True, FTempW f, w\<lparr>wd_bufs := (wd_bufs w)(tw_buf f := wd_bufs w (tw_buf f) @ concat ps)\<rparr>)"
  using assms by (induction ps arbitrary: w) (simp_all add: tempWrite_Write_def buf_write_def)

lemma drain_reader:
  assumes "rf_reader f = Some (bs, i)" and "0 < n" and "length bs - i < fuel"
  shows "drain fuel n (FRead f) w = Some (Inr (drop i bs))"
  using assms
proof (induction fuel arbitrary: f i)
  case (Suc fuel)
  show ?case
  proof (cases "i < length bs")
    case True
    let ?got = "take n (drop i bs)"
    let ?f = "f\<lparr>rf_reader := Some (bs, i + length ?got)\<rparr>"
    have "drain fuel n (FRead ?f) w = Some (Inr (drop (i + length ?got) bs))"
      by (rule Suc.IH) (use Suc.prems True in auto)
    moreover have "?got @ drop (i + length ?got) bs = drop i bs"
      by (rule slice_rest)
    ultimately show ?thesis using Suc.prems True by (simp add: reader_read_def Let_def del: length_take)
  next
    case False
    then show ?thesis using Suc.prems by (simp add: reader_read_def)
  qed
qed simp

lemma drain_temp:
  assumes "\<not> tr_closed f" and "tr_pos f = int i" and "0 < n" and "length (wd_bufs w (tr_buf f)) - i < fuel"
  shows "drain fuel n (FTempR f) w = Some (Inr (drop i (wd_bufs w (tr_buf f))))"
  using assms
proof (induction fuel arbitrary: f i)
  case (Suc fuel)
  let ?bs = "wd_bufs w (tr_buf f)"
  show ?case
  proof (cases "i < length ?bs")
    case True
    let ?got = "take n (drop i ?bs)"
    let ?f = "f\<lparr>tr_pos := tr_pos f + int (length ?got)\<rparr>"
    have "drain fuel n (FTempR ?f) w = Some (Inr (drop (i + length ?got) (wd_bufs w (tr_buf ?f))))"
      by (rule Suc.IH) (use Suc.prems True in auto)
    moreover have "?got @ drop (i + length ?got) ?bs = drop i ?bs"
      by (rule slice_rest)
    ultimately show ?thesis using Suc.prems True by (simp add: tempRead_Read_def buf_readAt_def)
  next
    case False
    then show ?thesis using Suc.prems by (simp add: tempRead_Read_def buf_readAt_def)
  qed
qed simp

definition object_key :: "string \<Rightarrow> bool" where
  "object_key k \<longleftrightarrow> k \<noteq> [] \<and> k \<noteq> ''.''"

text \<open>Opening the key of an object that was put.\<close>

lemma open_after_put:
  assumes "read_after_write C" and "cl_put C (s3_bucket fs) (key fs name) body meta s = (None, wd_s3 w)"
    and "object_key (key fs name)" and "lookupTemp fs name = None"
  obtains r where "s3_Open C fs name w = (Inr (FRead r), w)" "rf_reader r = Some (body, 0)"
proof -
  obtain h where "cl_head C (s3_bucket fs) (key fs name) (wd_s3 w) = Inr h"
    using put_head[OF assms(1,2)] by metis
  moreover have "cl_get C (s3_bucket fs) (key fs name) (wd_s3 w) = Inr (Inr body)"
    by (rule put_get[OF assms(1,2)])
  ultimately show thesis
    using that assms(3,4) by (auto simp: s3_Open_def OpenFile_def open_read_def object_key_def newS3ReadFile_def Let_def)
qed

lemma create_write_close:
  assumes "s3_Create C fs name w = (Inr f, w1)" and "write_all C f ps w1 = (True, f2, w2)"
    and "file_Close C f2 w2 = (None, f3, w3)"
  shows "cl_put C (s3_bucket fs) (key fs name) (concat ps) (newFileMetadata (s3_unixMeta fs) (wd_now w)) (wd_s3 w)
           = (None, wd_s3 w3) \<and> w3 = w\<lparr>wd_s3 := wd_s3 w3\<rparr>"
proof -
  define g where "g = newS3WriteFile (s3_bucket fs) (key fs name) name (s3_unixMeta fs)"
  have f: "f = FWrite g" "w1 = w"
    using assms(1) by (auto simp: s3_Create_def OpenFile_def SupportedOFlags_def g_def)
  have "f2 = FWrite (g\<lparr>wf_buf := wf_buf g @ concat ps\<rparr>)" "w2 = w"
    using assms(2) write_all_buffer[of g C ps w] by (simp_all add: f g_def newS3WriteFile_def)
  then show ?thesis
    using assms(3) by (auto simp: write_Close_def g_def newS3WriteFile_def split: prod.splits)
qed

text \<open>C13: A file that was created, written in any number of chunks and closed successfully opens again, and reading it to the end in slices of any positive size gives exactly the concatenation of the chunks; the contents of every other object are as before.\<close>

theorem create_open_roundtrip:
  assumes "read_after_write C" and "object_key (key fs name)" and "lookupTemp fs name = None" and "0 < n"
    and "s3_Create C fs name w = (Inr f, w1)" and "write_all C f ps w1 = (True, f2, w2)"
    and "file_Close C f2 w2 = (None, f3, w3)" and "length (concat ps) < fuel"
  shows "(\<exists>r. s3_Open C fs name w3 = (Inr r, w3) \<and> drain fuel n r w3 = Some (Inr (concat ps))) \<and>
    (\<forall>k'. k' \<noteq> key fs name \<longrightarrow> newS3ReadFile C (s3_bucket fs) k' name w3 = newS3ReadFile C (s3_bucket fs) k' name w)"
proof -
  have put: "cl_put C (s3_bucket fs) (key fs name) (concat ps) (newFileMetadata (s3_unixMeta fs) (wd_now w)) (wd_s3 w)
           = (None, wd_s3 w3)"
    using create_write_close[OF assms(5-7)] by simp
  obtain r where "s3_Open C fs name w3 = (Inr (FRead r), w3)" "rf_reader r = Some (concat ps, 0)"
    using open_after_put[OF assms(1) put assms(2,3)] .
  moreover have "newS3ReadFile C (s3_bucket fs) k' name w3 = newS3ReadFile C (s3_bucket fs) k' name w"
    if "k' \<noteq> key fs name" for k'
    using put_other[OF assms(1) put that] by (simp add: newS3ReadFile_def cong: sum.case_cong)
  ultimately show ?thesis using drain_reader[of r "concat ps" 0 n fuel w3] assms(4,8) by auto
qed

lemmas mem_eval = mem_client_def mem_put_def mem_head_def mem_get_def mem_world_def

lemma demo_key: "key demo_s3fs ''d/f'' = ''d/f''" "key demo_s3fs ''t'' = ''t''"
  by code_simp+

lemma demo_fs_simps [simp]:
  "s3_bucket demo_s3fs = ''b''" "s3_unixMeta demo_s3fs = None" "lookupTemp demo_s3fs n = None"
  by (simp_all add: demo_s3fs_def lookupTemp_def temps_get_def)

definition demo_written :: "mem_s3 world" where
  "demo_written = mem_world\<lparr>wd_s3 := snd (mem_put ''b'' ''d/f'' ''hello'' None (wd_s3 mem_world))\<rparr>"

theorem create_open_roundtrip_witness:
  "\<exists>r. s3_Open mem_client demo_s3fs ''d/f'' demo_written = (Inr r, demo_written) \<and>
       drain 6 2 r demo_written = Some (Inr ''hello'')"
proof -
  let ?g = "newS3WriteFile ''b'' ''d/f'' ''d/f'' None"
  have c: "s3_Create mem_client demo_s3fs ''d/f'' mem_world = (Inr (FWrite ?g), mem_world)"
    by (simp add: s3_Create_def OpenFile_def SupportedOFlags_def demo_key)
  have wr: "write_all mem_client (FWrite ?g) [''hel'', ''lo''] mem_world = (True, FWrite (?g\<lparr>wf_buf := ''hello''\<rparr>), mem_world)"
    by (simp add: write_all_buffer newS3WriteFile_def)
  have cl: "file_Close mem_client (FWrite (?g\<lparr>wf_buf := ''hello''\<rparr>)) mem_world
      = (None, FWrite (?g\<lparr>wf_buf := ''hello'', wf_closed := True\<rparr>), demo_written)"
    by (simp add: write_Close_def newS3WriteFile_def newFileMetadata_def demo_written_def mem_client_def mem_put_def)
  show ?thesis
    using create_open_roundtrip[OF mem_read_after_write _ _ _ c wr cl, of 2 6] by (simp add: demo_key object_key_def)
qed

theorem close_idempotent_witness:
  "fst (close_times mem_client 3 (FDir (newS3DirFile ''d'' ''b'')) mem_world) = [None, Some FileClosed, Some FileClosed]"
  using close_idempotent[of mem_client "FDir (newS3DirFile ''d'' ''b'')" mem_world None
      "FDir ((newS3DirFile ''d'' ''b'')\<lparr>df_closed := True\<rparr>)" mem_world 2 "[]"]
  by (simp add: newS3DirFile_def numeral_3_eq_3 numeral_2_eq_2)

section \<open>Temporary files\<close>

interpretation temps: keyed_store temps_get temps_put
  by unfold_locales (auto simp: temps_get_def temps_put_def)

lemma key_temps [simp]: "key (fs\<lparr>s3_temps := m\<rparr>) n = key fs n" "key (temps_put k b fs) n = key fs n"
  by (simp_all add: key_def cleanPath_def temps_put_def)

lemma lookupTemp_register: "lookupTemp (registerTemp n b fs) n' = (if key fs n' = key fs n then Some b else lookupTemp fs n')"
  by (simp add: lookupTemp_def registerTemp_def temps.lookup_put)

lemma bucket_temps [simp]: "s3_bucket (registerTemp n b fs) = s3_bucket fs"
  by (simp add: registerTemp_def temps_put_def)

lemma key_register [simp]: "key (registerTemp n b fs) n' = key fs n'"
  by (simp add: registerTemp_def)

lemma detach_register:
  "detachTemp n (registerTemp n b fs) = (Some b, fs\<lparr>s3_temps := (s3_temps fs)(key fs n := None)\<rparr>)"
  by (simp add: detachTemp_def registerTemp_def temps_get_def temps_put_def)

text \<open>C14: A temporary file can be read back under its own name while it is being written, a rename uploads exactly what was written under the new name, from where it can be read, and drops the temporary name.\<close>

theorem temp_rename_roundtrip:
  assumes "read_after_write C" and "0 < n"
    and "TempFile (Inr rnd) dir pfx fs w = (Inr t, fs1, w1)"
    and "write_all C (FTempW t) ps w1 = (True, f2, w2)"
    and "s3_Rename C (tw_name t) newpath fs1 w2 = (None, fs3, w3)"
    and "object_key (key fs (tw_name t))" and "object_key (key fs newpath)" and "lookupTemp fs newpath = None"
    and "length (concat ps) < fuel"
  shows "(\<exists>r. s3_Open C fs1 (tw_name t) w2 = (Inr r, w2) \<and> drain fuel n r w2 = Some (Inr (concat ps))) \<and>
    (\<exists>r. s3_Open C fs3 newpath w3 = (Inr r, w3) \<and> drain fuel n r w3 = Some (Inr (concat ps))) \<and>
    lookupTemp fs3 (tw_name t) = None"
proof -
  have t: "\<not> tw_closed t" "tw_buf t = wd_next w" "fs1 = registerTemp (tw_name t) (wd_next w) fs"
    "wd_bufs w1 (wd_next w) = []"
    using assms(3) by (auto simp: TempFile_def Let_def)
  have w2: "w2 = w1\<lparr>wd_bufs := (wd_bufs w1)(wd_next w := concat ps)\<rparr>"
    using assms(4) write_all_temp[OF t(1), of C ps w1] t(2,4) by simp
  let ?r = "\<lparr>tr_buf = wd_next w, tr_name = tw_name t, tr_pos = 0, tr_closed = False\<rparr>"
  have "s3_Open C fs1 (tw_name t) w2 = (Inr (FTempR ?r), w2)"
    using assms(6) by (simp add: s3_Open_def OpenFile_def open_read_def t(3) lookupTemp_register object_key_def Let_def)
  moreover have "drain fuel n (FTempR ?r) w2 = Some (Inr (concat ps))"
    using drain_temp[of ?r 0 n w2 fuel] assms(2,9) by (simp add: w2)
  moreover have fs3: "fs3 = fs\<lparr>s3_temps := (s3_temps fs)(key fs (tw_name t) := None)\<rparr>"
    and put: "cl_put C (s3_bucket fs3) (key fs3 newpath) (concat ps) None (wd_s3 w2) = (None, wd_s3 w3)"
    using assms(5) unfolding s3_Rename_def t(3) detach_register
    by (auto simp: Let_def buf_snapshot_def w2 split: prod.splits)
  moreover have "lookupTemp fs3 newpath = None" "lookupTemp fs3 (tw_name t) = None"
    using assms(8) by (auto simp: fs3 lookupTemp_def temps_get_def)
  moreover obtain r where "s3_Open C fs3 newpath w3 = (Inr (FRead r), w3)" "rf_reader r = Some (concat ps, 0)"
    using open_after_put[OF assms(1) put] assms(7) calculation by (auto simp: fs3)
  ultimately show ?thesis using drain_reader[of r "concat ps" 0 n fuel w3] assms(2,9) by auto
qed

theorem temp_rename_roundtrip_witness:
  "let (f, fs1, w1) = TempFile (Inr [171, 3]) ''tmp'' ''p_'' demo_s3fs mem_world
   in case f of
        Inr t \<Rightarrow>
          (let (ok, f2, w2) = write_all mem_client (FTempW t) [''he'', ''llo''] w1;
               (err, fs3, w3) = s3_Rename mem_client (tw_name t) ''d/f'' fs1 w2
           in (case fst (s3_Open mem_client fs3 ''d/f'' w3) of
                 Inr r \<Rightarrow> drain 6 4 r w3 = Some (Inr ''hello'') | Inl _ \<Rightarrow> False)
              \<and> lookupTemp fs3 ''tmp/p_ab03'' = None)
      | Inl _ \<Rightarrow> False"
proof -
  let ?n = "''tmp/p_ab03''"
  have n: "s3_Join [''tmp'', ''p_'' @ hex_encode [171, 3]] = ?n" and k: "key demo_s3fs ?n = ?n" by code_simp+
  define t where "t = \<lparr>tw_buf = 0, tw_name = ?n, tw_closed = False\<rparr>"
  define fs1 where "fs1 = registerTemp ?n 0 demo_s3fs"
  define w1 where "w1 = mem_world\<lparr>wd_bufs := (wd_bufs mem_world)(0 := []), wd_next := 1\<rparr>"
  have tf: "TempFile (Inr [171, 3]) ''tmp'' ''p_'' demo_s3fs mem_world = (Inr t, fs1, w1)"
    unfolding TempFile_def sum.case n by (simp add: Let_def t_def fs1_def w1_def mem_world_def)
  define w2 where "w2 = w1\<lparr>wd_bufs := (wd_bufs w1)(0 := ''hello'')\<rparr>"
  have wr: "write_all mem_client (FTempW t) [''he'', ''llo''] w1 = (True, FTempW t, w2)"
    by (simp add: write_all_temp t_def w2_def w1_def del: write_all.simps)
  obtain fs3 w3 where rn: "s3_Rename mem_client (tw_name t) ''d/f'' fs1 w2 = (None, fs3, w3)"
    by (simp add: s3_Rename_def fs1_def t_def detach_register mem_client_def mem_put_def Let_def)
  show ?thesis
    using temp_rename_roundtrip[OF mem_read_after_write _ tf wr rn, of 4 6] rn wr
    by (auto simp: tf k demo_key object_key_def t_def)
qed

section \<open>Attributes of a new file\<close>

lemma default_mode_go: "default_mode cfg = go_mode (default_mode cfg) False False False Regular"
  by (simp add: default_mode_def go_mode_def go_type_def and.commute and.left_commute)

text \<open>With Unix metadata enabled, Stat of a file that was created, written and closed reports its length, the owner and group of the session, the mode 0666 masked by the umask, and the time of the close cut to the second, whatever its chunks.\<close>

theorem create_stat_attributes:
  assumes "read_after_write C" and "object_key (key fs name)" and "lookupTemp fs name = None"
    and "s3_unixMeta fs = Some cfg"
    and "s3_Create C fs name w = (Inr f, w1)" and "write_all C f ps w1 = (True, f2, w2)"
    and "file_Close C f2 w2 = (None, f3, w3)"
    and "- (2 ^ 63) \<le> unix_seconds (wd_now w)" and "unix_seconds (wd_now w) < 2 ^ 63"
  shows "s3_Stat C fs name w3 =
    Inr \<lparr>si_name = path_base (key fs name), si_size = int (length (concat ps)), si_mode = 0x1B6 AND NOT (um_umask cfg),
         si_mtime = wd_now w div 1000000000 * 1000000000, si_sys = Some (um_uid cfg, um_gid cfg)\<rparr>"
proof -
  let ?a = "\<lparr>at_UID = um_uid cfg, at_GID = um_gid cfg, at_Mode = default_mode cfg, at_Rdev = 0,
             at_Mtime = wd_now w, at_SymlinkTarget = []\<rparr>"
  have "cl_put C (s3_bucket fs) (key fs name) (concat ps) (Some (Encode ?a)) (wd_s3 w) = (None, wd_s3 w3)"
    using create_write_close[OF assms(5-7)] assms(4) by (simp add: newFileMetadata_def)
  then obtain h where h: "cl_head C (s3_bucket fs) (key fs name) (wd_s3 w3) = Inr h"
    "hd_size h = int (length (concat ps))" "hd_meta h = Encode ?a"
    using put_head[OF assms(1)] by (metis option.simps(5))
  have d: "Decode (Encode ?a) d = ?a\<lparr>at_Mtime := unix_seconds (wd_now w) * 1000000000,
      at_Rdev := (if is_device ?a then 0 else at_Rdev d), at_SymlinkTarget := at_SymlinkTarget d\<rparr>" for d
    using Decode_Encode_attrs[of ?a "default_mode cfg" False False False Regular d] assms(8,9) default_mode_go by simp
  have "s3_Stat C fs name w3 = Inr (newFileInfoFromHead (path_base (key fs name)) h (Some cfg))"
    using assms(2-4) h(1) by (simp add: s3_Stat_def key_def[symmetric] object_key_def Let_def)
  then show ?thesis
    by (simp add: newFileInfoFromHead_def h(2,3) d Let_def unix_seconds_def) (simp add: default_mode_def)
qed

definition demo_unix_fs :: s3fs where
  "demo_unix_fs = WithUnixMetadata 1000 100 0x12 demo_s3fs"

theorem create_stat_attributes_witness:
  "\<exists>w3. map_sum id si_mode (s3_Stat mem_client demo_unix_fs ''d/f'' w3) = Inr 0x1A4 \<and>
        map_sum id si_mtime (s3_Stat mem_client demo_unix_fs ''d/f'' w3) = Inr 1700000000000000000"
proof -
  let ?cfg = "\<lparr>um_uid = 1000, um_gid = 100, um_umask = 0x12\<rparr>"
  let ?g = "newS3WriteFile ''b'' ''d/f'' ''d/f'' (Some ?cfg)"
  have k: "key demo_unix_fs ''d/f'' = ''d/f''" by code_simp
  have fs: "s3_unixMeta demo_unix_fs = Some ?cfg" "lookupTemp demo_unix_fs ''d/f'' = None" "s3_bucket demo_unix_fs = ''b''"
    by (simp_all add: demo_unix_fs_def WithUnixMetadata_def lookupTemp_def temps_get_def demo_s3fs_def)
  have c: "s3_Create mem_client demo_unix_fs ''d/f'' mem_world = (Inr (FWrite ?g), mem_world)"
    by (simp add: s3_Create_def OpenFile_def SupportedOFlags_def k fs)
  have wr: "write_all mem_client (FWrite ?g) [''hi''] mem_world = (True, FWrite (?g\<lparr>wf_buf := ''hi''\<rparr>), mem_world)"
    by (simp add: write_all_buffer newS3WriteFile_def)
  obtain f3 w3 where cl: "file_Close mem_client (FWrite (?g\<lparr>wf_buf := ''hi''\<rparr>)) mem_world = (None, f3, w3)"
    by (simp add: write_Close_def newS3WriteFile_def mem_client_def mem_put_def)
  show ?thesis
    using create_stat_attributes[OF mem_read_after_write _ _ fs(1) c wr cl] fs
    by (intro exI[of _ w3]) (simp add: k object_key_def mem_world_def unix_seconds_def)
qed

section \<open>Open and Stat agree\<close>

datatype path_kind = KFile | KDir | KMissing | KError

fun open_kind :: "io_err + bfile \<Rightarrow> path_kind" where
  "open_kind (Inr (FDir d)) = KDir"
| "open_kind (Inr f) = KFile"
| "open_kind (Inl (NotExist op p)) = KMissing"
| "open_kind (Inl e) = KError"

fun stat_kind :: "io_err + s3_info \<Rightarrow> path_kind" where
  "stat_kind (Inr i) = (if si_mode i AND ModeDir \<noteq> 0 then KDir else KFile)"
| "stat_kind (Inl (NotExist op p)) = KMissing"
| "stat_kind (Inl e) = KError"

text \<open>An object that has a head has a body, which can be read.\<close>

definition head_has_body :: "'s s3_client \<Rightarrow> string \<Rightarrow> 's \<Rightarrow> bool" where
  "head_has_body C b s \<longleftrightarrow> (\<forall>k h. cl_head C b k s = Inr h \<longrightarrow> (\<exists>body. cl_get C b k s = Inr (Inr body)))"

text \<open>Open and Stat classify every path alike: both report a file, both a directory, both that it does not exist, or both fail; this covers the root, temporary files, objects and the probe for implicit directories.\<close>

theorem open_stat_agree:
  assumes "head_has_body C (s3_bucket fs) (wd_s3 w)" and "s3_unixMeta fs = None"
  shows "open_kind (fst (s3_Open C fs p w)) = stat_kind (s3_Stat C fs p w)"
proof (cases "cl_head C (s3_bucket fs) (key fs p) (wd_s3 w)")
  case (Inl e)
  then show ?thesis
    using assms(2)
    by (auto simp: s3_Open_def OpenFile_def open_read_def s3_Stat_def key_def[symmetric] newS3ReadFile_def Let_def
        newFileInfo_def newDirInfo_def mode_bits probe_dir_def split: option.splits sum.splits bool.splits)
next
  case (Inr h)
  then obtain body where "cl_get C (s3_bucket fs) (key fs p) (wd_s3 w) = Inr (Inr body)"
    using assms(1) unfolding head_has_body_def by blast
  with Inr show ?thesis
    using assms(2)
    by (auto simp: s3_Open_def OpenFile_def open_read_def s3_Stat_def key_def[symmetric] newS3ReadFile_def Let_def
        newFileInfo_def newDirInfo_def newFileInfoFromHead_def mode_bits split: option.splits)
qed

theorem open_stat_agree_witness:
  "open_kind (fst (s3_Open mem_client demo_s3fs ''d'' demo_written)) = KDir \<and>
   stat_kind (s3_Stat mem_client demo_s3fs ''d'' demo_written) = KDir"
proof -
  have "head_has_body mem_client (s3_bucket demo_s3fs) (wd_s3 demo_written)"
    by (auto simp: head_has_body_def mem_client_def mem_head_def mem_get_def split: option.splits)
  moreover have "stat_kind (s3_Stat mem_client demo_s3fs ''d'' demo_written) = KDir" by code_simp
  ultimately show ?thesis using open_stat_agree[of mem_client demo_s3fs demo_written "''d''"] by simp
qed

text \<open>The handle Open returns for an implicit directory cannot be asked what it is: Stat on it sends a head request for the directory's own key, which does not exist, and fails.\<close>

theorem dir_handle_stat_fails:
  assumes "head_has_body C (s3_bucket fs) (wd_s3 w)" and "object_key (key fs p)" and "lookupTemp fs p = None"
    and "s3_Open C fs p w = (Inr (FDir d), w)"
  shows "\<exists>e. file_Stat C (FDir d) w = Inl (Wrapped [] e) \<and> missing_code e"
proof (cases "cl_head C (s3_bucket fs) (key fs p) (wd_s3 w)")
  case (Inl e)
  then show ?thesis
    using assms(2-4)
    by (auto simp: s3_Open_def OpenFile_def open_read_def newS3ReadFile_def object_key_def Let_def dir_Stat_def
        newS3DirFile_def split: sum.splits bool.splits if_splits)
next
  case (Inr h)
  then obtain body where "cl_get C (s3_bucket fs) (key fs p) (wd_s3 w) = Inr (Inr body)"
    using assms(1) unfolding head_has_body_def by blast
  then show ?thesis
    using Inr assms(2-4)
    by (auto simp: s3_Open_def OpenFile_def open_read_def newS3ReadFile_def object_key_def Let_def)
qed

theorem dir_handle_stat_fails_witness:
  "\<exists>e. file_Stat mem_client (FDir (newS3DirFile ''d'' ''b'')) demo_written = Inl (Wrapped [] e) \<and> missing_code e"
proof -
  have "head_has_body mem_client (s3_bucket demo_s3fs) (wd_s3 demo_written)"
    by (auto simp: head_has_body_def mem_client_def mem_head_def mem_get_def split: option.splits)
  moreover have k: "key demo_s3fs ''d'' = ''d''" by code_simp
  moreover have "s3_Open mem_client demo_s3fs ''d'' demo_written = (Inr (FDir (newS3DirFile ''d'' ''b'')), demo_written)"
  proof -
    have "newS3ReadFile mem_client ''b'' ''d'' ''d'' demo_written = Inl (Wrapped ''read d'' (ApiErr ''NotFound''))"
      by (simp add: newS3ReadFile_def demo_written_def mem_eval)
    moreover have "probe_dir mem_client demo_s3fs ''d'' demo_written = Inr True" by code_simp
    ultimately show ?thesis
      by (simp add: s3_Open_def OpenFile_def open_read_def k missing_code_def api_code_def)
  qed
  ultimately show ?thesis
    using dir_handle_stat_fails[of mem_client demo_s3fs demo_written "''d''"] by (simp add: object_key_def)
qed

text \<open>Not every handle checks that it is open: reading a closed read handle dereferences its cleared reader, and a closed multipart handle still uploads parts, unlike the buffered write handle, which refuses.\<close>

theorem use_after_close:
  "fst (file_Read (fst (snd (file_Close C (FRead (r\<lparr>rf_closed := False\<rparr>)) w))) n w) = ([], Some Panic) \<and>
   file_Write C (FMulti (m\<lparr>mf_closed := True\<rparr>)) p w =
     (let ((n', e), f', w') = file_Write C (FMulti (m\<lparr>mf_closed := False\<rparr>)) p w
      in case f' of FMulti g \<Rightarrow> ((n', e), FMulti (g\<lparr>mf_closed := True\<rparr>), w') | _ \<Rightarrow> ((n', e), f', w')) \<and>
   fst (file_Write C (FWrite (f\<lparr>wf_closed := True\<rparr>)) p w) = (0, Some FileClosed)"
  by (auto simp: reader_read_def multi_Write_def Let_def split: prod.splits option.splits)

section \<open>Listing\<close>

text \<open>The pages of one listing, each continuing the token of the one before, the last not truncated.\<close>

inductive listing :: "'s s3_client \<Rightarrow> string \<Rightarrow> string \<Rightarrow> string \<Rightarrow> 's \<Rightarrow> string option \<Rightarrow> s3_page list \<Rightarrow> bool"
  for C b pfx sep s where
  last_page: "cl_list C b pfx sep ct None s = Inr page \<Longrightarrow> \<not> pg_truncated page \<Longrightarrow> listing C b pfx sep s ct [page]"
| more_pages: "cl_list C b pfx sep ct None s = Inr page \<Longrightarrow> pg_truncated page \<Longrightarrow>
     listing C b pfx sep s (pg_next page) pages \<Longrightarrow> listing C b pfx sep s ct (page # pages)"

lemma list_loop_listing:
  assumes "listing C (s3_bucket fs) pfx (s3_separator fs) (wd_s3 w) ct pages" and "length pages \<le> fuel"
  shows "list_loop fuel C fs pfx ct dirs files w =
    Some (Inr ((dirs @ concat (map (page_dirs pfx (wd_now w)) pages)) @ (files @ concat (map (page_files pfx) pages))))"
  using assms
proof (induction arbitrary: fuel dirs files rule: listing.induct)
  case (last_page ct page)
  then obtain n where "fuel = Suc n" by (cases fuel) auto
  with last_page show ?case by simp
next
  case (more_pages ct page pages)
  then obtain n where n: "fuel = Suc n" "length pages \<le> n" by (cases fuel) auto
  show ?case using more_pages(1,2) more_pages.IH[OF n(2)] by (simp add: n(1) Let_def)
qed

text \<open>
  What S3 documents of a delimited listing under a prefix: the contents are the keys of the
  bucket with nothing after the prefix but a name, the common prefixes those with a further
  delimiter, up to it.
\<close>

definition lists_keys :: "string set \<Rightarrow> string \<Rightarrow> s3_page list \<Rightarrow> bool" where
  "lists_keys ks pfx pages \<longleftrightarrow>
     ob_key ` set (concat (map pg_contents pages)) = {pfx @ r | r. pfx @ r \<in> ks \<and> slash \<notin> set r} \<and>
     set (concat (map pg_prefixes pages)) = {pfx @ d @ ''/'' | d. slash \<notin> set d \<and> (\<exists>r. pfx @ d @ ''/'' @ r \<in> ks)}"

lemma path_base_plain:
  assumes "n \<noteq> []" and "slash \<notin> set n"
  shows "path_base n = n"
proof -
  have "dropWhile (\<lambda>x. x = slash) (rev n) = rev n"
    using assms by (cases "rev n") (auto simp: rev_eq_Cons_iff)
  then show ?thesis using assms by (simp add: path_base_def trimRightByte_def lastIndexByte_None[THEN iffD2])
qed

lemma child_dirs:
  "{n. n \<noteq> [] \<and> (\<exists>d \<in> {pfx @ d @ ''/'' | d. Q d}. n = trimSuffix (trimPrefix d pfx) ''/'')} = {n. n \<noteq> [] \<and> Q n}"
proof (intro Collect_cong conj_cong refl iffI)
  show "\<exists>d \<in> {pfx @ d @ ''/'' | d. Q d}. n = trimSuffix (trimPrefix d pfx) ''/''" if "Q n" for n
    by (rule bexI[of _ "pfx @ n @ ''/''"]) (use that in auto)
qed auto

lemma child_files:
  assumes "\<And>r. Q r \<Longrightarrow> slash \<notin> set r"
  shows "{path_base r | r. r \<noteq> [] \<and> (\<exists>k \<in> {pfx @ r | r. Q r}. k \<noteq> pfx \<and> r = trimPrefix k pfx)} = {n. n \<noteq> [] \<and> Q n}"
  using assms path_base_plain by (auto intro!: exI)

lemma page_dirs_names:
  "si_name ` set (page_dirs pfx now page) = {n. n \<noteq> [] \<and> (\<exists>d \<in> set (pg_prefixes page). n = trimSuffix (trimPrefix d pfx) ''/'')}"
  by (auto simp: page_dirs_def newDirInfo_def image_iff)

lemma page_files_names:
  "si_name ` set (page_files pfx page) =
   {path_base r | r. r \<noteq> [] \<and> (\<exists>f \<in> set (pg_contents page). ob_key f \<noteq> pfx \<and> r = trimPrefix (ob_key f) pfx)}"
  by (auto simp: page_files_def newFileInfo_def image_iff)


definition demo_bucket :: "mem_s3 world" where
  "demo_bucket = mem_world\<lparr>wd_s3 := \<lparr>ms_objs = [((''b'', ''d/f''), (''hello'', Map.empty)), ((''b'', ''d/e/g''), ([], Map.empty)),
      ((''b'', ''x''), ([], Map.empty))], ms_parts = []\<rparr>\<rparr>"


section \<open>Multipart uploads\<close>

definition uploads_ok :: "'s s3_client \<Rightarrow> bool" where
  "uploads_ok C \<longleftrightarrow> (\<forall>b k u n p s. fst (cl_upload_part C b k u n p s) = None)"

lemma write_all_multi:
  assumes "uploads_ok C"
  shows "write_all C (FMulti f) ps w =
    (True, FMulti (f\<lparr>mf_uploadN := mf_uploadN f + length ps\<rparr>),
     w\<lparr>wd_s3 := fold (\<lambda>(i, p) s. snd (cl_upload_part C (mf_bucket f) (mf_key f) (mf_uploadID f) i p s))
                 (enumerate (mf_uploadN f) ps) (wd_s3 w)\<rparr>)"
proof (induction ps arbitrary: f w)
  case (Cons p ps)
  obtain s where "cl_upload_part C (mf_bucket f) (mf_key f) (mf_uploadID f) (mf_uploadN f) p (wd_s3 w) = (None, s)"
    using assms unfolding uploads_ok_def by (metis prod.collapse)
  then show ?case using Cons by (simp add: multi_Write_def)
qed simp

text \<open>The chunks written to a multipart handle are uploaded in order as parts 1, 2, 3 and so on of one upload, each exactly once, and the handle counts the next part number.\<close>

theorem multipart_parts_in_order:
  assumes "uploads_ok C" and "OpenFile C fs name 4 w = (Inr f, w1)"
  shows "\<exists>u. (\<exists>s. cl_create_mp C (s3_bucket fs) (key fs name) (newFileMetadata (s3_unixMeta fs) (wd_now w)) (wd_s3 w) = (Inr u, s)) \<and>
    write_all C f ps w1 =
      (True, FMulti \<lparr>mf_bucket = s3_bucket fs, mf_key = key fs name, mf_name = name, mf_closed = False, mf_uploadID = u,
                     mf_uploadN = 1 + length ps\<rparr>,
       w1\<lparr>wd_s3 := fold (\<lambda>(i, p) s. snd (cl_upload_part C (s3_bucket fs) (key fs name) u i p s)) (enumerate 1 ps) (wd_s3 w1)\<rparr>)"
proof -
  obtain u s where "cl_create_mp C (s3_bucket fs) (key fs name) (newFileMetadata (s3_unixMeta fs) (wd_now w)) (wd_s3 w) = (Inr u, s)"
    and "f = FMulti \<lparr>mf_bucket = s3_bucket fs, mf_key = key fs name, mf_name = name, mf_closed = False, mf_uploadID = u, mf_uploadN = 1\<rparr>"
    using assms(2)
    by (auto simp: OpenFile_def SupportedOFlags_def newS3MultipartUploadFile_def Let_def map_sum_def split: prod.splits sum.splits)
  then show ?thesis using write_all_multi[OF assms(1)] by auto
qed

theorem multipart_parts_in_order_witness:
  "case OpenFile mem_client demo_s3fs ''t'' 4 mem_world of
     (Inr f, w1) \<Rightarrow> ms_parts (wd_s3 (snd (snd (write_all mem_client f [''a'', ''bc''] w1)))) = [(1, ''a''), (2, ''bc'')]
   | _ \<Rightarrow> False"
proof -
  have ok: "uploads_ok mem_client" by (simp add: uploads_ok_def mem_client_def)
  obtain f where o: "OpenFile mem_client demo_s3fs ''t'' 4 mem_world = (Inr f, mem_world)"
    by (simp add: OpenFile_def SupportedOFlags_def newS3MultipartUploadFile_def mem_client_def)
  have p: "ms_parts (wd_s3 mem_world) = []" by (simp add: mem_world_def)
  show ?thesis using multipart_parts_in_order[OF ok o, of "[''a'', ''bc'']"] p unfolding o
    by (auto simp: mem_client_def)
qed

section \<open>The bucket as a map\<close>

text \<open>
  The abstract contract of the filesystem: a map from keys to contents.  \<open>store_laws\<close> is what
  S3 and Tigris document of a successful put, delete and in-place rename.
\<close>

definition contents :: "'s s3_client \<Rightarrow> string \<Rightarrow> 's \<Rightarrow> string \<rightharpoonup> string" where
  "contents C b s k = (case cl_get C b k s of Inr (Inr body) \<Rightarrow> Some body | _ \<Rightarrow> None)"

definition store_laws :: "'s s3_client \<Rightarrow> bool" where
  "store_laws C \<longleftrightarrow>
     (\<forall>b k body meta s s'. cl_put C b k body meta s = (None, s') \<longrightarrow> contents C b s' = (contents C b s)(k \<mapsto> body)) \<and>
     (\<forall>b k s s'. cl_delete C b k s = (None, s') \<longrightarrow> contents C b s' = (contents C b s)(k := None)) \<and>
     (\<forall>b k k' s s'. cl_rename C b (b @ ''/'' @ k) k' s = (None, s') \<longrightarrow>
        contents C b s' = (contents C b s)(k := None, k' := contents C b s k))"

datatype fs_op = OpWrite string "string list" | OpRemove string | OpRename string string

definition run_op :: "'s s3_client \<Rightarrow> s3fs \<Rightarrow> fs_op \<Rightarrow> 's world \<Rightarrow> bool \<times> 's world" where
  "run_op C fs op w =
     (case op of
        OpWrite n ps \<Rightarrow>
          (case s3_Create C fs n w of
             (Inr f, w1) \<Rightarrow> (let (ok, f2, w2) = write_all C f ps w1; (r, f3, w3) = file_Close C f2 w2 in (ok \<and> r = None, w3))
           | (Inl e, w1) \<Rightarrow> (False, w1))
      | OpRemove n \<Rightarrow> (let (r, fs', w') = s3_Remove C n fs w in (r = None, w'))
      | OpRename a b \<Rightarrow> (let (r, fs', w') = s3_Rename C a b fs w in (r = None, w')))"

fun run_ops :: "'s s3_client \<Rightarrow> s3fs \<Rightarrow> fs_op list \<Rightarrow> 's world \<Rightarrow> bool \<times> 's world" where
  "run_ops C fs [] w = (True, w)"
| "run_ops C fs (op # ops) w =
     (let (ok, w1) = run_op C fs op w; (oks, w2) = run_ops C fs ops w1 in (ok \<and> oks, w2))"

fun spec_op :: "s3fs \<Rightarrow> fs_op \<Rightarrow> (string \<rightharpoonup> string) \<Rightarrow> (string \<rightharpoonup> string)" where
  "spec_op fs (OpWrite n ps) m = m(key fs n \<mapsto> concat ps)"
| "spec_op fs (OpRemove n) m = m(key fs n := None)"
| "spec_op fs (OpRename a b) m = m(key fs a := None, key fs b := m (key fs a))"

lemma run_op_refines:
  assumes "store_laws C" and "s3_temps fs = Map.empty" and "run_op C fs op w = (True, w')"
  shows "contents C (s3_bucket fs) (wd_s3 w') = spec_op fs op (contents C (s3_bucket fs) (wd_s3 w))"
proof (cases op)
  case (OpWrite n ps)
  then obtain f w1 f2 w2 f3 where "s3_Create C fs n w = (Inr f, w1)" "write_all C f ps w1 = (True, f2, w2)"
    "file_Close C f2 w2 = (None, f3, w')"
    using assms(3) by (auto simp: run_op_def split: prod.splits sum.splits)
  from create_write_close[OF this] show ?thesis using assms(1) OpWrite unfolding store_laws_def by auto
next
  case (OpRemove n)
  then show ?thesis
    using assms unfolding store_laws_def
    by (auto simp: run_op_def s3_Remove_def detachTemp_def temps_get_def split: prod.splits)
next
  case (OpRename a b)
  then show ?thesis
    using assms unfolding store_laws_def
    by (auto simp: run_op_def s3_Rename_def detachTemp_def temps_get_def split: prod.splits)
qed


lemma mem_contents: "contents mem_client b s k = map_option fst (map_of (ms_objs s) (b, k))"
  by (auto simp: contents_def mem_client_def mem_get_def split: option.splits)

lemma mem_store_laws: "store_laws mem_client"
  unfolding store_laws_def fun_eq_iff mem_contents
  by (auto simp: mem_client_def mem_put_def mem_delete_def mem_rename_def update_conv' delete_conv' Let_def
      split: option.splits)

definition demo_ops :: "fs_op list" where
  "demo_ops = [OpWrite ''a'' [''x'', ''y''], OpWrite ''/b/c'' [''z''], OpRename ''a'' ''d'', OpRemove ''b/./c'']"


text \<open>A rename of a temporary file whose upload fails loses the file: the error is returned, the temporary name is gone from the table, and opening it no longer gives the buffer.\<close>

theorem failed_rename_drops_temp:
  assumes "lookupTemp fs p = Some b"
    and "cl_put C (s3_bucket fs) (key fs q) (buf_snapshot b (wd_bufs w)) None (wd_s3 w) = (Some e, s)"
  shows "\<exists>fs'. s3_Rename C p q fs w = (Some (Wrapped ''failed to upload temp'' e), fs', w\<lparr>wd_s3 := s\<rparr>) \<and>
    lookupTemp fs' p = None \<and> (\<forall>p'. key fs p' \<noteq> key fs p \<longrightarrow> lookupTemp fs' p' = lookupTemp fs p')"
  using assms
  by (auto simp: s3_Rename_def detachTemp_def lookupTemp_def temps_get_def)

definition failing_client :: "mem_s3 s3_client" where
  "failing_client = mem_client\<lparr>cl_put := (\<lambda>b k body meta s. (Some (ApiErr ''SlowDown''), s))\<rparr>"

theorem failed_rename_drops_temp_witness:
  "\<exists>fs'. s3_Rename failing_client ''t'' ''d/f'' (registerTemp ''t'' 0 demo_s3fs) mem_world
      = (Some (Wrapped ''failed to upload temp'' (ApiErr ''SlowDown'')), fs', mem_world) \<and> lookupTemp fs' ''t'' = None"
proof -
  have "lookupTemp (registerTemp ''t'' 0 demo_s3fs) ''t'' = Some 0" by (simp add: lookupTemp_register)
  from failed_rename_drops_temp[OF this, where C = failing_client and q = "''d/f''" and w = mem_world and e = "ApiErr ''SlowDown''"
      and s = "wd_s3 mem_world"]
  show ?thesis by (auto simp: failing_client_def)
qed

text \<open>MkdirAll does not go through the key function: below a chroot it puts the placeholder under the name as it was given, while every file operation uses the key below the root, so the placeholder of a directory made in a chroot lies outside of it.\<close>

theorem mkdirall_raw_key:
  "key (Chroot demo_s3fs ''home'') ''d'' = ''home/d'' \<and>
   map (snd \<circ> fst) (ms_objs (wd_s3 (snd (MkdirAll mem_client (Chroot demo_s3fs ''home'') ''d'' mem_world)))) = [''d'']"
proof
  show "key (Chroot demo_s3fs ''home'') ''d'' = ''home/d''" by code_simp
  show "map (snd \<circ> fst) (ms_objs (wd_s3 (snd (MkdirAll mem_client (Chroot demo_s3fs ''home'') ''d'' mem_world)))) = [''d'']"
    by code_simp
qed

end
