(* ===== verification/Gzip.thy ===== *)
theory Gzip
  imports Cmd_Path
begin

text \<open>
  The gzip command (\<^verbatim>\<open>command/internal/gzip/gzip.go\<close>).  Parameters: the compressed format itself
  (\<^verbatim>\<open>compress/gzip\<close> as a pair of functions), the percentage that \<^verbatim>\<open>%.1f\<close> prints of two
  sizes, the text of a filesystem error, the option parser (the option values it leaves), and the
  filesystem: the read interface \<open>billy\<close> and what a file that is open for writing does, each
  step of which may fail.  Reading a missing standard input is a panic.
\<close>

section \<open>Environment and state\<close>

record 's write_ops =
  wo_create :: "'s \<Rightarrow> string \<Rightarrow> (fs_err + nat) \<times> 's"
  wo_openTrunc :: "'s \<Rightarrow> string \<Rightarrow> (fs_err + nat) \<times> 's"
  wo_write :: "'s \<Rightarrow> nat \<Rightarrow> string \<Rightarrow> (nat \<times> fs_err option) \<times> 's"
  wo_close :: "'s \<Rightarrow> nat \<Rightarrow> fs_err option \<times> 's"

record 's gz_env =
  gz_fs :: "'s billy option"
  gz_writes :: "'s write_ops"
  gz_dir :: string
  gz_compress :: "int \<Rightarrow> string \<Rightarrow> string + string"
  gz_decompress :: "string \<Rightarrow> string + string"
  gz_percent :: "nat \<Rightarrow> nat \<Rightarrow> string"
  gz_errtext :: "fs_err \<Rightarrow> string"

record 's gz_st =
  gz_state :: 's
  gz_stdin :: "(fs_err + string) option"
  gz_out :: string
  gz_err :: string
  gz_code :: nat

datatype gz_result = Returned exit_result | Panicked

record gz_opts =
  gzo_stdout :: bool
  gzo_decompress :: bool
  gzo_force :: bool
  gzo_keep :: bool
  gzo_list :: bool
  gzo_quiet :: bool
  gzo_suffix :: string
  gzo_test :: bool
  gzo_verbose :: bool
  gzo_fast :: bool
  gzo_best :: bool
  gzo_help :: bool
  gzo_files :: "string list"

definition gz_say :: "string \<Rightarrow> 's gz_st \<Rightarrow> 's gz_st" where
  "gz_say m st = st\<lparr>gz_err := gz_err st @ m\<rparr>"

definition gz_emit :: "string \<Rightarrow> 's gz_st \<Rightarrow> 's gz_st" where
  "gz_emit m st = st\<lparr>gz_out := gz_out st @ m\<rparr>"

text \<open>A warning that \<^verbatim>\<open>-q\<close> suppresses, and one that also fails the command.\<close>

definition gz_warn :: "bool \<Rightarrow> string \<Rightarrow> 's gz_st \<Rightarrow> 's gz_st" where
  "gz_warn quiet m st = (if quiet then st else gz_say m st)"

definition gz_fail :: "bool \<Rightarrow> string \<Rightarrow> 's gz_st \<Rightarrow> 's gz_st" where
  "gz_fail quiet m st = (gz_warn quiet m st)\<lparr>gz_code := 1\<rparr>"

text \<open>Reading all of standard input: a panic without one, and otherwise an error or the bytes.\<close>

definition read_stdin :: "'s gz_st \<Rightarrow> (fs_err + string) option \<times> 's gz_st" where
  "read_stdin st =
     (case gz_stdin st of
        None \<Rightarrow> (None, st)
      | Some (Inl e) \<Rightarrow> (Some (Inl e), st)
      | Some (Inr data) \<Rightarrow> (Some (Inr data), st\<lparr>gz_stdin := Some (Inr [])\<rparr>))"

section \<open>The format\<close>

definition isGzip :: "string \<Rightarrow> bool" where
  "isGzip data \<longleftrightarrow> length data \<ge> 2 \<and> byte_val (data ! 0) = 0x1F \<and> byte_val (data ! 1) = 0x8B"

definition uncompressedSize :: "string \<Rightarrow> nat" where
  "uncompressedSize data =
     (let n = length data
      in if n < 4 then 0
         else byte_val (data ! (n - 4)) + 256 * byte_val (data ! (n - 3)) + 65536 * byte_val (data ! (n - 2))
              + 16777216 * byte_val (data ! (n - 1)))"

text \<open>\<^verbatim>\<open>flate.BestCompression\<close>, \<^verbatim>\<open>BestSpeed\<close> and \<^verbatim>\<open>DefaultCompression\<close>.\<close>

definition level :: "bool \<Rightarrow> bool \<Rightarrow> int" where
  "level fast best = (if best then 9 else if fast then 1 else - 1)"

section \<open>Writing the output\<close>

definition short_write :: "nat \<Rightarrow> nat \<Rightarrow> string" where
  "short_write n k = ''short write: wrote '' @ show_nat n @ '' of '' @ show_nat k @ '' bytes''"

text \<open>
  Create or open, write, close; on any failure the output is removed.  What opens the file is a
  parameter, since gzip and gunzip open theirs differently.
\<close>

definition writeOutput ::
  "'s gz_env \<Rightarrow> ('s \<Rightarrow> string \<Rightarrow> (fs_err + nat) \<times> 's) \<Rightarrow> 's billy \<Rightarrow> string \<Rightarrow> string \<Rightarrow> 's \<Rightarrow> string option \<times> 's" where
  "writeOutput E opener fs p payload s =
     (case opener s p of
        (Inl e, s1) \<Rightarrow> (Some (gz_errtext E e), s1)
      | (Inr h, s1) \<Rightarrow>
          (let ((n, werr), s2) = wo_write (gz_writes E) s1 h payload;
               (cerr, s3) = wo_close (gz_writes E) s2 h;
               writeErr = (case werr of
                   Some e \<Rightarrow> Some (gz_errtext E e)
                 | None \<Rightarrow> if n \<noteq> length payload then Some (short_write n (length payload)) else None);
               closeErr = map_option (gz_errtext E) cerr
           in if writeErr \<noteq> None \<or> closeErr \<noteq> None then
                (if writeErr \<noteq> None then writeErr else closeErr, snd (fs_remove fs s3 p))
              else (None, s3)))"

section \<open>Operands\<close>

definition no_such :: "string \<Rightarrow> string" where
  "no_such file = ''gzip: '' @ file @ '': No such file or directory'' @ nl"

definition about :: "string \<Rightarrow> string \<Rightarrow> string" where
  "about file m = ''gzip: '' @ file @ '': '' @ m @ nl"

text \<open>The bytes of a file, or nothing after the failure was reported.\<close>

definition read_file :: "'s gz_env \<Rightarrow> 's billy \<Rightarrow> bool \<Rightarrow> string \<Rightarrow> 's gz_st \<Rightarrow> string option \<times> 's gz_st" where
  "read_file E fs quiet file st =
     (case fs_open fs (gz_state st) (resolvePath (gz_dir E) file) of
        Inl _ \<Rightarrow> (None, gz_fail quiet (no_such file) st)
      | Inr (Inl e) \<Rightarrow> (None, gz_fail quiet (about file (gz_errtext E e)) st)
      | Inr (Inr data) \<Rightarrow> (Some data, st))"

text \<open>
  One operand: \<^const>\<open>Some\<close> ends the command there.  Standard input is read by \<open>k\<close>, a file by \<open>f\<close>;
  without a filesystem a file is passed over.
\<close>

definition on_operand ::
  "'s gz_env \<Rightarrow> (string \<Rightarrow> 's gz_st \<Rightarrow> gz_result option \<times> 's gz_st) \<Rightarrow> ('s billy \<Rightarrow> string \<Rightarrow> 's gz_st \<Rightarrow> 's gz_st)
   \<Rightarrow> string \<Rightarrow> 's gz_st \<Rightarrow> gz_result option \<times> 's gz_st" where
  "on_operand E k f file st =
     (if file = ''-'' then
        (case read_stdin st of
           (None, st1) \<Rightarrow> (Some Panicked, st1)
         | (Some (Inl e), st1) \<Rightarrow> (Some (Returned (ExitErr (gz_errtext E e))), st1)
         | (Some (Inr data), st1) \<Rightarrow> k data st1)
      else case gz_fs E of None \<Rightarrow> (None, st) | Some fs \<Rightarrow> (None, f fs file st))"

fun each_operand :: "(string \<Rightarrow> 's gz_st \<Rightarrow> gz_result option \<times> 's gz_st) \<Rightarrow> string list \<Rightarrow> 's gz_st \<Rightarrow> gz_result \<times> 's gz_st" where
  "each_operand f [] st = (Returned (if gz_code st \<noteq> 0 then ExitStatus (gz_code st) else ExitOk), st)"
| "each_operand f (x # xs) st =
     (case f x st of (Some r, st1) \<Rightarrow> (r, st1) | (None, st1) \<Rightarrow> each_operand f xs st1)"

section \<open>Listing and testing\<close>

definition pad_left :: "nat \<Rightarrow> string \<Rightarrow> string" where
  "pad_left w t = replicate (w - length t) (CHR '' '') @ t"

definition printListEntry :: "'s gz_env \<Rightarrow> string \<Rightarrow> string \<Rightarrow> 's gz_st \<Rightarrow> 's gz_st" where
  "printListEntry E data name st =
     (let compressed = length data; uncompressed = uncompressedSize data;
          ratio = (if uncompressed > 0 then gz_percent E compressed uncompressed else ''0.0'')
      in gz_say (pad_left 10 (show_nat compressed) @ '' '' @ pad_left 10 (show_nat uncompressed) @ '' '' @ pad_left 5 ratio
                 @ ''% '' @ name @ nl) st)"

definition list_header :: string where
  "list_header = ''  compressed uncompressed  ratio uncompressed_name'' @ nl"

definition listMode :: "'s gz_env \<Rightarrow> gz_opts \<Rightarrow> string list \<Rightarrow> 's gz_st \<Rightarrow> gz_result \<times> 's gz_st" where
  "listMode E opts files st =
     each_operand
       (on_operand E (\<lambda>data st1. (None, printListEntry E data ''stdin'' st1))
          (\<lambda>fs file st1. case read_file E fs (gzo_quiet opts) file st1 of
              (None, st2) \<Rightarrow> st2
            | (Some data, st2) \<Rightarrow> printListEntry E data (trimSuffix file (gzo_suffix opts)) st2))
       files (gz_say list_header st)"

definition test_data :: "'s gz_env \<Rightarrow> gz_opts \<Rightarrow> string \<Rightarrow> string \<Rightarrow> 's gz_st \<Rightarrow> 's gz_st" where
  "test_data E opts name data st =
     (if \<not> isGzip data then gz_fail (gzo_quiet opts) (about name ''not in gzip format'') st
      else case gz_decompress E data of
        Inl m \<Rightarrow> gz_fail (gzo_quiet opts) (about name m) st
      | Inr _ \<Rightarrow> if gzo_verbose opts then gz_say (name @ '':'' @ [tab] @ ''OK'' @ nl) st else st)"

definition testMode :: "'s gz_env \<Rightarrow> gz_opts \<Rightarrow> string list \<Rightarrow> 's gz_st \<Rightarrow> gz_result \<times> 's gz_st" where
  "testMode E opts files st =
     each_operand
       (on_operand E (\<lambda>data st1. (None, test_data E opts ''-'' data st1))
          (\<lambda>fs file st1. case read_file E fs (gzo_quiet opts) file st1 of
              (None, st2) \<Rightarrow> st2
            | (Some data, st2) \<Rightarrow> test_data E opts file data st2))
       files st"

section \<open>Compressing and decompressing\<close>

text \<open>The line of \<^verbatim>\<open>-v\<close>: of the packed and the plain size, the share that was saved.\<close>

definition saved_line :: "'s gz_env \<Rightarrow> string \<Rightarrow> string \<Rightarrow> string \<Rightarrow> string \<Rightarrow> string" where
  "saved_line E file packed plain what =
     file @ '':'' @ [tab] @ (if plain \<noteq> [] then gz_percent E (length packed) (length plain) else ''0.0'') @ ''% -- '' @ what @ nl"

text \<open>The output of one file: to standard output, or to the file \<open>outputPath\<close> in place of the operand.\<close>

definition deliver ::
  "'s gz_env \<Rightarrow> gz_opts \<Rightarrow> 's billy \<Rightarrow> string \<Rightarrow> string \<Rightarrow> string \<Rightarrow> (string \<Rightarrow> string) \<Rightarrow> 's gz_st \<Rightarrow> 's gz_st" where
  "deliver E opts fs file outputPath result line st =
     (if gzo_stdout opts then
        (let st1 = gz_emit result st in if gzo_verbose opts then gz_say (line ''written to stdout'') st1 else st1)
      else
        (let outputFull = resolvePath (gz_dir E) outputPath; quiet = gzo_quiet opts
         in if \<not> isl (fs_stat fs (gz_state st) outputFull) \<and> \<not> gzo_force opts
            then gz_warn quiet (''gzip: '' @ outputPath @ '' already exists; not overwritten'' @ nl) st
            else case writeOutput E (wo_create (gz_writes E)) fs outputFull result (gz_state st) of
              (Some m, s1) \<Rightarrow> gz_fail quiet (about outputPath m) (st\<lparr>gz_state := s1\<rparr>)
            | (None, s1) \<Rightarrow>
                (let st1 = st\<lparr>gz_state := s1\<rparr>;
                     st2 = (if gzo_verbose opts then gz_say (line (''replaced with '' @ outputPath)) st1 else st1)
                 in if gzo_keep opts then st2
                    else st2\<lparr>gz_state := snd (fs_remove fs (gz_state st2) (resolvePath (gz_dir E) file))\<rparr>)))"

definition compress_file :: "'s gz_env \<Rightarrow> gz_opts \<Rightarrow> 's billy \<Rightarrow> string \<Rightarrow> 's gz_st \<Rightarrow> 's gz_st" where
  "compress_file E opts fs file st =
     (let quiet = gzo_quiet opts; suffix = gzo_suffix opts
      in case fs_stat fs (gz_state st) (resolvePath (gz_dir E) file) of
           Inl _ \<Rightarrow> gz_fail quiet (no_such file) st
         | Inr info \<Rightarrow>
             if fi_isDir info then gz_warn quiet (about file ''is a directory -- ignored'') st
             else if hasSuffix file suffix
             then gz_warn quiet (''gzip: '' @ file @ '' already has '' @ suffix @ '' suffix -- unchanged'' @ nl) st
             else case read_file E fs quiet file st of
               (None, st1) \<Rightarrow> st1
             | (Some data, st1) \<Rightarrow>
                 (case gz_compress E (level (gzo_fast opts) (gzo_best opts)) data of
                    Inl m \<Rightarrow> gz_fail quiet (about file m) st1
                  | Inr packed \<Rightarrow> deliver E opts fs file (file @ suffix) packed (saved_line E file packed data) st1))"

definition compressMode :: "'s gz_env \<Rightarrow> gz_opts \<Rightarrow> string list \<Rightarrow> 's gz_st \<Rightarrow> gz_result \<times> 's gz_st" where
  "compressMode E opts files st =
     each_operand
       (on_operand E
          (\<lambda>data st1. case gz_compress E (level (gzo_fast opts) (gzo_best opts)) data of
              Inl m \<Rightarrow> (Some (Returned (ExitErr m)), st1)
            | Inr packed \<Rightarrow> (None, gz_emit packed st1))
          (compress_file E opts))
       files st"

definition decompress_file :: "'s gz_env \<Rightarrow> gz_opts \<Rightarrow> 's billy \<Rightarrow> string \<Rightarrow> 's gz_st \<Rightarrow> 's gz_st" where
  "decompress_file E opts fs file st =
     (let quiet = gzo_quiet opts; suffix = gzo_suffix opts
      in case fs_stat fs (gz_state st) (resolvePath (gz_dir E) file) of
           Inl _ \<Rightarrow> gz_fail quiet (no_such file) st
         | Inr info \<Rightarrow>
             if fi_isDir info then gz_warn quiet (about file ''is a directory -- ignored'') st
             else if \<not> hasSuffix file suffix then gz_warn quiet (about file ''unknown suffix -- ignored'') st
             else case read_file E fs quiet file st of
               (None, st1) \<Rightarrow> st1
             | (Some data, st1) \<Rightarrow>
                 if \<not> isGzip data then gz_fail quiet (about file ''not in gzip format'') st1
                 else (case gz_decompress E data of
                    Inl m \<Rightarrow> gz_fail quiet (about file m) st1
                  | Inr plain \<Rightarrow> deliver E opts fs file (trimSuffix file suffix) plain (saved_line E file data plain) st1))"

definition decompressMode :: "'s gz_env \<Rightarrow> gz_opts \<Rightarrow> string list \<Rightarrow> 's gz_st \<Rightarrow> gz_result \<times> 's gz_st" where
  "decompressMode E opts files st =
     each_operand
       (on_operand E
          (\<lambda>data st1.
             if \<not> isGzip data then (None, gz_warn (gzo_quiet opts) (about ''stdin'' ''not in gzip format'') st1)
             else case gz_decompress E data of
               Inl m \<Rightarrow> (None, gz_warn (gzo_quiet opts) (about ''stdin'' m) st1)
             | Inr plain \<Rightarrow> (None, gz_emit plain st1))
          (decompress_file E opts))
       files st"

section \<open>The command\<close>

definition gz_usage :: string where
  "gz_usage =
     ''Usage: gzip [OPTION]... [FILE]...'' @ nl @
     ''Compress FILEs (by default, in-place).'' @ nl @ nl @
     ''When no FILE is given, or when FILE is -, read from standard input.'' @ nl @ nl @
     ''With -d, decompress instead.'' @ nl @ nl @
     ''  -c, --stdout      write to standard output, keep original files'' @ nl @
     ''  -d, --decompress  decompress'' @ nl @
     ''  -f, --force       force overwrite of output file'' @ nl @
     ''  -k, --keep        keep (don'' @ [squote] @ ''t delete) input files'' @ nl @
     ''  -l, --list        list compressed file contents'' @ nl @
     ''  -n, --no-name     do not save or restore the original name and timestamp'' @ nl @
     ''  -N, --name        save or restore the original file name and timestamp'' @ nl @
     ''  -q, --quiet       suppress all warnings'' @ nl @
     ''  -r, --recursive   operate recursively on directories'' @ nl @
     ''  -S, --suffix=SUF  use suffix SUF on compressed files (default: .gz)'' @ nl @
     ''  -t, --test        test compressed file integrity'' @ nl @
     ''  -v, --verbose     verbose mode'' @ nl @
     ''  -1, --fast        compress faster'' @ nl @
     ''  -9, --best        compress better'' @ nl @
     ''      --help        display this help and exit'' @ nl"

definition gzip_Exec :: "'s gz_env \<Rightarrow> string + gz_opts \<Rightarrow> 's gz_st \<Rightarrow> gz_result \<times> 's gz_st" where
  "gzip_Exec E opts0 st =
     (case opts0 of
        Inl m \<Rightarrow> (Returned (ExitStatus 1), gz_say gz_usage (gz_say (''gzip: '' @ m @ nl) st))
      | Inr opts \<Rightarrow>
          if gzo_help opts then (Returned ExitOk, gz_say gz_usage st)
          else
            (let files = (if gzo_files opts = [] then [''-''] else gzo_files opts)
             in (if gzo_list opts then listMode else if gzo_test opts then testMode
                 else if gzo_decompress opts then decompressMode else compressMode) E opts files (st\<lparr>gz_code := 0\<rparr>)))"

end
