(* ===== verification/Gunzip.thy ===== *)
theory Gunzip
  imports Gzip
begin

text \<open>
  The commands gunzip (\<^verbatim>\<open>command/internal/gunzip/gunzip.go\<close>) and zcat
  (\<^verbatim>\<open>command/internal/zcat/zcat.go\<close>), over the environment and the state of gzip; the
  functions that the three files hold copies of are those of gzip.  A step of gunzip that needs
  the missing filesystem is a panic.
\<close>

section \<open>gunzip: operands\<close>

record gunz_opts =
  gun_stdout :: bool
  gun_force :: bool
  gun_keep :: bool
  gun_list :: bool
  gun_quiet :: bool
  gun_recursive :: bool
  gun_suffix :: string
  gun_test :: bool
  gun_verbose :: bool
  gun_help :: bool
  gun_files :: "string list"

definition gun_about :: "string \<Rightarrow> string \<Rightarrow> string" where
  "gun_about file m = ''gunzip: '' @ file @ '': '' @ m @ nl"

definition dir_files :: "string \<Rightarrow> string \<Rightarrow> dir_entry list \<Rightarrow> string list" where
  "dir_files full suf es =
     map (\<lambda>df. path_join [full, de_name df]) (filter (\<lambda>df. \<not> de_isDir df \<and> hasSuffix (de_name df) suf) es)"

text \<open>The files to work on, or how the command ends.\<close>

fun gun_collect ::
  "'s gz_env \<Rightarrow> string \<Rightarrow> bool \<Rightarrow> bool \<Rightarrow> string list \<Rightarrow> 's gz_st \<Rightarrow> (gz_result + string list) \<times> 's gz_st" where
  "gun_collect E suf recursive quiet [] st = (Inr [], st)"
| "gun_collect E suf recursive quiet (file # files) st =
     (case gz_fs E of
        None \<Rightarrow> (Inl Panicked, st)
      | Some fs \<Rightarrow>
          (let full = resolvePath (gz_dir E) file;
               more_of = (\<lambda>found st1. case gun_collect E suf recursive quiet files st1 of
                   (Inl r, st2) \<Rightarrow> (Inl r, st2) | (Inr xs, st2) \<Rightarrow> (Inr (found @ xs), st2))
           in case fs_stat fs (gz_state st) full of
                Inl _ \<Rightarrow> (Inl (Returned (ExitStatus 1)), gz_say (gun_about file ''No such file or directory'') st)
              | Inr info \<Rightarrow>
                  if \<not> fi_isDir info then more_of [file] st
                  else if recursive then
                    (case fs_readdir fs (gz_state st) full of
                       Inl e \<Rightarrow> (Inl (Returned (ExitErr (gz_errtext E e))), gz_warn quiet (gun_about file (gz_errtext E e)) st)
                     | Inr es \<Rightarrow> more_of (dir_files full suf es) st)
                  else more_of [] (gz_warn quiet (gun_about file ''is a directory -- ignored'') st)))"

definition gun_readFile :: "'s gz_env \<Rightarrow> 's billy \<Rightarrow> string \<Rightarrow> 's gz_st \<Rightarrow> string + string" where
  "gun_readFile E fs file st =
     (case fs_open fs (gz_state st) (resolvePath (gz_dir E) file) of
        Inl _ \<Rightarrow> Inl (file @ '': No such file or directory'')
      | Inr (Inl e) \<Rightarrow> Inl (gz_errtext E e)
      | Inr (Inr data) \<Rightarrow> Inr data)"

text \<open>The files one after the other; \<^const>\<open>Some\<close> ends the command.\<close>

fun each_file :: "(string \<Rightarrow> 's gz_st \<Rightarrow> gz_result option \<times> 's gz_st) \<Rightarrow> string list \<Rightarrow> 's gz_st \<Rightarrow> gz_result \<times> 's gz_st" where
  "each_file f [] st = (Returned ExitOk, st)"
| "each_file f (x # xs) st = (case f x st of (Some r, st1) \<Rightarrow> (r, st1) | (None, st1) \<Rightarrow> each_file f xs st1)"

definition on_files ::
  "'s gz_env \<Rightarrow> string \<Rightarrow> bool \<Rightarrow> bool \<Rightarrow> ('s billy \<Rightarrow> string \<Rightarrow> 's gz_st \<Rightarrow> gz_result option \<times> 's gz_st)
   \<Rightarrow> string list \<Rightarrow> 's gz_st \<Rightarrow> gz_result \<times> 's gz_st" where
  "on_files E suf recursive quiet f files st =
     (case gun_collect E suf recursive quiet files st of
        (Inl r, st1) \<Rightarrow> (r, st1)
      | (Inr xs, st1) \<Rightarrow>
          each_file (\<lambda>file st2. case gz_fs E of None \<Rightarrow> (Some Panicked, st2) | Some fs \<Rightarrow> f fs file st2) xs st1)"

section \<open>gunzip: modes\<close>

definition list_line :: "'s gz_env \<Rightarrow> string \<Rightarrow> string \<Rightarrow> string" where
  "list_line E data name =
     (let compressed = length data; uncompressed = uncompressedSize data;
          ratio = (if uncompressed > 0 then gz_percent E compressed uncompressed else ''0.0'')
      in pad_left 10 (show_nat compressed) @ '' '' @ pad_left 10 (show_nat uncompressed) @ '' '' @ pad_left 5 ratio
         @ ''% '' @ name @ nl)"

definition gun_list_file :: "'s gz_env \<Rightarrow> gunz_opts \<Rightarrow> 's billy \<Rightarrow> string \<Rightarrow> 's gz_st \<Rightarrow> gz_result option \<times> 's gz_st" where
  "gun_list_file E opts fs file st =
     (case gun_readFile E fs file st of
        Inl m \<Rightarrow> (Some (Returned (ExitErr m)), gz_warn (gun_quiet opts) (''gunzip: '' @ m @ nl) st)
      | Inr data \<Rightarrow>
          if \<not> isGzip data
          then (Some (Returned (ExitStatus 1)), gz_warn (gun_quiet opts) (gun_about file ''not in gzip format'') st)
          else (None, gz_say (list_line E data (trimSuffix file (gun_suffix opts))) st))"

definition gun_listFiles :: "'s gz_env \<Rightarrow> gunz_opts \<Rightarrow> string list \<Rightarrow> 's gz_st \<Rightarrow> gz_result \<times> 's gz_st" where
  "gun_listFiles E opts files st =
     on_files E (gun_suffix opts) False (gun_quiet opts) (gun_list_file E opts) files (gz_say list_header st)"

definition gun_test_file :: "'s gz_env \<Rightarrow> gunz_opts \<Rightarrow> 's billy \<Rightarrow> string \<Rightarrow> 's gz_st \<Rightarrow> gz_result option \<times> 's gz_st" where
  "gun_test_file E opts fs file st =
     (case gun_readFile E fs file st of
        Inl m \<Rightarrow> (Some (Returned (ExitErr m)), gz_say (gun_about file m) st)
      | Inr data \<Rightarrow>
          if \<not> isGzip data then (Some (Returned (ExitStatus 1)), gz_say (gun_about file ''not in gzip format'') st)
          else case gz_decompress E data of
            Inl m \<Rightarrow> (Some (Returned (ExitStatus 1)), gz_say (gun_about file m) st)
          | Inr _ \<Rightarrow> (None, if gun_verbose opts then gz_say (file @ '':'' @ [tab] @ ''OK'' @ nl) st else st))"

definition gun_testFiles :: "'s gz_env \<Rightarrow> gunz_opts \<Rightarrow> string list \<Rightarrow> 's gz_st \<Rightarrow> gz_result \<times> 's gz_st" where
  "gun_testFiles E opts files st = on_files E ''.gz'' False False (gun_test_file E opts) files st"

text \<open>The output path is looked up and written as it is given, and only the operand is resolved.\<close>

definition gun_deliver ::
  "'s gz_env \<Rightarrow> gunz_opts \<Rightarrow> 's billy \<Rightarrow> string \<Rightarrow> string \<Rightarrow> string \<Rightarrow> 's gz_st \<Rightarrow> gz_result option \<times> 's gz_st" where
  "gun_deliver E opts fs file data plain st =
     (let quiet = gun_quiet opts; outPath = trimSuffix file (gun_suffix opts)
      in if outPath = file then (None, gz_warn quiet (gun_about file ''unknown suffix -- ignored'') st)
         else if \<not> isl (fs_stat fs (gz_state st) outPath) \<and> \<not> gun_force opts
         then (None, gz_warn quiet (''gunzip: '' @ outPath @ '' already exists; not overwritten'' @ nl) st)
         else case writeOutput E (wo_openTrunc (gz_writes E)) fs outPath plain (gz_state st) of
           (Some m, s1) \<Rightarrow> (Some (Returned (ExitErr m)), gz_warn quiet (gun_about outPath m) (st\<lparr>gz_state := s1\<rparr>))
         | (None, s1) \<Rightarrow>
             (let st1 = st\<lparr>gz_state := s1\<rparr>;
                  st2 = (if gun_verbose opts then gz_say (saved_line E file data plain (''replaced with '' @ outPath)) st1 else st1)
              in (None, if gun_keep opts then st2
                        else st2\<lparr>gz_state := snd (fs_remove fs (gz_state st2) (resolvePath (gz_dir E) file))\<rparr>)))"

definition gun_file :: "'s gz_env \<Rightarrow> gunz_opts \<Rightarrow> 's billy \<Rightarrow> string \<Rightarrow> 's gz_st \<Rightarrow> gz_result option \<times> 's gz_st" where
  "gun_file E opts fs file st =
     (let quiet = gun_quiet opts
      in case gun_readFile E fs file st of
           Inl m \<Rightarrow> (Some (Returned (ExitErr m)), gz_warn quiet (gun_about file m) st)
         | Inr data \<Rightarrow>
             if \<not> isGzip data then (Some (Returned (ExitStatus 1)), gz_warn quiet (gun_about file ''not in gzip format'') st)
             else case gz_decompress E data of
               Inl m \<Rightarrow> (Some (Returned (ExitErr m)), gz_warn quiet (gun_about file m) st)
             | Inr plain \<Rightarrow>
                 if gun_stdout opts then
                   (let st1 = gz_emit plain st
                    in (None, if gun_verbose opts then gz_say (saved_line E file data plain ''written to stdout'') st1 else st1))
                 else gun_deliver E opts fs file data plain st)"

definition decompressStdin :: "'s gz_env \<Rightarrow> 's gz_st \<Rightarrow> gz_result \<times> 's gz_st" where
  "decompressStdin E st =
     (case read_stdin st of
        (None, st1) \<Rightarrow> (Panicked, st1)
      | (Some (Inl e), st1) \<Rightarrow> (Returned (ExitErr (gz_errtext E e)), gz_say (''gunzip: '' @ gz_errtext E e @ nl) st1)
      | (Some (Inr data), st1) \<Rightarrow>
          if \<not> isGzip data then (Returned (ExitStatus 1), gz_say (gun_about ''stdin'' ''not in gzip format'') st1)
          else case gz_decompress E data of
            Inl m \<Rightarrow> (Returned (ExitErr m), gz_say (''gunzip: '' @ m @ nl) st1)
          | Inr plain \<Rightarrow> (Returned ExitOk, gz_emit plain st1))"

definition decompressFiles :: "'s gz_env \<Rightarrow> gunz_opts \<Rightarrow> string list \<Rightarrow> 's gz_st \<Rightarrow> gz_result \<times> 's gz_st" where
  "decompressFiles E opts files st =
     (if files = [] \<or> files = [''-''] then decompressStdin E st
      else on_files E (gun_suffix opts) (gun_recursive opts) (gun_quiet opts) (gun_file E opts) files st)"

definition gun_usage :: string where
  "gun_usage =
     ''Usage: gunzip [OPTION]... [FILE]...'' @ nl @
     ''Decompress FILEs (by default, in-place).'' @ nl @ nl @
     ''When no FILE is given, or when FILE is -, read from standard input.'' @ nl @ nl @
     ''  -c, --stdout      write to standard output, keep original files'' @ nl @
     ''  -f, --force       force overwrite of output file'' @ nl @
     ''  -k, --keep        keep (don'' @ [squote] @ ''t delete) input files'' @ nl @
     ''  -l, --list        list compressed file contents'' @ nl @
     ''  -n, --no-name     do not restore the original name and timestamp'' @ nl @
     ''  -N, --name        restore the original file name and timestamp'' @ nl @
     ''  -q, --quiet       suppress all warnings'' @ nl @
     ''  -r, --recursive   operate recursively on directories'' @ nl @
     ''  -S, --suffix=SUF  use suffix SUF on compressed files (default: .gz)'' @ nl @
     ''  -t, --test        test compressed file integrity'' @ nl @
     ''  -v, --verbose     verbose mode'' @ nl @
     ''      --help        display this help and exit'' @ nl"

definition gunzip_Exec :: "'s gz_env \<Rightarrow> string + gunz_opts \<Rightarrow> 's gz_st \<Rightarrow> gz_result \<times> 's gz_st" where
  "gunzip_Exec E opts0 st =
     (case opts0 of
        Inl m \<Rightarrow> (Returned (ExitStatus 1), gz_say gun_usage (gz_say (''gunzip: '' @ m @ nl) st))
      | Inr opts \<Rightarrow>
          if gun_help opts then (Returned ExitOk, gz_say gun_usage st)
          else (if gun_list opts then gun_listFiles else if gun_test opts then gun_testFiles else decompressFiles)
                 E opts (gun_files opts) st)"

section \<open>zcat\<close>

record zcat_opts =
  zc_list :: bool
  zc_quiet :: bool
  zc_test :: bool
  zc_verbose :: bool
  zc_help :: bool
  zc_files :: "string list"

definition zc_about :: "string \<Rightarrow> string \<Rightarrow> string" where
  "zc_about file m = ''zcat: '' @ file @ '': '' @ m @ nl"

definition zc_readFile :: "'s gz_env \<Rightarrow> string \<Rightarrow> 's gz_st \<Rightarrow> (string + string) \<times> 's gz_st" where
  "zc_readFile E file st =
     (case (if file = ''-'' then read_stdin st else (None, st)) of
        (Some (Inl e), st1) \<Rightarrow> (Inl (gz_errtext E e), st1)
      | (Some (Inr data), st1) \<Rightarrow> (Inr data, st1)
      | (None, st1) \<Rightarrow>
          ((case gz_fs E of
              None \<Rightarrow> Inl ''no filesystem''
            | Some fs \<Rightarrow>
                (case fs_open fs (gz_state st1) (resolvePath (gz_dir E) file) of
                   Inl e \<Rightarrow> Inl (if e = ErrNotExist then ''No such file or directory'' else gz_errtext E e)
                 | Inr (Inl e) \<Rightarrow> Inl (gz_errtext E e)
                 | Inr (Inr data) \<Rightarrow> Inr data)), st1))"

definition zc_ok :: "zcat_opts \<Rightarrow> string \<Rightarrow> 's gz_st \<Rightarrow> 's gz_st" where
  "zc_ok opts file st = (if zc_verbose opts then gz_say (file @ '':'' @ [tab] @ ''OK'' @ nl) st else st)"

definition zc_list_file :: "'s gz_env \<Rightarrow> zcat_opts \<Rightarrow> string \<Rightarrow> 's gz_st \<Rightarrow> gz_result option \<times> 's gz_st" where
  "zc_list_file E opts file st =
     (case zc_readFile E file st of
        (Inl m, st1) \<Rightarrow> (None, gz_warn (zc_quiet opts) (zc_about file m) st1)
      | (Inr data, st1) \<Rightarrow>
          if \<not> isGzip data then (None, gz_warn (zc_quiet opts) (zc_about file ''not in gzip format'') st1)
          else (None, zc_ok opts file (gz_say (list_line E data file) st1)))"

definition zc_test_file :: "'s gz_env \<Rightarrow> zcat_opts \<Rightarrow> string \<Rightarrow> 's gz_st \<Rightarrow> gz_result option \<times> 's gz_st" where
  "zc_test_file E opts file st =
     (case zc_readFile E file st of
        (Inl m, st1) \<Rightarrow> (Some (Returned (ExitStatus 1)), gz_say (zc_about file m) st1)
      | (Inr data, st1) \<Rightarrow>
          if \<not> isGzip data
          then (Some (Returned (ExitStatus 1)), gz_warn (zc_quiet opts) (zc_about file ''not in gzip format'') st1)
          else case gz_decompress E data of
            Inl m \<Rightarrow> (Some (Returned (ExitStatus 1)), gz_say (zc_about file m) st1)
          | Inr _ \<Rightarrow> (None, zc_ok opts file st1))"

definition zc_cat_file :: "'s gz_env \<Rightarrow> zcat_opts \<Rightarrow> string \<Rightarrow> 's gz_st \<Rightarrow> gz_result option \<times> 's gz_st" where
  "zc_cat_file E opts file st =
     (case zc_readFile E file st of
        (Inl m, st1) \<Rightarrow> (Some (Returned (ExitStatus 1)), gz_say (zc_about file m) st1)
      | (Inr data, st1) \<Rightarrow>
          if \<not> isGzip data
          then (Some (Returned (ExitStatus 1)), gz_warn (zc_quiet opts) (zc_about file ''not in gzip format'') st1)
          else case gz_decompress E data of
            Inl m \<Rightarrow> (Some (Returned (ExitStatus 1)), gz_warn (zc_quiet opts) (zc_about file m) st1)
          | Inr plain \<Rightarrow> (None, zc_ok opts file (gz_emit plain st1)))"

definition zc_usage :: string where
  "zc_usage =
     ''Usage: zcat [OPTION]... [FILE]...'' @ nl @
     ''Decompress FILEs to standard output.'' @ nl @ nl @
     ''When no FILE is given, or when FILE is -, read from standard input.'' @ nl @ nl @
     ''  -f, --force       force; read compressed data even from a terminal'' @ nl @
     ''  -l, --list        list compressed file contents'' @ nl @
     ''  -q, --quiet       suppress all warnings'' @ nl @
     ''  -S, --suffix=SUF  use suffix SUF on compressed files (default: .gz)'' @ nl @
     ''  -t, --test        test compressed file integrity'' @ nl @
     ''  -v, --verbose     verbose mode'' @ nl @
     ''      --help        display this help and exit'' @ nl"

definition zcat_Exec :: "'s gz_env \<Rightarrow> string + zcat_opts \<Rightarrow> 's gz_st \<Rightarrow> gz_result \<times> 's gz_st" where
  "zcat_Exec E opts0 st =
     (case opts0 of
        Inl m \<Rightarrow> (Returned (ExitStatus 1), gz_say zc_usage (gz_say (''zcat: '' @ m @ nl) st))
      | Inr opts \<Rightarrow>
          if zc_help opts then (Returned ExitOk, gz_say zc_usage st)
          else
            (let files = (if zc_files opts = [] then [''-''] else zc_files opts)
             in if zc_list opts then each_file (zc_list_file E opts) files (gz_say list_header st)
                else if zc_test opts then each_file (zc_test_file E opts) files st
                else each_file (zc_cat_file E opts) files st))"

end
