(* ===== verification/Gzip_Store.thy ===== *)
theory Gzip_Store
  imports Gunzip
begin

text \<open>
  What gzip needs of a filesystem, as a locale, and what it does to the files there: the contents
  are a map from locations, to which paths lead.  No operation is taken to succeed, and a failed
  write may leave anything in the place it was writing to.
\<close>

locale byte_store =
  fixes loc :: "string \<Rightarrow> 'l"
    and files :: "'s \<Rightarrow> 'l \<Rightarrow> string option"
    and F :: "'s billy"
    and W :: "'s write_ops"
  assumes stat_missing: "fs_stat F s p = Inl e \<Longrightarrow> files s (loc p) = None"
    and open_reads: "fs_open F s p = Inr (Inr d) \<Longrightarrow> files s (loc p) = Some d"
    and create_other: "wo_create W s p = (r, s1) \<Longrightarrow> q \<noteq> loc p \<Longrightarrow> files s1 q = files s q"
    and write_other: "wo_create W s p = (Inr h, s1) \<Longrightarrow> wo_write W s1 h d = ((n, werr), s2) \<Longrightarrow>
      wo_close W s2 h = (cerr, s3) \<Longrightarrow> q \<noteq> loc p \<Longrightarrow> files s3 q = files s q"
    and write_stores: "fs_stat F s p = Inl e \<Longrightarrow> wo_create W s p = (Inr h, s1) \<Longrightarrow>
      wo_write W s1 h d = ((length d, None), s2) \<Longrightarrow> wo_close W s2 h = (None, s3) \<Longrightarrow> files s3 (loc p) = Some d"
    and remove_other: "q \<noteq> loc p \<Longrightarrow> files (snd (fs_remove F s p)) q = files s q"

section \<open>What counts as the same data\<close>

text \<open>Contents that decompress, in any number of steps, to a common content.\<close>

inductive unpacks :: "'s gz_env \<Rightarrow> string \<Rightarrow> string \<Rightarrow> bool" for E where
  here: "unpacks E d d"
| step: "gz_decompress E d = Inr e \<Longrightarrow> unpacks E e f \<Longrightarrow> unpacks E d f"

inductive_cases unpacksE: "unpacks E d f"

definition same_data :: "'s gz_env \<Rightarrow> string \<Rightarrow> string \<Rightarrow> bool" where
  "same_data E c d \<longleftrightarrow> (\<exists>e. unpacks E c e \<and> unpacks E d e)"

lemma unpacks_trans: "unpacks E c d \<Longrightarrow> unpacks E d e \<Longrightarrow> unpacks E c e"
  by (induction rule: unpacks.induct) (auto intro: unpacks.intros)

text \<open>Decompression is a function, so what a content unpacks to lies on one line.\<close>

lemma unpacks_linear: "unpacks E c d \<Longrightarrow> unpacks E c e \<Longrightarrow> unpacks E d e \<or> unpacks E e d"
proof (induction rule: unpacks.induct)
  case (step d d' f)
  have "unpacks E d f" using step.hyps by (blast intro: unpacks.step)
  with step show ?case by (auto elim: unpacksE[of E d e])
qed simp

lemma same_data_refl [simp]: "same_data E c c"
  unfolding same_data_def by (blast intro: unpacks.here)

lemma same_data_sym: "same_data E c d \<Longrightarrow> same_data E d c"
  unfolding same_data_def by blast

lemma same_data_trans: "same_data E c d \<Longrightarrow> same_data E d e \<Longrightarrow> same_data E c e"
proof -
  assume "same_data E c d" "same_data E d e"
  then obtain x y where "unpacks E c x" "unpacks E d x" "unpacks E d y" "unpacks E e y"
    unfolding same_data_def by blast
  then show ?thesis
    using unpacks_linear[of E d x y] unfolding same_data_def by (blast intro: unpacks_trans)
qed

lemma decompressed_same: "gz_decompress E c = Inr d \<Longrightarrow> same_data E c d"
  unfolding same_data_def by (blast intro: unpacks.intros)

text \<open>The law of the format: what was compressed, at any level, decompresses to itself.\<close>

definition codec :: "'s gz_env \<Rightarrow> bool" where
  "codec E \<longleftrightarrow> (\<forall>l d z. gz_compress E l d = Inr z \<longrightarrow> isGzip z \<and> gz_decompress E z = Inr d)"

lemma compressed_same: "codec E \<Longrightarrow> gz_compress E l d = Inr z \<Longrightarrow> same_data E d z"
  unfolding codec_def by (blast intro: same_data_sym decompressed_same)

definition kept :: "'s gz_env \<Rightarrow> ('l \<Rightarrow> string option) \<Rightarrow> ('l \<Rightarrow> string option) \<Rightarrow> bool" where
  "kept E m m' \<longleftrightarrow> (\<forall>q c. m q = Some c \<longrightarrow> (\<exists>q' c'. m' q' = Some c' \<and> same_data E c c'))"

lemma kept_refl [simp]: "kept E m m"
  unfolding kept_def using same_data_refl by blast

lemma kept_trans: "kept E m m' \<Longrightarrow> kept E m' m'' \<Longrightarrow> kept E m m''"
  unfolding kept_def by (meson same_data_trans)

section \<open>Reporting leaves the filesystem alone\<close>

lemma gz_state_report [simp]:
  "gz_state (gz_say m st) = gz_state st" "gz_state (gz_emit m st) = gz_state st"
  "gz_state (gz_warn b m st) = gz_state st" "gz_state (gz_fail b m st) = gz_state st"
  "gz_state (printListEntry E d m st) = gz_state st" "gz_state (test_data E opts m d st) = gz_state st"
  by (simp_all add: gz_say_def gz_emit_def gz_warn_def gz_fail_def printListEntry_def test_data_def Let_def
      split: sum.split)

lemma read_stdin_state: "read_stdin st = (r, st') \<Longrightarrow> gz_state st' = gz_state st"
  by (auto simp: read_stdin_def split: option.splits sum.splits)

lemma read_file_cases:
  assumes "read_file E F quiet file st = (r, st')"
  shows "gz_state st' = gz_state st"
    "r = Some d \<Longrightarrow> st' = st \<and> fs_open F (gz_state st) (resolvePath (gz_dir E) file) = Inr (Inr d)"
  using assms by (auto simp: read_file_def split: sum.splits)

lemma read_then:
  assumes "\<And>d st. gz_state (g d st) = gz_state st"
  shows "gz_state (case read_file E F q x st of (None, st2) \<Rightarrow> st2 | (Some d, st2) \<Rightarrow> g d st2) = gz_state st"
proof -
  obtain r st1 where "read_file E F q x st = (r, st1)" by (metis prod.exhaust)
  then show ?thesis using read_file_cases(1)[of E F q x st r st1] assms by (cases r) auto
qed

text \<open>A relation of states that holds of every step holds of the loop over the operands.\<close>

lemma each_operand_rel:
  assumes "\<And>x st r st'. f x st = (r, st') \<Longrightarrow> R (gz_state st) (gz_state st')"
    and "\<And>a. R a a" and "\<And>a b c. R a b \<Longrightarrow> R b c \<Longrightarrow> R a c"
    and "each_operand f xs st = (r, st')"
  shows "R (gz_state st) (gz_state st')"
  using assms(4)
proof (induction xs arbitrary: st)
  case Nil
  then show ?case using assms(2) by auto
next
  case (Cons x xs)
  obtain r1 st1 where f: "f x st = (r1, st1)" by (cases "f x st")
  show ?case
  proof (cases r1)
    case None
    with Cons.prems f have "each_operand f xs st1 = (r, st')" by simp
    then show ?thesis using assms(1)[OF f] Cons.IH assms(3) by blast
  next
    case (Some r2)
    then show ?thesis using Cons.prems f assms(1)[OF f] by auto
  qed
qed

lemma on_operand_rel:
  assumes "on_operand E k f file st = (r, st')" and "gz_fs E = Some F"
    and "\<And>data st r st'. k data st = (r, st') \<Longrightarrow> gz_state st' = gz_state st"
    and "\<And>file st. R (gz_state st) (gz_state (f F file st))" and "\<And>a. R a a"
  shows "R (gz_state st) (gz_state st')"
proof (cases "file = ''-''")
  case True
  obtain o1 st1 where rs: "read_stdin st = (o1, st1)" by (cases "read_stdin st")
  have s1: "gz_state st1 = gz_state st" using rs by (rule read_stdin_state)
  have "gz_state st' = gz_state st"
    using assms(1) True rs s1 by (auto simp: on_operand_def split: option.splits sum.splits dest: assms(3))
  then show ?thesis using assms(5) by simp
next
  case False
  then show ?thesis using assms(1,2) assms(4)[of st] by (auto simp: on_operand_def)
qed

lemma operands_rel:
  assumes "each_operand (on_operand E k f) xs st = (r, st')" and "gz_fs E = Some F"
    and "\<And>data st r st'. k data st = (r, st') \<Longrightarrow> gz_state st' = gz_state st"
    and "\<And>file st. R (gz_state st) (gz_state (f F file st))"
    and "\<And>a. R a a" and "\<And>a b c. R a b \<Longrightarrow> R b c \<Longrightarrow> R a c"
  shows "R (gz_state st) (gz_state st')"
proof (rule each_operand_rel[where R = R, OF _ assms(5,6,1)])
  show "R (gz_state st) (gz_state st')" if "on_operand E k f x st = (r, st')" for x st r st'
    by (rule on_operand_rel[where R = R and F = F, OF that assms(2)]) (fact assms)+
qed

section \<open>What gzip does to the files\<close>

context byte_store
begin

lemma writeOutput_other:
  assumes "writeOutput E (wo_create W) F p d s = (r, s')" and "gz_writes E = W" and "q \<noteq> loc p"
  shows "files s' q = files s q"
proof (cases "wo_create W s p")
  case (Pair c s1)
  show ?thesis
  proof (cases c)
    case (Inl e)
    then show ?thesis using assms Pair create_other[OF Pair assms(3)] by (auto simp: writeOutput_def)
  next
    case (Inr h)
    obtain n werr s2 where w: "wo_write W s1 h d = ((n, werr), s2)" by (metis prod.exhaust)
    obtain cerr s3 where cl: "wo_close W s2 h = (cerr, s3)" by (metis prod.exhaust)
    have "files s3 q = files s q"
      using write_other[OF _ w cl assms(3)] Pair Inr by simp
    moreover have "s' = s3 \<or> s' = snd (fs_remove F s3 p)"
      using assms(1,2) Pair Inr w cl by (auto simp: writeOutput_def Let_def split: if_splits)
    ultimately show ?thesis using remove_other[OF assms(3)] by auto
  qed
qed

lemma writeOutput_stores:
  assumes "writeOutput E (wo_create W) F p d s = (None, s')" and "gz_writes E = W" and "fs_stat F s p = Inl e"
  shows "files s' (loc p) = Some d"
proof (cases "wo_create W s p")
  case (Pair c s1)
  obtain h where h: "c = Inr h" using assms(1) Pair by (cases c) (auto simp: writeOutput_def)
  obtain n werr s2 where w: "wo_write W s1 h d = ((n, werr), s2)" by (metis prod.exhaust)
  obtain cerr s3 where cl: "wo_close W s2 h = (cerr, s3)" by (metis prod.exhaust)
  have "werr = None \<and> n = length d \<and> cerr = None \<and> s' = s3"
    using assms(1,2) Pair h w cl by (auto simp: writeOutput_def Let_def split: if_splits option.splits)
  then show ?thesis using write_stores[OF assms(3), of h s1 d s2 s3] Pair h w cl by simp
qed

text \<open>
  The output of one operand goes to a place that held nothing, so whether it is written or not,
  whether the operand is then removed or not, what the files hold is still held.
\<close>

lemma deliver_kept:
  assumes "gz_writes E = W" and "\<not> gzo_force opts"
    and "files (gz_state st) (loc (resolvePath (gz_dir E) file)) = Some data" and "same_data E data result"
  shows "kept E (files (gz_state st)) (files (gz_state (deliver E opts F file outPath result line st)))"
proof (cases "gzo_stdout opts \<or> \<not> isl (fs_stat F (gz_state st) (resolvePath (gz_dir E) outPath))")
  case True
  then show ?thesis using assms(2) by (auto simp: deliver_def Let_def)
next
  case False
  let ?full = "resolvePath (gz_dir E) file" and ?out = "resolvePath (gz_dir E) outPath" and ?s = "gz_state st"
  obtain e where missing: "fs_stat F ?s ?out = Inl e" using False by (cases "fs_stat F ?s ?out") auto
  have absent: "files ?s (loc ?out) = None" by (rule stat_missing[OF missing])
  obtain r s1 where wr: "writeOutput E (wo_create W) F ?out result ?s = (r, s1)" by (metis prod.exhaust)
  have other: "files s1 q = files ?s q" if "q \<noteq> loc ?out" for q
    by (rule writeOutput_other[OF wr assms(1) that])
  show ?thesis
  proof (cases r)
    case (Some m)
    have "gz_state (deliver E opts F file outPath result line st) = s1"
      using False missing wr Some assms(1) by (simp add: deliver_def)
    moreover have "files s1 q = Some c" if "files ?s q = Some c" for q c
      using that other[of q] absent by (cases "q = loc ?out") auto
    ultimately show ?thesis unfolding kept_def by (blast intro: same_data_refl)
  next
    case None
    have stored: "files s1 (loc ?out) = Some result"
      using writeOutput_stores[OF _ assms(1) missing] wr None by simp
    let ?s' = "gz_state (deliver E opts F file outPath result line st)"
    have s': "?s' = s1 \<or> ?s' = snd (fs_remove F s1 ?full)"
      using False missing wr None assms(1) by (simp add: deliver_def Let_def)
    have differ: "loc ?out \<noteq> loc ?full" using absent assms(3) by auto
    have out': "files ?s' (loc ?out) = Some result"
      using s' stored remove_other[OF differ] by auto
    have rest: "files ?s' q = Some c" if "files ?s q = Some c" "q \<noteq> loc ?full" for q c
      using that s' other[of q] absent remove_other[of q ?full s1] by (cases "q = loc ?out") auto
    show ?thesis unfolding kept_def
    proof (intro allI impI)
      fix q c assume q: "files ?s q = Some c"
      show "\<exists>q' c'. files ?s' q' = Some c' \<and> same_data E c c'"
      proof (cases "q = loc ?full")
        case True
        then show ?thesis using q assms(3,4) out' by auto
      next
        case False
        then show ?thesis using rest[OF q] same_data_refl by blast
      qed
    qed
  qed
qed

lemma operand_kept:
  assumes "gz_writes E = W" and "\<not> gzo_force opts" and "codec E"
  shows "kept E (files (gz_state st)) (files (gz_state (compress_file E opts F file st)))"
    and "kept E (files (gz_state st)) (files (gz_state (decompress_file E opts F file st)))"
proof -
  obtain r st1 where rd: "read_file E F (gzo_quiet opts) file st = (r, st1)" by (metis prod.exhaust)
  have st1: "gz_state st1 = gz_state st" by (rule read_file_cases(1)[OF rd])
  have data: "files (gz_state st1) (loc (resolvePath (gz_dir E) file)) = Some d" if "r = Some d" for d
    using read_file_cases(2)[OF rd that] open_reads by auto
  show "kept E (files (gz_state st)) (files (gz_state (compress_file E opts F file st)))"
    using rd st1 deliver_kept[OF assms(1,2) data compressed_same[OF assms(3)]]
    by (auto simp: compress_file_def Let_def split: sum.split option.split)
  show "kept E (files (gz_state st)) (files (gz_state (decompress_file E opts F file st)))"
    using rd st1 deliver_kept[OF assms(1,2) data decompressed_same]
    by (auto simp: decompress_file_def Let_def split: sum.split option.split)
qed

lemma gzip_kept:
  assumes "gz_fs E = Some F" and "gz_writes E = W" and "codec E" and "\<not> gzo_force opts"
    and "gzip_Exec E (Inr opts) st = (r, st')"
  shows "kept E (files (gz_state st)) (files (gz_state st'))"
proof -
  define R where "R = (\<lambda>a b. kept E (files a) (files b))"
  have refl: "\<And>a. R a a" and trans: "\<And>a b c. R a b \<Longrightarrow> R b c \<Longrightarrow> R a c"
    unfolding R_def by (simp, blast intro: kept_trans)
  note loop = operands_rel[where R = R and F = F, OF _ assms(1) _ _ refl trans]
  have "R (gz_state (st\<lparr>gz_code := 0\<rparr>)) (gz_state st')"
    if "(if gzo_list opts then listMode else if gzo_test opts then testMode
         else if gzo_decompress opts then decompressMode else compressMode) E opts fs (st\<lparr>gz_code := 0\<rparr>) = (r, st')" for fs
  proof -
    note run = that
    consider "listMode E opts fs (st\<lparr>gz_code := 0\<rparr>) = (r, st')" | "testMode E opts fs (st\<lparr>gz_code := 0\<rparr>) = (r, st')"
      | "decompressMode E opts fs (st\<lparr>gz_code := 0\<rparr>) = (r, st')" | "compressMode E opts fs (st\<lparr>gz_code := 0\<rparr>) = (r, st')"
      using run by (auto split: if_splits)
    then show ?thesis
    proof cases
      case 1
      then have "R (gz_state (gz_say list_header (st\<lparr>gz_code := 0\<rparr>))) (gz_state st')"
        unfolding listMode_def by (rule loop) (auto simp: read_then refl)
      then show ?thesis by simp
    next
      case 2
      then show ?thesis unfolding testMode_def by (rule loop) (auto simp: read_then refl)
    next
      case 3
      then show ?thesis unfolding decompressMode_def
        by (rule loop) (auto simp: R_def intro: operand_kept(2)[OF assms(2,4,3)] split: if_splits sum.splits)
    next
      case 4
      then show ?thesis unfolding compressMode_def
        by (rule loop) (auto simp: R_def intro: operand_kept(1)[OF assms(2,4,3)] split: sum.splits)
    qed
  qed
  then show ?thesis
    using assms(5) by (auto simp: gzip_Exec_def Let_def R_def split: if_splits)
qed

end

section \<open>Compressing and decompressing again\<close>

lemma gz_code_report [simp]:
  "gz_code (gz_say m st) = gz_code st" "gz_code (gz_emit m st) = gz_code st"
  "gz_code (gz_warn b m st) = gz_code st" "gz_code (gz_fail b m st) = 1"
  by (simp_all add: gz_say_def gz_emit_def gz_warn_def gz_fail_def)

lemma read_file_ok:
  assumes "read_file E F quiet file st = (r, st')" and "gz_code st = 0" and "gz_code st' = 0"
  obtains d where "r = Some d" "st' = st" "fs_open F (gz_state st) (resolvePath (gz_dir E) file) = Inr (Inr d)"
  using assms by (auto simp: read_file_def split: sum.splits)

text \<open>One operand, named on the command line.\<close>

lemma gzip_one:
  assumes "gzip_Exec E (Inr opts) st = (Returned ExitOk, st')" and "gz_fs E = Some F"
    and "gzo_files opts = [f]" and "f \<noteq> ''-''" and "\<not> gzo_help opts" and "\<not> gzo_list opts" and "\<not> gzo_test opts"
  shows "gz_code st' = 0"
    and "st' = (if gzo_decompress opts then decompress_file else compress_file) E opts F f (st\<lparr>gz_code := 0\<rparr>)"
  using assms by (auto simp: gzip_Exec_def compressMode_def decompressMode_def on_operand_def Let_def split: if_splits)

context byte_store
begin

lemma deliver_success:
  assumes "gz_code st = 0" and "gz_code (deliver E opts F file outPath result line st) = 0"
    and "gz_writes E = W" and "\<not> gzo_stdout opts"
    and "fs_stat F (gz_state st) (resolvePath (gz_dir E) outPath) = Inl e"
    and "files (gz_state st) (loc (resolvePath (gz_dir E) file)) \<noteq> None"
  shows "files (gz_state (deliver E opts F file outPath result line st)) (loc (resolvePath (gz_dir E) outPath)) = Some result"
    and "q \<noteq> loc (resolvePath (gz_dir E) outPath) \<Longrightarrow> q \<noteq> loc (resolvePath (gz_dir E) file) \<Longrightarrow>
      files (gz_state (deliver E opts F file outPath result line st)) q = files (gz_state st) q"
proof -
  let ?full = "resolvePath (gz_dir E) file" and ?out = "resolvePath (gz_dir E) outPath"
  let ?st' = "deliver E opts F file outPath result line st"
  obtain r s1 where wr: "writeOutput E (wo_create W) F ?out result (gz_state st) = (r, s1)" by (metis prod.exhaust)
  have r: "r = None" using assms(2-5) wr by (cases r) (auto simp: deliver_def)
  have st': "gz_state ?st' = s1 \<or> gz_state ?st' = snd (fs_remove F s1 ?full)"
    using assms(3-5) wr r by (simp add: deliver_def Let_def)
  have "loc ?out \<noteq> loc ?full" using stat_missing[OF assms(5)] assms(6) by auto
  then show "files (gz_state ?st') (loc ?out) = Some result"
    using st' remove_other writeOutput_stores[OF _ assms(3,5)] wr r by metis
  show "files (gz_state ?st') q = files (gz_state st) q" if "q \<noteq> loc ?out" "q \<noteq> loc ?full"
    using st' remove_other[OF that(2)] writeOutput_other[OF wr assms(3) that(1)] by auto
qed

lemma compress_success:
  assumes "gz_code st = 0" and "gz_code (compress_file E opts F f st) = 0"
    and "gz_writes E = W" and "\<not> gzo_stdout opts" and "\<not> hasSuffix f (gzo_suffix opts)"
    and "fs_stat F (gz_state st) (resolvePath (gz_dir E) f) = Inr i" and "\<not> fi_isDir i"
    and "fs_stat F (gz_state st) (resolvePath (gz_dir E) (f @ gzo_suffix opts)) = Inl e"
  obtains d z where "files (gz_state st) (loc (resolvePath (gz_dir E) f)) = Some d"
    "gz_compress E (level (gzo_fast opts) (gzo_best opts)) d = Inr z"
    "files (gz_state (compress_file E opts F f st)) (loc (resolvePath (gz_dir E) (f @ gzo_suffix opts))) = Some z"
    "\<And>q. q \<noteq> loc (resolvePath (gz_dir E) (f @ gzo_suffix opts)) \<Longrightarrow> q \<noteq> loc (resolvePath (gz_dir E) f) \<Longrightarrow>
       files (gz_state (compress_file E opts F f st)) q = files (gz_state st) q"
proof -
  obtain r st1 where rd: "read_file E F (gzo_quiet opts) f st = (r, st1)" by (metis prod.exhaust)
  have "gz_code st1 = 0"
    using assms(1,2,5-7) rd by (auto simp: compress_file_def read_file_def split: sum.splits)
  then obtain d where d: "r = Some d" "st1 = st" "fs_open F (gz_state st) (resolvePath (gz_dir E) f) = Inr (Inr d)"
    using read_file_ok[OF rd assms(1)] by blast
  obtain z where z: "gz_compress E (level (gzo_fast opts) (gzo_best opts)) d = Inr z"
    using assms(2,5-7) rd d
    by (cases "gz_compress E (level (gzo_fast opts) (gzo_best opts)) d") (auto simp: compress_file_def Let_def)
  have run: "compress_file E opts F f st = deliver E opts F f (f @ gzo_suffix opts) z (saved_line E f z d) st"
    using assms(5-7) rd d z by (simp add: compress_file_def)
  have held: "files (gz_state st) (loc (resolvePath (gz_dir E) f)) = Some d" by (rule open_reads[OF d(3)])
  show thesis
    using that[OF held z] deliver_success[OF assms(1) _ assms(3,4,8), of f z "saved_line E f z d"] assms(2) held
    unfolding run by simp
qed

lemma decompress_success:
  assumes "gz_code st = 0" and "gz_code (decompress_file E opts F (f @ gzo_suffix opts) st) = 0"
    and "gz_writes E = W" and "\<not> gzo_stdout opts"
    and "fs_stat F (gz_state st) (resolvePath (gz_dir E) (f @ gzo_suffix opts)) = Inr i" and "\<not> fi_isDir i"
    and "fs_stat F (gz_state st) (resolvePath (gz_dir E) f) = Inl e"
  obtains z d where "files (gz_state st) (loc (resolvePath (gz_dir E) (f @ gzo_suffix opts))) = Some z"
    "gz_decompress E z = Inr d"
    "files (gz_state (decompress_file E opts F (f @ gzo_suffix opts) st)) (loc (resolvePath (gz_dir E) f)) = Some d"
    "\<And>q. q \<noteq> loc (resolvePath (gz_dir E) (f @ gzo_suffix opts)) \<Longrightarrow> q \<noteq> loc (resolvePath (gz_dir E) f) \<Longrightarrow>
       files (gz_state (decompress_file E opts F (f @ gzo_suffix opts) st)) q = files (gz_state st) q"
proof -
  let ?f = "f @ gzo_suffix opts"
  have suf: "hasSuffix ?f (gzo_suffix opts)" "trimSuffix ?f (gzo_suffix opts) = f"
    by (simp_all add: hasSuffix_def trimSuffix_def)
  obtain r st1 where rd: "read_file E F (gzo_quiet opts) ?f st = (r, st1)" by (metis prod.exhaust)
  have "gz_code st1 = 0"
    using assms(1,2,5,6) rd suf by (auto simp: decompress_file_def read_file_def split: sum.splits)
  then obtain z where z: "r = Some z" "st1 = st" "fs_open F (gz_state st) (resolvePath (gz_dir E) ?f) = Inr (Inr z)"
    using read_file_ok[OF rd assms(1)] by blast
  have g: "isGzip z" using assms(2,5,6) rd z suf by (auto simp: decompress_file_def Let_def split: if_splits)
  obtain d where d: "gz_decompress E z = Inr d"
    using assms(2,5,6) rd z g suf by (cases "gz_decompress E z") (auto simp: decompress_file_def Let_def)
  have run: "decompress_file E opts F ?f st = deliver E opts F ?f f d (saved_line E ?f z d) st"
    using assms(5,6) rd z d g suf by (simp add: decompress_file_def Let_def)
  have held: "files (gz_state st) (loc (resolvePath (gz_dir E) ?f)) = Some z" by (rule open_reads[OF z(3)])
  show thesis
    using that[OF held d] deliver_success[OF assms(1) _ assms(3,4,7), of ?f d "saved_line E ?f z d"] assms(2) held
    unfolding run by simp
qed

end

context byte_store
begin

lemma gzip_back:
  assumes "gz_fs E = Some F" and "gz_writes E = W" and "codec E"
    and "f \<noteq> ''-''" and "f @ gzo_suffix opts \<noteq> ''-''" and "\<not> hasSuffix f (gzo_suffix opts)"
    and "gzo_files opts = [f]" and "\<not> gzo_help opts" and "\<not> gzo_list opts" and "\<not> gzo_test opts"
    and "\<not> gzo_decompress opts" and "\<not> gzo_stdout opts"
    and "fs_stat F (gz_state st) (resolvePath (gz_dir E) f) = Inr i" and "\<not> fi_isDir i"
    and "fs_stat F (gz_state st) (resolvePath (gz_dir E) (f @ gzo_suffix opts)) = Inl e"
    and "gzip_Exec E (Inr opts) st = (Returned ExitOk, st1)"
    and "fs_stat F (gz_state st1) (resolvePath (gz_dir E) f) = Inl e'"
    and "fs_stat F (gz_state st1) (resolvePath (gz_dir E) (f @ gzo_suffix opts)) = Inr i'" and "\<not> fi_isDir i'"
    and "gzip_Exec E (Inr (opts\<lparr>gzo_decompress := True, gzo_files := [f @ gzo_suffix opts]\<rparr>)) st1 = (Returned ExitOk, st2)"
    and "q \<noteq> loc (resolvePath (gz_dir E) (f @ gzo_suffix opts))"
  shows "files (gz_state st2) q = files (gz_state st) q"
proof -
  let ?g = "f @ gzo_suffix opts" and ?o = "opts\<lparr>gzo_decompress := True, gzo_files := [f @ gzo_suffix opts]\<rparr>"
  note one = gzip_one[OF assms(16) assms(1,7,4) assms(8,9,10)]
  have st1: "st1 = compress_file E opts F f (st\<lparr>gz_code := 0\<rparr>)" "gz_code (compress_file E opts F f (st\<lparr>gz_code := 0\<rparr>)) = 0"
    using one assms(11) by simp_all
  obtain d z where c: "files (gz_state st) (loc (resolvePath (gz_dir E) f)) = Some d"
    "gz_compress E (level (gzo_fast opts) (gzo_best opts)) d = Inr z"
    "files (gz_state st1) (loc (resolvePath (gz_dir E) ?g)) = Some z"
    "\<And>q. q \<noteq> loc (resolvePath (gz_dir E) ?g) \<Longrightarrow> q \<noteq> loc (resolvePath (gz_dir E) f) \<Longrightarrow> files (gz_state st1) q = files (gz_state st) q"
    using compress_success[of "st\<lparr>gz_code := 0\<rparr>" E opts f i e, OF _ st1(2) assms(2,12,6) _ assms(14)] assms(13,15)
    unfolding st1(1) by auto
  have two: "gz_code st2 = 0" "st2 = decompress_file E ?o F ?g (st1\<lparr>gz_code := 0\<rparr>)"
    using gzip_one[OF assms(20) assms(1), simplified, OF refl] assms(5,8,9,10) by simp_all
  obtain z' d' where b: "files (gz_state st1) (loc (resolvePath (gz_dir E) ?g)) = Some z'" "gz_decompress E z' = Inr d'"
    "files (gz_state st2) (loc (resolvePath (gz_dir E) f)) = Some d'"
    "\<And>q. q \<noteq> loc (resolvePath (gz_dir E) ?g) \<Longrightarrow> q \<noteq> loc (resolvePath (gz_dir E) f) \<Longrightarrow> files (gz_state st2) q = files (gz_state st1) q"
    using decompress_success[of "st1\<lparr>gz_code := 0\<rparr>" E ?o f i' e', OF _ _ assms(2) _ _ assms(19)] two assms(12,17,18)
    by auto
  have "d' = d" using b(1,2) c(2,3) assms(3) by (auto simp: codec_def)
  then show ?thesis using b(3) b(4)[of q] c(1) c(4)[of q] assms(21) by (cases "q = loc (resolvePath (gz_dir E) f)") auto
qed

end

end
