(* ===== verification/S3fs_Session.thy ===== *)
theory S3fs_Session
  imports S3fs_Properties Gzip_Store
begin

text \<open>
  A session of commands on the S3 filesystem: the model of \<^verbatim>\<open>s3fs/\<close> seen through the billy
  interface the commands use, with the table of temporary files, the world and the handles that
  were opened as its state.  It keeps the laws gzip needs of a filesystem, so what is proved of
  gzip holds of gzip on a bucket; gunzip asks for open flags that s3fs refuses.
\<close>

section \<open>The billy interface of s3fs\<close>

record 's s3_sess =
  sn_temps :: "string \<rightharpoonup> nat"
  sn_world :: "'s world"
  sn_open :: "bfile list"

definition sess_s3fs :: "s3fs \<Rightarrow> 's s3_sess \<Rightarrow> s3fs" where
  "sess_s3fs fs0 z = fs0\<lparr>s3_temps := sn_temps z\<rparr>"

definition to_fs_err :: "(io_err \<Rightarrow> string) \<Rightarrow> io_err \<Rightarrow> fs_err" where
  "to_fs_err T e = (case e of NotExist op p \<Rightarrow> ErrNotExist | _ \<Rightarrow> ErrOther (T e))"

definition to_file_info :: "s3_info \<Rightarrow> file_info" where
  "to_file_info i = \<lparr>fi_name = si_name i, fi_size = si_size i, fi_mode = si_mode i, fi_mtime = si_mtime i, fi_dev = None\<rparr>"

definition to_dir_entry :: "s3_info \<Rightarrow> dir_entry" where
  "to_dir_entry i = \<lparr>de_name = si_name i, de_type = mode_type (si_mode i), de_info = Inr (to_file_info i)\<rparr>"

fun handle_length :: "bfile \<Rightarrow> 's world \<Rightarrow> nat" where
  "handle_length (FRead f) w = (case rf_reader f of Some (bs, i) \<Rightarrow> length bs | None \<Rightarrow> 0)"
| "handle_length (FTempR f) w = length (wd_bufs w (tr_buf f))"
| "handle_length _ w = 0"

text \<open>\<^verbatim>\<open>io.ReadAll\<close>, which starts with a buffer of 512 bytes.\<close>

definition read_all :: "bfile \<Rightarrow> 's world \<Rightarrow> io_err + string" where
  "read_all f w = (case drain (Suc (handle_length f w)) 512 f w of Some r \<Rightarrow> r | None \<Rightarrow> Inl Panic)"

definition sess_open :: "(io_err \<Rightarrow> string) \<Rightarrow> 's s3_client \<Rightarrow> s3fs \<Rightarrow> 's s3_sess \<Rightarrow> string \<Rightarrow> fs_err + (fs_err + string)" where
  "sess_open T C fs0 z p =
     (case fst (s3_Open C (sess_s3fs fs0 z) p (sn_world z)) of
        Inl e \<Rightarrow> Inl (to_fs_err T e)
      | Inr f \<Rightarrow> Inr (map_sum (to_fs_err T) id (read_all f (sn_world z))))"

definition sess_fs :: "(io_err \<Rightarrow> string) \<Rightarrow> nat \<Rightarrow> 's s3_client \<Rightarrow> s3fs \<Rightarrow> 's s3_sess billy" where
  "sess_fs T pages C fs0 =
     \<lparr>fs_stat = (\<lambda>z p. map_sum (to_fs_err T) to_file_info (s3_Stat C (sess_s3fs fs0 z) p (sn_world z))),
      fs_lstat = (\<lambda>z p. map_sum (to_fs_err T) to_file_info (s3_Lstat C (sess_s3fs fs0 z) p (sn_world z))),
      fs_readdir = (\<lambda>z p. case ReadDir pages C (sess_s3fs fs0 z) p (sn_world z) of
          None \<Rightarrow> Inl (ErrOther [])
        | Some r \<Rightarrow> map_sum (to_fs_err T) (map to_dir_entry) r),
      fs_open = sess_open T C fs0,
      fs_readlink = (\<lambda>z p. map_sum (to_fs_err T) id (s3_Readlink p)),
      fs_remove = (\<lambda>z p. let (r, fs', w') = s3_Remove C p (sess_s3fs fs0 z) (sn_world z)
          in (map_option (to_fs_err T) r, z\<lparr>sn_temps := s3_temps fs', sn_world := w'\<rparr>)),
      fs_symlinks = True\<rparr>"

text \<open>\<^verbatim>\<open>os.O_WRONLY\<close> is 1, and \<^verbatim>\<open>os.O_CREATE|os.O_WRONLY|os.O_TRUNC\<close> is 577 on Linux.\<close>

definition sess_openFile ::
  "(io_err \<Rightarrow> string) \<Rightarrow> 's s3_client \<Rightarrow> s3fs \<Rightarrow> nat \<Rightarrow> 's s3_sess \<Rightarrow> string \<Rightarrow> (fs_err + nat) \<times> 's s3_sess" where
  "sess_openFile T C fs0 flag z p =
     (case OpenFile C (sess_s3fs fs0 z) p flag (sn_world z) of
        (Inl e, w) \<Rightarrow> (Inl (to_fs_err T e), z\<lparr>sn_world := w\<rparr>)
      | (Inr f, w) \<Rightarrow> (Inr (length (sn_open z)), z\<lparr>sn_world := w, sn_open := sn_open z @ [f]\<rparr>))"

definition sess_write ::
  "(io_err \<Rightarrow> string) \<Rightarrow> 's s3_client \<Rightarrow> 's s3_sess \<Rightarrow> nat \<Rightarrow> string \<Rightarrow> (nat \<times> fs_err option) \<times> 's s3_sess" where
  "sess_write T C z h d =
     (if h < length (sn_open z)
      then let ((n, e), f, w) = file_Write C (sn_open z ! h) d (sn_world z)
           in ((n, map_option (to_fs_err T) e), z\<lparr>sn_world := w, sn_open := (sn_open z)[h := f]\<rparr>)
      else ((0, Some (to_fs_err T FileClosed)), z))"

definition sess_close ::
  "(io_err \<Rightarrow> string) \<Rightarrow> 's s3_client \<Rightarrow> 's s3_sess \<Rightarrow> nat \<Rightarrow> fs_err option \<times> 's s3_sess" where
  "sess_close T C z h =
     (if h < length (sn_open z)
      then let (e, f, w) = file_Close C (sn_open z ! h) (sn_world z)
           in (map_option (to_fs_err T) e, z\<lparr>sn_world := w, sn_open := (sn_open z)[h := f]\<rparr>)
      else (Some (to_fs_err T FileClosed), z))"

definition sess_writes :: "(io_err \<Rightarrow> string) \<Rightarrow> 's s3_client \<Rightarrow> s3fs \<Rightarrow> 's s3_sess write_ops" where
  "sess_writes T C fs0 =
     \<lparr>wo_create = sess_openFile T C fs0 1, wo_openTrunc = sess_openFile T C fs0 577,
      wo_write = sess_write T C, wo_close = sess_close T C\<rparr>"

section \<open>The files of a session\<close>

definition sess_files :: "'s s3_client \<Rightarrow> s3fs \<Rightarrow> 's s3_sess \<Rightarrow> string \<Rightarrow> string option" where
  "sess_files C fs0 z k =
     (if \<not> object_key k then None
      else case sn_temps z k of
        Some b \<Rightarrow> Some (wd_bufs (sn_world z) b)
      | None \<Rightarrow> contents C (s3_bucket fs0) (wd_s3 (sn_world z)) k)"

text \<open>
  What is asked of the client: a put and a delete, whether they fail or not, leave other keys
  alone, a put that succeeds stores its body, and an object that can be read has a head.
\<close>

definition s3_isolated :: "'s s3_client \<Rightarrow> bool" where
  "s3_isolated C \<longleftrightarrow>
     (\<forall>b k body meta s r s'. cl_put C b k body meta s = (r, s') \<longrightarrow>
        (\<forall>k'. k' \<noteq> k \<longrightarrow> contents C b s' k' = contents C b s k') \<and> (r = None \<longrightarrow> contents C b s' k = Some body)) \<and>
     (\<forall>b k s r s' k'. cl_delete C b k s = (r, s') \<longrightarrow> k' \<noteq> k \<longrightarrow> contents C b s' k' = contents C b s k') \<and>
     (\<forall>b k s e. cl_head C b k s = Inl e \<longrightarrow> contents C b s k = None)"

lemma key_sess [simp]: "key (sess_s3fs fs0 z) p = key fs0 p"
  by (simp add: sess_s3fs_def key_def cleanPath_def)

lemma sess_s3fs_simps [simp]:
  "s3_bucket (sess_s3fs fs0 z) = s3_bucket fs0" "s3_unixMeta (sess_s3fs fs0 z) = s3_unixMeta fs0"
  "lookupTemp (sess_s3fs fs0 z) p = sn_temps z (key fs0 p)" "s3_temps (sess_s3fs fs0 z) = sn_temps z"
  by (simp_all add: sess_s3fs_def lookupTemp_def temps_get_def key_def cleanPath_def)

lemma sess_missing:
  assumes "s3_isolated C" and "fs_stat (sess_fs T n C fs0) z p = Inl e"
  shows "sess_files C fs0 z (key fs0 p) = None" and "sn_temps z (key fs0 p) = None" and "object_key (key fs0 p)"
proof -
  obtain e' where "s3_Stat C (sess_s3fs fs0 z) p (sn_world z) = Inl e'"
    using assms(2) by (cases "s3_Stat C (sess_s3fs fs0 z) p (sn_world z)") (auto simp: sess_fs_def)
  then have *: "object_key (key fs0 p) \<and> sn_temps z (key fs0 p) = None \<and>
      (\<exists>e. cl_head C (s3_bucket fs0) (key fs0 p) (wd_s3 (sn_world z)) = Inl e)"
    by (auto simp: s3_Stat_def Let_def object_key_def key_def[symmetric] split: if_splits option.splits sum.splits)
  then show "sn_temps z (key fs0 p) = None" "object_key (key fs0 p)" by auto
  show "sess_files C fs0 z (key fs0 p) = None"
    using * assms(1) by (auto simp: sess_files_def s3_isolated_def)
qed

lemma read_all_FRead: "rf_reader f = Some (bs, 0) \<Longrightarrow> read_all (FRead f) w = Inr bs"
  using drain_reader[of f bs 0 512 "Suc (length bs)" w] by (simp add: read_all_def del: drain.simps)

lemma read_all_FTempR: "\<not> tr_closed f \<Longrightarrow> tr_pos f = 0 \<Longrightarrow> read_all (FTempR f) w = Inr (wd_bufs w (tr_buf f))"
  using drain_temp[of f 0 512 w "Suc (length (wd_bufs w (tr_buf f)))"] by (simp add: read_all_def del: drain.simps)

lemma sess_reads:
  assumes "sess_open T C fs0 z p = Inr (Inr d)"
  shows "sess_files C fs0 z (key fs0 p) = Some d"
proof -
  let ?k = "key fs0 p" and ?w = "sn_world z"
  obtain f where f: "open_read C (sess_s3fs fs0 z) p ?w = Inr f" "read_all f ?w = Inr d"
    using assms by (auto simp: sess_open_def s3_Open_def OpenFile_def map_sum_def split: sum.splits)
  consider (dir) g where "f = FDir g" | (temp) b where "object_key ?k" "sn_temps z ?k = Some b"
      "f = FTempR \<lparr>tr_buf = b, tr_name = p, tr_pos = 0, tr_closed = False\<rparr>"
    | (obj) g bs where "object_key ?k" "sn_temps z ?k = None" "f = FRead g" "rf_reader g = Some (bs, 0)"
      "contents C (s3_bucket fs0) (wd_s3 ?w) ?k = Some bs"
    using f(1)
    by (auto simp: open_read_def Let_def object_key_def newS3ReadFile_def contents_def
        split: if_splits option.splits sum.splits io_err.splits bool.splits)
  then show ?thesis
  proof cases
    case dir
    then show ?thesis using f(2) by (simp add: read_all_def)
  next
    case temp
    then show ?thesis using f(2) by (simp add: sess_files_def read_all_FTempR)
  next
    case obj
    then show ?thesis using f(2) by (simp add: sess_files_def read_all_FRead)
  qed
qed

section \<open>The laws hold\<close>

text \<open>Creating a file opens a buffer without a call to the client; writing fills it, closing puts it.\<close>

lemma sess_create:
  assumes "sess_openFile T C fs0 1 z p = (r, z1)"
  shows "r = Inr (length (sn_open z))"
    and "z1 = z\<lparr>sn_open := sn_open z @ [FWrite (newS3WriteFile (s3_bucket fs0) (key fs0 p) p (s3_unixMeta fs0))]\<rparr>"
  using assms by (auto simp: sess_openFile_def OpenFile_def SupportedOFlags_def)

lemma sess_session:
  assumes "sess_openFile T C fs0 1 z p = (Inr h, z1)" and "sess_write T C z1 h d = ((n, werr), z2)"
    and "sess_close T C z2 h = (cerr, z3)"
  obtains meta r s where "cl_put C (s3_bucket fs0) (key fs0 p) d meta (wd_s3 (sn_world z)) = (r, s)"
    "sn_temps z3 = sn_temps z" "wd_bufs (sn_world z3) = wd_bufs (sn_world z)" "wd_s3 (sn_world z3) = s"
    "cerr = None \<longleftrightarrow> r = None"
proof -
  let ?g = "newS3WriteFile (s3_bucket fs0) (key fs0 p) p (s3_unixMeta fs0)"
  let ?put = "cl_put C (s3_bucket fs0) (key fs0 p) d (newFileMetadata (s3_unixMeta fs0) (wd_now (sn_world z))) (wd_s3 (sn_world z))"
  have h: "h = length (sn_open z)" "z1 = z\<lparr>sn_open := sn_open z @ [FWrite ?g]\<rparr>"
    using sess_create[OF assms(1)] by simp_all
  have z2: "z2 = z\<lparr>sn_open := sn_open z @ [FWrite (?g\<lparr>wf_buf := d\<rparr>)]\<rparr>"
    using assms(2) by (auto simp: sess_write_def h newS3WriteFile_def)
  have "cerr = map_option (to_fs_err T) (map_option (Wrapped ''unable to perform GetObject operation'') (fst ?put)) \<and>
      sn_temps z3 = sn_temps z \<and> wd_bufs (sn_world z3) = wd_bufs (sn_world z) \<and> wd_s3 (sn_world z3) = snd ?put"
    using assms(3)
    by (auto simp: sess_close_def z2 h(1) write_Close_def newS3WriteFile_def Let_def split: prod.splits)
  then show thesis using that[of _ "fst ?put" "snd ?put"] by auto
qed

lemma session_store:
  assumes "s3_isolated C"
  shows "byte_store (key fs0) (sess_files C fs0) (sess_fs T n C fs0) (sess_writes T C fs0)"
proof
  fix z z1 z2 z3 p e q d h k r werr cerr
  let ?F = "sess_fs T n C fs0" and ?W = "sess_writes T C fs0"
  have W: "wo_create ?W = sess_openFile T C fs0 1" "wo_write ?W = sess_write T C" "wo_close ?W = sess_close T C"
    by (simp_all add: sess_writes_def)
  show "sess_files C fs0 z (key fs0 p) = None" if "fs_stat ?F z p = Inl e"
    by (rule sess_missing[OF assms that])
  show "sess_files C fs0 z (key fs0 p) = Some d" if "fs_open ?F z p = Inr (Inr d)"
    using that by (intro sess_reads[of T]) (simp add: sess_fs_def)
  show "sess_files C fs0 z1 q = sess_files C fs0 z q" if "wo_create ?W z p = (r, z1)"
    using sess_create(2)[OF that[unfolded W]] by (simp add: sess_files_def split: option.split)
  show "sess_files C fs0 z3 q = sess_files C fs0 z q"
    if "wo_create ?W z p = (Inr h, z1)" "wo_write ?W z1 h d = ((k, werr), z2)" "wo_close ?W z2 h = (cerr, z3)" "q \<noteq> key fs0 p"
  proof -
    note run = that
    obtain meta r s where "cl_put C (s3_bucket fs0) (key fs0 p) d meta (wd_s3 (sn_world z)) = (r, s)"
      "sn_temps z3 = sn_temps z" "wd_bufs (sn_world z3) = wd_bufs (sn_world z)" "wd_s3 (sn_world z3) = s"
      by (rule sess_session[OF run(1-3)[unfolded W]])
    then show ?thesis using assms run(4) unfolding s3_isolated_def by (auto simp: sess_files_def split: option.split)
  qed
  show "sess_files C fs0 z3 (key fs0 p) = Some d"
    if "fs_stat ?F z p = Inl e" "wo_create ?W z p = (Inr h, z1)" "wo_write ?W z1 h d = ((length d, None), z2)"
      "wo_close ?W z2 h = (None, z3)"
  proof -
    note run = that
    obtain meta r s where "cl_put C (s3_bucket fs0) (key fs0 p) d meta (wd_s3 (sn_world z)) = (r, s)"
      "sn_temps z3 = sn_temps z" "wd_bufs (sn_world z3) = wd_bufs (sn_world z)" "wd_s3 (sn_world z3) = s" "r = None"
      by (rule sess_session[OF run(2-4)[unfolded W]]) auto
    then show ?thesis using assms sess_missing(2,3)[OF assms run(1)] unfolding s3_isolated_def by (auto simp: sess_files_def)
  qed
  show "sess_files C fs0 (snd (fs_remove ?F z p)) q = sess_files C fs0 z q" if "q \<noteq> key fs0 p"
  proof (cases "sn_temps z (key fs0 p)")
    case None
    obtain r s where "cl_delete C (s3_bucket fs0) (key fs0 p) (wd_s3 (sn_world z)) = (r, s)" by (metis prod.exhaust)
    moreover from this have "contents C (s3_bucket fs0) s q = contents C (s3_bucket fs0) (wd_s3 (sn_world z)) q"
      using assms that unfolding s3_isolated_def by blast
    ultimately show ?thesis
      using None by (simp add: sess_fs_def s3_Remove_def detachTemp_def temps_get_def sess_files_def split: option.split)
  next
    case (Some b)
    then show ?thesis
      using that by (simp add: sess_fs_def s3_Remove_def detachTemp_def temps_get_def sess_files_def split: option.split)
  qed
qed

lemma mem_isolated: "s3_isolated mem_client"
  unfolding s3_isolated_def mem_contents
  by (auto simp: mem_client_def mem_put_def mem_delete_def mem_head_def update_conv' delete_conv' split: option.splits)

interpretation bucket: byte_store "key fs0" "sess_files mem_client fs0" "sess_fs T n mem_client fs0" "sess_writes T mem_client fs0"
  for fs0 T n
  by (rule session_store[OF mem_isolated])

section \<open>gzip on a bucket\<close>

text \<open>gzip on s3fs, with the environment \<open>E\<close> giving the format, the working directory and the texts.\<close>

definition on_bucket :: "(io_err \<Rightarrow> string) \<Rightarrow> nat \<Rightarrow> 's s3_client \<Rightarrow> s3fs \<Rightarrow> 's s3_sess gz_env \<Rightarrow> 's s3_sess gz_env" where
  "on_bucket T n C fs0 E = E\<lparr>gz_fs := Some (sess_fs T n C fs0), gz_writes := sess_writes T C fs0\<rparr>"

lemma on_bucket_simps [simp]:
  "gz_fs (on_bucket T n C fs0 E) = Some (sess_fs T n C fs0)" "gz_writes (on_bucket T n C fs0 E) = sess_writes T C fs0"
  "gz_dir (on_bucket T n C fs0 E) = gz_dir E" "gz_compress (on_bucket T n C fs0 E) = gz_compress E"
  "gz_decompress (on_bucket T n C fs0 E) = gz_decompress E"
  by (simp_all add: on_bucket_def)

lemma codec_on_bucket [simp]: "codec (on_bucket T n C fs0 E) = codec E"
  by (simp add: codec_def)

lemma unpacks_on_bucket: "unpacks (on_bucket T n C fs0 E) c d = unpacks E c d"
proof
  show "unpacks E c d" if "unpacks (on_bucket T n C fs0 E) c d"
    using that by (induction rule: unpacks.induct) (auto intro: unpacks.intros)
  show "unpacks (on_bucket T n C fs0 E) c d" if "unpacks E c d"
    using that by (induction rule: unpacks.induct) (auto intro: unpacks.intros)
qed

lemma same_data_on_bucket: "same_data (on_bucket T n C fs0 E) = same_data E"
  by (simp add: fun_eq_iff same_data_def unpacks_on_bucket)


text \<open>C15: Compressing a file and decompressing the result gives it back: when both commands report success, and in between the compressed file is there and the original is not, every file other than the compressed one holds what it held before, for every suffix, at every level.\<close>

theorem gzip_roundtrip:
  assumes "s3_isolated C" and "codec E" and "f \<noteq> ''-''" and "f @ gzo_suffix opts \<noteq> ''-''" and "\<not> hasSuffix f (gzo_suffix opts)"
    and "gzo_files opts = [f]" and "\<not> gzo_help opts \<and> \<not> gzo_list opts \<and> \<not> gzo_test opts \<and> \<not> gzo_decompress opts \<and> \<not> gzo_stdout opts"
    and "stat = (\<lambda>z p. fs_stat (sess_fs T n C fs0) (gz_state z) (resolvePath (gz_dir E) p))"
    and "stat st f = Inr i" and "\<not> fi_isDir i" and "stat st (f @ gzo_suffix opts) = Inl e"
    and "gzip_Exec (on_bucket T n C fs0 E) (Inr opts) st = (Returned ExitOk, st1)"
    and "stat st1 f = Inl e'" and "stat st1 (f @ gzo_suffix opts) = Inr i'" and "\<not> fi_isDir i'"
    and "gzip_Exec (on_bucket T n C fs0 E) (Inr (opts\<lparr>gzo_decompress := True, gzo_files := [f @ gzo_suffix opts]\<rparr>)) st1
           = (Returned ExitOk, st2)"
    and "k \<noteq> key fs0 (resolvePath (gz_dir E) (f @ gzo_suffix opts))"
  shows "sess_files C fs0 (gz_state st2) k = sess_files C fs0 (gz_state st) k"
proof -
  let ?E = "on_bucket T n C fs0 E"
  note stats = assms(9,11,13,14)[unfolded assms(8) on_bucket_simps(3)[of T n C fs0 E, symmetric]]
  show ?thesis
    by (rule byte_store.gzip_back[OF session_store[OF assms(1), where n = n and T = T], where E = ?E,
          OF _ _ _ assms(3-6) _ _ _ _ _ stats(1) assms(10) stats(2) assms(12) stats(3,4) assms(15,16)])
      (use assms(2,7,17) in simp_all)
qed

section \<open>gunzip on a bucket\<close>

lemma sess_openTrunc: "sess_openFile T C fs0 577 z p = (Inl (to_fs_err T (Failed ''unsupported open flag'')), z)"
  by (simp add: sess_openFile_def OpenFile_def SupportedOFlags_def)

lemma gun_deliver_refused:
  assumes "gun_deliver (on_bucket T n C fs0 E) opts F file data plain st = (r, st')"
  shows "gz_state st' = gz_state st"
  using assms
  by (auto simp: gun_deliver_def writeOutput_def sess_writes_def sess_openTrunc Let_def split: if_splits)

text \<open>gunzip cannot decompress a file in place on the S3 filesystem: given one compressed file whose output does not exist or may be overwritten, it fails with the message that the open flag is unsupported, and everything in the bucket stays as it is.\<close>

theorem gunzip_refused_by_s3fs:
  assumes "gun_files opts = [f]" and "f \<noteq> ''-''"
    and "\<not> gun_help opts \<and> \<not> gun_list opts \<and> \<not> gun_test opts \<and> \<not> gun_stdout opts"
    and "gun_suffix opts \<noteq> []" and "hasSuffix f (gun_suffix opts)"
    and "fs_stat (sess_fs T n C fs0) (gz_state st) (resolvePath (gz_dir E) f) = Inr i" and "\<not> fi_isDir i"
    and "fs_open (sess_fs T n C fs0) (gz_state st) (resolvePath (gz_dir E) f) = Inr (Inr z)"
    and "isGzip z" and "gz_decompress E z = Inr d"
    and "gun_force opts \<or> isl (fs_stat (sess_fs T n C fs0) (gz_state st) (trimSuffix f (gun_suffix opts)))"
  shows "\<exists>st'. gunzip_Exec (on_bucket T n C fs0 E) (Inr opts) st
      = (Returned (ExitErr (gz_errtext E (ErrOther (T (Failed ''unsupported open flag''))))), st') \<and> gz_state st' = gz_state st"
proof -
  let ?E = "on_bucket T n C fs0 E" and ?F = "sess_fs T n C fs0"
  have trim: "trimSuffix f (gun_suffix opts) \<noteq> f"
    using assms(4,5) by (auto simp: hasSuffix_iff)
  have err: "gz_errtext ?E = gz_errtext E" by (simp add: on_bucket_def)
  have collect: "gun_collect ?E (gun_suffix opts) (gun_recursive opts) (gun_quiet opts) [f] st = (Inr [f], st)"
    using assms(6,7) by simp
  have deliver: "gun_deliver ?E opts ?F f z d st =
      (Some (Returned (ExitErr (gz_errtext E (ErrOther (T (Failed ''unsupported open flag'')))))),
       gz_warn (gun_quiet opts) (gun_about (trimSuffix f (gun_suffix opts))
         (gz_errtext E (ErrOther (T (Failed ''unsupported open flag''))))) st)"
    using trim assms(11) by (auto simp: gun_deliver_def writeOutput_def sess_writes_def sess_openTrunc err to_fs_err_def Let_def)
  have one: "gun_file ?E opts ?F f st = gun_deliver ?E opts ?F f z d st"
    using assms(3,8,9,10) by (simp add: gun_file_def gun_readFile_def)
  show ?thesis
    using assms(1-3) collect one deliver by (simp add: gunzip_Exec_def decompressFiles_def on_files_def)
qed

section \<open>Concrete sessions\<close>

text \<open>A bucket with one file, and a format that only adds the magic bytes.\<close>

definition gz_magic :: string where
  "gz_magic = [CHR 0x1F, CHR 0x8B]"

definition demo_format :: "mem_s3 s3_sess gz_env" where
  "demo_format =
     \<lparr>gz_fs = None, gz_writes = \<lparr>wo_create = (\<lambda>s p. (Inl ErrPermission, s)), wo_openTrunc = (\<lambda>s p. (Inl ErrPermission, s)),
        wo_write = (\<lambda>s h d. ((0, None), s)), wo_close = (\<lambda>s h. (None, s))\<rparr>,
      gz_dir = ''.'', gz_compress = (\<lambda>l d. Inr (gz_magic @ d)),
      gz_decompress = (\<lambda>z. if isGzip z then Inr (drop 2 z) else Inl ''invalid header''),
      gz_percent = (\<lambda>a b. ''0.0''), gz_errtext = (\<lambda>e. case e of ErrOther m \<Rightarrow> m | _ \<Rightarrow> ''file does not exist'')\<rparr>"

definition demo_texts :: "io_err \<Rightarrow> string" where
  "demo_texts e = (case e of Failed m \<Rightarrow> m | _ \<Rightarrow> ''error'')"

definition demo_gz :: "mem_s3 s3_sess gz_env" where
  "demo_gz = on_bucket demo_texts 1 mem_client demo_s3fs demo_format"

text \<open>The bucket that holds one file.\<close>

definition demo_gz_world :: "string \<Rightarrow> string \<Rightarrow> bfile list \<Rightarrow> mem_s3 s3_sess" where
  "demo_gz_world name body hs =
     \<lparr>sn_temps = Map.empty, sn_world = mem_world\<lparr>wd_s3 := \<lparr>ms_objs = [((''b'', name), (body, Map.empty))], ms_parts = []\<rparr>\<rparr>,
      sn_open = hs\<rparr>"

definition demo_gz_st :: "string \<Rightarrow> string \<Rightarrow> mem_s3 s3_sess gz_st" where
  "demo_gz_st name body =
     \<lparr>gz_state = demo_gz_world name body [], gz_stdin = None, gz_out = [], gz_err = [], gz_code = 0\<rparr>"

definition demo_gz_opts :: "string \<Rightarrow> bool \<Rightarrow> gz_opts" where
  "demo_gz_opts name d =
     \<lparr>gzo_stdout = False, gzo_decompress = d, gzo_force = False, gzo_keep = False, gzo_list = False, gzo_quiet = False,
      gzo_suffix = ''.gz'', gzo_test = False, gzo_verbose = False, gzo_fast = False, gzo_best = True, gzo_help = False,
      gzo_files = [name]\<rparr>"

lemma demo_codec: "codec demo_format"
  by (auto simp: codec_def demo_format_def gz_magic_def isGzip_def)


lemma mem_open_object:
  assumes "map_of (ms_objs (wd_s3 (sn_world z))) (s3_bucket fs0, key fs0 p) = Some (d, m)"
    and "object_key (key fs0 p)" and "sn_temps z (key fs0 p) = None"
  shows "sess_open T mem_client fs0 z p = Inr (Inr d)"
proof -
  obtain g where "open_read mem_client (sess_s3fs fs0 z) p (sn_world z) = Inr (FRead g)" "rf_reader g = Some (d, 0)"
    using assms
    by (auto simp: open_read_def newS3ReadFile_def mem_client_def mem_head_def mem_get_def object_key_def)
  then show ?thesis
    by (simp add: sess_open_def s3_Open_def OpenFile_def read_all_FRead)
qed

lemma demo_paths:
  "resolvePath ''.'' ''f'' = ''f''" "resolvePath ''.'' ''f.gz'' = ''f.gz''"
  "key demo_s3fs ''f'' = ''f''" "key demo_s3fs ''f.gz'' = ''f.gz''"
  by code_simp+

lemma demo_gz_open:
  "key demo_s3fs p = name \<Longrightarrow> object_key name \<Longrightarrow>
   fs_open (sess_fs T n mem_client demo_s3fs) (demo_gz_world name body hs) p = Inr (Inr body)"
  using mem_open_object[of "demo_gz_world name body hs" demo_s3fs p body Map.empty T]
  by (simp add: sess_fs_def demo_gz_world_def)

lemma demo_gz_stat:
  "\<exists>i. fs_stat (sess_fs T n mem_client demo_s3fs) (demo_gz_world ''f'' body hs) ''f'' = Inr i \<and> \<not> fi_isDir i"
  "\<exists>i. fs_stat (sess_fs T n mem_client demo_s3fs) (demo_gz_world ''f.gz'' body hs) ''f.gz'' = Inr i \<and> \<not> fi_isDir i"
  by (simp_all add: sess_fs_def demo_gz_world_def s3_Stat_def key_def[symmetric] demo_paths mem_client_def mem_head_def
      newFileInfoFromHead_def newFileInfo_def to_file_info_def info_defs mode_ops mode_bits)

lemma demo_gz_missing:
  "fs_stat (sess_fs T n mem_client demo_s3fs) (demo_gz_world ''f'' body hs) ''f.gz'' = Inl ErrNotExist"
  "fs_stat (sess_fs T n mem_client demo_s3fs) (demo_gz_world ''f.gz'' body hs) ''f'' = Inl ErrNotExist"
  by (simp_all add: sess_fs_def demo_gz_world_def s3_Stat_def key_def[symmetric] demo_paths mem_client_def mem_head_def
      missing_code_def api_code_def probe_dir_def mem_list_def mem_keys_def hasPrefix_def to_fs_err_def)

text \<open>A file replaced by its output: the new object is put and the old one deleted.\<close>

lemma demo_gz_replace:
  assumes "key demo_s3fs q = q" and "key demo_s3fs p = p" and "p \<noteq> q"
  shows "\<exists>z hs'. writeOutput demo_gz (wo_create (gz_writes demo_gz)) (sess_fs demo_texts 1 mem_client demo_s3fs) q d
      (demo_gz_world p body hs) = (None, z) \<and>
    snd (fs_remove (sess_fs demo_texts 1 mem_client demo_s3fs) z p) = demo_gz_world q d hs'"
  using assms
  by (auto simp: demo_gz_def writeOutput_def sess_writes_def sess_openFile_def OpenFile_def SupportedOFlags_def sess_write_def
      sess_close_def write_Close_def newS3WriteFile_def newFileMetadata_def mem_client_def mem_put_def demo_gz_world_def
      sess_fs_def s3_Remove_def detachTemp_def temps_get_def mem_delete_def Let_def)

lemmas demo_run = gzip_Exec_def compressMode_def decompressMode_def on_operand_def compress_file_def decompress_file_def
  read_file_def deliver_def demo_gz_opts_def demo_gz_st_def demo_format_def demo_paths demo_gz_missing demo_gz_open object_key_def

theorem gzip_roundtrip_witness:
  "let r1 = gzip_Exec demo_gz (Inr (demo_gz_opts ''f'' False)) (demo_gz_st ''f'' ''hello'');
       r2 = gzip_Exec demo_gz (Inr (demo_gz_opts ''f.gz'' True)) (snd r1)
   in fst r1 = Returned ExitOk \<and> fst r2 = Returned ExitOk \<and> sess_files mem_client demo_s3fs (gz_state (snd r2)) ''f'' = Some ''hello''"
proof -
  let ?F = "sess_fs demo_texts 1 mem_client demo_s3fs" and ?o = "demo_gz_opts ''f'' False" and ?o' = "demo_gz_opts ''f.gz'' True"
  let ?st = "demo_gz_st ''f'' ''hello''" and ?z = "gz_magic @ ''hello''"
  let ?stat = "\<lambda>z p. fs_stat ?F (gz_state z) (resolvePath (gz_dir demo_format) p)"
  have env: "gz_fs demo_gz = Some ?F" "gz_dir demo_gz = ''.''" "gz_compress demo_gz l d = Inr (gz_magic @ d)"
    "gz_decompress demo_gz ?z = Inr ''hello''" "isGzip ?z" for l d
    by (simp_all add: demo_gz_def demo_format_def gz_magic_def isGzip_def)
  have suf: "trimSuffix ''f.gz'' ''.gz'' = ''f''" "hasSuffix ''f.gz'' ''.gz''" "\<not> hasSuffix ''f'' ''.gz''" by code_simp+
  obtain i1 i2 where st: "fs_stat ?F (demo_gz_world ''f'' ''hello'' []) ''f'' = Inr i1" "\<not> fi_isDir i1"
    using demo_gz_stat(1) by blast
  obtain z hs where w1: "writeOutput demo_gz (wo_create (gz_writes demo_gz)) ?F ''f.gz'' ?z (demo_gz_world ''f'' ''hello'' []) = (None, z)"
    "snd (fs_remove ?F z ''f'') = demo_gz_world ''f.gz'' ?z hs"
    using demo_gz_replace[of "''f.gz''" "''f''" ?z "''hello''" "[]"] demo_paths by auto
  define st1 where "st1 = snd (gzip_Exec demo_gz (Inr ?o) ?st)"
  have run1: "gzip_Exec demo_gz (Inr ?o) ?st = (Returned ExitOk, st1)" and st1: "gz_state st1 = demo_gz_world ''f.gz'' ?z hs"
    using env suf st w1 by (simp_all add: st1_def demo_run)
  obtain i2 where s1: "fs_stat ?F (demo_gz_world ''f.gz'' ?z hs) ''f.gz'' = Inr i2" "\<not> fi_isDir i2"
    using demo_gz_stat(2) by blast
  obtain z' hs' where w2: "writeOutput demo_gz (wo_create (gz_writes demo_gz)) ?F ''f'' ''hello'' (demo_gz_world ''f.gz'' ?z hs) = (None, z')"
    "snd (fs_remove ?F z' ''f.gz'') = demo_gz_world ''f'' ''hello'' hs'"
    using demo_gz_replace[of "''f''" "''f.gz''" "''hello''" ?z hs] demo_paths by auto
  define st2 where "st2 = snd (gzip_Exec demo_gz (Inr ?o') st1)"
  have run2: "gzip_Exec demo_gz (Inr ?o') st1 = (Returned ExitOk, st2)"
    using env suf s1 w2 by (simp add: st2_def demo_run st1)
  have o2: "?o\<lparr>gzo_decompress := True, gzo_files := [''f'' @ gzo_suffix ?o]\<rparr> = ?o'" by (simp add: demo_gz_opts_def)
  have f: "gzo_suffix ?o = ''.gz''" by (simp add: demo_gz_opts_def)
  have "sess_files mem_client demo_s3fs (gz_state st2) ''f'' = sess_files mem_client demo_s3fs (gz_state ?st) ''f''"
  proof (rule gzip_roundtrip[OF mem_isolated demo_codec, where ?st1.0 = st1 and opts = ?o and f = "''f''" and T = demo_texts and n = 1])
    show "gzip_Exec (on_bucket demo_texts 1 mem_client demo_s3fs demo_format) (Inr ?o) ?st = (Returned ExitOk, st1)"
      using run1 by (simp add: demo_gz_def)
    show "gzip_Exec (on_bucket demo_texts 1 mem_client demo_s3fs demo_format)
        (Inr (?o\<lparr>gzo_decompress := True, gzo_files := [''f'' @ gzo_suffix ?o]\<rparr>)) st1 = (Returned ExitOk, st2)"
      unfolding o2 using run2 by (simp add: demo_gz_def)
    show "?stat ?st ''f'' = Inr i1" "?stat st1 (''f'' @ gzo_suffix ?o) = Inr i2"
      using st s1 by (simp_all add: f st1 demo_format_def demo_paths demo_gz_st_def)
    show "?stat ?st (''f'' @ gzo_suffix ?o) = Inl ErrNotExist" "?stat st1 ''f'' = Inl ErrNotExist"
      using demo_gz_missing by (simp_all add: f st1 demo_format_def demo_paths demo_gz_st_def)
    show "''f'' \<noteq> key demo_s3fs (resolvePath (gz_dir demo_format) (''f'' @ gzo_suffix ?o))"
      by (simp add: f demo_format_def demo_paths)
  qed (use st s1 suf in \<open>auto simp: demo_gz_opts_def\<close>)
  moreover have "sess_files mem_client demo_s3fs (gz_state ?st) ''f'' = Some ''hello''"
    by (simp add: sess_files_def object_key_def demo_gz_st_def demo_gz_world_def mem_contents demo_s3fs_def)
  ultimately show ?thesis using run1 run2 by simp
qed

theorem gunzip_refused_by_s3fs_witness:
  "fst (gunzip_Exec demo_gz (Inr \<lparr>gun_stdout = False, gun_force = False, gun_keep = False, gun_list = False, gun_quiet = False,
      gun_recursive = False, gun_suffix = ''.gz'', gun_test = False, gun_verbose = False, gun_help = False, gun_files = [''f.gz'']\<rparr>)
      (demo_gz_st ''f.gz'' (gz_magic @ ''hello'')))
   = Returned (ExitErr ''unsupported open flag'')"
proof -
  let ?o = "\<lparr>gun_stdout = False, gun_force = False, gun_keep = False, gun_list = False, gun_quiet = False,
      gun_recursive = False, gun_suffix = ''.gz'', gun_test = False, gun_verbose = False, gun_help = False, gun_files = [''f.gz'']\<rparr>"
  let ?z = "gz_magic @ ''hello''" and ?F = "sess_fs demo_texts 1 mem_client demo_s3fs"
  let ?s = "gz_state (demo_gz_st ''f.gz'' ?z)"
  have s: "?s = demo_gz_world ''f.gz'' ?z []" "resolvePath (gz_dir demo_format) ''f.gz'' = ''f.gz''"
    by (simp_all add: demo_gz_st_def demo_format_def demo_paths)
  obtain i where i: "fs_stat ?F ?s (resolvePath (gz_dir demo_format) ''f.gz'') = Inr i" "\<not> fi_isDir i"
    using demo_gz_stat(2) s by metis
  have o: "fs_open ?F ?s (resolvePath (gz_dir demo_format) ''f.gz'') = Inr (Inr ?z)"
    unfolding s by (rule demo_gz_open) (simp_all add: demo_paths object_key_def)
  have g: "isGzip ?z" and d: "gz_decompress demo_format ?z = Inr ''hello''"
    by (simp_all add: demo_format_def gz_magic_def isGzip_def)
  have suf: "trimSuffix ''f.gz'' ''.gz'' = ''f''" "hasSuffix ''f.gz'' ''.gz''" by code_simp+
  have t: "isl (fs_stat ?F ?s (trimSuffix ''f.gz'' (gun_suffix ?o)))"
    using demo_gz_missing(2) by (simp add: s suf)
  show ?thesis
    using gunzip_refused_by_s3fs[of ?o "''f.gz''", OF _ _ _ _ _ i o g d disjI2[OF t]] suf
    by (auto simp: demo_gz_def demo_format_def demo_texts_def)
qed

end
