(* ===== verification/Diff.thy ===== *)
theory Diff
  imports Cmd_Path
begin

text \<open>
  The diff command (\<^verbatim>\<open>command/internal/diff/diff.go\<close>).  The option parser (getopt) and the
  sequence matcher (difflib) are outside the repository: the first is the record of option
  values it leaves, the second a pair of functions.  Output, the rest of standard input and the
  number of clock readings are the state \<open>diff_st\<close> that the functions pass on; the formatted
  clock is a parameter.  A line that an operation code selects is read as a slice: the codes of
  the matcher lie inside both sequences.
\<close>

section \<open>Data\<close>

datatype format = formatNormal | formatContext | formatUnified | formatEd | formatForwardEd

record compareOptions =
  ignoreCase :: bool
  ignoreSpace :: bool
  brief :: bool
  reportSame :: bool
  recursive :: bool
  fmtKind :: format
  contextLines :: nat

text \<open>difflib's \<^verbatim>\<open>OpCode\<close>: a tag (\<^verbatim>\<open>e\<close>, \<^verbatim>\<open>r\<close>, \<^verbatim>\<open>d\<close> or \<^verbatim>\<open>i\<close>) and two ranges.\<close>

record opcode =
  op_Tag :: char
  op_I1 :: nat
  op_I2 :: nat
  op_J1 :: nat
  op_J2 :: nat

record difflib =
  GetOpCodes :: "string list \<Rightarrow> string list \<Rightarrow> opcode list"
  GetGroupedOpCodes :: "string list \<Rightarrow> string list \<Rightarrow> nat \<Rightarrow> opcode list list"

record 's diff_env =
  de_fs :: "'s billy option"
  de_state :: 's
  de_dir :: string
  de_unicode :: unicode
  de_difflib :: difflib
  de_clock :: "nat \<Rightarrow> string"
  de_errtext :: "fs_err \<Rightarrow> string"

record diff_st =
  ds_stdin :: "(fs_err + string) option"
  ds_ticks :: nat
  ds_out :: string
  ds_err :: string

definition out :: "string \<Rightarrow> diff_st \<Rightarrow> diff_st" where
  "out s st = st\<lparr>ds_out := ds_out st @ s\<rparr>"

definition err :: "string \<Rightarrow> diff_st \<Rightarrow> diff_st" where
  "err s st = st\<lparr>ds_err := ds_err st @ s\<rparr>"

section \<open>Lines\<close>

definition splitLines :: "string \<Rightarrow> string list" where
  "splitLines s =
     (if s = [] then []
      else let lines = splitAfterNL s in if last lines = [] then butlast lines else lines)"

text \<open>
  Trimming trailing white space decodes runes from the end, which finds the same runes as the
  loop from the front; an invalid byte becomes U+FFFD when it is written.
\<close>

fun squeeze :: "unicode \<Rightarrow> bool \<Rightarrow> rune list \<Rightarrow> rune list" where
  "squeeze U prevSpace [] = []"
| "squeeze U prevSpace (r # rs) =
     (if IsSpace U r then (if \<not> prevSpace then 32 # squeeze U True rs else squeeze U True rs)
      else r # squeeze U False rs)"

definition collapseSpace :: "unicode \<Rightarrow> string \<Rightarrow> string" where
  "collapseSpace U s0 =
     (let trailingNL = hasSuffix s0 nl;
          s = (if trailingNL then butlast s0 else s0);
          rs = rev (dropWhile (IsSpace U) (rev (runes s)))
      in utf8_string (squeeze U False rs) @ (if trailingNL then nl else []))"

definition normalizeLines :: "unicode \<Rightarrow> string list \<Rightarrow> bool \<Rightarrow> bool \<Rightarrow> string list" where
  "normalizeLines U lines icase ispace =
     (if \<not> icase \<and> \<not> ispace then lines
      else map (\<lambda>l. let s = (if ispace then collapseSpace U l else l) in if icase then ToLower U s else s) lines)"

definition hasNL :: "string \<Rightarrow> bool" where
  "hasNL s \<longleftrightarrow> hasSuffix s nl"

section \<open>Output formats\<close>

definition formatRange :: "nat \<Rightarrow> nat \<Rightarrow> string" where
  "formatRange lo hi = (if lo = hi then show_nat lo else show_nat lo @ '','' @ show_nat hi)"

definition lines_between :: "'a list \<Rightarrow> nat \<Rightarrow> nat \<Rightarrow> 'a list" where
  "lines_between xs i j = take (j - i) (drop i xs)"

definition writePrefixed :: "string \<Rightarrow> string \<Rightarrow> string" where
  "writePrefixed pfx line =
     (if hasNL line then pfx @ line
      else pfx @ line @ nl @ [backslash] @ '' No newline at end of file'' @ nl)"

definition prefixed_lines :: "string \<Rightarrow> string list \<Rightarrow> nat \<Rightarrow> nat \<Rightarrow> string" where
  "prefixed_lines pfx xs i j = concat (map (writePrefixed pfx) (lines_between xs i j))"

definition normal_op :: "string list \<Rightarrow> string list \<Rightarrow> opcode \<Rightarrow> string" where
  "normal_op a b op =
     (let lhs = formatRange (op_I1 op + 1) (op_I2 op); rhs = formatRange (op_J1 op + 1) (op_J2 op) in
      if op_Tag op = CHR ''r'' then
        lhs @ ''c'' @ rhs @ nl @ prefixed_lines ''< '' a (op_I1 op) (op_I2 op) @ ''---'' @ nl
          @ prefixed_lines ''> '' b (op_J1 op) (op_J2 op)
      else if op_Tag op = CHR ''d'' then
        lhs @ ''d'' @ show_nat (op_J1 op) @ nl @ prefixed_lines ''< '' a (op_I1 op) (op_I2 op)
      else if op_Tag op = CHR ''i'' then
        show_nat (op_I1 op) @ ''a'' @ rhs @ nl @ prefixed_lines ''> '' b (op_J1 op) (op_J2 op)
      else [])"

definition writeNormal :: "string list \<Rightarrow> string list \<Rightarrow> opcode list \<Rightarrow> string" where
  "writeNormal a b ops = concat (map (normal_op a b) ops)"

definition with_nl :: "string \<Rightarrow> string" where
  "with_nl s = (if hasNL s then s else s @ nl)"

text \<open>A hunk of an ed script: its header and its body.\<close>

definition ed_hunk :: "string list \<Rightarrow> opcode \<Rightarrow> (string \<times> string list) list" where
  "ed_hunk b op =
     (if op_Tag op = CHR ''r'' then
        [(formatRange (op_I1 op + 1) (op_I2 op) @ ''c'' @ nl, lines_between b (op_J1 op) (op_J2 op) @ [''.'' @ nl])]
      else if op_Tag op = CHR ''d'' then [(formatRange (op_I1 op + 1) (op_I2 op) @ ''d'' @ nl, [])]
      else if op_Tag op = CHR ''i'' then
        [(show_nat (op_I1 op) @ ''a'' @ nl, lines_between b (op_J1 op) (op_J2 op) @ [''.'' @ nl])]
      else [])"

definition writeEd :: "string list \<Rightarrow> opcode list \<Rightarrow> string" where
  "writeEd b ops =
     concat (map (\<lambda>(header, body). header @ concat (map with_nl body)) (rev (concat (map (ed_hunk b) ops))))"

definition forward_op :: "string list \<Rightarrow> opcode \<Rightarrow> string" where
  "forward_op b op =
     (if op_Tag op = CHR ''r'' then
        ''c'' @ formatRange (op_I1 op + 1) (op_I2 op) @ nl @ concat (map with_nl (lines_between b (op_J1 op) (op_J2 op))) @ ''.'' @ nl
      else if op_Tag op = CHR ''d'' then ''d'' @ formatRange (op_I1 op + 1) (op_I2 op) @ nl
      else if op_Tag op = CHR ''i'' then
        ''a'' @ show_nat (op_I1 op) @ nl @ concat (map with_nl (lines_between b (op_J1 op) (op_J2 op))) @ ''.'' @ nl
      else [])"

definition writeForwardEd :: "string list \<Rightarrow> opcode list \<Rightarrow> string" where
  "writeForwardEd b ops = concat (map (forward_op b) ops)"

definition unifiedRange :: "nat \<Rightarrow> nat \<Rightarrow> string" where
  "unifiedRange start count =
     (if count = 0 then show_nat start @ '',0''
      else if count = 1 then show_nat (start + 1)
      else show_nat (start + 1) @ '','' @ show_nat count)"

definition unified_op :: "string list \<Rightarrow> string list \<Rightarrow> opcode \<Rightarrow> string" where
  "unified_op a b op =
     (if op_Tag op = CHR ''e'' then prefixed_lines '' '' a (op_I1 op) (op_I2 op)
      else if op_Tag op = CHR ''r'' then
        prefixed_lines ''-'' a (op_I1 op) (op_I2 op) @ prefixed_lines ''+'' b (op_J1 op) (op_J2 op)
      else if op_Tag op = CHR ''d'' then prefixed_lines ''-'' a (op_I1 op) (op_I2 op)
      else if op_Tag op = CHR ''i'' then prefixed_lines ''+'' b (op_J1 op) (op_J2 op)
      else [])"

definition unified_group :: "string list \<Rightarrow> string list \<Rightarrow> opcode list \<Rightarrow> string" where
  "unified_group a b g =
     ''@@ -'' @ unifiedRange (op_I1 (hd g)) (op_I2 (last g) - op_I1 (hd g)) @ '' +''
       @ unifiedRange (op_J1 (hd g)) (op_J2 (last g) - op_J1 (hd g)) @ '' @@'' @ nl
       @ concat (map (unified_op a b) g)"

definition writeUnified ::
  "string \<Rightarrow> string \<Rightarrow> string \<Rightarrow> string \<Rightarrow> string list \<Rightarrow> string list \<Rightarrow> opcode list list \<Rightarrow> string" where
  "writeUnified f1 f2 t1 t2 a b groups =
     (if groups = [] then []
      else ''--- '' @ f1 @ [tab] @ t1 @ nl @ ''+++ '' @ f2 @ [tab] @ t2 @ nl @ concat (map (unified_group a b) groups))"

definition contextRange :: "nat \<Rightarrow> nat \<Rightarrow> string" where
  "contextRange lo hi =
     (if hi < lo then show_nat hi else if lo = hi then show_nat lo else show_nat lo @ '','' @ show_nat hi)"

definition context_old :: "string list \<Rightarrow> opcode \<Rightarrow> string" where
  "context_old a op =
     (if op_Tag op = CHR ''e'' then prefixed_lines ''  '' a (op_I1 op) (op_I2 op)
      else if op_Tag op = CHR ''r'' then prefixed_lines ''! '' a (op_I1 op) (op_I2 op)
      else if op_Tag op = CHR ''d'' then prefixed_lines ''- '' a (op_I1 op) (op_I2 op)
      else [])"

definition context_new :: "string list \<Rightarrow> opcode \<Rightarrow> string" where
  "context_new b op =
     (if op_Tag op = CHR ''e'' then prefixed_lines ''  '' b (op_J1 op) (op_J2 op)
      else if op_Tag op = CHR ''r'' then prefixed_lines ''! '' b (op_J1 op) (op_J2 op)
      else if op_Tag op = CHR ''i'' then prefixed_lines ''+ '' b (op_J1 op) (op_J2 op)
      else [])"

definition context_group :: "string list \<Rightarrow> string list \<Rightarrow> opcode list \<Rightarrow> string" where
  "context_group a b g =
     (let first = hd g; final = last g;
          (aLo, aHi) = (if op_I2 final = op_I1 first then (op_I1 first, op_I1 first) else (op_I1 first + 1, op_I2 final));
          (bLo, bHi) = (if op_J2 final = op_J1 first then (op_J1 first, op_J1 first) else (op_J1 first + 1, op_J2 final));
          hasADel = (\<exists>op \<in> set g. op_Tag op = CHR ''r'' \<or> op_Tag op = CHR ''d'');
          hasBAdd = (\<exists>op \<in> set g. op_Tag op = CHR ''r'' \<or> op_Tag op = CHR ''i'')
      in ''***************'' @ nl @ ''*** '' @ contextRange aLo aHi @ '' ****'' @ nl
         @ (if hasADel then concat (map (context_old a) g) else [])
         @ ''--- '' @ contextRange bLo bHi @ '' ----'' @ nl
         @ (if hasBAdd then concat (map (context_new b) g) else []))"

definition writeContext ::
  "string \<Rightarrow> string \<Rightarrow> string \<Rightarrow> string \<Rightarrow> string list \<Rightarrow> string list \<Rightarrow> opcode list list \<Rightarrow> string" where
  "writeContext f1 f2 t1 t2 a b groups =
     (if groups = [] then []
      else ''*** '' @ f1 @ [tab] @ t1 @ nl @ ''--- '' @ f2 @ [tab] @ t2 @ nl @ concat (map (context_group a b) groups))"

section \<open>Reading\<close>

text \<open>
  Reading standard input to the end leaves nothing for a later read; a reader that failed fails
  again.
\<close>

definition readContent :: "'s diff_env \<Rightarrow> string \<Rightarrow> diff_st \<Rightarrow> (fs_err + string \<times> string) \<times> diff_st" where
  "readContent E file st0 =
     (let stamp = de_clock E (ds_ticks st0); st = st0\<lparr>ds_ticks := Suc (ds_ticks st0)\<rparr>
      in if file = ''-'' then
           (case ds_stdin st of
              None \<Rightarrow> (Inr ([], stamp), st)
            | Some (Inl e) \<Rightarrow> (Inl e, st)
            | Some (Inr bs) \<Rightarrow> (Inr (bs, stamp), st\<lparr>ds_stdin := Some (Inr [])\<rparr>))
         else
           (case de_fs E of
              None \<Rightarrow> (Inl (ErrOther ''no filesystem''), st)
            | Some F \<Rightarrow>
                (case fs_open F (de_state E) (resolvePath (de_dir E) file) of
                   Inl e \<Rightarrow> (Inl e, st)
                 | Inr (Inl e) \<Rightarrow> (Inl e, st)
                 | Inr (Inr bs) \<Rightarrow> (Inr (bs, stamp), st))))"

definition isDirectory :: "'s diff_env \<Rightarrow> string \<Rightarrow> fs_err + bool" where
  "isDirectory E p =
     (if p = ''-'' then Inr False
      else case de_fs E of
        None \<Rightarrow> Inl (ErrOther ''no filesystem'')
      | Some F \<Rightarrow>
          (case fs_stat F (de_state E) (resolvePath (de_dir E) p) of
             Inl e \<Rightarrow> Inl e
           | Inr info \<Rightarrow> Inr (fi_isDir info)))"

definition readDirNames :: "'s diff_env \<Rightarrow> string \<Rightarrow> fs_err + string list" where
  "readDirNames E dir =
     (case de_fs E of
        None \<Rightarrow> Inl (ErrOther ''no filesystem'')
      | Some F \<Rightarrow>
          (case fs_readdir F (de_state E) (resolvePath (de_dir E) dir) of
             Inl e \<Rightarrow> Inl e
           | Inr entries \<Rightarrow> Inr (map de_name entries)))"

section \<open>Comparing\<close>

definition no_such_file :: "string \<Rightarrow> string" where
  "no_such_file f = ''diff: '' @ f @ '': No such file or directory'' @ nl"

definition diff_body ::
  "'s diff_env \<Rightarrow> compareOptions \<Rightarrow> string \<Rightarrow> string \<Rightarrow> string \<Rightarrow> string \<Rightarrow> string list \<Rightarrow> string list
   \<Rightarrow> string list \<Rightarrow> string list \<Rightarrow> string" where
  "diff_body E opts f1 f2 t1 t2 a b cmpA cmpB =
     (let ops = GetOpCodes (de_difflib E) cmpA cmpB;
          groups = GetGroupedOpCodes (de_difflib E) cmpA cmpB (contextLines opts)
      in case fmtKind opts of
           formatUnified \<Rightarrow> writeUnified f1 f2 t1 t2 a b groups
         | formatContext \<Rightarrow> writeContext f1 f2 t1 t2 a b groups
         | formatEd \<Rightarrow> writeEd b ops
         | formatForwardEd \<Rightarrow> writeForwardEd b ops
         | formatNormal \<Rightarrow> writeNormal a b ops)"

definition diffFiles ::
  "'s diff_env \<Rightarrow> string \<Rightarrow> string \<Rightarrow> compareOptions \<Rightarrow> diff_st \<Rightarrow> exit_result \<times> diff_st" where
  "diffFiles E f1 f2 opts st =
     (let (r1, st1) = readContent E f1 st
      in case r1 of
           Inl e \<Rightarrow> (ExitStatus 2, err (no_such_file f1) st1)
         | Inr (c1, t1) \<Rightarrow>
             (let (r2, st2) = readContent E f2 st1
              in case r2 of
                   Inl e \<Rightarrow> (ExitStatus 2, err (no_such_file f2) st2)
                 | Inr (c2, t2) \<Rightarrow>
                     (let a = splitLines c1; b = splitLines c2;
                          cmpA = normalizeLines (de_unicode E) a (ignoreCase opts) (ignoreSpace opts);
                          cmpB = normalizeLines (de_unicode E) b (ignoreCase opts) (ignoreSpace opts)
                      in if cmpA = cmpB then
                           (ExitOk, if reportSame opts then out (''Files '' @ f1 @ '' and '' @ f2 @ '' are identical'' @ nl) st2 else st2)
                         else if brief opts then
                           (ExitStatus 1, out (''Files '' @ f1 @ '' and '' @ f2 @ '' differ'' @ nl) st2)
                         else (ExitStatus 1, out (diff_body E opts f1 f2 t1 t2 a b cmpA cmpB) st2))))"

definition filesEqual :: "'s diff_env \<Rightarrow> string \<Rightarrow> string \<Rightarrow> compareOptions \<Rightarrow> diff_st \<Rightarrow> bool \<times> diff_st" where
  "filesEqual E f1 f2 opts st =
     (let (r1, st1) = readContent E f1 st
      in case r1 of
           Inl e \<Rightarrow> (False, st1)
         | Inr (c1, t1) \<Rightarrow>
             (let (r2, st2) = readContent E f2 st1
              in case r2 of
                   Inl e \<Rightarrow> (False, st2)
                 | Inr (c2, t2) \<Rightarrow>
                     (normalizeLines (de_unicode E) (splitLines c1) (ignoreCase opts) (ignoreSpace opts)
                        = normalizeLines (de_unicode E) (splitLines c2) (ignoreCase opts) (ignoreSpace opts), st2)))"

fun exitStatus :: "exit_result \<Rightarrow> int" where
  "exitStatus ExitOk = 0"
| "exitStatus (ExitStatus n) = int n"
| "exitStatus (ExitErr m) = - 1"

definition is_dir :: "'s diff_env \<Rightarrow> string \<Rightarrow> bool" where
  "is_dir E p = (case isDirectory E p of Inl e \<Rightarrow> False | Inr d \<Rightarrow> d)"

text \<open>
  One name of the two directories: whether it differed, or the error that ends the comparison.
  \<open>rec\<close> is the recursive comparison of two directories.
\<close>

definition after_compare :: "(exit_result \<times> diff_st) option \<Rightarrow> ((bool + exit_result) \<times> diff_st) option" where
  "after_compare r =
     map_option (\<lambda>(e, st). (if e = ExitOk then Inl False else if exitStatus e = 1 then Inl True else Inr e, st)) r"

definition diff_name ::
  "(string \<Rightarrow> string \<Rightarrow> diff_st \<Rightarrow> (exit_result \<times> diff_st) option) \<Rightarrow> 's diff_env \<Rightarrow> string \<Rightarrow> string \<Rightarrow> compareOptions
   \<Rightarrow> string list \<Rightarrow> string list \<Rightarrow> string \<Rightarrow> diff_st \<Rightarrow> ((bool + exit_result) \<times> diff_st) option" where
  "diff_name rec E d1 d2 opts entries1 entries2 name st =
     (let in1 = (name \<in> set entries1); in2 = (name \<in> set entries2);
          p1 = path_join [d1, name]; p2 = path_join [d2, name]
      in if in1 \<and> \<not> in2 then Some (Inl True, out (''Only in '' @ d1 @ '': '' @ name @ nl) st)
         else if \<not> in1 \<and> in2 then Some (Inl True, out (''Only in '' @ d2 @ '': '' @ name @ nl) st)
         else
           (let isDir1 = is_dir E p1; isDir2 = is_dir E p2
            in if isDir1 \<and> isDir2 then
                 (if recursive opts then after_compare (rec p1 p2 st)
                  else Some (Inl False, out (''Common subdirectories: '' @ p1 @ '' and '' @ p2 @ nl) st))
               else if isDir1 \<noteq> isDir2 then
                 Some (Inl True, out (if isDir1
                   then ''File '' @ p1 @ '' is a directory while file '' @ p2 @ '' is a regular file'' @ nl
                   else ''File '' @ p1 @ '' is a regular file while file '' @ p2 @ '' is a directory'' @ nl) st)
               else
                 (let (same, st1) = filesEqual E p1 p2 opts st;
                      st2 = (if \<not> same \<and> \<not> brief opts then out (''diff '' @ p1 @ '' '' @ p2 @ nl) st1 else st1)
                  in after_compare (Some (diffFiles E p1 p2 opts st2)))))"

fun diff_names ::
  "(string \<Rightarrow> diff_st \<Rightarrow> ((bool + exit_result) \<times> diff_st) option) \<Rightarrow> string list \<Rightarrow> bool \<Rightarrow> diff_st
   \<Rightarrow> (exit_result \<times> diff_st) option" where
  "diff_names one [] differed st = Some (if differed then ExitStatus 1 else ExitOk, st)"
| "diff_names one (name # names) differed st =
     (case one name st of
        None \<Rightarrow> None
      | Some (Inr e, st1) \<Rightarrow> Some (e, st1)
      | Some (Inl d, st1) \<Rightarrow> diff_names one names (differed \<or> d) st1)"

fun diffDirs ::
  "nat \<Rightarrow> 's diff_env \<Rightarrow> compareOptions \<Rightarrow> string \<Rightarrow> string \<Rightarrow> diff_st \<Rightarrow> (exit_result \<times> diff_st) option" where
  "diffDirs 0 E opts d1 d2 st = None"
| "diffDirs (Suc fuel) E opts d1 d2 st =
     (case readDirNames E d1 of
        Inl e \<Rightarrow> Some (ExitStatus 2, err (''diff: '' @ d1 @ '': '' @ de_errtext E e @ nl) st)
      | Inr entries1 \<Rightarrow>
          (case readDirNames E d2 of
             Inl e \<Rightarrow> Some (ExitStatus 2, err (''diff: '' @ d2 @ '': '' @ de_errtext E e @ nl) st)
           | Inr entries2 \<Rightarrow>
               diff_names (diff_name (diffDirs fuel E opts) E d1 d2 opts entries1 entries2)
                 (sort (remdups (entries1 @ entries2))) False st))"

section \<open>The command\<close>

text \<open>What getopt leaves of the command line: an error, or the option values and the operands.\<close>

record diff_flags =
  fl_unified :: bool
  fl_unifiedN :: string
  fl_context :: bool
  fl_contextN :: string
  fl_ed :: bool
  fl_forwardEd :: bool
  fl_recursive :: bool
  fl_ignoreSpace :: bool
  fl_brief :: bool
  fl_reportSame :: bool
  fl_ignoreCase :: bool
  fl_help :: bool
  fl_args :: "string list"

definition diff_usage :: string where
  "diff_usage =
     ''Usage: diff [OPTION]... FILE1 FILE2'' @ nl @
     ''Compare files line by line.'' @ nl @ nl @
     ''  -b, --ignore-space-change     ignore changes in the amount of white space'' @ nl @
     ''  -c                            output 3 lines of copied context'' @ nl @
     ''  -C NUM, --context[=NUM]       output NUM (default 3) lines of copied context'' @ nl @
     ''  -e, --ed                      output an ed script'' @ nl @
     ''  -f                            output a forward ed script'' @ nl @
     ''  -u                            output 3 lines of unified context'' @ nl @
     ''  -U NUM, --unified[=NUM]       output NUM (default 3) lines of unified context'' @ nl @
     ''  -r, --recursive               recursively compare any subdirectories found'' @ nl @
     ''  -q, --brief                   report only whether files differ'' @ nl @
     ''  -s, --report-identical-files  report when files are the same'' @ nl @
     ''  -i, --ignore-case             ignore case differences'' @ nl @
     ''      --help                    display this help and exit'' @ nl"

definition context_length :: "string \<Rightarrow> nat option" where
  "context_length s = (case atoi s of None \<Rightarrow> None | Some n \<Rightarrow> if n < 0 then None else Some (nat n))"

text \<open>The format and its number of context lines, or the operand that is not a length.\<close>

definition diff_format :: "diff_flags \<Rightarrow> string + format \<times> nat" where
  "diff_format fl =
     (if fl_ed fl then Inr (formatEd, 3)
      else if fl_forwardEd fl then Inr (formatForwardEd, 3)
      else if fl_unifiedN fl \<noteq> [] then
        (case context_length (fl_unifiedN fl) of None \<Rightarrow> Inl (fl_unifiedN fl) | Some n \<Rightarrow> Inr (formatUnified, n))
      else if fl_contextN fl \<noteq> [] then
        (case context_length (fl_contextN fl) of None \<Rightarrow> Inl (fl_contextN fl) | Some n \<Rightarrow> Inr (formatContext, n))
      else if fl_unified fl then Inr (formatUnified, 3)
      else if fl_context fl then Inr (formatContext, 3)
      else Inr (formatNormal, 3))"

definition failed :: "fs_err + bool \<Rightarrow> bool" where
  "failed r = (case r of Inl e \<Rightarrow> True | Inr d \<Rightarrow> False)"

definition diff_operands ::
  "nat \<Rightarrow> 's diff_env \<Rightarrow> string \<Rightarrow> string \<Rightarrow> compareOptions \<Rightarrow> diff_st \<Rightarrow> (exit_result \<times> diff_st) option" where
  "diff_operands fuel E f1 f2 opts st =
     (if failed (isDirectory E f1) \<and> f1 \<noteq> ''-'' then Some (ExitStatus 2, err (no_such_file f1) st)
      else if failed (isDirectory E f2) \<and> f2 \<noteq> ''-'' then Some (ExitStatus 2, err (no_such_file f2) st)
      else if is_dir E f1 \<and> is_dir E f2 then diffDirs fuel E opts f1 f2 st
      else Some (diffFiles E
        (if is_dir E f1 then path_join [f1, path_base f2] else f1)
        (if \<not> is_dir E f1 \<and> is_dir E f2 then path_join [f2, path_base f1] else f2) opts st))"

definition diff_Exec ::
  "nat \<Rightarrow> 's diff_env \<Rightarrow> string + diff_flags \<Rightarrow> diff_st \<Rightarrow> (exit_result \<times> diff_st) option" where
  "diff_Exec fuel E parsed st =
     (case parsed of
        Inl m \<Rightarrow> Some (ExitStatus 2, err diff_usage (err (''diff: '' @ m @ nl) st))
      | Inr fl \<Rightarrow>
          if fl_help fl then Some (ExitOk, err diff_usage st)
          else (case diff_format fl of
            Inl s \<Rightarrow> Some (ExitStatus 2, err (''diff: invalid context length '' @ [squote] @ s @ [squote] @ nl) st)
          | Inr (kind, n) \<Rightarrow>
              (case fl_args fl of
                 f1 # f2 # rest \<Rightarrow>
                   diff_operands fuel E f1 f2
                     \<lparr>ignoreCase = fl_ignoreCase fl, ignoreSpace = fl_ignoreSpace fl, brief = fl_brief fl,
                      reportSame = fl_reportSame fl, recursive = fl_recursive fl, fmtKind = kind, contextLines = n\<rparr> st
               | _ \<Rightarrow> Some (ExitStatus 2, err (''diff: missing operand'' @ nl) st))))"

end
