(* ===== verification/Diff_Properties.thy ===== *)
theory Diff_Properties
  imports Diff
begin

text \<open>
  What the output of diff means.  The ed script and the unified diff are read back from their
  text by an interpreter of ed commands and by a patch function, and turn the first file into
  the second; the exit status says whether the files differ; directory comparison ends.  What is
  used of the sequence matcher is what difflib documents: its operation codes tile both
  sequences, and the ranges of an equal code are equal.
\<close>

section \<open>Lines\<close>

definition nl_line :: "string \<Rightarrow> bool" where
  "nl_line l \<longleftrightarrow> l \<noteq> [] \<and> last l = newline \<and> newline \<notin> set (butlast l)"

definition file_lines :: "string list \<Rightarrow> bool" where
  "file_lines ls \<longleftrightarrow> (\<forall>l \<in> set ls. l \<noteq> [] \<and> newline \<notin> set (butlast l)) \<and> (\<forall>l \<in> set (butlast ls). nl_line l)"

lemma nl_lineI [intro]: "newline \<notin> set x \<Longrightarrow> nl_line (x @ nl)"
  by (simp add: nl_line_def)

lemma hasNL_iff: "hasNL l \<longleftrightarrow> l \<noteq> [] \<and> last l = newline"
  by (cases l rule: rev_cases) (auto simp: hasNL_def hasSuffix_iff)

lemma nl_line_hasNL [simp]: "nl_line l \<Longrightarrow> hasNL l"
  by (simp add: nl_line_def hasNL_iff)

lemma splitAfterNL_line:
  assumes "newline \<notin> set x"
  shows "splitAfterNL (x @ newline # s) = (x @ nl) # splitAfterNL s"
  using assms by (induction x) auto

lemma splitLines_Nil [simp]: "splitLines [] = []"
  by (simp add: splitLines_def)

lemma splitLines_line:
  assumes "nl_line l"
  shows "splitLines (l @ s) = l # splitLines s"
proof -
  obtain x where l: "l = x @ nl" "newline \<notin> set x"
    using assms by (cases l rule: rev_cases) (auto simp: nl_line_def)
  then have "splitAfterNL (l @ s) = l # splitAfterNL s" using splitAfterNL_line[OF l(2), of s] by simp
  then show ?thesis using assms by (auto simp: splitLines_def nl_line_def Let_def)
qed

lemma splitLines_concat: "(\<forall>l \<in> set ls. nl_line l) \<Longrightarrow> splitLines (concat ls) = ls"
  by (induction ls) (simp_all add: splitLines_line)

lemma concat_splitLines [simp]: "concat (splitLines s) = s"
proof -
  have "concat (splitAfterNL s) = s" by simp
  moreover have "splitAfterNL s = butlast (splitAfterNL s) @ [last (splitAfterNL s)]" by simp
  ultimately have "concat (butlast (splitAfterNL s)) @ last (splitAfterNL s) = s"
    by (metis concat_append concat.simps append_Nil2)
  then show ?thesis by (auto simp: splitLines_def Let_def)
qed

lemma splitAfterNL_lines:
  "(\<forall>l \<in> set (butlast (splitAfterNL s)). nl_line l) \<and> newline \<notin> set (last (splitAfterNL s))"
proof (induction s)
  case (Cons c s)
  obtain p ps where p: "splitAfterNL s = p # ps" using splitAfterNL_not_Nil by (metis list.exhaust)
  then show ?case using Cons by (cases ps) (auto simp: nl_line_def)
qed (simp add: nl_line_def)

lemma splitLines_file_lines: "file_lines (splitLines s)"
proof -
  let ?ls = "splitAfterNL s"
  have nl: "\<forall>l \<in> set (butlast ?ls). nl_line l" and last: "newline \<notin> set (last ?ls)"
    using splitAfterNL_lines[of s] by auto
  have line: "l \<noteq> [] \<and> newline \<notin> set (butlast l)" if "nl_line l" for l using that by (auto simp: nl_line_def)
  moreover have "l \<in> set (butlast ?ls) \<or> l = last ?ls" if "l \<in> set ?ls" for l
    using that by (metis Un_iff append_butlast_last_id empty_iff empty_set set_ConsD set_append splitAfterNL_not_Nil)
  ultimately have "l \<in> set ?ls \<Longrightarrow> l \<noteq> last ?ls \<Longrightarrow> l \<noteq> [] \<and> newline \<notin> set (butlast l)" for l
    using nl by blast
  moreover have "newline \<notin> set (butlast (last ?ls))" using last by (blast dest: in_set_butlastD)
  ultimately have "l \<in> set ?ls \<Longrightarrow> last ?ls \<noteq> [] \<Longrightarrow> l \<noteq> [] \<and> newline \<notin> set (butlast l)" for l
    by (cases "l = last ?ls") auto
  then show ?thesis
    using nl line by (auto simp: file_lines_def splitLines_def Let_def dest: in_set_butlastD)
qed

lemma with_nl_line: "l \<noteq> [] \<Longrightarrow> newline \<notin> set (butlast l) \<Longrightarrow> nl_line (with_nl l)"
  by (cases l rule: rev_cases) (auto simp: with_nl_def hasNL_iff nl_line_def butlast_append)

lemma with_nl_id: "hasNL l \<Longrightarrow> with_nl l = l"
  by (simp add: with_nl_def)

section \<open>Operation codes\<close>

text \<open>difflib's documentation of an operation code, and of the list of them.\<close>

definition op_ok :: "string list \<Rightarrow> string list \<Rightarrow> opcode \<Rightarrow> bool" where
  "op_ok a b op \<longleftrightarrow> op_I1 op \<le> op_I2 op \<and> op_I2 op \<le> length a \<and> op_J1 op \<le> op_J2 op \<and> op_J2 op \<le> length b \<and>
     (op_Tag op = CHR ''e'' \<and> lines_between a (op_I1 op) (op_I2 op) = lines_between b (op_J1 op) (op_J2 op) \<or>
      op_Tag op = CHR ''r'' \<and> op_I1 op < op_I2 op \<and> op_J1 op < op_J2 op \<or>
      op_Tag op = CHR ''d'' \<and> op_I1 op < op_I2 op \<and> op_J1 op = op_J2 op \<or>
      op_Tag op = CHR ''i'' \<and> op_I1 op = op_I2 op \<and> op_J1 op < op_J2 op)"

fun tiles :: "string list \<Rightarrow> string list \<Rightarrow> nat \<Rightarrow> nat \<Rightarrow> opcode list \<Rightarrow> bool" where
  "tiles a b i j [] \<longleftrightarrow> i = length a \<and> j = length b"
| "tiles a b i j (op # ops) \<longleftrightarrow>
     op_I1 op = i \<and> op_J1 op = j \<and> op_ok a b op \<and> tiles a b (op_I2 op) (op_J2 op) ops"

lemma lines_between_drop: "i \<le> j \<Longrightarrow> lines_between xs i j @ drop j xs = drop i xs"
  unfolding lines_between_def by (metis append_take_drop_id drop_drop le_add_diff_inverse2)

lemma take_lines_between: "i \<le> j \<Longrightarrow> take i xs @ lines_between xs i j = take j xs"
  unfolding lines_between_def by (metis le_add_diff_inverse take_add)

lemma lines_between_append: "i \<le> j \<Longrightarrow> j \<le> k \<Longrightarrow> lines_between xs i j @ lines_between xs j k = lines_between xs i k"
  by (auto simp: lines_between_def le_iff_add take_add add.commute)

lemma map_option_append_Nil [simp]: "map_option ((@) []) r = r"
  by (cases r) simp_all

lemma map_option_append: "map_option ((@) xs) (map_option ((@) ys) r) = map_option ((@) (xs @ ys)) r"
  by (cases r) simp_all

lemma map_lines_between: "map f (lines_between xs i j) = lines_between (map f xs) i j"
  by (simp add: lines_between_def take_map drop_map)

lemma set_lines_between: "x \<in> set (lines_between xs i j) \<Longrightarrow> x \<in> set xs"
  unfolding lines_between_def by (metis in_set_takeD in_set_dropD)

section \<open>Ed scripts\<close>

text \<open>
  An interpreter of the ed commands a script uses: an address or a range, one letter, and for
  \<^verbatim>\<open>a\<close> and \<^verbatim>\<open>c\<close> lines of input up to a line with a single dot.
\<close>

definition ed_addr :: "string \<Rightarrow> (nat \<times> nat) option" where
  "ed_addr s =
     (let ds = takeWhile is_digit s; r = dropWhile is_digit s
      in if ds = [] then None
         else if r = [] then Some (dec_value 0 ds, dec_value 0 ds)
         else if hd r = CHR '','' \<and> tl r \<noteq> [] \<and> list_all is_digit (tl r) then Some (dec_value 0 ds, dec_value 0 (tl r))
         else None)"

definition ed_cmd :: "string \<Rightarrow> ((nat \<times> nat) \<times> char) option" where
  "ed_cmd line =
     (let s = butlast line in if s = [] then None else map_option (\<lambda>r. (r, last s)) (ed_addr (butlast s)))"

definition dot_line :: string where "dot_line = ''.'' @ nl"

lemma dropWhile_tl_shorter: "length (dropWhile P xs) - Suc 0 < Suc (length xs)"
  using length_dropWhile_le[of P xs] by simp

function ed_run :: "string list \<Rightarrow> string list \<Rightarrow> string list option" where
  "ed_run [] buf = Some buf"
| "ed_run (line # script) buf =
     (case ed_cmd line of
        None \<Rightarrow> None
      | Some ((lo, hi), c) \<Rightarrow>
          (let body = takeWhile (\<lambda>l. l \<noteq> dot_line) script; r = dropWhile (\<lambda>l. l \<noteq> dot_line) script
           in if c = CHR ''d'' \<and> 0 < lo \<and> lo \<le> hi \<and> hi \<le> length buf then ed_run script (take (lo - 1) buf @ drop hi buf)
              else if c = CHR ''c'' \<and> 0 < lo \<and> lo \<le> hi \<and> hi \<le> length buf \<and> r \<noteq> []
              then ed_run (tl r) (take (lo - 1) buf @ body @ drop hi buf)
              else if c = CHR ''a'' \<and> lo = hi \<and> hi \<le> length buf \<and> r \<noteq> []
              then ed_run (tl r) (take hi buf @ body @ drop hi buf)
              else None))"
  by pat_completeness auto
termination
  by (relation "measure (length \<circ> fst)") (auto simp: dropWhile_tl_shorter)

declare ed_run.simps(2) [simp del]

text \<open>Reading back the addresses.\<close>

lemma show_nat_digits: "list_all is_digit (show_nat n)" "show_nat n \<noteq> []"
  by (auto simp: list_all_iff format_nat_digits)

lemma takeWhile_digits:
  assumes "list_all is_digit ds" and "r = [] \<or> \<not> is_digit (hd r)"
  shows "takeWhile is_digit (ds @ r) = ds \<and> dropWhile is_digit (ds @ r) = r"
  using assms by (cases r) (auto simp: list_all_iff takeWhile_eq_Nil_iff dropWhile_eq_self_iff)

lemma ed_addr_single: "ed_addr (show_nat n) = Some (n, n)"
proof -
  have t: "takeWhile is_digit (show_nat n) = show_nat n" "dropWhile is_digit (show_nat n) = []"
    using takeWhile_digits[OF show_nat_digits(1), of "[]" n] by (simp_all only: append_Nil2 simp_thms)
  show ?thesis using show_nat_digits(2)[of n] by (simp only: ed_addr_def t dec_value_show Let_def if_False if_True simp_thms)
qed

lemma ed_addr_range: "ed_addr (show_nat n @ CHR '','' # show_nat m) = Some (n, m)"
proof -
  let ?s = "show_nat n @ CHR '','' # show_nat m"
  have "takeWhile is_digit ?s = show_nat n \<and> dropWhile is_digit ?s = CHR '','' # show_nat m"
    by (rule takeWhile_digits[OF show_nat_digits(1)]) (simp add: is_digit_def)
  then show ?thesis
    using show_nat_digits(2)[of n] show_nat_digits[of m] by (simp add: ed_addr_def dec_value_show Let_def)
qed

lemma ed_cmd_range: "ed_cmd (formatRange lo hi @ [c] @ nl) = Some ((lo, hi), c)"
  by (simp add: ed_cmd_def butlast_append formatRange_def ed_addr_single ed_addr_range)

lemma ed_cmd_line: "ed_cmd (show_nat n @ [c] @ nl) = Some ((n, n), c)"
  using ed_cmd_range[of n n c] by (simp add: formatRange_def)

lemma digits_no_newline: "newline \<notin> set (show_nat n)"
  using show_nat_digits(1)[of n] by (auto simp: list_all_iff is_digit_def)

lemma formatRange_no_newline: "newline \<notin> set (formatRange lo hi)"
  by (auto simp: formatRange_def digits_no_newline)

definition ed_lines :: "string list \<Rightarrow> opcode list \<Rightarrow> string list" where
  "ed_lines b ops = concat (map (\<lambda>(header, body). header # map with_nl body) (rev (concat (map (ed_hunk b) ops))))"

lemma writeEd_lines: "writeEd b ops = concat (ed_lines b ops)"
proof -
  have "concat (map (\<lambda>(header, body). header @ concat (map with_nl body)) hs)
      = concat (concat (map (\<lambda>(header, body). header # map with_nl body) hs))" for hs
    by (induction hs) auto
  then show ?thesis by (simp only: writeEd_def ed_lines_def)
qed

lemma ed_lines_Cons: "ed_lines b (op # ops) = ed_lines b ops @ concat (map (\<lambda>(header, body). header # map with_nl body) (ed_hunk b op))"
  by (simp add: ed_lines_def ed_hunk_def)

lemma ed_lines_nl: "file_lines b \<Longrightarrow> l \<in> set (ed_lines b ops) \<Longrightarrow> nl_line l"
proof -
  assume b: "file_lines b" and l: "l \<in> set (ed_lines b ops)"
  have body: "nl_line (with_nl x)" if "x \<in> set (lines_between b i j)" for x i j
    using b set_lines_between[OF that] by (intro with_nl_line) (auto simp: file_lines_def)
  have head: "nl_line (formatRange lo hi @ [c] @ nl)" "nl_line (show_nat n @ [c] @ nl)" if "c \<noteq> newline" for lo hi n c
    using nl_lineI[of "formatRange lo hi @ [c]"] nl_lineI[of "show_nat n @ [c]"] that
      formatRange_no_newline[of lo hi] digits_no_newline[of n] by auto
  have dot: "nl_line (with_nl (''.'' @ nl))" by (simp add: with_nl_def hasNL_iff nl_line_def)
  from l obtain op header bd where "(header, bd) \<in> set (ed_hunk b op)" "l = header \<or> l \<in> with_nl ` set bd"
    by (auto simp: ed_lines_def)
  then show ?thesis
    using head[of "CHR ''c''"] head[of "CHR ''d''"] head[of "CHR ''a''"] dot body
    by (auto simp: ed_hunk_def split: if_splits)
qed

text \<open>One hunk, applied to a buffer whose lines from the hunk's end on are already those of the new file.\<close>

lemma body_until_dot:
  assumes "\<forall>l \<in> set b. with_nl l \<noteq> dot_line"
  shows "takeWhile (\<lambda>l. l \<noteq> dot_line) (map with_nl (lines_between b i j) @ dot_line # rest) = map with_nl (lines_between b i j)"
    and "dropWhile (\<lambda>l. l \<noteq> dot_line) (map with_nl (lines_between b i j) @ dot_line # rest) = dot_line # rest"
proof -
  have "l \<noteq> dot_line" if "l \<in> set (map with_nl (lines_between b i j))" for l
    using that assms set_lines_between[of _ b i j] by auto
  then show "takeWhile (\<lambda>l. l \<noteq> dot_line) (map with_nl (lines_between b i j) @ dot_line # rest) = map with_nl (lines_between b i j)"
    and "dropWhile (\<lambda>l. l \<noteq> dot_line) (map with_nl (lines_between b i j) @ dot_line # rest) = dot_line # rest"
    by (auto simp only: takeWhile_append2 dropWhile_append2 takeWhile.simps dropWhile.simps append_Nil2 simp_thms if_False)
qed

lemma ed_run_hunk:
  fixes a b :: "string list"
  assumes ok: "op_ok a b op" and dots: "\<forall>l \<in> set b. with_nl l \<noteq> dot_line"
  defines "A \<equiv> map with_nl a" and "B \<equiv> map with_nl b"
  shows "ed_run (concat (map (\<lambda>(header, body). header # map with_nl body) (ed_hunk b op)) @ rest)
           (take (op_I2 op) A @ drop (op_J2 op) B) = ed_run rest (take (op_I1 op) A @ drop (op_J1 op) B)"
proof -
  define buf where "buf = take (op_I2 op) A @ drop (op_J2 op) B"
  have le: "op_I1 op \<le> op_I2 op" "op_I2 op \<le> length A" "op_J1 op \<le> op_J2 op" using ok by (auto simp: op_ok_def A_def)
  have parts: "take (op_I1 op) buf = take (op_I1 op) A" "drop (op_I2 op) buf = drop (op_J2 op) B"
    "op_I2 op \<le> length buf" using le by (auto simp: min_def buf_def)
  have ins: "map with_nl (lines_between b (op_J1 op) (op_J2 op)) @ drop (op_J2 op) B = drop (op_J1 op) B"
    using lines_between_drop[OF le(3), of B] by (simp add: map_lines_between B_def)
  have dot: "with_nl (''.'' @ nl) = dot_line" by (simp add: with_nl_def hasNL_iff dot_line_def)
  note body = body_until_dot[OF dots, of "op_J1 op" "op_J2 op" rest]
  consider "op_Tag op = CHR ''e''" | "op_Tag op = CHR ''r''" | "op_Tag op = CHR ''d''" | "op_Tag op = CHR ''i''"
    using ok by (auto simp: op_ok_def)
  then show ?thesis
  proof cases
    case 1
    then have eq: "lines_between A (op_I1 op) (op_I2 op) = map with_nl (lines_between b (op_J1 op) (op_J2 op))"
      using ok by (auto simp: op_ok_def A_def map_lines_between[symmetric])
    have "buf = take (op_I1 op) A @ drop (op_J1 op) B"
      using take_lines_between[OF le(1), of A, symmetric] ins eq by (simp add: buf_def)
    with 1 show ?thesis unfolding buf_def[symmetric] by (simp add: ed_hunk_def)
  next
    case 2
    then have "op_I1 op < op_I2 op" using ok by (auto simp: op_ok_def)
    with 2 show ?thesis unfolding buf_def[symmetric]
      using parts body ins dot ed_cmd_range[of "Suc (op_I1 op)" "op_I2 op" "CHR ''c''"]
      by (simp add: ed_hunk_def ed_run.simps(2) Let_def)
  next
    case 3
    then have "op_I1 op < op_I2 op" "op_J1 op = op_J2 op" using ok by (auto simp: op_ok_def)
    with 3 show ?thesis unfolding buf_def[symmetric]
      using parts ed_cmd_range[of "Suc (op_I1 op)" "op_I2 op" "CHR ''d''"]
      by (simp add: ed_hunk_def ed_run.simps(2) Let_def)
  next
    case 4
    then have "op_I1 op = op_I2 op" using ok by (auto simp: op_ok_def)
    with 4 show ?thesis unfolding buf_def[symmetric]
      using parts body ins dot ed_cmd_line[of "op_I1 op" "CHR ''a''"]
      by (simp add: ed_hunk_def ed_run.simps(2) Let_def)
  qed
qed

lemma ed_run_script:
  assumes "tiles a b i j ops" and "\<forall>l \<in> set b. with_nl l \<noteq> dot_line"
  shows "ed_run (ed_lines b ops @ rest) (map with_nl a)
    = ed_run rest (take i (map with_nl a) @ drop j (map with_nl b))"
  using assms(1)
proof (induction ops arbitrary: i j rest)
  case Nil
  then show ?case by (simp add: ed_lines_def)
next
  case (Cons op ops)
  then have "tiles a b (op_I2 op) (op_J2 op) ops" "op_ok a b op" "op_I1 op = i" "op_J1 op = j" by auto
  then show ?case using Cons.IH ed_run_hunk[of a b op rest] assms(2) by (simp add: ed_lines_Cons)
qed

text \<open>C22: The ed script of diff -e, read back from its text by an interpreter of ed commands, turns the first file into the second, line by line, for all files and all operation codes that tile them, provided no line of the second file is a single dot; a missing final newline is supplied, as ed does.\<close>

theorem ed_script_applies:
  assumes "tiles (splitLines c1) (splitLines c2) 0 0 ops" and "\<forall>l \<in> set (splitLines c2). with_nl l \<noteq> dot_line"
  shows "ed_run (splitLines (writeEd (splitLines c2) ops)) (map with_nl (splitLines c1)) = Some (map with_nl (splitLines c2))"
proof -
  have "splitLines (writeEd (splitLines c2) ops) = ed_lines (splitLines c2) ops"
    unfolding writeEd_lines by (rule splitLines_concat) (use ed_lines_nl[OF splitLines_file_lines] in blast)
  then show ?thesis using ed_run_script[OF assms, of "[]"] by simp
qed

definition mk_op :: "char \<Rightarrow> nat \<Rightarrow> nat \<Rightarrow> nat \<Rightarrow> nat \<Rightarrow> opcode" where
  "mk_op t i1 i2 j1 j2 = \<lparr>op_Tag = t, op_I1 = i1, op_I2 = i2, op_J1 = j1, op_J2 = j2\<rparr>"

definition demo_old :: string where "demo_old = ''a'' @ nl @ ''b'' @ nl @ ''c'' @ nl"
definition demo_new :: string where "demo_new = ''x'' @ nl @ ''a'' @ nl @ ''y''"

definition demo_codes :: "opcode list" where
  "demo_codes = [mk_op (CHR ''i'') 0 0 0 1, mk_op (CHR ''e'') 0 1 1 2, mk_op (CHR ''r'') 1 3 2 3]"

lemma demo_tiles: "tiles (splitLines demo_old) (splitLines demo_new) 0 0 demo_codes"
  by code_simp

theorem ed_script_applies_witness:
  "ed_run (splitLines (writeEd (splitLines demo_new) demo_codes)) (map with_nl (splitLines demo_old))
     = Some [''x'' @ nl, ''a'' @ nl, ''y'' @ nl]"
proof -
  have "\<forall>l \<in> set (splitLines demo_new). with_nl l \<noteq> dot_line" by code_simp
  moreover have "map with_nl (splitLines demo_new) = [''x'' @ nl, ''a'' @ nl, ''y'' @ nl]" by code_simp
  ultimately show ?thesis using ed_script_applies[OF demo_tiles] by simp
qed

text \<open>
  A line with a single dot in the new file ends the input of its command early: the script for
  adding the lines \<^verbatim>\<open>.\<close> and \<^verbatim>\<open>q\<close> to an empty file is not accepted.
\<close>

lemma ed_script_dot_line:
  "tiles [] [''.'' @ nl, ''q'' @ nl] 0 0 [mk_op (CHR ''i'') 0 0 0 2] \<and>
   ed_run (splitLines (writeEd [''.'' @ nl, ''q'' @ nl] [mk_op (CHR ''i'') 0 0 0 2])) [] = None"
  by code_simp

section \<open>Unified diffs\<close>

text \<open>
  A patch function for unified diffs.  A line is paired with whether the marker of a missing
  newline follows it; a header moves to the start of its hunk, copying the lines before it; the
  other lines are kept, dropped or added by their first character.
\<close>

fun unmark :: "string list \<Rightarrow> (string \<times> bool) list" where
  "unmark [] = []"
| "unmark [l] = [(l, False)]"
| "unmark (l # m # ls) = (if hasPrefix m [backslash] then (l, True) # unmark ls else (l, False) # unmark (m # ls))"

definition hunk_start :: "string \<Rightarrow> nat" where
  "hunk_start l =
     (let s = drop 4 l; n = dec_value 0 (takeWhile is_digit s); r = dropWhile is_digit s;
          count = (if hasPrefix r '','' then dec_value 0 (takeWhile is_digit (tl r)) else 1)
      in if count = 0 then n else n - 1)"

fun patch :: "string list \<Rightarrow> nat \<Rightarrow> (string \<times> bool) list \<Rightarrow> string list option" where
  "patch a pos [] = Some (drop pos a)"
| "patch a pos ((l, marked) # ts) =
     (let x = (if marked then butlast (tl l) else tl l)
      in if hasPrefix l ''@@ -'' then
           (if pos \<le> hunk_start l \<and> hunk_start l \<le> length a
            then map_option ((@) (lines_between a pos (hunk_start l))) (patch a (hunk_start l) ts) else None)
         else if hasPrefix l '' '' then
           (if pos < length a \<and> a ! pos = x then map_option ((#) x) (patch a (Suc pos) ts) else None)
         else if hasPrefix l ''-'' then (if pos < length a \<and> a ! pos = x then patch a (Suc pos) ts else None)
         else if hasPrefix l ''+'' then map_option ((#) x) (patch a pos ts)
         else None)"

definition apply_unified :: "string \<Rightarrow> string list \<Rightarrow> string list option" where
  "apply_unified text a = patch a 0 (unmark (drop 2 (splitLines text)))"

text \<open>Consecutive codes, and groups of them between which both sequences agree.\<close>

fun chain :: "string list \<Rightarrow> string list \<Rightarrow> nat \<Rightarrow> nat \<Rightarrow> opcode list \<Rightarrow> bool" where
  "chain a b i j [] \<longleftrightarrow> True"
| "chain a b i j (op # ops) \<longleftrightarrow>
     op_I1 op = i \<and> op_J1 op = j \<and> op_ok a b op \<and> chain a b (op_I2 op) (op_J2 op) ops"

fun covers :: "string list \<Rightarrow> string list \<Rightarrow> nat \<Rightarrow> nat \<Rightarrow> opcode list list \<Rightarrow> bool" where
  "covers a b i j [] \<longleftrightarrow> drop i a = drop j b"
| "covers a b i j (g # gs) \<longleftrightarrow>
     g \<noteq> [] \<and> i \<le> op_I1 (hd g) \<and> j \<le> op_J1 (hd g) \<and>
     lines_between a i (op_I1 (hd g)) = lines_between b j (op_J1 (hd g)) \<and>
     chain a b (op_I1 (hd g)) (op_J1 (hd g)) g \<and> covers a b (op_I2 (last g)) (op_J2 (last g)) gs"

text \<open>The lines of the text.\<close>

definition tok :: "char \<Rightarrow> string \<Rightarrow> string \<times> bool" where
  "tok p l = (if hasNL l then (p # l, False) else (p # l @ nl, True))"

definition u_lines :: "char \<Rightarrow> string \<Rightarrow> string list" where
  "u_lines p l = (if hasNL l then [p # l] else [p # l @ nl, backslash # '' No newline at end of file'' @ nl])"

lemma writePrefixed_lines: "writePrefixed [p] l = concat (u_lines p l)"
  by (simp add: writePrefixed_def u_lines_def)

lemma u_lines_nl: "l \<noteq> [] \<Longrightarrow> newline \<notin> set (butlast l) \<Longrightarrow> p \<noteq> newline \<Longrightarrow> m \<in> set (u_lines p l) \<Longrightarrow> nl_line m"
  by (cases l rule: rev_cases) (auto simp: u_lines_def nl_line_def hasNL_iff butlast_append split: if_splits)

definition no_mark :: "string list \<Rightarrow> bool" where
  "no_mark ls \<longleftrightarrow> (case ls of [] \<Rightarrow> True | l # _ \<Rightarrow> \<not> hasPrefix l [backslash])"

lemma unmark_plain: "no_mark rest \<Longrightarrow> unmark (l # rest) = (l, False) # unmark rest"
  by (cases rest) (auto simp: no_mark_def)

lemma unmark_u_lines: "no_mark rest \<Longrightarrow> unmark (u_lines p l @ rest) = tok p l # unmark rest"
  by (auto simp: u_lines_def tok_def unmark_plain)

definition pair_lines :: "(char \<times> string) list \<Rightarrow> string list" where
  "pair_lines pls = concat (map (\<lambda>(p, l). u_lines p l) pls)"

definition pair_toks :: "(char \<times> string) list \<Rightarrow> (string \<times> bool) list" where
  "pair_toks pls = map (\<lambda>(p, l). tok p l) pls"

lemma no_mark_pair_lines: "(\<forall>(p, l) \<in> set pls. p \<noteq> backslash) \<Longrightarrow> no_mark rest \<Longrightarrow> no_mark (pair_lines pls @ rest)"
  by (cases pls) (auto simp: no_mark_def pair_lines_def u_lines_def)

lemma unmark_pair_lines:
  "(\<forall>(p, l) \<in> set pls. p \<noteq> backslash) \<Longrightarrow> no_mark rest \<Longrightarrow>
   unmark (pair_lines pls @ rest) = pair_toks pls @ unmark rest"
proof (induction pls)
  case (Cons pl pls)
  then show ?case
    using no_mark_pair_lines[of pls rest]
    by (cases pl) (simp add: pair_lines_def pair_toks_def unmark_u_lines)
qed (simp add: pair_lines_def pair_toks_def)

text \<open>What patch does with the lines of one kind.\<close>

lemma patch_tok:
  "patch a i (tok (CHR ''+'') l # ts) = map_option ((#) l) (patch a i ts)"
  "patch a i (tok (CHR '' '') l # ts) = (if i < length a \<and> a ! i = l then map_option ((#) l) (patch a (Suc i) ts) else None)"
  "patch a i (tok (CHR ''-'') l # ts) = (if i < length a \<and> a ! i = l then patch a (Suc i) ts else None)"
  by (simp_all add: tok_def)

lemma patch_add: "patch a i (map (tok (CHR ''+'')) ls @ ts) = map_option ((@) ls) (patch a i ts)"
  by (induction ls) (simp_all add: patch_tok option.map_comp comp_def option.map_ident)

lemma patch_keep:
  assumes "lines_between a i j = ls" and "i \<le> j" and "j \<le> length a"
  shows "patch a i (map (tok (CHR '' '')) ls @ ts) = map_option ((@) ls) (patch a j ts)"
    and "patch a i (map (tok (CHR ''-'')) ls @ ts) = patch a j ts"
proof -
  have len: "length ls = j - i" using assms by (auto simp: lines_between_def)
  have "patch a i (map (tok (CHR '' '')) ls @ ts) = map_option ((@) ls) (patch a j ts) \<and>
        patch a i (map (tok (CHR ''-'')) ls @ ts) = patch a j ts"
    using assms len
  proof (induction ls arbitrary: i)
    case Nil
    then show ?case by (simp add: option.map_ident)
  next
    case (Cons l ls)
    then have i: "i < j" by simp
    have "lines_between a i j = a ! i # lines_between a (Suc i) j"
      using i Cons.prems(3) by (simp add: lines_between_def Cons_nth_drop_Suc[symmetric] take_Cons' Suc_diff_Suc)
    then have l: "a ! i = l" "lines_between a (Suc i) j = ls" using Cons.prems(1) by auto
    have "patch a (Suc i) (map (tok (CHR '' '')) ls @ ts) = map_option ((@) ls) (patch a j ts) \<and>
          patch a (Suc i) (map (tok (CHR ''-'')) ls @ ts) = patch a j ts"
      using Cons.IH[OF l(2)] i Cons.prems(3,4) by simp
    then show ?case using i Cons.prems(3) l(1) by (simp add: patch_tok option.map_comp comp_def)
  qed
  then show "patch a i (map (tok (CHR '' '')) ls @ ts) = map_option ((@) ls) (patch a j ts)"
    and "patch a i (map (tok (CHR ''-'')) ls @ ts) = patch a j ts" by auto
qed

definition op_tokens :: "string list \<Rightarrow> string list \<Rightarrow> opcode \<Rightarrow> (char \<times> string) list" where
  "op_tokens a b op =
     (if op_Tag op = CHR ''e'' then map (Pair (CHR '' '')) (lines_between a (op_I1 op) (op_I2 op))
      else if op_Tag op = CHR ''r'' then
        map (Pair (CHR ''-'')) (lines_between a (op_I1 op) (op_I2 op)) @ map (Pair (CHR ''+'')) (lines_between b (op_J1 op) (op_J2 op))
      else if op_Tag op = CHR ''d'' then map (Pair (CHR ''-'')) (lines_between a (op_I1 op) (op_I2 op))
      else if op_Tag op = CHR ''i'' then map (Pair (CHR ''+'')) (lines_between b (op_J1 op) (op_J2 op))
      else [])"

lemma pair_toks_map: "pair_toks (map (Pair p) ls) = map (tok p) ls"
  by (simp add: pair_toks_def)

lemma patch_op:
  assumes "op_ok a b op"
  shows "patch a (op_I1 op) (pair_toks (op_tokens a b op) @ ts)
    = map_option ((@) (lines_between b (op_J1 op) (op_J2 op))) (patch a (op_I2 op) ts)"
proof -
  have le: "op_I1 op \<le> op_I2 op" "op_I2 op \<le> length a" using assms by (auto simp: op_ok_def)
  note keep = patch_keep[OF refl le] and empty = lines_between_def
  consider "op_Tag op = CHR ''e''" "lines_between a (op_I1 op) (op_I2 op) = lines_between b (op_J1 op) (op_J2 op)"
    | "op_Tag op = CHR ''r''" | "op_Tag op = CHR ''d''" "op_J1 op = op_J2 op" | "op_Tag op = CHR ''i''" "op_I1 op = op_I2 op"
    using assms by (auto simp: op_ok_def)
  then show ?thesis
  proof cases
    case 1
    then show ?thesis using keep(1)[of ts] by (simp add: op_tokens_def pair_toks_map)
  next
    case 2
    then show ?thesis by (simp add: op_tokens_def pair_toks_def keep(2)[unfolded map_map] patch_add comp_def)
  next
    case 3
    then show ?thesis using keep(2)[of ts] by (simp add: op_tokens_def pair_toks_map empty option.map_ident)
  next
    case 4
    then show ?thesis by (simp add: op_tokens_def pair_toks_map patch_add)
  qed
qed

lemma chain_patch:
  assumes "chain a b i j g" and "g \<noteq> []"
  shows "patch a i (pair_toks (concat (map (op_tokens a b) g)) @ ts)
    = map_option ((@) (lines_between b j (op_J2 (last g)))) (patch a (op_I2 (last g)) ts) \<and> j \<le> op_J2 (last g)"
  using assms
proof (induction g arbitrary: i j)
  case (Cons op g)
  then have op: "op_I1 op = i" "op_J1 op = j" "op_ok a b op" "chain a b (op_I2 op) (op_J2 op) g" "op_J1 op \<le> op_J2 op"
    by (auto simp: op_ok_def)
  let ?ts = "pair_toks (concat (map (op_tokens a b) g)) @ ts"
  have first: "patch a i (pair_toks (concat (map (op_tokens a b) (op # g))) @ ts)
      = map_option ((@) (lines_between b j (op_J2 op))) (patch a (op_I2 op) ?ts)"
    using patch_op[OF op(3), of ?ts] op(1,2) by (simp add: pair_toks_def)
  show ?case
  proof (cases "g = []")
    case True
    then show ?thesis using first op(2,5) by (simp add: pair_toks_def)
  next
    case False
    note IH = Cons.IH[OF op(4) False]
    have "lines_between b j (op_J2 op) @ lines_between b (op_J2 op) (op_J2 (last g)) = lines_between b j (op_J2 (last g))"
      by (rule lines_between_append) (use IH op in auto)
    then show ?thesis using first IH False op(2,5) by (auto simp: option.map_comp comp_def simp flip: append_assoc)
  qed
qed simp

lemma hunk_start_header: "hunk_start (''@@ -'' @ unifiedRange s c @ CHR '' '' # r) = s"
proof -
  have nd: "\<not> is_digit (CHR '','')" "\<not> is_digit (CHR '' '')" by (simp_all add: is_digit_def)
  have tw: "takeWhile is_digit (show_nat n @ x # xs) = show_nat n \<and> dropWhile is_digit (show_nat n @ x # xs) = x # xs"
    if "\<not> is_digit x" for n x xs
    by (rule takeWhile_digits[OF show_nat_digits(1)]) (simp add: that)
  show ?thesis
    using tw[OF nd(1)] tw[OF nd(2)] show_nat_digits(2)
    by (simp add: hunk_start_def unifiedRange_def dec_value_show Let_def is_digit_def)
qed

text \<open>The text of a group is its header followed by the lines of its codes.\<close>

definition group_header :: "opcode list \<Rightarrow> string" where
  "group_header g =
     ''@@ -'' @ unifiedRange (op_I1 (hd g)) (op_I2 (last g) - op_I1 (hd g)) @ '' +''
       @ unifiedRange (op_J1 (hd g)) (op_J2 (last g) - op_J1 (hd g)) @ '' @@'' @ nl"

definition group_lines :: "string list \<Rightarrow> string list \<Rightarrow> opcode list \<Rightarrow> string list" where
  "group_lines a b g = group_header g # pair_lines (concat (map (op_tokens a b) g))"

lemma prefixed_pair_lines: "prefixed_lines [p] xs i j = concat (pair_lines (map (Pair p) (lines_between xs i j)))"
proof -
  have "concat (map (writePrefixed [p]) ls) = concat (pair_lines (map (Pair p) ls))" for ls
    by (induction ls) (simp_all add: pair_lines_def writePrefixed_lines)
  then show ?thesis by (simp add: prefixed_lines_def)
qed

lemma pair_lines_append: "pair_lines (xs @ ys) = pair_lines xs @ pair_lines ys"
  by (simp add: pair_lines_def)

lemma unified_op_lines: "unified_op a b op = concat (pair_lines (op_tokens a b op))"
  by (simp add: unified_op_def op_tokens_def prefixed_pair_lines pair_lines_append) (simp add: pair_lines_def)

lemma unified_group_lines: "unified_group a b g = concat (group_lines a b g)"
proof -
  have "concat (map (unified_op a b) g) = concat (pair_lines (concat (map (op_tokens a b) g)))" for g
    by (induction g) (simp_all add: unified_op_lines pair_lines_append, simp add: pair_lines_def)
  then show ?thesis by (simp add: unified_group_def group_lines_def group_header_def)
qed

lemma unifiedRange_no_newline: "newline \<notin> set (unifiedRange s c)"
  by (auto simp: unifiedRange_def digits_no_newline)

lemma op_tokens_set:
  "(p, l) \<in> set (op_tokens a b op) \<Longrightarrow> (p = CHR '' '' \<or> p = CHR ''-'' \<or> p = CHR ''+'') \<and> (l \<in> set a \<or> l \<in> set b)"
  by (auto simp: op_tokens_def dest: set_lines_between split: if_splits)

lemma group_lines_nl:
  assumes "file_lines a" and "file_lines b" and "l \<in> set (group_lines a b g)"
  shows "nl_line l"
proof (cases "l = group_header g")
  case True
  have "group_header g = (''@@ -'' @ unifiedRange (op_I1 (hd g)) (op_I2 (last g) - op_I1 (hd g)) @ '' +''
       @ unifiedRange (op_J1 (hd g)) (op_J2 (last g) - op_J1 (hd g)) @ '' @@'') @ nl"
    by (simp add: group_header_def)
  then show ?thesis unfolding True by (simp only:) (rule nl_lineI, simp add: unifiedRange_no_newline)
next
  case False
  then obtain op p x where "(p, x) \<in> set (op_tokens a b op)" and l: "l \<in> set (u_lines p x)"
    using assms(3) by (auto simp: group_lines_def pair_lines_def)
  then show ?thesis
    using op_tokens_set assms(1,2) u_lines_nl[of x p l] by (fastforce simp: file_lines_def)
qed

lemma patch_group:
  assumes cov: "covers a b i j (g # gs)" and nm: "no_mark rest"
  shows "patch a i (unmark (group_lines a b g @ rest))
    = map_option ((@) (lines_between b j (op_J2 (last g)))) (patch a (op_I2 (last g)) (unmark rest))"
proof -
  let ?pls = "concat (map (op_tokens a b) g)" and ?i = "op_I1 (hd g)" and ?j = "op_J1 (hd g)"
  have c: "g \<noteq> []" "i \<le> ?i" "j \<le> ?j" "lines_between a i ?i = lines_between b j ?j" "chain a b ?i ?j g"
    using cov by auto
  have "?i \<le> length a" using c(1,5) by (cases g) (auto simp: op_ok_def)
  have e: "?j \<le> op_J2 (last g)" using chain_patch[OF c(5,1), of "[]"] by simp
  have ps: "\<forall>(p, l) \<in> set ?pls. p \<noteq> backslash" using op_tokens_set by fastforce
  have hs: "hunk_start (group_header g) = ?i" "hasPrefix (group_header g) ''@@ -''"
    using hunk_start_header[of ?i] by (simp_all add: group_header_def)
  have "unmark (group_lines a b g @ rest) = (group_header g, False) # pair_toks ?pls @ unmark rest"
    using no_mark_pair_lines[OF ps nm] unmark_pair_lines[OF ps nm]
    by (simp add: group_lines_def unmark_plain)
  then have "patch a i (unmark (group_lines a b g @ rest))
      = map_option ((@) (lines_between b j ?j)) (patch a ?i (pair_toks ?pls @ unmark rest))"
    using c(2,4) \<open>?i \<le> length a\<close> hs by simp
  also have "\<dots> = map_option ((@) (lines_between b j ?j @ lines_between b ?j (op_J2 (last g)))) (patch a (op_I2 (last g)) (unmark rest))"
    using chain_patch[OF c(5,1), of "unmark rest"] by (simp add: map_option_append)
  finally show ?thesis by (simp only: lines_between_append[OF c(3) e])
qed

lemma patch_groups:
  assumes "covers a b i j groups"
  shows "patch a i (unmark (concat (map (group_lines a b) groups))) = Some (drop j b)"
  using assms
proof (induction groups arbitrary: i j)
  case (Cons g gs)
  have nm: "no_mark (concat (map (group_lines a b) gs))"
    by (cases gs) (auto simp: no_mark_def group_lines_def group_header_def)
  have "j \<le> op_J2 (last g)"
    using Cons.prems chain_patch[of a b "op_I1 (hd g)" "op_J1 (hd g)" g "[]"] by simp
  then show ?case
    using patch_group[OF Cons.prems nm] Cons.IH[of "op_I2 (last g)" "op_J2 (last g)"] Cons.prems
    by (simp add: lines_between_drop)
qed simp

text \<open>C9: The unified diff, read back from its text by a patch function that checks every context and removed line, turns the first file into the second, byte for byte, including files without a final newline: for all files, all context sizes and all groups of operation codes between which the files agree.\<close>

theorem unified_diff_applies:
  assumes "covers (splitLines c1) (splitLines c2) 0 0 groups" and "groups \<noteq> []"
    and "newline \<notin> set (f1 @ f2 @ t1 @ t2)"
  shows "map_option concat (apply_unified (writeUnified f1 f2 t1 t2 (splitLines c1) (splitLines c2) groups) (splitLines c1)) = Some c2"
proof -
  let ?a = "splitLines c1" and ?b = "splitLines c2"
  let ?h1 = "''--- '' @ f1 @ [tab] @ t1 @ nl" and ?h2 = "''+++ '' @ f2 @ [tab] @ t2 @ nl"
  have h: "nl_line ?h1" "nl_line ?h2"
    using assms(3) nl_lineI[of "''--- '' @ f1 @ [tab] @ t1"] nl_lineI[of "''+++ '' @ f2 @ [tab] @ t2"] by auto
  have "writeUnified f1 f2 t1 t2 ?a ?b groups = concat (?h1 # ?h2 # concat (map (group_lines ?a ?b) groups))"
  proof -
    have "concat (map (unified_group ?a ?b) gs) = concat (concat (map (group_lines ?a ?b) gs))" for gs
      by (induction gs) (simp_all add: unified_group_lines)
    then show ?thesis using assms(2) by (simp add: writeUnified_def)
  qed
  moreover have "\<forall>l \<in> set (?h1 # ?h2 # concat (map (group_lines ?a ?b) groups)). nl_line l"
    using h group_lines_nl[OF splitLines_file_lines splitLines_file_lines] by auto
  ultimately have "splitLines (writeUnified f1 f2 t1 t2 ?a ?b groups) = ?h1 # ?h2 # concat (map (group_lines ?a ?b) groups)"
    by (simp only: splitLines_concat)
  then show ?thesis using patch_groups[OF assms(1)] by (simp add: apply_unified_def)
qed

theorem unified_diff_applies_witness:
  "map_option concat (apply_unified (writeUnified ''old'' ''new'' ''t1'' ''t2'' (splitLines demo_old) (splitLines demo_new) [demo_codes])
     (splitLines demo_old)) = Some demo_new"
proof (rule unified_diff_applies)
  show "covers (splitLines demo_old) (splitLines demo_new) 0 0 [demo_codes]" by code_simp
qed simp_all

section \<open>Exit status\<close>

text \<open>The content of a file operand, apart from what reading changes.\<close>

definition content :: "'s diff_env \<Rightarrow> string \<Rightarrow> fs_err + string" where
  "content E p =
     (case de_fs E of
        None \<Rightarrow> Inl (ErrOther ''no filesystem'')
      | Some F \<Rightarrow>
          (case fs_open F (de_state E) (resolvePath (de_dir E) p) of
             Inl e \<Rightarrow> Inl e | Inr (Inl e) \<Rightarrow> Inl e | Inr (Inr bs) \<Rightarrow> Inr bs))"

lemma readContent_file:
  assumes "p \<noteq> ''-''"
  shows "readContent E p st = (map_sum id (\<lambda>c. (c, de_clock E (ds_ticks st))) (content E p), st\<lparr>ds_ticks := Suc (ds_ticks st)\<rparr>)"
  using assms by (auto simp: readContent_def content_def Let_def split: option.splits sum.splits)

definition same_file :: "'s diff_env \<Rightarrow> compareOptions \<Rightarrow> string \<Rightarrow> string \<Rightarrow> bool" where
  "same_file E opts p1 p2 =
     (case (content E p1, content E p2) of
        (Inr c1, Inr c2) \<Rightarrow> normalizeLines (de_unicode E) (splitLines c1) (ignoreCase opts) (ignoreSpace opts)
                             = normalizeLines (de_unicode E) (splitLines c2) (ignoreCase opts) (ignoreSpace opts)
      | _ \<Rightarrow> False)"

definition diff_status :: "exit_result \<Rightarrow> bool" where
  "diff_status r \<longleftrightarrow> r = ExitOk \<or> r = ExitStatus 1 \<or> r = ExitStatus 2"

lemma diffFiles_status:
  assumes "p1 \<noteq> ''-''" and "p2 \<noteq> ''-''"
  shows "diff_status (fst (diffFiles E p1 p2 opts st)) \<and>
    (fst (diffFiles E p1 p2 opts st) = ExitOk \<longleftrightarrow> same_file E opts p1 p2)"
  by (auto simp: diffFiles_def readContent_file[OF assms(1)] readContent_file[OF assms(2)] same_file_def diff_status_def
      Let_def split: sum.splits prod.splits)

text \<open>The tables and the matcher of a file comparison, as the properties use them.\<close>

definition matcher_ok :: "difflib \<Rightarrow> string list \<Rightarrow> string list \<Rightarrow> nat \<Rightarrow> bool" where
  "matcher_ok D a b n \<longleftrightarrow> tiles a b 0 0 (GetOpCodes D a b) \<and> covers a b 0 0 (GetGroupedOpCodes D a b n)"

lemma tiles_all_equal: "tiles a b i j ops \<Longrightarrow> (\<forall>op \<in> set ops. op_Tag op = CHR ''e'') \<Longrightarrow> drop i a = drop j b"
proof (induction ops arbitrary: i j)
  case (Cons op ops)
  then have op: "op_ok a b op" "op_Tag op = CHR ''e''" "op_I1 op = i" "op_J1 op = j" "drop (op_I2 op) a = drop (op_J2 op) b"
    by auto
  then have "lines_between a i (op_I2 op) @ drop (op_I2 op) a = lines_between b j (op_J2 op) @ drop (op_J2 op) b"
    by (auto simp: op_ok_def)
  moreover have "i \<le> op_I2 op" "j \<le> op_J2 op" using op by (auto simp: op_ok_def)
  ultimately show ?case by (simp add: lines_between_drop)
qed simp

lemma tiles_changed:
  assumes "tiles a b 0 0 ops" and "a \<noteq> b"
  obtains op where "op \<in> set ops" "op_ok a b op" "op_Tag op = CHR ''r'' \<or> op_Tag op = CHR ''d'' \<or> op_Tag op = CHR ''i''"
proof -
  have ok: "tiles a b i j ops \<Longrightarrow> op \<in> set ops \<Longrightarrow> op_ok a b op" for i j op
    by (induction ops arbitrary: i j) auto
  obtain op where "op \<in> set ops" "op_Tag op \<noteq> CHR ''e''"
    using tiles_all_equal[OF assms(1)] assms(2) by auto
  then show thesis using that ok[OF assms(1)] by (auto simp: op_ok_def)
qed

lemma diff_body_not_Nil:
  assumes "matcher_ok (de_difflib E) a b (contextLines opts)" and "a \<noteq> b"
  shows "diff_body E opts f1 f2 t1 t2 a b a b \<noteq> []"
proof -
  obtain op where op: "op \<in> set (GetOpCodes (de_difflib E) a b)" "op_ok a b op"
    "op_Tag op = CHR ''r'' \<or> op_Tag op = CHR ''d'' \<or> op_Tag op = CHR ''i''"
    using assms tiles_changed unfolding matcher_ok_def by metis
  have g: "GetGroupedOpCodes (de_difflib E) a b (contextLines opts) \<noteq> []"
    using assms by (auto simp: matcher_ok_def)
  have "normal_op a b op \<noteq> []" "forward_op b op \<noteq> []"
    using op(3) by (auto simp: normal_op_def forward_op_def Let_def)
  then have w: "writeNormal a b (GetOpCodes (de_difflib E) a b) \<noteq> []" "writeForwardEd b (GetOpCodes (de_difflib E) a b) \<noteq> []"
    using op(1) by (auto simp: writeNormal_def writeForwardEd_def)
  obtain h bd where h: "(h, bd) \<in> set (ed_hunk b op)" "h \<noteq> []" using op(3) by (auto simp: ed_hunk_def)
  then have "h \<in> set (ed_lines b (GetOpCodes (de_difflib E) a b))" using op(1) by (force simp: ed_lines_def)
  with h(2) have "writeEd b (GetOpCodes (de_difflib E) a b) \<noteq> []" by (auto simp: writeEd_lines)
  then show ?thesis
    using g w
    by (cases "fmtKind opts") (auto simp: diff_body_def Let_def writeUnified_def writeContext_def)
qed

text \<open>Comparing two readable files exactly, diff ends with status 0 when the files have the same bytes and with status 1 when they do not; in the second case every output format prints something, and in the first it prints nothing unless identical files are to be reported.\<close>

theorem diff_exit_reports:
  assumes "p1 \<noteq> ''-''" and "p2 \<noteq> ''-''" and "content E p1 = Inr c1" and "content E p2 = Inr c2"
    and "\<not> ignoreCase opts" and "\<not> ignoreSpace opts"
    and "matcher_ok (de_difflib E) (splitLines c1) (splitLines c2) (contextLines opts)"
    and "diffFiles E p1 p2 opts st = (r, st')"
  shows "r = (if c1 = c2 then ExitOk else ExitStatus 1) \<and> ds_err st' = ds_err st \<and>
    (c1 \<noteq> c2 \<longrightarrow> ds_out st' \<noteq> ds_out st) \<and> (c1 = c2 \<longrightarrow> \<not> reportSame opts \<longrightarrow> ds_out st' = ds_out st)"
proof -
  have eq: "splitLines c1 = splitLines c2 \<longleftrightarrow> c1 = c2" by (metis concat_splitLines)
  have norm: "normalizeLines U ls (ignoreCase opts) (ignoreSpace opts) = ls" for U ls
    using assms(5,6) by (simp add: normalizeLines_def)
  show ?thesis
    using assms(8) diff_body_not_Nil[OF assms(7)] eq
    by (auto simp: diffFiles_def readContent_file[OF assms(1)] readContent_file[OF assms(2)] assms(3,4) norm
        out_def Let_def split: if_splits)
qed

section \<open>Directories\<close>

text \<open>
  What recursive comparison decides: the same names, the same kinds, and equal files; without
  -r common subdirectories are not looked into.
\<close>

fun same_dirs :: "nat \<Rightarrow> 's diff_env \<Rightarrow> compareOptions \<Rightarrow> string \<Rightarrow> string \<Rightarrow> bool" where
  "same_dirs 0 E opts d1 d2 \<longleftrightarrow> False"
| "same_dirs (Suc n) E opts d1 d2 \<longleftrightarrow>
     (case (readDirNames E d1, readDirNames E d2) of
        (Inr ns1, Inr ns2) \<Rightarrow>
          set ns1 = set ns2 \<and>
          (\<forall>name \<in> set ns1.
             let p1 = path_join [d1, name]; p2 = path_join [d2, name]
             in if is_dir E p1 \<and> is_dir E p2 then recursive opts \<longrightarrow> same_dirs n E opts p1 p2
                else \<not> is_dir E p1 \<and> \<not> is_dir E p2 \<and> same_file E opts p1 p2)
      | _ \<Rightarrow> False)"

text \<open>The directories form a finite tree: a height falls from a directory to its subdirectories.\<close>

definition finite_dirs :: "'s diff_env \<Rightarrow> (string \<Rightarrow> nat) \<Rightarrow> bool" where
  "finite_dirs E height \<longleftrightarrow>
     (\<forall>d ns name. readDirNames E d = Inr ns \<longrightarrow> name \<in> set ns \<longrightarrow> is_dir E (path_join [d, name]) \<longrightarrow>
        height (path_join [d, name]) < height d)"

definition no_dash :: "'s diff_env \<Rightarrow> bool" where
  "no_dash E \<longleftrightarrow> (\<forall>d ns name. readDirNames E d = Inr ns \<longrightarrow> name \<in> set ns \<longrightarrow> (\<forall>d'. path_join [d', name] \<noteq> ''-''))"

definition decides :: "(bool + exit_result) \<Rightarrow> bool \<Rightarrow> bool" where
  "decides v P \<longleftrightarrow> (v = Inl False \<longleftrightarrow> P) \<and> (\<forall>e. v = Inr e \<longrightarrow> e = ExitStatus 2)"

lemma after_compare_decides:
  assumes "diff_status (fst r)"
  shows "\<exists>v st'. after_compare (Some r) = Some (v, st') \<and> decides v (fst r = ExitOk)"
  using assms by (cases r) (auto simp: after_compare_def decides_def diff_status_def)

lemma diff_names_decides:
  assumes "\<And>name st. name \<in> set names \<Longrightarrow> \<exists>v st'. one name st = Some (v, st') \<and> decides v (P name)"
  shows "\<exists>r st'. diff_names one names differed st = Some (r, st') \<and> diff_status r \<and>
    (r = ExitOk \<longleftrightarrow> \<not> differed \<and> (\<forall>name \<in> set names. P name))"
  using assms
proof (induction names arbitrary: differed st)
  case Nil
  then show ?case by (auto simp: diff_status_def)
next
  case (Cons name names)
  obtain v st1 where v: "one name st = Some (v, st1)" "decides v (P name)" using Cons.prems[of name st] by auto
  show ?case
  proof (cases v)
    case (Inl d)
    obtain r st2 where "diff_names one names (differed \<or> d) st1 = Some (r, st2)" "diff_status r"
      "r = ExitOk \<longleftrightarrow> \<not> (differed \<or> d) \<and> (\<forall>name \<in> set names. P name)"
      using Cons.IH[of "differed \<or> d" st1] Cons.prems by auto
    then show ?thesis using v Inl by (auto simp: decides_def)
  next
    case (Inr e)
    then show ?thesis using v by (auto simp: decides_def diff_status_def)
  qed
qed

lemma diff_name_decides:
  assumes names: "readDirNames E d1 = Inr ns1" "readDirNames E d2 = Inr ns2" and nd: "no_dash E"
    and name: "name \<in> set ns1 \<or> name \<in> set ns2"
    and rec: "name \<in> set ns1 \<Longrightarrow> name \<in> set ns2 \<Longrightarrow> recursive opts \<Longrightarrow> is_dir E (path_join [d1, name]) \<Longrightarrow> is_dir E (path_join [d2, name]) \<Longrightarrow>
      \<exists>r st'. rec (path_join [d1, name]) (path_join [d2, name]) st = Some (r, st') \<and> diff_status r \<and> (r = ExitOk \<longleftrightarrow> S)"
  shows "\<exists>v st'. diff_name rec E d1 d2 opts ns1 ns2 name st = Some (v, st') \<and>
    decides v (name \<in> set ns1 \<and> name \<in> set ns2 \<and>
      (if is_dir E (path_join [d1, name]) \<and> is_dir E (path_join [d2, name]) then recursive opts \<longrightarrow> S
       else \<not> is_dir E (path_join [d1, name]) \<and> \<not> is_dir E (path_join [d2, name])
            \<and> same_file E opts (path_join [d1, name]) (path_join [d2, name])))"
proof -
  let ?p1 = "path_join [d1, name]" and ?p2 = "path_join [d2, name]"
  have p: "?p1 \<noteq> ''-''" "?p2 \<noteq> ''-''" using nd names name unfolding no_dash_def by blast+
  consider "name \<notin> set ns1 \<or> name \<notin> set ns2"
    | "name \<in> set ns1" "name \<in> set ns2" "is_dir E ?p1" "is_dir E ?p2"
    | "name \<in> set ns1" "name \<in> set ns2" "is_dir E ?p1 \<noteq> is_dir E ?p2"
    | "name \<in> set ns1" "name \<in> set ns2" "\<not> is_dir E ?p1" "\<not> is_dir E ?p2" by blast
  then show ?thesis
  proof cases
    case 1
    then show ?thesis using name by (auto simp: diff_name_def Let_def decides_def)
  next
    case 2
    then show ?thesis
      using rec after_compare_decides by (fastforce simp: diff_name_def Let_def decides_def)
  next
    case 3
    then show ?thesis by (auto simp: diff_name_def Let_def decides_def)
  next
    case 4
    define st2 where "st2 = (let (same, st1) = filesEqual E ?p1 ?p2 opts st
      in if \<not> same \<and> \<not> brief opts then out (''diff '' @ ?p1 @ '' '' @ ?p2 @ nl) st1 else st1)"
    have "diff_name rec E d1 d2 opts ns1 ns2 name st = after_compare (Some (diffFiles E ?p1 ?p2 opts st2))"
      using 4 by (simp add: diff_name_def Let_def st2_def split: prod.split)
    then show ?thesis
      using 4 diffFiles_status[OF p, of E opts st2] after_compare_decides[of "diffFiles E ?p1 ?p2 opts st2"] by simp
  qed
qed


text \<open>A filesystem with two listings of one file each, and a matcher that replaces everything.\<close>

definition demo_matcher :: difflib where
  "demo_matcher =
     (let codes = (\<lambda>a b. if a = b then [mk_op (CHR ''e'') 0 (length a) 0 (length b)]
                         else if a = [] then [mk_op (CHR ''i'') 0 0 0 (length b)]
                         else if b = [] then [mk_op (CHR ''d'') 0 (length a) 0 0]
                         else [mk_op (CHR ''r'') 0 (length a) 0 (length b)])
      in \<lparr>GetOpCodes = codes, GetGroupedOpCodes = (\<lambda>a b n. if a = b then [] else [codes a b])\<rparr>)"

lemma demo_matcher_ok: "matcher_ok demo_matcher a b n"
  by (auto simp: matcher_ok_def demo_matcher_def op_ok_def mk_op_def lines_between_def)

definition demo_two :: "unit billy" where
  "demo_two =
     \<lparr>fs_stat = (\<lambda>_ p. Inr \<lparr>fi_name = p, fi_size = 0, fi_mode = 0x1A4,
                            fi_mtime = 0, fi_dev = None\<rparr>),
      fs_lstat = (\<lambda>_ _. Inl ErrNotExist),
      fs_readdir = (\<lambda>_ p. if p = ''a'' \<or> p = ''b'' then Inr [\<lparr>de_name = ''f'', de_type = 0, de_info = Inl ErrNotExist\<rparr>] else Inl ENOTDIR),
      fs_open = (\<lambda>_ p. if p = ''a/f'' then Inr (Inr demo_old) else if p = ''b/f'' then Inr (Inr demo_new) else Inl ErrNotExist),
      fs_readlink = (\<lambda>_ _. Inl ErrNotExist), fs_remove = (\<lambda>st _. (None, st)), fs_symlinks = False\<rparr>"

definition demo_diff :: "unit diff_env" where
  "demo_diff =
     \<lparr>de_fs = Some demo_two, de_state = (), de_dir = [],
      de_unicode = \<lparr>IsLower = (\<lambda>_. False), IsUpper = (\<lambda>_. False), IsLetter = (\<lambda>_. False), IsDigit = (\<lambda>_. False),
        IsControl = (\<lambda>_. False), IsPrint = (\<lambda>_. False), IsPunct = (\<lambda>_. False), IsSymbol = (\<lambda>_. False),
        IsSpace = (\<lambda>c. c = 32), ToLower = (\<lambda>s. s)\<rparr>,
      de_difflib = demo_matcher, de_clock = (\<lambda>_. ''now''), de_errtext = (\<lambda>_. ''error'')\<rparr>"

definition demo_opts :: "format \<Rightarrow> compareOptions" where
  "demo_opts k = \<lparr>ignoreCase = False, ignoreSpace = False, brief = False, reportSame = False, recursive = True,
     fmtKind = k, contextLines = 3\<rparr>"

definition demo_st :: diff_st where
  "demo_st = \<lparr>ds_stdin = None, ds_ticks = 0, ds_out = [], ds_err = []\<rparr>"

theorem diff_exit_reports_witness:
  "fst (diffFiles demo_diff ''a/f'' ''b/f'' (demo_opts formatEd) demo_st) = ExitStatus 1 \<and>
   ds_out (snd (diffFiles demo_diff ''a/f'' ''b/f'' (demo_opts formatEd) demo_st)) \<noteq> []"
proof -
  obtain r st' where d: "diffFiles demo_diff ''a/f'' ''b/f'' (demo_opts formatEd) demo_st = (r, st')" by fastforce
  have c: "content demo_diff ''a/f'' = Inr demo_old" "content demo_diff ''b/f'' = Inr demo_new" by code_simp+
  have "demo_old \<noteq> demo_new" by code_simp
  then show ?thesis
    using diff_exit_reports[OF _ _ c _ _ _ d] demo_matcher_ok
    unfolding d by (simp add: demo_opts_def demo_diff_def demo_st_def)
qed

lemma joinWith_last: "\<exists>p. joinWith sep (xs @ [y]) = p @ y"
proof (induction xs)
  case (Cons x xs)
  then show ?case using joinWith_Cons[of "xs @ [y]" sep x] by (metis append.assoc append_Cons append_is_Nil_conv not_Cons_self2)
qed simp

lemma path_join_name:
  assumes "proper_comp n" and "n \<noteq> ''-''"
  shows "path_join [d, n] \<noteq> ''-''"
proof -
  let ?p = "if d = [] then n else d @ ''/'' @ n" and ?r = "path_isAbs (if d = [] then n else d @ ''/'' @ n)"
  have n: "n \<noteq> []" "splitOn slash n = [n]" using assms by (auto simp: proper_comp_def splitOn_self)
  have "path_join [d, n] = path_clean ?p" using n by (simp add: path_join_def)
  moreover have "\<exists>cs. clean_comps ?r (splitOn slash ?p) = cs @ [n]"
    using assms(1) n by (auto simp: clean_comps_def splitOn_append proper_comp_def)
  ultimately obtain cs where "path_join [d, n] = render_path ?r (cs @ [n])"
    by (metis path_clean_def)
  moreover obtain q where "joinWith ''/'' (cs @ [n]) = q @ n" using joinWith_last by blast
  ultimately obtain q' where "path_join [d, n] = q' @ n" by (auto simp: render_path_def split: if_splits)
  then show ?thesis using assms n(1) by (auto simp: append_eq_Cons_conv)
qed


text \<open>
  Two operands that both name standard input: the first read takes all of it, so the second
  file is empty.  An entry \<^verbatim>\<open>-\<close> of the current directory is joined to the operand
  \<^verbatim>\<open>-\<close>, so that standard input is compared in its place.
\<close>

lemma stdin_read_twice:
  "readContent E ''-'' (st\<lparr>ds_stdin := Some (Inr bs)\<rparr>) =
     (Inr (bs, de_clock E (ds_ticks st)), st\<lparr>ds_stdin := Some (Inr []), ds_ticks := Suc (ds_ticks st)\<rparr>)"
  by (simp add: readContent_def Let_def)

lemma dash_entry: "path_join [''.'', ''-''] = ''-''"
  by code_simp

end
