(* ===== verification/Grep_Search.thy ===== *)
theory Grep_Search
  imports Cmd_Path
begin

text \<open>
  The search of grep over one input (\<^verbatim>\<open>command/internal/grep/search.go\<close>, with
  \<^verbatim>\<open>decodeUTF8\<close> of \<^verbatim>\<open>files.go\<close>).  The regular expression engine (regexp2) is a
  parameter: finding the first match of a line and the match after a match.  An input is the
  bytes that are left and whether reading fails after them; the engine's and the reader's own
  look at the context belongs to them.  The budget of an invocation and the number of times the
  context was looked at are the state \<open>gstate\<close>, which is kept when a function fails.
\<close>

section \<open>Decoding\<close>

text \<open>The width of the malformed sequence at the front, which is replaced by one U+FFFD.\<close>

definition lead_width :: "nat \<Rightarrow> nat" where
  "lead_width b =
     (if 0xC2 \<le> b \<and> b \<le> 0xDF then 2 else if 0xE0 \<le> b \<and> b \<le> 0xEF then 3
      else if 0xF0 \<le> b \<and> b \<le> 0xF4 then 4 else 0)"

definition bad_second :: "nat \<Rightarrow> nat \<Rightarrow> bool" where
  "bad_second b c \<longleftrightarrow> b = 0xE0 \<and> c < 0xA0 \<or> b = 0xED \<and> c > 0x9F \<or> b = 0xF0 \<and> c < 0x90 \<or> b = 0xF4 \<and> c > 0x8F"

function error_width :: "nat list \<Rightarrow> nat \<Rightarrow> nat \<Rightarrow> nat" where
  "error_width ds width n =
     (if n < width \<and> n < length ds then
        (let c = ds ! n
         in if c < 0x80 \<or> c > 0xBF then n
            else if n = 1 \<and> bad_second (ds ! 0) c then n
            else error_width ds width (Suc n))
      else n)"
  by pat_completeness auto
termination
  by (relation "measure (\<lambda>(ds, width, n). length ds - n)") auto

declare error_width.simps [simp del]

lemma error_width_bounds: "n \<le> error_width ds width n" "n \<le> length ds \<Longrightarrow> error_width ds width n \<le> length ds"
  by (induction ds width n rule: error_width.induct) (subst error_width.simps; auto simp: Let_def)+

definition rune_or_error :: "string \<Rightarrow> rune \<times> nat" where
  "rune_or_error data =
     (let (r, n) = decodeRune data
      in if r = RuneError \<and> n = 1
         then (r, error_width (map byte_val data) (lead_width (byte_val (hd data))) 1) else (r, n))"

lemma rune_or_error_width: "data \<noteq> [] \<Longrightarrow> 1 \<le> snd (rune_or_error data)"
  using decodeRune_width[of data] error_width_bounds(1)[of 1]
  by (auto simp: rune_or_error_def split: prod.splits)

function decode_loop :: "string \<Rightarrow> string" where
  "decode_loop data =
     (if data = [] then []
      else let (r, n) = rune_or_error data in encodeRune r @ decode_loop (drop n data))"
  by pat_completeness auto
termination
proof (relation "measure length")
  fix data :: string and p r n
  assume "data \<noteq> []" "p = rune_or_error data" "(r, n) = p"
  then have "1 \<le> n" using rune_or_error_width[of data] by (metis snd_conv)
  then show "(drop n data, data) \<in> measure length" using \<open>data \<noteq> []\<close> by simp
qed simp

declare decode_loop.simps [simp del]

definition decodeUTF8 :: "string \<Rightarrow> string" where
  "decodeUTF8 data = (if utf8_valid data then data else decode_loop data)"

section \<open>Errors and budget\<close>

datatype grep_err =
    errWorkLimit | errResultLimit | errOutputLimit | errLineLimit | errContextLimit | errInput
  | errReset | errEngine | errMissing | errDirectory | errCtx string

definition maxSearchWork :: nat where "maxSearchWork = 1000000"
definition maxSearchResults :: nat where "maxSearchResults = 100000"
definition maxSearchOutput :: nat where "maxSearchOutput = 8388608"
definition maxSearchLine :: nat where "maxSearchLine = 8388608"
definition maxSearchContext :: nat where "maxSearchContext = 8388608"

record gstate =
  bg_work :: nat
  bg_results :: nat
  bg_output :: nat
  bg_ticks :: nat

definition check_ctx :: "(nat \<Rightarrow> string option) \<Rightarrow> gstate \<Rightarrow> (grep_err + unit) \<times> gstate" where
  "check_ctx ctx s =
     (case ctx (bg_ticks s) of Some m \<Rightarrow> Inl (errCtx m) | None \<Rightarrow> Inr (), s\<lparr>bg_ticks := Suc (bg_ticks s)\<rparr>)"

definition budget_step :: "gstate \<Rightarrow> (grep_err + unit) \<times> gstate" where
  "budget_step s =
     (if bg_work s \<ge> maxSearchWork then (Inl errWorkLimit, s) else (Inr (), s\<lparr>bg_work := Suc (bg_work s)\<rparr>))"

definition budget_result :: "gstate \<Rightarrow> (grep_err + unit) \<times> gstate" where
  "budget_result s =
     (case budget_step s of
        (Inl e, s1) \<Rightarrow> (Inl e, s1)
      | (Inr _, s1) \<Rightarrow>
          if bg_results s1 \<ge> maxSearchResults then (Inl errResultLimit, s1)
          else (Inr (), s1\<lparr>bg_results := Suc (bg_results s1)\<rparr>))"

fun parts_size :: "nat \<Rightarrow> nat \<Rightarrow> string list \<Rightarrow> nat option" where
  "parts_size used sz [] = Some sz"
| "parts_size used sz (p # ps) =
     (if int (length p) > int maxSearchOutput - int used - int sz then None
      else parts_size used (sz + length p) ps)"

text \<open>The text that is appended to the output.\<close>

definition budget_write :: "string list \<Rightarrow> gstate \<Rightarrow> (grep_err + string) \<times> gstate" where
  "budget_write parts s =
     (case budget_step s of
        (Inl e, s1) \<Rightarrow> (Inl e, s1)
      | (Inr _, s1) \<Rightarrow>
          (case parts_size (bg_output s1) 0 parts of
             None \<Rightarrow> (Inl errOutputLimit, s1)
           | Some n \<Rightarrow> (Inr (concat parts), s1\<lparr>bg_output := bg_output s1 + n\<rparr>)))"

section \<open>Matches\<close>

text \<open>A match of regexp2: where it starts, its text, and a named group's start and number of captures.\<close>

record re_match =
  rm_index :: int
  rm_runes :: "rune list"
  rm_group :: "string \<Rightarrow> (int \<times> nat) option"

record matcher =
  re_find :: "string \<Rightarrow> unit + re_match option"
  re_next :: "re_match \<Rightarrow> unit + re_match option"
  resetGroup :: string

definition matchText :: "matcher \<Rightarrow> re_match \<Rightarrow> grep_err + string" where
  "matchText m match =
     (case (if resetGroup m \<noteq> [] then rm_group match (resetGroup m) else None) of
        Some (idx, captures) \<Rightarrow>
          if captures > 0 then
            (let start = idx - rm_index match
             in if start < 0 \<or> start > int (length (rm_runes match)) then Inl errReset
                else Inr (utf8_string (drop (nat start) (rm_runes match))))
          else Inr (utf8_string (rm_runes match))
      | None \<Rightarrow> Inr (utf8_string (rm_runes match)))"

section \<open>Reading lines\<close>

record ginput =
  gi_bytes :: string
  gi_failed :: bool

definition raw_line :: "string \<Rightarrow> string" where
  "raw_line bytes = takeWhile (\<lambda>c. c \<noteq> newline) bytes @ (if newline \<in> set bytes then nl else [])"

definition readLine :: "ginput \<Rightarrow> grep_err + (string \<times> ginput) option" where
  "readLine inp =
     (let line = raw_line (gi_bytes inp); rest = drop (length line) (gi_bytes inp)
      in if length line > maxSearchLine then Inl errLineLimit
         else if newline \<notin> set line \<and> gi_failed inp then Inl errInput
         else if line = [] then Inr None
         else Inr (Some (decodeUTF8 (takeWhile (\<lambda>c. c \<noteq> newline) line), inp\<lparr>gi_bytes := rest\<rparr>)))"

lemma raw_line_prefix: "bytes = raw_line bytes @ drop (length (raw_line bytes)) bytes"
proof -
  have "\<exists>rest. bytes = raw_line bytes @ rest"
  proof (cases "newline \<in> set bytes")
    case True
    then obtain xs ys where "bytes = xs @ newline # ys" "newline \<notin> set xs" by (meson split_list_first)
    then show ?thesis by (auto simp: raw_line_def takeWhile_append)
  next
    case False
    then have "raw_line bytes = bytes" by (auto simp: raw_line_def takeWhile_eq_all_conv)
    then show ?thesis by simp
  qed
  then show ?thesis by (metis append_eq_conv_conj)
qed

lemma raw_line_le: "length (raw_line bytes) \<le> length bytes"
  using raw_line_prefix[of bytes] by (metis append_take_drop_id le_add1 length_append)

lemma readLine_shorter: "readLine inp = Inr (Some (line, inp')) \<Longrightarrow> length (gi_bytes inp') < length (gi_bytes inp)"
proof -
  assume "readLine inp = Inr (Some (line, inp'))"
  then have "raw_line (gi_bytes inp) \<noteq> []" "gi_bytes inp' = drop (length (raw_line (gi_bytes inp))) (gi_bytes inp)"
    by (auto simp: readLine_def Let_def split: if_splits)
  then show ?thesis using raw_line_le[of "gi_bytes inp"] by (cases "raw_line (gi_bytes inp)") auto
qed

section \<open>The search loop\<close>

text \<open>What the option parser leaves, and what the loop keeps.\<close>

record grep_options =
  go_ignoreCase :: bool
  go_invert :: bool
  go_word :: bool
  go_line :: bool
  go_extended :: bool
  go_perl :: bool
  go_fixed :: bool
  go_count :: bool
  go_list :: bool
  go_listWithout :: bool
  go_numbers :: bool
  go_noFilename :: bool
  go_only :: bool
  go_quiet :: bool
  go_recursive :: bool
  go_before :: nat
  go_after :: nat
  go_maxCount :: nat
  go_patterns :: "string list"
  go_patternFiles :: "string list"
  go_include :: "string list"
  go_exclude :: "string list"
  go_excludeDir :: "string list"

record search_st =
  ss_out :: string
  ss_pending :: "(nat \<times> string) list"
  ss_pendingBytes :: nat
  ss_after :: nat
  ss_selected :: nat
  ss_count :: nat
  ss_last :: int
  ss_index :: nat

definition line_prefix :: "grep_options \<Rightarrow> string \<Rightarrow> nat \<Rightarrow> bool \<Rightarrow> string" where
  "line_prefix opt filename index selected =
     (let sep = (if selected then '':'' else ''-'')
      in (if filename \<noteq> [] then filename @ sep else []) @ (if go_numbers opt then show_nat (index + 1) @ sep else []))"

lemma budget_result_progress:
  "budget_result s = (Inr u, s') \<Longrightarrow> bg_results s < maxSearchResults \<and> bg_results s' = Suc (bg_results s)"
  by (auto simp: budget_result_def budget_step_def split: if_splits)

lemma check_ctx_results [simp]: "bg_results (snd (check_ctx ctx s)) = bg_results s"
  by (simp add: check_ctx_def)

lemma budget_write_results [simp]: "bg_results (snd (budget_write parts s)) = bg_results s"
  by (auto simp: budget_write_def budget_step_def split: option.splits)

text \<open>Every match on a line: each costs a result of the budget, so the loop ends.\<close>

function only_matches ::
  "(nat \<Rightarrow> string option) \<Rightarrow> matcher \<Rightarrow> string \<Rightarrow> re_match option \<Rightarrow> string \<Rightarrow> gstate \<Rightarrow> (grep_err + string) \<times> gstate" where
  "only_matches ctx m p match out s =
     (case match of
        None \<Rightarrow> (Inr out, s)
      | Some mt \<Rightarrow>
          (case check_ctx ctx s of
             (Inl e, s1) \<Rightarrow> (Inl e, s1)
           | (Inr _, s1) \<Rightarrow>
               (case budget_result s1 of
                  (Inl e, s2) \<Rightarrow> (Inl e, s2)
                | (Inr _, s2) \<Rightarrow>
                    (case matchText m mt of
                       Inl e \<Rightarrow> (Inl e, s2)
                     | Inr text \<Rightarrow>
                         (case budget_write [p, text, nl] s2 of
                            (Inl e, s3) \<Rightarrow> (Inl e, s3)
                          | (Inr t, s3) \<Rightarrow>
                              (case re_next m mt of
                                 Inl _ \<Rightarrow> (Inl errEngine, s3)
                               | Inr mt' \<Rightarrow> only_matches ctx m p mt' (out @ t) s3))))))"
  by pat_completeness auto
termination
proof (relation "measure (\<lambda>(ctx, m, p, match, out, s). maxSearchResults - bg_results s)", simp, goal_cases)
  case (1 ctx m p match out s mt x s1 u y s2 v tx z s3 t mt')
  then have "bg_results s1 = bg_results s" "bg_results s3 = bg_results s2"
    by (metis check_ctx_results snd_conv) (metis 1 budget_write_results snd_conv)
  moreover have "bg_results s1 < maxSearchResults" "bg_results s2 = Suc (bg_results s1)"
    using 1 budget_result_progress by metis+
  ultimately show ?case by simp
qed

function count_matches ::
  "(nat \<Rightarrow> string option) \<Rightarrow> matcher \<Rightarrow> re_match option \<Rightarrow> nat \<Rightarrow> gstate \<Rightarrow> (grep_err + nat) \<times> gstate" where
  "count_matches ctx m match n s =
     (case match of
        None \<Rightarrow> (Inr n, s)
      | Some mt \<Rightarrow>
          (case check_ctx ctx s of
             (Inl e, s1) \<Rightarrow> (Inl e, s1)
           | (Inr _, s1) \<Rightarrow>
               (case budget_result s1 of
                  (Inl e, s2) \<Rightarrow> (Inl e, s2)
                | (Inr _, s2) \<Rightarrow>
                    (case re_next m mt of
                       Inl _ \<Rightarrow> (Inl errEngine, s2)
                     | Inr mt' \<Rightarrow> count_matches ctx m mt' (Suc n) s2))))"
  by pat_completeness auto
termination
proof (relation "measure (\<lambda>(ctx, m, match, n, s). maxSearchResults - bg_results s)", simp, goal_cases)
  case (1 ctx m match n s mt x s1 u y s2 v mt')
  then have "bg_results s1 = bg_results s" by (metis check_ctx_results snd_conv)
  moreover have "bg_results s1 < maxSearchResults" "bg_results s2 = Suc (bg_results s1)"
    using 1 budget_result_progress by metis+
  ultimately show ?case by simp
qed

declare only_matches.simps [simp del] count_matches.simps [simp del]

definition emit ::
  "(nat \<Rightarrow> string option) \<Rightarrow> matcher \<Rightarrow> grep_options \<Rightarrow> string \<Rightarrow> nat \<Rightarrow> string \<Rightarrow> bool \<Rightarrow> re_match option
   \<Rightarrow> string \<Rightarrow> gstate \<Rightarrow> (grep_err + string) \<times> gstate" where
  "emit ctx m opt filename index line selected match out s =
     (let p = line_prefix opt filename index selected
      in if selected \<and> go_only opt then only_matches ctx m p match out s
         else case budget_write [p, line, nl] s of
                (Inl e, s1) \<Rightarrow> (Inl e, s1)
              | (Inr t, s1) \<Rightarrow> (Inr (out @ t), s1))"

fun emit_pending ::
  "(nat \<Rightarrow> string option) \<Rightarrow> matcher \<Rightarrow> grep_options \<Rightarrow> string \<Rightarrow> (nat \<times> string) list \<Rightarrow> string \<Rightarrow> gstate
   \<Rightarrow> (grep_err + string) \<times> gstate" where
  "emit_pending ctx m opt filename [] out s = (Inr out, s)"
| "emit_pending ctx m opt filename ((i, l) # ps) out s =
     (case emit ctx m opt filename i l False None out s of
        (Inl e, s1) \<Rightarrow> (Inl e, s1)
      | (Inr out1, s1) \<Rightarrow> emit_pending ctx m opt filename ps out1 s1)"

definition count_selected ::
  "(nat \<Rightarrow> string option) \<Rightarrow> matcher \<Rightarrow> grep_options \<Rightarrow> re_match option \<Rightarrow> nat \<Rightarrow> gstate \<Rightarrow> (grep_err + nat) \<times> gstate" where
  "count_selected ctx m opt match n s =
     (if go_count opt \<and> go_only opt \<and> \<not> go_invert opt then count_matches ctx m match n s
      else if \<not> go_only opt \<or> go_count opt then
        (case budget_result s of (Inl e, s1) \<Rightarrow> (Inl e, s1) | (Inr _, s1) \<Rightarrow> (Inr (Suc n), s1))
      else (Inr (Suc n), s))"

text \<open>The separator, the lines kept before, and the selected line itself.\<close>

definition print_selected ::
  "(nat \<Rightarrow> string option) \<Rightarrow> matcher \<Rightarrow> grep_options \<Rightarrow> string \<Rightarrow> string \<Rightarrow> re_match option \<Rightarrow> search_st \<Rightarrow> gstate
   \<Rightarrow> (grep_err + search_st) \<times> gstate" where
  "print_selected ctx m opt filename line match st s =
     (let index = ss_index st; pending = ss_pending st;
          first = (if pending \<noteq> [] then fst (hd pending) else index);
          gap = ((go_before opt > 0 \<or> go_after opt > 0) \<and> ss_last st \<ge> 0 \<and> int first > ss_last st + 1)
      in case (if gap then budget_write [''--'' @ nl] s else (Inr [], s)) of
           (Inl e, s1) \<Rightarrow> (Inl e, s1)
         | (Inr t, s1) \<Rightarrow>
             (case emit_pending ctx m opt filename pending (ss_out st @ t) s1 of
                (Inl e, s2) \<Rightarrow> (Inl e, s2)
              | (Inr out2, s2) \<Rightarrow>
                  (case emit ctx m opt filename index line True match out2 s2 of
                     (Inl e, s3) \<Rightarrow> (Inl e, s3)
                   | (Inr out3, s3) \<Rightarrow>
                       (Inr (st\<lparr>ss_out := out3, ss_pending := [], ss_pendingBytes := 0, ss_last := int index,
                                ss_after := go_after opt\<rparr>), s3))))"

definition keep_pending :: "grep_options \<Rightarrow> string \<Rightarrow> search_st \<Rightarrow> grep_err + search_st" where
  "keep_pending opt line st =
     (let full = (length (ss_pending st) = go_before opt);
          pending = (if full then tl (ss_pending st) else ss_pending st);
          bytes = (if full then ss_pendingBytes st - length (snd (hd (ss_pending st))) else ss_pendingBytes st)
      in if length pending \<ge> maxSearchResults \<or> int (length line) > int maxSearchContext - int bytes then Inl errContextLimit
         else Inr (st\<lparr>ss_pending := pending @ [(ss_index st, line)], ss_pendingBytes := bytes + length line\<rparr>))"

text \<open>One line that was read; \<^const>\<open>None\<close> when a selected line is all that was asked for.\<close>

definition search_line ::
  "(nat \<Rightarrow> string option) \<Rightarrow> matcher \<Rightarrow> grep_options \<Rightarrow> string \<Rightarrow> bool \<Rightarrow> string \<Rightarrow> search_st \<Rightarrow> gstate
   \<Rightarrow> (grep_err + search_st option) \<times> gstate" where
  "search_line ctx m opt filename exhausted line st s =
     (case (if exhausted then Inr None else re_find m line) of
        Inl _ \<Rightarrow> (Inl errEngine, s)
      | Inr match \<Rightarrow>
          if \<not> exhausted \<and> (match \<noteq> None) \<noteq> go_invert opt then
            (if go_quiet opt \<or> go_list opt \<or> go_listWithout opt then (Inr None, s)
             else case count_selected ctx m opt match (ss_count st) s of
               (Inl e, s1) \<Rightarrow> (Inl e, s1)
             | (Inr n, s1) \<Rightarrow>
                 (let st1 = st\<lparr>ss_selected := Suc (ss_selected st), ss_count := n\<rparr>
                  in if go_count opt then (Inr (Some st1), s1)
                     else case print_selected ctx m opt filename line match st1 s1 of
                       (Inl e, s2) \<Rightarrow> (Inl e, s2)
                     | (Inr st2, s2) \<Rightarrow> (Inr (Some st2), s2)))
          else if \<not> go_count opt \<and> ss_after st > 0 then
            (case emit ctx m opt filename (ss_index st) line False None (ss_out st) s of
               (Inl e, s1) \<Rightarrow> (Inl e, s1)
             | (Inr out1, s1) \<Rightarrow>
                 (Inr (Some (st\<lparr>ss_out := out1, ss_last := int (ss_index st), ss_after := ss_after st - 1\<rparr>)), s1))
          else if \<not> go_count opt \<and> go_before opt > 0 then
            (case keep_pending opt line st of Inl e \<Rightarrow> (Inl e, s) | Inr st1 \<Rightarrow> (Inr (Some st1), s))
          else (Inr (Some st), s))"

function search_loop ::
  "(nat \<Rightarrow> string option) \<Rightarrow> matcher \<Rightarrow> grep_options \<Rightarrow> string \<Rightarrow> ginput \<Rightarrow> search_st \<Rightarrow> gstate
   \<Rightarrow> (grep_err + search_st option) \<times> gstate" where
  "search_loop ctx m opt filename inp st s =
     (case check_ctx ctx s of
        (Inl e, s1) \<Rightarrow> (Inl e, s1)
      | (Inr _, s1) \<Rightarrow>
          (let exhausted = (go_maxCount opt > 0 \<and> ss_selected st \<ge> go_maxCount opt)
           in if exhausted \<and> (go_count opt \<or> ss_after st = 0) then (Inr (Some st), s1)
              else case budget_step s1 of
                (Inl e, s2) \<Rightarrow> (Inl e, s2)
              | (Inr _, s2) \<Rightarrow>
                  (case readLine inp of
                     Inl e \<Rightarrow> (Inl e, s2)
                   | Inr None \<Rightarrow> (Inr (Some st), s2)
                   | Inr (Some (line, inp')) \<Rightarrow>
                       (case search_line ctx m opt filename exhausted line st s2 of
                          (Inl e, s3) \<Rightarrow> (Inl e, s3)
                        | (Inr None, s3) \<Rightarrow> (Inr None, s3)
                        | (Inr (Some st'), s3) \<Rightarrow>
                            search_loop ctx m opt filename inp' (st'\<lparr>ss_index := Suc (ss_index st')\<rparr>) s3))))"
  by pat_completeness auto
termination
  by (relation "measure (\<lambda>(ctx, m, opt, filename, inp, st, s). length (gi_bytes inp))")
     (auto dest: readLine_shorter)

declare search_loop.simps [simp del]

definition search_start :: search_st where
  "search_start = \<lparr>ss_out = [], ss_pending = [], ss_pendingBytes = 0, ss_after = 0, ss_selected = 0, ss_count = 0,
     ss_last = - 1, ss_index = 0\<rparr>"

definition search ::
  "(nat \<Rightarrow> string option) \<Rightarrow> ginput \<Rightarrow> matcher \<Rightarrow> grep_options \<Rightarrow> string \<Rightarrow> gstate \<Rightarrow> (grep_err + string \<times> bool) \<times> gstate" where
  "search ctx inp m opt0 filename s =
     (let opt = (if go_quiet opt0 \<or> go_list opt0 \<or> go_listWithout opt0 then opt0\<lparr>go_before := 0, go_after := 0\<rparr> else opt0)
      in case search_loop ctx m opt filename inp search_start s of
           (Inl e, s1) \<Rightarrow> (Inl e, s1)
         | (Inr None, s1) \<Rightarrow> (Inr ([], True), s1)
         | (Inr (Some st), s1) \<Rightarrow>
             if go_count opt then
               (case budget_write [(if filename \<noteq> [] then filename @ '':'' else []), show_nat (ss_count st), nl] s1 of
                  (Inl e, s2) \<Rightarrow> (Inl e, s2)
                | (Inr t, s2) \<Rightarrow> (Inr (ss_out st @ t, ss_selected st > 0), s2))
             else (Inr (ss_out st, ss_selected st > 0), s1))"

end
