(* ===== verification/Grep_Regex.thy ===== *)
theory Grep_Regex
  imports Grep_Search
begin

text \<open>
  The translation of grep's patterns to the syntax of the engine
  (\<^verbatim>\<open>command/internal/grep/regex.go\<close>).  A position in a pattern is the suffix that starts
  there.  The engine's escaping, its compiler and the groups of a compiled expression are
  parameters (regexp2).
\<close>

section \<open>Bracket expressions\<close>

definition posixClass :: "string \<Rightarrow> string option" where
  "posixClass = map_of
     [(''alpha'', ''a-zA-Z''), (''digit'', ''0-9''), (''alnum'', ''a-zA-Z0-9''), (''lower'', ''a-z''),
      (''upper'', ''A-Z''), (''xdigit'', ''0-9A-Fa-f''),
      (''space'', '' '' @ concat (map (\<lambda>c. [backslash, c]) ''tnrfv'')), (''blank'', '' '' @ [backslash] @ ''t''),
      (''punct'', ''!-/:-@'' @ [backslash] @ ''[-'' @ [backquote] @ ''{-~''), (''graph'', ''!-~''), (''print'', '' -~''),
      (''cntrl'', [backslash] @ ''x00-'' @ [backslash] @ ''x1F'' @ [backslash] @ ''x7F''),
      (''ascii'', [backslash] @ ''x00-'' @ [backslash] @ ''x7F''), (''word'', ''a-zA-Z0-9_'')]"

text \<open>A class name in brackets at the front: its replacement and what it takes of the pattern.\<close>

definition named_class :: "string \<Rightarrow> (string \<times> nat) option" where
  "named_class s =
     (if hasPrefix s ''[:'' then
        (case strIndex (drop 2 s) '':]'' of
           None \<Rightarrow> None
         | Some e \<Rightarrow> map_option (\<lambda>r. (r, e + 4)) (posixClass (take e (drop 2 s))))
      else None)"

text \<open>The inside of a bracket expression, up to its closing bracket.\<close>

function class_body :: "string \<Rightarrow> string \<times> string" where
  "class_body s =
     (if s = [] \<or> hd s = CHR '']'' then ([], s)
      else case named_class s of
        Some (r, n) \<Rightarrow> (let (t, rest) = class_body (drop n s) in (r @ t, rest))
      | None \<Rightarrow>
          if hd s = backslash \<and> tl s \<noteq> [] then (let (t, rest) = class_body (drop 2 s) in (take 2 s @ t, rest))
          else (let (t, rest) = class_body (tl s) in (hd s # t, rest)))"
  by pat_completeness auto
termination
  by (relation "measure length") (auto simp: named_class_def split: if_splits option.splits)

declare class_body.simps [simp del]

lemma class_body_le: "length (snd (class_body s)) \<le> length s"
proof (induction s rule: class_body.induct)
  case (1 s)
  show ?case
    using 1 by (subst class_body.simps) (fastforce split: option.splits prod.splits if_splits)
qed

function posixClasses :: "string \<Rightarrow> string" where
  "posixClasses s =
     (if s = [] then []
      else if hasPrefix s ''[[:<:]]'' \<or> hasPrefix s ''[[:>:]]'' then [backslash, CHR ''b''] @ posixClasses (drop 7 s)
      else if hd s = backslash \<and> tl s \<noteq> [] then take 2 s @ posixClasses (drop 2 s)
      else if hd s \<noteq> CHR ''['' then hd s # posixClasses (tl s)
      else
        (let s1 = tl s; neg = (s1 \<noteq> [] \<and> (hd s1 = CHR ''^'' \<or> hd s1 = CHR ''!''));
             s2 = (if neg then tl s1 else s1); close = (s2 \<noteq> [] \<and> hd s2 = CHR '']'');
             s3 = (if close then tl s2 else s2);
             body = fst (class_body s3); rest = snd (class_body s3)
         in ''['' @ (if neg then ''^'' else []) @ (if close then [backslash, CHR '']''] else []) @ body
            @ (if rest \<noteq> [] then CHR '']'' # posixClasses (tl rest) else [])))"
  by pat_completeness auto
termination
proof (relation "measure length", goal_cases)
  case (5 s s1 neg s2 close s3 body rest)
  have "length rest \<le> length s3" using 5(11) class_body_le[of s3] by (simp only:)
  moreover have "length s3 \<le> length s2" by (simp only: 5(9)) simp
  moreover have "length s2 \<le> length s1" by (simp only: 5(7)) simp
  moreover have "length s1 < length s" using 5(1) by (cases s) (simp_all add: 5(5))
  ultimately show ?case by simp
qed (auto intro!: diff_less)

declare posixClasses.simps [simp del]

section \<open>Basic regular expressions\<close>

text \<open>\<^verbatim>\<open>[0-9]+(?:,[0-9]*)?\<close> between escaped braces, at the front: what it matches.\<close>

definition basicInterval :: "string \<Rightarrow> string" where
  "basicInterval s =
     (if \<not> hasPrefix s [backslash, CHR ''{''] then []
      else
        (let r = drop 2 s; ds = takeWhile is_digit r; r1 = dropWhile is_digit r;
             more = (if hasPrefix r1 '','' then CHR '','' # takeWhile is_digit (tl r1) else []);
             r2 = drop (length more) r1
         in if ds \<noteq> [] \<and> hasPrefix r2 [backslash, CHR ''}'']
            then [backslash, CHR ''{''] @ ds @ more @ [backslash, CHR ''}''] else []))"

text \<open>The end of a bracket expression: everything up to and with its closing bracket.\<close>

function bracket_end :: "string \<Rightarrow> string \<times> string" where
  "bracket_end s =
     (if s = [] then ([], [])
      else if hd s = backslash \<and> tl s \<noteq> [] then (let (t, rest) = bracket_end (drop 2 s) in (take 2 s @ t, rest))
      else if hd s = CHR '']'' then ([hd s], tl s)
      else (let (t, rest) = bracket_end (tl s) in (hd s # t, rest)))"
  by pat_completeness auto
termination
  by (relation "measure length") auto

declare bracket_end.simps [simp del]

lemma bracket_end_le: "length (snd (bracket_end s)) \<le> length s"
proof (induction s rule: bracket_end.induct)
  case (1 s)
  show ?case using 1 by (subst bracket_end.simps) (fastforce split: prod.splits if_splits)
qed

lemma basicInterval_front: "basicInterval s \<noteq> [] \<Longrightarrow> s \<noteq> []"
  by (auto simp: basicInterval_def)

definition bre_escaped :: "char \<Rightarrow> bool" where
  "bre_escaped c \<longleftrightarrow> c \<in> set ''+?|(){}''"

function basic_loop :: "bool \<Rightarrow> string \<Rightarrow> string" where
  "basic_loop start s =
     (if s = [] then []
      else
        (let c = hd s; r = tl s
         in if c = CHR ''['' then c # fst (bracket_end r) @ basic_loop False (snd (bracket_end r))
            else if c = backslash \<and> r \<noteq> [] then
              (if hd r = CHR ''|'' \<or> hd r = CHR ''('' then hd r # basic_loop True (tl r)
               else if hd r = CHR '')'' then hd r # basic_loop False (tl r)
               else if hd r = CHR ''{'' \<and> basicInterval s \<noteq> []
               then filter (\<lambda>x. x \<noteq> backslash) (basicInterval s) @ basic_loop False (drop (length (basicInterval s)) s)
               else c # hd r # basic_loop False (tl r))
            else if c = CHR ''*'' \<and> start then [backslash, c] @ basic_loop start r
            else if c = CHR ''^'' \<and> start then c # basic_loop start r
            else if c = CHR ''^'' then [backslash, c] @ basic_loop False r
            else if c = CHR ''$'' then
              (if r \<noteq> [] \<and> \<not> hasPrefix r [backslash, CHR '')''] then [backslash] else []) @ c # basic_loop False r
            else if bre_escaped c then [backslash, c] @ basic_loop False r
            else c # basic_loop False r))"
  by pat_completeness auto
termination
proof (relation "measure (\<lambda>(start, s). length s)", goal_cases)
  case (2 start s c r)
  then show ?case using bracket_end_le[of r] by (cases s) auto
qed (auto intro!: diff_less)

declare basic_loop.simps [simp del]

definition basicRegexp :: "string \<Rightarrow> string" where
  "basicRegexp s = basic_loop True s"

section \<open>Perl extensions\<close>

text \<open>
  The engine (regexp2): escaping a literal; compiling an expression with the ECMAScript flag,
  the case flag and a bound on the backtracking stack; of a compiled expression its group
  numbers, their names, and matching under a timeout in nanoseconds.
\<close>

record compiled =
  GetGroupNumbers :: "int list"
  GroupNameFromNumber :: "int \<Rightarrow> string"
  FindStringMatch :: "nat \<Rightarrow> string \<Rightarrow> unit + re_match option"
  FindNextMatch :: "nat \<Rightarrow> re_match \<Rightarrow> unit + re_match option"

record regexp2 =
  re_Escape :: "string \<Rightarrow> string"
  re_Compile :: "string \<Rightarrow> bool \<Rightarrow> nat \<Rightarrow> string + compiled"

definition zero_pad :: "nat \<Rightarrow> string \<Rightarrow> string" where
  "zero_pad w t = replicate (w - length t) (CHR ''0'') @ t"

text \<open>A group name that the pattern does not contain.\<close>

lemma strContains_length: "strContains s sub \<Longrightarrow> length sub \<le> length s"
proof -
  have "strIndex s sub = Some i \<Longrightarrow> length sub \<le> length s" for i
  proof (induction s arbitrary: i)
    case (Cons x xs)
    have "length sub \<le> length (x # xs)" if "hasPrefix (x # xs) sub"
      using that by (metis hasPrefix_def length_take min.cobounded1)
    then show ?case using Cons by (fastforce split: if_splits)
  qed (auto split: if_splits)
  then show "strContains s sub \<Longrightarrow> length sub \<le> length s" by (auto simp: strContains_def)
qed

function reset_name :: "string \<Rightarrow> string \<Rightarrow> string" where
  "reset_name s reset = (if strContains s reset then reset_name s (reset @ ''X'') else reset)"
  by pat_completeness auto
termination
  by (relation "measure (\<lambda>(s, reset). Suc (length s) - length reset)") (auto dest: strContains_length)

declare reset_name.simps [simp del]

definition opens_lookaround :: "string \<Rightarrow> bool" where
  "opens_lookaround s \<longleftrightarrow> hasPrefix s ''(?='' \<or> hasPrefix s ''(?!'' \<or> hasPrefix s ''(?<='' \<or> hasPrefix s ''(?<!''"

text \<open>What the loop of \<^verbatim>\<open>perlRegexp\<close> keeps; the top of the stack of groups is its head.\<close>

record perl_st =
  ps_out :: string
  ps_inClass :: bool
  ps_look :: "bool list"
  ps_hasReset :: bool

definition perl_track :: "string \<Rightarrow> perl_st \<Rightarrow> perl_st" where
  "perl_track s st =
     (let top = (ps_look st \<noteq> [] \<and> hd (ps_look st));
          look = (if \<not> ps_inClass st \<and> hd s = CHR ''('' then (top \<or> opens_lookaround s) # ps_look st
                  else if \<not> ps_inClass st \<and> hd s = CHR '')'' \<and> ps_look st \<noteq> [] then tl (ps_look st)
                  else ps_look st);
          inClass = (if hd s = CHR ''['' then True else if hd s = CHR '']'' then False else ps_inClass st)
      in st\<lparr>ps_look := look, ps_inClass := inClass\<rparr>)"

definition perl_put :: "string \<Rightarrow> perl_st \<Rightarrow> perl_st" where
  "perl_put t st = st\<lparr>ps_out := ps_out st @ t\<rparr>"

text \<open>One turn at a nonempty suffix: an error, or the state and how much was consumed.\<close>

definition perl_code_point :: "regexp2 \<Rightarrow> string \<Rightarrow> perl_st \<Rightarrow> string + perl_st \<times> nat" where
  "perl_code_point E s st =
     (case strIndex (drop 3 s) ''}'' of
        None \<Rightarrow> Inl ''unterminated code point''
      | Some e \<Rightarrow>
          (case parseUint (take e (drop 3 s)) 16 32 of
             None \<Rightarrow> Inl ''invalid code point''
           | Some v \<Rightarrow>
               if \<not> valid_rune v then Inl ''invalid code point''
               else
                 Inr (perl_put (if \<not> ps_inClass st then ''(?:'' @ re_Escape E (encodeRune v) @ '')''
                                else if v \<le> 0xFFFF then [backslash, CHR ''u''] @ zero_pad 4 (format_nat 16 v)
                                else re_Escape E (encodeRune v)) st, e + 4)))"

definition perl_step :: "regexp2 \<Rightarrow> string \<Rightarrow> string \<Rightarrow> perl_st \<Rightarrow> string + perl_st \<times> nat" where
  "perl_step E reset s st0 =
     (let st = perl_track s st0
      in if hd s \<noteq> backslash \<or> tl s = [] then Inr (perl_put [hd s] st, 1)
         else if s ! 1 = CHR ''Q'' then
           (case strIndex (drop 2 s) [backslash, CHR ''E''] of
              None \<Rightarrow> Inr (perl_put (re_Escape E (drop 2 s)) st, length s)
            | Some e \<Rightarrow> Inr (perl_put (re_Escape E (take e (drop 2 s))) st, e + 4))
         else if s ! 1 = CHR ''K'' then
           (if \<not> ps_inClass st \<and> ps_look st \<noteq> [] \<and> hd (ps_look st) then Inl ''reset inside lookaround''
            else if ps_inClass st then Inr (perl_put [backslash, CHR ''K''] st, 2)
            else Inr ((perl_put (''(?<'' @ reset @ ''>)'') st)\<lparr>ps_hasReset := True\<rparr>, 2))
         else if s ! 1 = CHR ''x'' \<and> length s > 2 \<and> s ! 2 = CHR ''{'' then perl_code_point E s st
         else Inr (perl_put (take 2 s) st, 2))"

lemma perl_step_width: "s \<noteq> [] \<Longrightarrow> perl_step E reset s st = Inr (st', n) \<Longrightarrow> 0 < n"
  by (auto simp: perl_step_def perl_code_point_def Let_def split: if_splits option.splits)

function perl_loop :: "regexp2 \<Rightarrow> string \<Rightarrow> string \<Rightarrow> perl_st \<Rightarrow> string + perl_st" where
  "perl_loop E reset s st =
     (if s = [] then Inr st
      else case perl_step E reset s st of
        Inl e \<Rightarrow> Inl e
      | Inr (st', n) \<Rightarrow> perl_loop E reset (drop n s) st')"
  by pat_completeness auto
termination
  by (relation "measure (\<lambda>(E, reset, s, st). length s)") (auto dest: perl_step_width intro!: diff_less)

declare perl_loop.simps [simp del]

definition perlRegexp :: "regexp2 \<Rightarrow> string \<Rightarrow> string + string \<times> string" where
  "perlRegexp E s =
     (let reset = reset_name s ''kefkaMatchReset''
      in case perl_loop E reset s \<lparr>ps_out = [], ps_inClass = False, ps_look = [], ps_hasReset = False\<rparr> of
           Inl e \<Rightarrow> Inl e
         | Inr st \<Rightarrow> Inr (ps_out st, if ps_hasReset st then reset else []))"

section \<open>Backreferences\<close>

text \<open>At most three octal digits whose value is a byte: the value and how many.\<close>

fun octal_run :: "nat \<Rightarrow> nat \<Rightarrow> string \<Rightarrow> nat \<times> nat" where
  "octal_run 0 n s = (n, 0)"
| "octal_run (Suc k) n [] = (n, 0)"
| "octal_run (Suc k) n (c # cs) =
     (let d = byte_val c - 48
      in if CHR ''0'' \<le> c \<and> c \<le> CHR ''7'' \<and> n * 8 + d \<le> 255
         then (let (v, w) = octal_run k (n * 8 + d) cs in (v, Suc w)) else (n, 0))"

definition user_group :: "int list \<Rightarrow> string \<Rightarrow> string option" where
  "user_group numbers digits =
     (case atoi digits of
        None \<Rightarrow> None
      | Some n \<Rightarrow> if 0 < n \<and> n < int (length numbers)
          then Some ([backslash] @ ''k<'' @ itoa (numbers ! nat n) @ ''>'') else None)"

definition remap_escape :: "int list \<Rightarrow> string \<Rightarrow> string \<times> nat" where
  "remap_escape numbers s =
     (let digits = takeWhile is_digit (tl s)
      in case user_group numbers digits of
           Some t \<Rightarrow> (t, Suc (length digits))
         | None \<Rightarrow>
             (let (n, w) = octal_run 3 0 (tl s)
              in if w > 0 then ([backslash, CHR ''x''] @ zero_pad 2 (format_nat 16 n), Suc w) else ([s ! 1], 2)))"

definition remap_named :: "int list \<Rightarrow> string \<Rightarrow> (string \<times> nat) option" where
  "remap_named numbers s =
     (if hasPrefix s ([backslash] @ ''k<'') then
        (case strIndex (drop 3 s) ''>'' of
           None \<Rightarrow> None
         | Some e \<Rightarrow> map_option (\<lambda>t. (t, e + 4)) (user_group numbers (take e (drop 3 s))))
      else None)"

definition remap_step :: "int list \<Rightarrow> bool \<Rightarrow> string \<Rightarrow> string \<times> nat" where
  "remap_step numbers inClass s =
     (if hd s \<noteq> backslash \<or> tl s = [] then ([hd s], 1)
      else case (if \<not> inClass then remap_named numbers s else None) of
        Some r \<Rightarrow> r
      | None \<Rightarrow>
          if inClass \<or> \<not> (CHR ''1'' \<le> s ! 1 \<and> s ! 1 \<le> CHR ''9'') then (take 2 s, 2)
          else remap_escape numbers s)"

lemma remap_step_width: "0 < snd (remap_step numbers inClass s)"
  by (auto simp: remap_step_def remap_named_def remap_escape_def Let_def split: if_splits option.splits prod.splits)

function remap_loop :: "int list \<Rightarrow> bool \<Rightarrow> string \<Rightarrow> string" where
  "remap_loop numbers inClass0 s =
     (if s = [] then []
      else
        (let inClass = (if hd s = CHR ''['' then True else if hd s = CHR '']'' then False else inClass0);
             (t, n) = remap_step numbers inClass s
         in t @ remap_loop numbers inClass (drop n s)))"
  by pat_completeness auto
termination
proof (relation "measure (\<lambda>(numbers, inClass, s). length s)", simp, goal_cases)
  case (1 numbers inClass0 s inClass p t n)
  then have "0 < n" using remap_step_width[of numbers inClass s] by (metis snd_conv)
  then show ?case using 1 by simp
qed

declare remap_loop.simps [simp del]

definition remapBackreferences :: "string \<Rightarrow> int list \<Rightarrow> string" where
  "remapBackreferences s numbers = remap_loop numbers False s"

section \<open>Compiling\<close>

definition matchTimeout :: nat where "matchTimeout = 250000000"
definition maxBacktrack :: nat where "maxBacktrack = 1048576"

definition pattern_source :: "regexp2 \<Rightarrow> grep_options \<Rightarrow> string \<Rightarrow> string + string \<times> string" where
  "pattern_source E opt source =
     (if go_fixed opt then Inr (re_Escape E source, [])
      else if \<not> go_extended opt \<and> \<not> go_perl opt then Inr (basicRegexp (posixClasses source), [])
      else
        (let source1 = replaceAll (posixClasses source) ''(?P<'' ''(?<''
         in if go_perl opt \<and> \<not> go_extended opt then perlRegexp E source1 else Inr (source1, [])))"

definition wrap_source :: "grep_options \<Rightarrow> bool \<Rightarrow> string \<Rightarrow> string" where
  "wrap_source opt wrap source =
     (let s1 = (if wrap \<and> go_word opt then [backslash, CHR ''b''] @ ''(?:'' @ source @ '')'' @ [backslash, CHR ''b''] else source)
      in if wrap \<and> go_line opt then ''^(?:'' @ s1 @ '')$'' else s1)"

definition user_numbers :: "compiled \<Rightarrow> string \<Rightarrow> int list" where
  "user_numbers re reset = 0 # filter (\<lambda>n. n \<noteq> 0 \<and> GroupNameFromNumber re n \<noteq> reset) (GetGroupNumbers re)"

definition timed_matcher :: "compiled \<Rightarrow> string \<Rightarrow> matcher" where
  "timed_matcher re reset =
     \<lparr>re_find = FindStringMatch re matchTimeout, re_next = FindNextMatch re matchTimeout, resetGroup = reset\<rparr>"

definition compilePattern :: "regexp2 \<Rightarrow> string \<Rightarrow> grep_options \<Rightarrow> bool \<Rightarrow> string + matcher" where
  "compilePattern E source opt wrap =
     (case pattern_source E opt source of
        Inl e \<Rightarrow> Inl e
      | Inr (body, reset) \<Rightarrow>
          (let expr = wrap_source opt wrap body
           in case re_Compile E expr (go_ignoreCase opt) maxBacktrack of
                Inl e \<Rightarrow> Inl e
              | Inr re \<Rightarrow>
                  if reset \<noteq> [] then
                    (case re_Compile E (remapBackreferences expr (user_numbers re reset)) (go_ignoreCase opt) maxBacktrack of
                       Inl e \<Rightarrow> Inl e
                     | Inr re' \<Rightarrow> Inr (timed_matcher re' reset))
                  else Inr (timed_matcher re reset)))"

definition join_patterns :: "regexp2 \<Rightarrow> grep_options \<Rightarrow> string \<times> grep_options" where
  "join_patterns E opt =
     (let ps = go_patterns opt
      in if ps = [] then (''[^'' @ [backslash] @ ''s'' @ [backslash] @ ''S]'', opt\<lparr>go_extended := True, go_fixed := False\<rparr>)
         else if length ps = 1 then (hd ps, opt)
         else if go_fixed opt
         then (joinWith ''|'' (map (\<lambda>p. ''(?:'' @ re_Escape E p @ '')'') ps), opt\<lparr>go_fixed := False, go_extended := True\<rparr>)
         else if \<not> go_extended opt \<and> \<not> go_perl opt then (joinWith [backslash, CHR ''|''] ps, opt)
         else (joinWith ''|'' (map (\<lambda>p. ''(?:'' @ p @ '')'') ps), opt))"

fun first_invalid :: "regexp2 \<Rightarrow> grep_options \<Rightarrow> string list \<Rightarrow> string option" where
  "first_invalid E opt [] = None"
| "first_invalid E opt (p # ps) =
     (case compilePattern E p opt False of Inl _ \<Rightarrow> Some p | Inr _ \<Rightarrow> first_invalid E opt ps)"

definition compilePatterns :: "regexp2 \<Rightarrow> grep_options \<Rightarrow> string + matcher" where
  "compilePatterns E opt =
     (if go_perl opt \<and> \<not> go_fixed opt \<and> \<not> go_extended opt \<and> length (remdups (go_patterns opt)) > 1
      then Inl ''the -P option only supports a single pattern''
      else
        case (if length (go_patterns opt) > 1 \<and> \<not> go_fixed opt then first_invalid E opt (go_patterns opt) else None) of
          Some p \<Rightarrow> Inl (''invalid regular expression: '' @ p)
        | None \<Rightarrow>
            (let (source, opt') = join_patterns E opt
             in case compilePattern E source opt' True of
                  Inl _ \<Rightarrow> Inl (''invalid regular expression: '' @ joinWith nl (go_patterns opt))
                | Inr m \<Rightarrow> Inr m))"

end
