(* ===== verification/Grep_Files.thy ===== *)
theory Grep_Files
  imports Grep_Regex
begin

text \<open>
  The inputs of grep (\<^verbatim>\<open>command/internal/grep/files.go\<close>): opening an operand, glob filters,
  and the bounded traversal that turns the operands into the list of files to search.  The
  translation of a glob (mvdan.cc/sh's \<^verbatim>\<open>pattern.Regexp\<close>) and the matcher of the expression
  it gives are parameters, like the filesystem.  A traversal returns the names it adds, in order.
\<close>

record 's grep_env =
  ge_fs :: "'s billy option"
  ge_state :: 's
  ge_open :: "'s \<Rightarrow> string \<Rightarrow> fs_err + ginput"
  ge_dir :: string
  ge_globRegexp :: "string \<Rightarrow> string option"
  ge_goRegexp :: "string \<Rightarrow> (string \<Rightarrow> bool) option"
  ge_engine :: regexp2
  ge_unicode :: unicode
  ge_ctx :: "nat \<Rightarrow> string option"
  ge_outfail :: "string \<Rightarrow> string \<Rightarrow> string option"
  ge_errfail :: "string \<Rightarrow> string \<Rightarrow> string option"

section \<open>Opening\<close>

text \<open>Standard input is one reader for the whole invocation; a file is its own.\<close>

datatype opened = OpenStdin ginput | OpenFile ginput

definition openInput ::
  "'s grep_env \<Rightarrow> ginput option \<Rightarrow> string \<Rightarrow> gstate \<Rightarrow> (grep_err + opened) \<times> gstate" where
  "openInput E stdin name s =
     (case check_ctx (ge_ctx E) s of
        (Inl e, s1) \<Rightarrow> (Inl e, s1)
      | (Inr _, s1) \<Rightarrow>
          (if name = ''-'' then
             (case stdin of
                None \<Rightarrow> Inr (OpenFile \<lparr>gi_bytes = [], gi_failed = False\<rparr>)
              | Some inp \<Rightarrow> Inr (OpenStdin inp))
           else if name = [] then Inl errMissing
           else case ge_fs E of
             None \<Rightarrow> Inl errMissing
           | Some fs \<Rightarrow>
               (let full = grep_resolvePath (ge_dir E) name
                in case fs_stat fs (ge_state E) full of
                     Inl _ \<Rightarrow> Inl errMissing
                   | Inr info \<Rightarrow>
                       if fi_isDir info then Inl errDirectory
                       else case ge_open E (ge_state E) full of
                         Inl _ \<Rightarrow> Inl errMissing
                       | Inr inp \<Rightarrow> Inr (OpenFile inp)), s1))"

text \<open>All of an input, decoded, and what is left of standard input.\<close>

definition readAll ::
  "'s grep_env \<Rightarrow> ginput \<Rightarrow> gstate \<Rightarrow> (grep_err + string) \<times> gstate" where
  "readAll E inp s =
     (if gi_failed inp then
        (case check_ctx (ge_ctx E) s of (Inl e, s1) \<Rightarrow> (Inl e, s1) | (Inr _, s1) \<Rightarrow> (Inl errInput, s1))
      else (Inr (decodeUTF8 (gi_bytes inp)), s))"

definition readInput ::
  "'s grep_env \<Rightarrow> ginput option \<Rightarrow> string \<Rightarrow> gstate \<Rightarrow> (grep_err + string) \<times> ginput option \<times> gstate" where
  "readInput E stdin name s =
     (case openInput E stdin name s of
        (Inl e, s1) \<Rightarrow> (Inl e, stdin, s1)
      | (Inr (OpenFile inp), s1) \<Rightarrow> (let (r, s2) = readAll E inp s1 in (r, stdin, s2))
      | (Inr (OpenStdin inp), s1) \<Rightarrow>
          (let (r, s2) = readAll E inp s1 in (r, Some (inp\<lparr>gi_bytes := []\<rparr>), s2)))"

section \<open>Globs\<close>

definition strip_quotes :: "string \<Rightarrow> string" where
  "strip_quotes glob =
     (if length glob \<ge> 2 \<and> (hd glob = squote \<and> last glob = squote \<or> hd glob = CHR 0x22 \<and> last glob = CHR 0x22)
      then butlast (tl glob) else glob)"

definition matchesGlob :: "'s grep_env \<Rightarrow> string \<Rightarrow> string \<Rightarrow> bool" where
  "matchesGlob E name glob =
     (case ge_globRegexp E (strip_quotes glob) of
        None \<Rightarrow> False
      | Some expr \<Rightarrow>
          (case ge_goRegexp E (''^(?:'' @ expr @ '')$'') of None \<Rightarrow> False | Some re \<Rightarrow> re name))"

fun matchesAny :: "'s grep_env \<Rightarrow> string \<Rightarrow> string list \<Rightarrow> bool" where
  "matchesAny E name [] = False"
| "matchesAny E name (g # gs) = (if matchesGlob E name g then True else matchesAny E name gs)"

definition acceptFile :: "'s grep_env \<Rightarrow> grep_options \<Rightarrow> string \<Rightarrow> bool" where
  "acceptFile E opt name =
     (let base = path_base name
      in \<not> matchesAny E base (go_exclude opt) \<and> (go_include opt = [] \<or> matchesAny E base (go_include opt)))"

section \<open>The traversal budget\<close>

definition maxDepth :: nat where "maxDepth = 256"
definition maxTraversalOperations :: nat where "maxTraversalOperations = 100000"
definition maxTraversalResults :: nat where "maxTraversalResults = 100000"

datatype trav_err = errOperations | errElements | tCtx string

record tstate =
  tb_operations :: nat
  tb_results :: nat
  tb_ticks :: nat

type_synonym 'a trav = "tstate \<Rightarrow> (trav_err + 'a) \<times> tstate"

definition tbind :: "(trav_err + 'a) \<times> tstate \<Rightarrow> ('a \<Rightarrow> 'b trav) \<Rightarrow> (trav_err + 'b) \<times> tstate" where
  "tbind r f = (case r of (Inl e, s) \<Rightarrow> (Inl e, s) | (Inr x, s) \<Rightarrow> f x s)"

definition tstep :: "unit trav" where
  "tstep s =
     (let s1 = s\<lparr>tb_operations := Suc (tb_operations s)\<rparr>
      in if tb_operations s1 > maxTraversalOperations then (Inl errOperations, s1) else (Inr (), s1))"

definition tadd :: "string \<Rightarrow> string list trav" where
  "tadd name s =
     (if tb_results s \<ge> maxTraversalResults then (Inl errElements, s)
      else (Inr [name], s\<lparr>tb_results := Suc (tb_results s)\<rparr>))"

definition tctx :: "(nat \<Rightarrow> string option) \<Rightarrow> unit trav" where
  "tctx ctx s =
     (case ctx (tb_ticks s) of Some m \<Rightarrow> Inl (tCtx m) | None \<Rightarrow> Inr (), s\<lparr>tb_ticks := Suc (tb_ticks s)\<rparr>)"

text \<open>The names that the visits of a sequence add, one visit after the other.\<close>

fun each :: "('a \<Rightarrow> string list trav) \<Rightarrow> 'a list \<Rightarrow> string list trav" where
  "each f [] s = (Inr [], s)"
| "each f (x # xs) s = tbind (f x s) (\<lambda>r1 s1. tbind (each f xs s1) (\<lambda>r2 s2. (Inr (r1 @ r2), s2)))"

section \<open>Traversal\<close>

definition childPath :: "string \<Rightarrow> string \<Rightarrow> string" where
  "childPath dir name =
     (if dir = ''.'' \<or> dir = [] then (if name = ''-'' then ''./-'' else name)
      else if dir = ''/'' then CHR ''/'' # name
      else dir @ ''/'' @ name)"

text \<open>\<open>left\<close> is how many levels remain below the depth limit.\<close>

definition visit_start :: "'s grep_env \<Rightarrow> unit trav" where
  "visit_start E s = tbind (tstep s) (\<lambda>_ s1. tctx (ge_ctx E) s1)"

fun walkFiles :: "'s grep_env \<Rightarrow> grep_options \<Rightarrow> nat \<Rightarrow> string \<Rightarrow> string list trav" where
  "walkFiles E opt 0 name s = tbind (visit_start E s) (\<lambda>_ s1. (Inr [], s1))"
| "walkFiles E opt (Suc left) name s =
     tbind (visit_start E s) (\<lambda>_ s1.
       case ge_fs E of
         None \<Rightarrow> (Inr [], s1)
       | Some fs \<Rightarrow>
           (case fs_stat fs (ge_state E) (grep_resolvePath (ge_dir E) name) of
              Inl _ \<Rightarrow> (Inr [], s1)
            | Inr info \<Rightarrow>
                if \<not> fi_isDir info then
                  (if mode_isRegular (fi_mode info) \<and> acceptFile E opt name then tadd name s1 else (Inr [], s1))
                else if matchesAny E (path_base name) (go_excludeDir opt) then (Inr [], s1)
                else
                  tbind (tstep s1) (\<lambda>_ s2.
                    case fs_readdir fs (ge_state E) (grep_resolvePath (ge_dir E) name) of
                      Inl _ \<Rightarrow> (Inr [], s2)
                    | Inr entries \<Rightarrow>
                        each (\<lambda>e s3. tbind (tstep s3) (\<lambda>_ s4.
                          if hasPrefix (de_name e) ''.'' then (Inr [], s4)
                          else walkFiles E opt left (childPath name (de_name e)) s4)) (sort_entries entries) s2)))"

fun walkGlob :: "'s grep_env \<Rightarrow> 's billy \<Rightarrow> string \<Rightarrow> nat \<Rightarrow> string \<Rightarrow> string list trav" where
  "walkGlob E fs glob 0 name s = tbind (visit_start E s) (\<lambda>_ s1. (Inr [], s1))"
| "walkGlob E fs glob (Suc left) name s =
     tbind (visit_start E s) (\<lambda>_ s1.
       case fs_stat fs (ge_state E) (grep_resolvePath (ge_dir E) name) of
         Inl _ \<Rightarrow> (Inr [], s1)
       | Inr info \<Rightarrow>
           if \<not> fi_isDir info then
             (if glob \<noteq> [] \<and> matchesGlob E (path_base name) glob then tadd name s1 else (Inr [], s1))
           else
             (case fs_readdir fs (ge_state E) (grep_resolvePath (ge_dir E) name) of
                Inl _ \<Rightarrow> (Inr [], s1)
              | Inr entries \<Rightarrow>
                  each (\<lambda>e s2. walkGlob E fs glob left (childPath name (de_name e)) s2) (sort_entries entries) s1))"

definition glob_dir :: "string \<Rightarrow> string" where
  "glob_dir glob =
     (let dir = trimSuffix (fst (path_split glob)) ''/''
      in if dir = [] then (if hasPrefix glob ''/'' then ''/'' else ''.'') else dir)"

definition expandGlob :: "'s grep_env \<Rightarrow> string \<Rightarrow> string list trav" where
  "expandGlob E glob s =
     tbind (tstep s) (\<lambda>_ s1.
       case ge_fs E of
         None \<Rightarrow> (Inr [], s1)
       | Some fs \<Rightarrow>
           (case strIndex glob ''**'' of
              Some i \<Rightarrow>
                (let base = trimSuffix (take i glob) ''/'';
                     suffix = trimPrefix (fst (strCut (drop (i + 2) glob) ''**'')) ''/''
                 in walkGlob E fs suffix maxDepth (if base = [] then ''.'' else base) s1)
            | None \<Rightarrow>
                (case fs_readdir fs (ge_state E) (grep_resolvePath (ge_dir E) (glob_dir glob)) of
                   Inl _ \<Rightarrow> (Inr [], s1)
                 | Inr entries \<Rightarrow>
                     tbind (each (\<lambda>e s2. tbind (visit_start E s2) (\<lambda>_ s3.
                              if matchesGlob E (de_name e) (snd (path_split glob))
                              then tadd (childPath (glob_dir glob) (de_name e)) s3 else (Inr [], s3))) entries s1)
                       (\<lambda>result s4. (Inr (sort result), s4)))))"

definition collect_operand :: "'s grep_env \<Rightarrow> grep_options \<Rightarrow> string \<Rightarrow> string list trav" where
  "collect_operand E opt name s =
     tbind (visit_start E s) (\<lambda>_ s1.
       if name = ''-'' then tadd name s1
       else
         tbind (if list_ex (\<lambda>c. c \<in> set ''*?['') name then expandGlob E name s1 else (Inr [name], s1))
           (\<lambda>expanded s2.
              each (\<lambda>entry s3. if \<not> go_recursive opt then tadd entry s3 else walkFiles E opt maxDepth entry s3) expanded s2))"

definition collectFiles :: "'s grep_env \<Rightarrow> string list \<Rightarrow> grep_options \<Rightarrow> string list trav" where
  "collectFiles E files opt s = each (collect_operand E opt) files s"

end
