(* ===== verification/Grep.thy ===== *)
theory Grep
  imports Grep_Files
begin

text \<open>
  The grep command: its options (\<^verbatim>\<open>command/internal/grep/options.go\<close>) and \<^verbatim>\<open>Exec\<close>
  (\<^verbatim>\<open>grep.go\<close>).  The option parser (getopt) is a parameter: a parse of an argument list is
  the options it met, in order, with the value each left, an error, the arguments that remain
  and whether a \<^verbatim>\<open>--\<close> ended it.  A context that has ended stays ended, so that the second look of
  \<^verbatim>\<open>if ctx.Err() != nil { return ctx.Err() }\<close> is the first one.
\<close>

section \<open>Options\<close>

text \<open>White space is trimmed rune by rune at both ends.\<close>

function rune_chunks :: "string \<Rightarrow> string list" where
  "rune_chunks s =
     (if s = [] then [] else let n = max 1 (snd (decodeRune s)) in take n s # rune_chunks (drop n s))"
  by pat_completeness auto
termination
  by (relation "measure length") (simp_all add: max_def)

declare rune_chunks.simps [simp del]

definition trimSpace :: "unicode \<Rightarrow> string \<Rightarrow> string" where
  "trimSpace U s =
     (let sp = (\<lambda>t. IsSpace U (fst (decodeRune t)))
      in concat (rev (dropWhile sp (rev (dropWhile sp (rune_chunks s))))))"

definition parseNumber :: "unicode \<Rightarrow> string \<Rightarrow> nat" where
  "parseNumber U s0 =
     (let s = trimSpace U s0; sgn = (if hasPrefix s ''+'' \<or> hasPrefix s ''-'' then 1 else 0)
      in case atoi (take sgn s @ takeWhile is_digit (drop sgn s)) of
           None \<Rightarrow> 0
         | Some n \<Rightarrow> if n < 0 then 0 else nat n)"

datatype bool_flag =
    ignore_case | invert_match | word_regexp | line_regexp | extended_regexp | perl_regexp | fixed_strings
  | count_flag | files_with_matches | files_without_match | line_number | no_filename | only_matching
  | quiet_flag | recursive_flag

datatype list_flag = flag_e | flag_file | flag_include | flag_exclude | flag_exclude_dir

text \<open>An option that was met: a switch and its value, a list and its new contents, a number, help.\<close>

datatype opt_event = Switch bool_flag bool | Values list_flag "string list" | Param char string | HelpFlag bool

datatype getopt_err = UnknownOption string string | MissingParameter string string | OtherOption string

record 'g opt_run =
  or_events :: "opt_event list"
  or_err :: "getopt_err option"
  or_rest :: "string list"
  or_dashDash :: bool
  or_next :: 'g

fun set_switch :: "bool_flag \<Rightarrow> bool \<Rightarrow> grep_options \<Rightarrow> grep_options" where
  "set_switch ignore_case b opt = opt\<lparr>go_ignoreCase := b\<rparr>"
| "set_switch invert_match b opt = opt\<lparr>go_invert := b\<rparr>"
| "set_switch word_regexp b opt = opt\<lparr>go_word := b\<rparr>"
| "set_switch line_regexp b opt = opt\<lparr>go_line := b\<rparr>"
| "set_switch extended_regexp b opt = opt\<lparr>go_extended := b\<rparr>"
| "set_switch perl_regexp b opt = opt\<lparr>go_perl := b\<rparr>"
| "set_switch fixed_strings b opt = opt\<lparr>go_fixed := b\<rparr>"
| "set_switch count_flag b opt = opt\<lparr>go_count := b\<rparr>"
| "set_switch files_with_matches b opt = opt\<lparr>go_list := b\<rparr>"
| "set_switch files_without_match b opt = opt\<lparr>go_listWithout := b\<rparr>"
| "set_switch line_number b opt = opt\<lparr>go_numbers := b\<rparr>"
| "set_switch no_filename b opt = opt\<lparr>go_noFilename := b\<rparr>"
| "set_switch only_matching b opt = opt\<lparr>go_only := b\<rparr>"
| "set_switch quiet_flag b opt = opt\<lparr>go_quiet := b\<rparr>"
| "set_switch recursive_flag b opt = opt\<lparr>go_recursive := b\<rparr>"

fun set_list :: "list_flag \<Rightarrow> string list \<Rightarrow> grep_options \<Rightarrow> grep_options" where
  "set_list flag_e vs opt = opt\<lparr>go_patterns := vs\<rparr>"
| "set_list flag_file vs opt = opt\<lparr>go_patternFiles := vs\<rparr>"
| "set_list flag_include vs opt = opt\<lparr>go_include := vs\<rparr>"
| "set_list flag_exclude vs opt = opt\<lparr>go_exclude := vs\<rparr>"
| "set_list flag_exclude_dir vs opt = opt\<lparr>go_excludeDir := vs\<rparr>"

definition set_param :: "unicode \<Rightarrow> char \<Rightarrow> string \<Rightarrow> grep_options \<Rightarrow> grep_options" where
  "set_param U c v opt =
     (if c = CHR ''A'' then opt\<lparr>go_after := parseNumber U v\<rparr>
      else if c = CHR ''B'' then opt\<lparr>go_before := parseNumber U v\<rparr>
      else if c = CHR ''C'' then opt\<lparr>go_before := parseNumber U v, go_after := parseNumber U v\<rparr>
      else if c = CHR ''m'' then opt\<lparr>go_maxCount := parseNumber U v\<rparr>
      else opt)"

text \<open>The callback of the parser: it ends the parse when help was asked for.\<close>

fun apply_events :: "unicode \<Rightarrow> opt_event list \<Rightarrow> grep_options \<Rightarrow> grep_options \<times> bool" where
  "apply_events U [] opt = (opt, False)"
| "apply_events U (HelpFlag b # es) opt = (if b then (opt, True) else apply_events U es opt)"
| "apply_events U (Switch f b # es) opt = apply_events U es (set_switch f b opt)"
| "apply_events U (Values f vs # es) opt = apply_events U es (set_list f vs opt)"
| "apply_events U (Param c v # es) opt = apply_events U es (set_param U c v opt)"

datatype parse_err = BadOption getopt_err | MissingPattern

datatype parsed = ParseErr parse_err | ParseHelp | Parsed grep_options "string list"

text \<open>
  The loop over operands: \<open>None\<close> is a parser that does not consume its operands (the loop of the
  source would not end).
\<close>

fun option_loop ::
  "nat \<Rightarrow> unicode \<Rightarrow> ('g \<Rightarrow> string list \<Rightarrow> 'g opt_run) \<Rightarrow> 'g \<Rightarrow> string list \<Rightarrow> grep_options \<Rightarrow> string list \<Rightarrow> parsed option" where
  "option_loop fuel U Getopt g argv opt operands =
     (if length argv \<le> 1 then Some (Parsed opt operands)
      else
        (let r = Getopt g argv; (opt1, stopped) = apply_events U (or_events r) opt
         in if stopped then Some ParseHelp
            else case or_err r of
              Some e \<Rightarrow> Some (ParseErr (BadOption e))
            | None \<Rightarrow>
                if or_dashDash r then Some (Parsed opt1 (operands @ or_rest r))
                else if or_rest r = [] then Some (Parsed opt1 operands)
                else (case fuel of
                        0 \<Rightarrow> None
                      | Suc f \<Rightarrow> option_loop f U Getopt (or_next r) (or_rest r) opt1 (operands @ [hd (or_rest r)]))))"

declare option_loop.simps [simp del]

definition no_options :: grep_options where
  "no_options = \<lparr>go_ignoreCase = False, go_invert = False, go_word = False, go_line = False, go_extended = False,
     go_perl = False, go_fixed = False, go_count = False, go_list = False, go_listWithout = False, go_numbers = False,
     go_noFilename = False, go_only = False, go_quiet = False, go_recursive = False, go_before = 0, go_after = 0,
     go_maxCount = 0, go_patterns = [], go_patternFiles = [], go_include = [], go_exclude = [], go_excludeDir = []\<rparr>"

definition split_patterns :: "grep_options \<Rightarrow> grep_options" where
  "split_patterns opt = opt\<lparr>go_patterns := concat (map (splitOn newline) (go_patterns opt))\<rparr>"

definition parseOptions ::
  "unicode \<Rightarrow> ('g \<Rightarrow> string list \<Rightarrow> 'g opt_run) \<Rightarrow> 'g \<Rightarrow> string list \<Rightarrow> parsed option" where
  "parseOptions U Getopt g args =
     map_option (\<lambda>r. case r of
         Parsed opt operands \<Rightarrow>
           if go_patterns opt = [] \<and> go_patternFiles opt = [] then
             (case operands of
                [] \<Rightarrow> ParseErr MissingPattern
              | p # rest \<Rightarrow> Parsed (split_patterns (opt\<lparr>go_patterns := [p]\<rparr>)) rest)
           else Parsed (split_patterns opt) operands
       | _ \<Rightarrow> r)
       (option_loop (length args) U Getopt g (''grep'' # args) no_options [])"

definition helpText :: string where
  "helpText =
     ''grep - print lines that match patterns'' @ nl @ nl @
     ''Usage: grep [OPTION]... PATTERN [FILE]...'' @ nl @ nl @
     ''Description:'' @ nl @
     ''  Search for PATTERN in each FILE.'' @ nl @
     ''  With no FILE, or when FILE is -, read standard input.'' @ nl @ nl @
     ''Options:'' @ nl @
     ''  -E, --extended-regexp    PATTERN is an extended regular expression'' @ nl @
     ''  -P, --perl-regexp        PATTERN is a Perl regular expression'' @ nl @
     ''  -F, --fixed-strings      PATTERN is a set of newline-separated strings'' @ nl @
     ''  -i, --ignore-case        ignore case distinctions'' @ nl @
     ''  -v, --invert-match       select non-matching lines'' @ nl @
     ''  -w, --word-regexp        match only whole words'' @ nl @
     ''  -x, --line-regexp        match only whole lines'' @ nl @
     ''  -c, --count              print only a count of matching lines'' @ nl @
     ''  -l, --files-with-matches print only names of files with matches'' @ nl @
     ''  -L, --files-without-match print names of files with no matches'' @ nl @
     ''  -m NUM, --max-count=NUM  stop after NUM matches'' @ nl @
     ''  -n, --line-number        print line number with output lines'' @ nl @
     ''  -h, --no-filename        suppress the file name prefix on output'' @ nl @
     ''  -o, --only-matching      show only nonempty parts of lines that match'' @ nl @
     ''  -q, --quiet, --silent    suppress all normal output'' @ nl @
     ''  -r, -R, --recursive      search directories recursively'' @ nl @
     ''  -A NUM                   print NUM lines of trailing context'' @ nl @
     ''  -B NUM                   print NUM lines of leading context'' @ nl @
     ''  -C NUM                   print NUM lines of context'' @ nl @
     ''  -e PATTERN               use PATTERN for matching'' @ nl @
     ''  -f FILE, --file=FILE     obtain patterns from FILE, one per line'' @ nl @
     ''      --include=GLOB       search only files matching GLOB'' @ nl @
     ''      --exclude=GLOB       skip files matching GLOB'' @ nl @
     ''      --exclude-dir=DIR    skip directories matching DIR'' @ nl @
     ''      --help               display this help and exit'' @ nl"

section \<open>The command\<close>

text \<open>\<open>gs_stdin\<close> is \<open>None\<close> when the command has no standard input.\<close>

record grep_st =
  gs_budget :: gstate
  gs_stdin :: "ginput option"
  gs_out :: string
  gs_err :: string

definition complain :: "string \<Rightarrow> grep_st \<Rightarrow> grep_st" where
  "complain m st = st\<lparr>gs_err := gs_err st @ m\<rparr>"

definition print_out :: "'s grep_env \<Rightarrow> string \<Rightarrow> grep_st \<Rightarrow> (exit_result + grep_st) \<times> grep_st" where
  "print_out E t st =
     (case ge_outfail E (gs_out st) t of
        Some m \<Rightarrow> (Inl (ExitErr m), st)
      | None \<Rightarrow> (Inr (st\<lparr>gs_out := gs_out st @ t\<rparr>), st\<lparr>gs_out := gs_out st @ t\<rparr>))"

definition splitLines_grep :: "string \<Rightarrow> string list" where
  "splitLines_grep s =
     (if s = [] then []
      else let lines = splitOn newline s in if last lines = [] then butlast lines else lines)"

fun err_text :: "grep_err \<Rightarrow> string" where
  "err_text errWorkLimit = ''matching work limit exceeded''"
| "err_text errResultLimit = ''match result limit exceeded''"
| "err_text errOutputLimit = ''output size limit exceeded''"
| "err_text errLineLimit = ''input line size limit exceeded''"
| "err_text errContextLimit = ''context size limit exceeded''"
| "err_text errInput = ''Input/output error''"
| "err_text errReset = ''invalid match reset position''"
| "err_text errEngine = ''match timeout''"
| "err_text errMissing = ''No such file or directory''"
| "err_text errDirectory = ''Is a directory''"
| "err_text (errCtx m) = m"

fun trav_text :: "trav_err \<Rightarrow> string" where
  "trav_text errOperations = ''glob operation limit exceeded''"
| "trav_text errElements = ''array element limit exceeded''"
| "trav_text (tCtx m) = m"

text \<open>The context's error when it has ended, and otherwise what \<open>k\<close> does.\<close>

definition unless_ended :: "'s grep_env \<Rightarrow> grep_st \<Rightarrow> (grep_st \<Rightarrow> exit_result \<times> grep_st) \<Rightarrow> exit_result \<times> grep_st" where
  "unless_ended E st k =
     (case check_ctx (ge_ctx E) (gs_budget st) of
        (Inl e, b) \<Rightarrow> (ExitErr (err_text e), st\<lparr>gs_budget := b\<rparr>)
      | (Inr _, b) \<Rightarrow> k (st\<lparr>gs_budget := b\<rparr>))"

definition reported :: "grep_err \<Rightarrow> bool" where
  "reported e \<longleftrightarrow> e \<in> {errWorkLimit, errResultLimit, errOutputLimit, errLineLimit, errContextLimit, errInput}"

definition searchError :: "'s grep_env \<Rightarrow> grep_err \<Rightarrow> grep_st \<Rightarrow> exit_result \<times> grep_st" where
  "searchError E e st =
     unless_ended E st (\<lambda>st1.
       (ExitStatus 2,
        complain (if reported e then ''grep: '' @ err_text e @ nl
                  else ''grep: regular expression execution limit exceeded'' @ nl) st1))"

definition option_error :: "parse_err \<Rightarrow> string \<times> nat" where
  "option_error e =
     (case e of
        BadOption (UnknownOption name m) \<Rightarrow>
          (if hasPrefix name ''--'' then ''grep: unrecognized option '' @ [squote] @ name @ [squote] @ nl
           else ''grep: invalid option -- '' @ [squote] @ trimPrefix name ''-'' @ [squote] @ nl, 1)
      | BadOption (MissingParameter name m) \<Rightarrow>
          (if hasPrefix name ''--'' then ''grep: option '' @ [squote] @ name @ [squote] @ '' requires an argument'' @ nl
           else ''grep: option requires an argument -- '' @ [squote] @ trimPrefix name ''-'' @ [squote] @ nl, 2)
      | BadOption (OtherOption m) \<Rightarrow> (''grep: '' @ m @ nl, 2)
      | MissingPattern \<Rightarrow> (''grep: missing pattern'' @ nl, 2))"

text \<open>The patterns of the pattern files, in order, or how the command ends.\<close>

fun pattern_files ::
  "'s grep_env \<Rightarrow> string list \<Rightarrow> string list \<Rightarrow> grep_st \<Rightarrow> (exit_result + string list) \<times> grep_st" where
  "pattern_files E [] ps st = (Inr ps, st)"
| "pattern_files E (name # names) ps st =
     (case readInput E (gs_stdin st) name (gs_budget st) of
        (r, stdin, b) \<Rightarrow>
          (let st1 = st\<lparr>gs_stdin := stdin, gs_budget := b\<rparr>
           in case r of
                Inl e \<Rightarrow>
                  (let (x, st2) = unless_ended E st1 (\<lambda>st'.
                     (ExitStatus 2, complain (''grep: '' @ name @ '': '' @ err_text e @ nl) st'))
                   in (Inl x, st2))
              | Inr content \<Rightarrow> pattern_files E names (ps @ splitLines_grep content) st1))"

text \<open>The search of standard input when there are no file operands.\<close>

definition search_implicit :: "'s grep_env \<Rightarrow> matcher \<Rightarrow> grep_options \<Rightarrow> grep_st \<Rightarrow> exit_result \<times> grep_st" where
  "search_implicit E m opt st =
     (if gs_stdin st = None then (ExitStatus 2, complain (''grep: no input files'' @ nl) st)
      else case openInput E (gs_stdin st) ''-'' (gs_budget st) of
        (Inl e, b) \<Rightarrow>
          unless_ended E (st\<lparr>gs_budget := b\<rparr>) (\<lambda>st'.
            (ExitStatus 2, complain (''grep: (standard input): '' @ err_text e @ nl) st'))
      | (Inr op, b) \<Rightarrow>
          (let inp = (case op of OpenStdin i \<Rightarrow> i | OpenFile i \<Rightarrow> i)
           in case search (ge_ctx E) inp m (opt\<lparr>go_list := False, go_listWithout := False\<rparr>) [] b of
                (Inl e, b1) \<Rightarrow> searchError E e (st\<lparr>gs_budget := b1\<rparr>)
              | (Inr (output, matched), b1) \<Rightarrow>
                  (case (if go_quiet opt then (Inr (st\<lparr>gs_budget := b1\<rparr>), st\<lparr>gs_budget := b1\<rparr>)
                         else print_out E output (st\<lparr>gs_budget := b1\<rparr>)) of
                     (Inl x, st2) \<Rightarrow> (x, st2)
                   | (Inr st2, _) \<Rightarrow> (if matched then ExitOk else ExitStatus 1, st2))))"

record entry_st =
  es_match :: bool
  es_error :: bool
  es_claimed :: bool
  es_diag :: string

definition show_name :: "string \<Rightarrow> string" where
  "show_name name = (if name = ''-'' then ''(standard input)'' else name)"

definition listed :: "grep_options \<Rightarrow> string \<Rightarrow> bool \<Rightarrow> string \<Rightarrow> string" where
  "listed opt display matched output =
     (if matched then (if go_list opt then display @ nl else if go_listWithout opt then [] else output)
      else if go_listWithout opt then display @ nl
      else if \<not> go_count opt \<or> go_list opt then [] else output)"

text \<open>The output of one searched entry: how the command ends, or the state to go on with.\<close>

definition entry_output ::
  "'s grep_env \<Rightarrow> grep_options \<Rightarrow> string \<Rightarrow> string \<Rightarrow> bool \<Rightarrow> entry_st \<Rightarrow> grep_st
   \<Rightarrow> (exit_result + entry_st) \<times> grep_st" where
  "entry_output E opt display output matched es st =
     (if matched \<and> go_quiet opt then (Inl ExitOk, st)
      else
        (let es1 = (if matched then es\<lparr>es_match := True\<rparr> else es); shown = listed opt display matched output
         in if go_quiet opt then (Inr es1, st)
            else case (if go_list opt \<or> go_listWithout opt then budget_write [shown] (gs_budget st) else (Inr [], gs_budget st)) of
              (Inl e, b) \<Rightarrow> (let (x, st1) = searchError E e (st\<lparr>gs_budget := b\<rparr>) in (Inl x, st1))
            | (Inr _, b) \<Rightarrow>
                (case print_out E shown (st\<lparr>gs_budget := b\<rparr>) of
                   (Inl x, st1) \<Rightarrow> (Inl x, st1)
                 | (Inr st1, _) \<Rightarrow> (Inr es1, st1))))"

definition add_diag :: "string \<Rightarrow> grep_err \<Rightarrow> entry_st \<Rightarrow> entry_st" where
  "add_diag display e es = es\<lparr>es_diag := es_diag es @ ''grep: '' @ display @ '': '' @ err_text e @ nl\<rparr>"

text \<open>Like \<^const>\<open>unless_ended\<close>, inside the loop.\<close>

definition ended_or :: "'s grep_env \<Rightarrow> grep_st \<Rightarrow> (grep_st \<Rightarrow> (exit_result + 'a) \<times> grep_st) \<Rightarrow> (exit_result + 'a) \<times> grep_st" where
  "ended_or E st k =
     (case check_ctx (ge_ctx E) (gs_budget st) of
        (Inl e, b) \<Rightarrow> (Inl (ExitErr (err_text e)), st\<lparr>gs_budget := b\<rparr>)
      | (Inr _, b) \<Rightarrow> k (st\<lparr>gs_budget := b\<rparr>))"

definition grep_entry ::
  "'s grep_env \<Rightarrow> matcher \<Rightarrow> grep_options \<Rightarrow> bool \<Rightarrow> string \<Rightarrow> entry_st \<Rightarrow> grep_st
   \<Rightarrow> (exit_result + entry_st) \<times> grep_st" where
  "grep_entry E m opt showFilename name es st0 =
     ended_or E st0 (\<lambda>st.
       if name \<noteq> ''-'' \<and> \<not> go_recursive opt \<and> \<not> acceptFile E opt name then (Inr es, st)
       else
         (let display = show_name name
          in case openInput E (gs_stdin st) name (gs_budget st) of
               (Inl e, b) \<Rightarrow>
                 ended_or E (st\<lparr>gs_budget := b\<rparr>) (\<lambda>st1.
                   (Inr ((add_diag display e es)\<lparr>es_error := es_error es \<or> e \<noteq> errDirectory\<rparr>), st1))
             | (Inr op, b) \<Rightarrow>
                 (let inp0 = (case op of OpenStdin i \<Rightarrow> i | OpenFile i \<Rightarrow> i);
                      inp = (if name = ''-'' \<and> es_claimed es then \<lparr>gi_bytes = [], gi_failed = False\<rparr> else inp0);
                      es1 = (if name = ''-'' then es\<lparr>es_claimed := True\<rparr> else es)
                  in case search (ge_ctx E) inp m opt (if showFilename then display else []) b of
                       (Inl e, b1) \<Rightarrow>
                         ended_or E (st\<lparr>gs_budget := b1\<rparr>) (\<lambda>st1.
                           if e = errInput then (Inr ((add_diag display e es1)\<lparr>es_error := True\<rparr>), st1)
                           else (let (x, st2) = searchError E e st1 in (Inl x, st2)))
                     | (Inr (output, matched), b1) \<Rightarrow>
                         entry_output E opt display output matched es1 (st\<lparr>gs_budget := b1\<rparr>))))"

fun grep_entries ::
  "'s grep_env \<Rightarrow> matcher \<Rightarrow> grep_options \<Rightarrow> bool \<Rightarrow> string list \<Rightarrow> entry_st \<Rightarrow> grep_st
   \<Rightarrow> (exit_result + entry_st) \<times> grep_st" where
  "grep_entries E m opt showFilename [] es st = (Inr es, st)"
| "grep_entries E m opt showFilename (name # names) es st =
     (case grep_entry E m opt showFilename name es st of
        (Inl x, st1) \<Rightarrow> (Inl x, st1)
      | (Inr es1, st1) \<Rightarrow> grep_entries E m opt showFilename names es1 st1)"

definition entries_status :: "entry_st \<Rightarrow> exit_result" where
  "entries_status es = (if es_error es then ExitStatus 2 else if \<not> es_match es then ExitStatus 1 else ExitOk)"

definition search_operands ::
  "'s grep_env \<Rightarrow> matcher \<Rightarrow> grep_options \<Rightarrow> string list \<Rightarrow> grep_st \<Rightarrow> exit_result \<times> grep_st" where
  "search_operands E m opt files st =
     (let (r, t) = collectFiles E files opt \<lparr>tb_operations = 0, tb_results = 0, tb_ticks = bg_ticks (gs_budget st)\<rparr>;
          st1 = st\<lparr>gs_budget := (gs_budget st)\<lparr>bg_ticks := tb_ticks t\<rparr>\<rparr>
      in case r of
           Inl e \<Rightarrow> unless_ended E st1 (\<lambda>st2. (ExitStatus 2, complain (''grep: '' @ trav_text e @ nl) st2))
         | Inr entries \<Rightarrow>
             (let hasFile = list_ex (\<lambda>f. f \<noteq> ''-'') files;
                  showFilename = (\<not> go_noFilename opt \<and> (length entries > 1 \<or> go_recursive opt \<and> hasFile))
              in case grep_entries E m opt showFilename entries
                        \<lparr>es_match = False, es_error = False, es_claimed = False, es_diag = []\<rparr> st1 of
                   (Inl x, st2) \<Rightarrow> (x, st2)
                 | (Inr es, st2) \<Rightarrow>
                     if go_quiet opt then (entries_status es, st2)
                     else case ge_errfail E (gs_err st2) (es_diag es) of
                       Some msg \<Rightarrow> (ExitErr msg, st2)
                     | None \<Rightarrow> (entries_status es, complain (es_diag es) st2)))"

definition grep_patterns ::
  "'s grep_env \<Rightarrow> grep_options \<Rightarrow> string list \<Rightarrow> grep_st \<Rightarrow> exit_result \<times> grep_st" where
  "grep_patterns E opt0 files st =
     (case pattern_files E (go_patternFiles opt0) (go_patterns opt0) st of
        (Inl x, st1) \<Rightarrow> (x, st1)
      | (Inr ps, st1) \<Rightarrow>
          (let opt = opt0\<lparr>go_patterns := ps\<rparr>
           in if ps = [] \<and> \<not> go_invert opt \<and> \<not> go_listWithout opt then (ExitStatus 1, st1)
              else case compilePatterns (ge_engine E) opt of
                Inl e \<Rightarrow> (ExitStatus 2, complain (''grep: '' @ e @ nl) st1)
              | Inr m \<Rightarrow>
                  if files = [] then search_implicit E m opt st1 else search_operands E m opt files st1))"

definition grep_Exec ::
  "'s grep_env option \<Rightarrow> ('g \<Rightarrow> string list \<Rightarrow> 'g opt_run) \<Rightarrow> 'g \<Rightarrow> string list \<Rightarrow> grep_st \<Rightarrow> (exit_result \<times> grep_st) option" where
  "grep_Exec ec Getopt g args st0 =
     (case ec of
        None \<Rightarrow> Some (ExitErr ''grep: nil ExecContext'', st0)
      | Some E \<Rightarrow>
          (case check_ctx (ge_ctx E) (gs_budget st0) of
             (Inl e, b) \<Rightarrow> Some (ExitErr (err_text e), st0\<lparr>gs_budget := b\<rparr>)
           | (Inr _, b) \<Rightarrow>
               (let st = st0\<lparr>gs_budget := b\<lparr>bg_work := 0, bg_results := 0, bg_output := 0\<rparr>\<rparr>
                in case parseOptions (ge_unicode E) Getopt g args of
                     None \<Rightarrow> None
                   | Some (ParseErr e) \<Rightarrow>
                       Some (ExitStatus (snd (option_error e)), complain (fst (option_error e)) st)
                   | Some ParseHelp \<Rightarrow> Some (ExitOk, complain helpText st)
                   | Some (Parsed opt files) \<Rightarrow> Some (grep_patterns E opt files st))))"

definition egrep_Exec where
  "egrep_Exec ec Getopt g args st = grep_Exec ec Getopt g (''-E'' # args) st"

definition fgrep_Exec where
  "fgrep_Exec ec Getopt g args st = grep_Exec ec Getopt g (''-F'' # args) st"

end
