(* ===== verification/Grep_Output.thy ===== *)
theory Grep_Output
  imports Grep
begin

text \<open>
  What a search of grep prints, against a specification that does not go line by line: the
  selected lines, the window of context around each, a separator between groups that do not
  touch (\<^verbatim>\<open>search\<close> of \<^verbatim>\<open>command/internal/grep/search.go\<close>).
\<close>

section \<open>The lines of an input\<close>

definition input_lines :: "ginput \<Rightarrow> string list" where
  "input_lines inp = map decodeUTF8 (splitLines_grep (gi_bytes inp))"

lemma splitOn_takeWhile: "splitOn c s = takeWhile (\<lambda>x. x \<noteq> c) s # (if c \<in> set s then splitOn c (tl (dropWhile (\<lambda>x. x \<noteq> c) s)) else [])"
  by (induction s) auto

lemma no_separator [simp]:
  assumes "c \<notin> set s"
  shows "takeWhile (\<lambda>x. x \<noteq> c) s = s" and "dropWhile (\<lambda>x. x \<noteq> c) s = []"
  using assms by (induction s) auto

lemma splitLines_grep_step:
  "splitLines_grep s =
     (if s = [] then [] else takeWhile (\<lambda>c. c \<noteq> newline) s # splitLines_grep (tl (dropWhile (\<lambda>c. c \<noteq> newline) s)))"
proof (cases "s = []")
  case False
  then show ?thesis
  proof (cases "newline \<in> set s")
    case True
    let ?r = "tl (dropWhile (\<lambda>c. c \<noteq> newline) s)"
    have "splitOn newline ?r \<noteq> []" using splitOn_takeWhile[of newline ?r] by simp
    moreover have "?r = [] \<Longrightarrow> splitOn newline ?r = [[]]" by simp
    ultimately show ?thesis
      using False True splitOn_takeWhile[of newline s] by (auto simp: splitLines_grep_def Let_def)
  next
    case no: False
    then show ?thesis
      using False splitOn_takeWhile[of newline s] by (simp add: splitLines_grep_def Let_def)
  qed
qed (simp add: splitLines_grep_def)

lemma drop_raw_line: "drop (length (raw_line s)) s = tl (dropWhile (\<lambda>c. c \<noteq> newline) s)"
proof -
  have d: "dropWhile (\<lambda>c. c \<noteq> newline) s = drop (length (takeWhile (\<lambda>c. c \<noteq> newline) s)) s"
    by (metis dropWhile_eq_drop)
  show ?thesis
  proof (cases "newline \<in> set s")
    case True
    then show ?thesis by (simp add: raw_line_def d drop_Suc tl_drop)
  next
    case False
    then show ?thesis by (simp add: raw_line_def)
  qed
qed

lemma raw_line_Nil [simp]: "raw_line s = [] \<longleftrightarrow> s = []"
  by (cases s) (auto simp: raw_line_def)

lemma takeWhile_raw_line: "takeWhile (\<lambda>c. c \<noteq> newline) (raw_line s) = takeWhile (\<lambda>c. c \<noteq> newline) s"
  by (auto simp: raw_line_def takeWhile_append)

lemma readLine_Some:
  assumes "readLine inp = Inr (Some (line, inp'))"
  shows "input_lines inp = line # input_lines inp'" and "gi_failed inp' = gi_failed inp"
  using assms splitLines_grep_step[of "gi_bytes inp"]
  by (auto simp: readLine_def Let_def input_lines_def takeWhile_raw_line drop_raw_line split: if_splits)

lemma readLine_None: "readLine inp = Inr None \<Longrightarrow> input_lines inp = []"
  by (auto simp: readLine_def Let_def input_lines_def splitLines_grep_def split: if_splits)

section \<open>The specification\<close>

definition line_selected :: "matcher \<Rightarrow> grep_options \<Rightarrow> string \<Rightarrow> bool" where
  "line_selected m opt line \<longleftrightarrow>
     (case re_find m line of Inl _ \<Rightarrow> False | Inr mt \<Rightarrow> (mt \<noteq> None) \<noteq> go_invert opt)"

definition selected_upto :: "matcher \<Rightarrow> grep_options \<Rightarrow> string list \<Rightarrow> nat \<Rightarrow> nat list" where
  "selected_upto m opt ls k =
     (let xs = filter (\<lambda>i. line_selected m opt (ls ! i)) [0..<k]
      in if go_maxCount opt = 0 then xs else take (go_maxCount opt) xs)"

definition near :: "grep_options \<Rightarrow> nat list \<Rightarrow> nat \<Rightarrow> bool" where
  "near opt S i \<longleftrightarrow> list_ex (\<lambda>j. j \<le> i + go_before opt \<and> i \<le> j + go_after opt) S"

definition shown_line :: "grep_options \<Rightarrow> string \<Rightarrow> string list \<Rightarrow> nat list \<Rightarrow> nat \<Rightarrow> string" where
  "shown_line opt filename ls S i =
     (if near opt S i then
        (if (go_before opt > 0 \<or> go_after opt > 0) \<and> list_ex (near opt S) [0..<i] \<and> \<not> near opt S (i - 1)
         then ''--'' @ nl else [])
        @ line_prefix opt filename i (i \<in> set S) @ ls ! i @ nl
      else [])"

definition context_output :: "grep_options \<Rightarrow> string \<Rightarrow> string list \<Rightarrow> nat list \<Rightarrow> nat \<Rightarrow> string" where
  "context_output opt filename ls S k = concat (map (shown_line opt filename ls S) [0..<k])"

section \<open>Selected lines\<close>

definition exhausted :: "grep_options \<Rightarrow> nat list \<Rightarrow> bool" where
  "exhausted opt S \<longleftrightarrow> go_maxCount opt > 0 \<and> length S \<ge> go_maxCount opt"

lemma selected_upto_Suc:
  "selected_upto m opt ls (Suc k) =
     (let S = selected_upto m opt ls k
      in if \<not> exhausted opt S \<and> line_selected m opt (ls ! k) then S @ [k] else S)"
  by (auto simp: selected_upto_def exhausted_def Let_def)

lemma selected_upto_0 [simp]: "selected_upto m opt ls 0 = []"
  by (simp add: selected_upto_def)

lemma selected_upto_lt: "i \<in> set (selected_upto m opt ls k) \<Longrightarrow> i < k"
  by (induction k) (auto simp: selected_upto_Suc Let_def less_SucI split: if_splits)

lemma selected_upto_last: "i \<in> set (selected_upto m opt ls k) \<Longrightarrow> i \<le> last (selected_upto m opt ls k)"
proof (induction k)
  case (Suc k)
  then show ?case
    using selected_upto_lt[of i m opt ls k] by (auto simp: selected_upto_Suc Let_def split: if_splits)
qed simp

lemma selected_upto_exhausted:
  "exhausted opt (selected_upto m opt ls k) \<Longrightarrow> k \<le> n \<Longrightarrow> selected_upto m opt ls n = selected_upto m opt ls k"
  by (induction n) (auto simp: selected_upto_Suc Let_def le_Suc_eq)

section \<open>Groups of printed lines\<close>

lemma upt_split: "j \<le> n \<Longrightarrow> [0..<n] = [0..<j] @ [j..<n]"
  using upt_add_eq_append[of 0 j "n - j"] by simp

text \<open>How many lines are settled: everything up to the last line that was printed.\<close>

definition settled :: "grep_options \<Rightarrow> nat list \<Rightarrow> nat \<Rightarrow> nat" where
  "settled opt S k = (if S = [] then 0 else min k (last S + go_after opt + 1))"

definition window :: "grep_options \<Rightarrow> nat list \<Rightarrow> nat \<Rightarrow> nat" where
  "window opt S k = max (settled opt S k) (k - go_before opt)"

locale selection =
  fixes opt :: grep_options and S :: "nat list" and k :: nat
  assumes below: "i \<in> set S \<Longrightarrow> i < k"
    and upper: "i \<in> set S \<Longrightarrow> i \<le> last S"
begin

lemma near_settled: "near opt S i \<Longrightarrow> i < k \<Longrightarrow> i < settled opt S k"
  using upper by (fastforce simp: near_def settled_def list_ex_iff)

lemma settled_near: "i < settled opt S k \<Longrightarrow> k \<le> i + go_before opt \<Longrightarrow> near opt S i"
  using below[of "last S"] by (auto simp: near_def settled_def list_ex_iff intro!: bexI[of _ "last S"] split: if_splits)

lemma settled_last: "S \<noteq> [] \<Longrightarrow> last S < settled opt S k"
  using below[of "last S"] by (simp add: settled_def)

lemma near_last: "S \<noteq> [] \<Longrightarrow> last S \<le> i \<Longrightarrow> i < settled opt S k \<Longrightarrow> near opt S i"
  by (auto simp: near_def settled_def list_ex_iff intro!: bexI[of _ "last S"])

lemma settled_le: "settled opt S k \<le> k"
  by (simp add: settled_def)

lemma near_new: "near opt (S @ [k]) i \<longleftrightarrow> near opt S i \<or> k \<le> i + go_before opt \<and> i \<le> k + go_after opt"
  by (auto simp: near_def)

lemma near_old: "i < window opt S k \<Longrightarrow> near opt (S @ [k]) i \<longleftrightarrow> near opt S i"
  using settled_near[of i] settled_le by (auto simp: near_new window_def)

lemma near_window: "window opt S k \<le> i \<Longrightarrow> i \<le> k \<Longrightarrow> near opt (S @ [k]) i"
  by (auto simp: near_new window_def)

lemma window_le: "window opt S k \<le> k"
  using settled_le by (simp add: window_def)

lemma not_near_window: "window opt S k \<le> i \<Longrightarrow> i < k \<Longrightarrow> \<not> near opt S i"
  using near_settled[of i] by (auto simp: window_def)

lemma shown_old: "i < window opt S k \<Longrightarrow> shown_line opt filename ls (S @ [k]) i = shown_line opt filename ls S i"
  using near_old window_le by (auto simp: shown_line_def list_ex_iff intro!: arg_cong2[where f = "line_prefix opt filename"])

lemma output_cut: "context_output opt filename ls S k = concat (map (shown_line opt filename ls S) [0..<window opt S k])"
proof -
  have "[0..<k] = [0..<window opt S k] @ [window opt S k..<k]" using window_le by (rule upt_split)
  moreover have "concat (map (shown_line opt filename ls S) [window opt S k..<k]) = []"
    using not_near_window by (simp add: shown_line_def)
  ultimately show ?thesis by (simp add: context_output_def)
qed

lemma shown_inner:
  assumes "window opt S k < i" "i \<le> k"
  shows "shown_line opt filename ls (S @ [k]) i = line_prefix opt filename i (i \<in> set (S @ [k])) @ ls ! i @ nl"
  using near_window[of i] near_window[of "i - 1"] assms by (simp add: shown_line_def)

lemma shown_first:
  "shown_line opt filename ls (S @ [k]) (window opt S k) =
     (if (go_before opt > 0 \<or> go_after opt > 0) \<and> S \<noteq> [] \<and> settled opt S k < window opt S k then ''--'' @ nl else [])
     @ line_prefix opt filename (window opt S k) (window opt S k \<in> set (S @ [k])) @ ls ! window opt S k @ nl"
proof -
  let ?f = "window opt S k"
  have n: "near opt (S @ [k]) ?f" using near_window window_le by simp
  have any: "list_ex (near opt (S @ [k])) [0..<?f] \<longleftrightarrow> S \<noteq> []"
  proof
    assume "S \<noteq> []"
    then have "last S < ?f" "near opt S (last S)"
      using settled_last near_last[of "last S"] by (auto simp: window_def)
    then show "list_ex (near opt (S @ [k])) [0..<?f]" using near_old by (auto simp: list_ex_iff)
  next
    assume "list_ex (near opt (S @ [k])) [0..<?f]"
    then show "S \<noteq> []" using near_old by (auto simp: list_ex_iff near_def)
  qed
  have touch: "near opt (S @ [k]) (?f - 1) \<longleftrightarrow> settled opt S k = ?f" if "S \<noteq> []"
  proof -
    have "0 < ?f" "last S \<le> settled opt S k - 1" using settled_last[OF that] by (auto simp: window_def)
    then have "near opt (S @ [k]) (?f - 1) \<longleftrightarrow> near opt S (?f - 1)" using near_old by simp
    moreover have "settled opt S k = ?f \<Longrightarrow> near opt S (?f - 1)"
      using near_last[OF that, of "?f - 1"] \<open>last S \<le> _\<close> \<open>0 < ?f\<close> by simp
    moreover have "settled opt S k \<noteq> ?f \<Longrightarrow> \<not> near opt S (?f - 1)"
      using near_settled[of "?f - 1"] \<open>0 < ?f\<close> window_le by (auto simp: window_def)
    ultimately show ?thesis by blast
  qed
  have "settled opt S k \<le> ?f" by (simp add: window_def)
  then show ?thesis using n any touch by (auto simp: shown_line_def)
qed

lemma grow_selected:
  "context_output opt filename ls (S @ [k]) (Suc k) =
     context_output opt filename ls S k
     @ (if (go_before opt > 0 \<or> go_after opt > 0) \<and> S \<noteq> [] \<and> settled opt S k < window opt S k then ''--'' @ nl else [])
     @ concat (map (\<lambda>i. line_prefix opt filename i False @ ls ! i @ nl) [window opt S k..<k])
     @ line_prefix opt filename k True @ ls ! k @ nl"
proof -
  let ?f = "window opt S k" and ?sh = "shown_line opt filename ls (S @ [k])"
  let ?p = "\<lambda>i. line_prefix opt filename i False @ ls ! i @ nl"
  have fk: "?f \<le> k" by (rule window_le)
  have out: "i \<notin> set S" if "?f \<le> i" for i
    using that settled_last upper[of i] by (cases "S = []") (auto simp: window_def)
  have split: "context_output opt filename ls (S @ [k]) (Suc k) = concat (map ?sh [0..<?f]) @ concat (map ?sh [?f..<Suc k])"
    using fk upt_split[of ?f "Suc k"] by (simp add: context_output_def)
  have old: "concat (map ?sh [0..<?f]) = context_output opt filename ls S k"
    unfolding output_cut by (intro arg_cong[where f = concat] map_cong refl shown_old) simp
  have new: "concat (map ?sh [?f..<Suc k]) =
      (if (go_before opt > 0 \<or> go_after opt > 0) \<and> S \<noteq> [] \<and> settled opt S k < ?f then ''--'' @ nl else [])
      @ concat (map ?p [?f..<k]) @ line_prefix opt filename k True @ ls ! k @ nl"
  proof (cases "?f = k")
    case True
    then show ?thesis using shown_first[of filename ls] by simp
  next
    case False
    then have lt: "?f < k" using fk by simp
    have inner: "concat (map ?sh [Suc ?f..<k]) = concat (map ?p [Suc ?f..<k])"
      using shown_inner out by (intro arg_cong[where f = concat] map_cong) auto
    have "[?f..<Suc k] = ?f # [Suc ?f..<k] @ [k]" "[?f..<k] = ?f # [Suc ?f..<k]" using lt upt_conv_Cons[of ?f k] by simp_all
    then show ?thesis
      using shown_first[of filename ls] shown_inner[of k filename ls] lt out[of ?f] False inner by simp
  qed
  show ?thesis using split old new by simp
qed

lemma grow_after:
  assumes "S \<noteq> []" "k < last S + go_after opt + 1"
  shows "context_output opt filename ls S (Suc k) =
    context_output opt filename ls S k @ line_prefix opt filename k False @ ls ! k @ nl"
proof -
  have "near opt S k"
    using assms below[of "last S"] by (auto simp: near_def list_ex_iff intro!: bexI[of _ "last S"])
  moreover have "near opt S (k - 1)"
    using assms below[of "last S"] by (auto simp: near_def list_ex_iff intro!: bexI[of _ "last S"])
  moreover have "k \<notin> set S" using below[of k] by blast
  ultimately show ?thesis by (simp add: context_output_def shown_line_def)
qed

lemma grow_none:
  assumes "S = [] \<or> last S + go_after opt + 1 \<le> k"
  shows "context_output opt filename ls S (Suc k) = context_output opt filename ls S k"
proof -
  have "\<not> near opt S k" using assms upper by (fastforce simp: near_def list_ex_iff)
  then show ?thesis by (simp add: context_output_def shown_line_def)
qed

end

interpretation sel: selection opt "selected_upto m opt lines k" k for m opt lines k
  by unfold_locales (auto dest: selected_upto_lt selected_upto_last)

section \<open>The loop\<close>

definition plain :: "grep_options \<Rightarrow> bool" where
  "plain opt \<longleftrightarrow> \<not> go_quiet opt \<and> \<not> go_list opt \<and> \<not> go_listWithout opt \<and> \<not> go_count opt \<and> \<not> go_only opt"

text \<open>What the loop keeps, after \<open>k\<close> lines.\<close>

definition loop_inv :: "matcher \<Rightarrow> grep_options \<Rightarrow> string \<Rightarrow> string list \<Rightarrow> nat \<Rightarrow> search_st \<Rightarrow> bool" where
  "loop_inv m opt filename ls k st \<longleftrightarrow>
     (let S = selected_upto m opt ls k
      in ss_index st = k \<and> ss_selected st = length S
         \<and> ss_last st = int (settled opt S k) - 1
         \<and> ss_after st = (if S = [] then 0 else last S + go_after opt + 1 - k)
         \<and> ss_pending st = map (\<lambda>i. (i, ls ! i)) [window opt S k..<k]
         \<and> ss_out st = context_output opt filename ls S k)"

lemma budget_write_text: "budget_write parts s = (Inr t, s') \<Longrightarrow> t = concat parts"
  by (auto simp: budget_write_def budget_step_def split: if_splits option.splits)

lemma emit_text:
  "\<not> (selected \<and> go_only opt) \<Longrightarrow> emit ctx m opt filename i line selected mt out s = (Inr out', s')
   \<Longrightarrow> out' = out @ line_prefix opt filename i selected @ line @ nl"
  by (auto simp: emit_def Let_def dest: budget_write_text split: prod.splits sum.splits if_splits)

lemma emit_pending_text:
  "emit_pending ctx m opt filename ps out s = (Inr out', s')
   \<Longrightarrow> out' = out @ concat (map (\<lambda>(i, l). line_prefix opt filename i False @ l @ nl) ps)"
proof (induction ps arbitrary: out s)
  case (Cons p ps)
  obtain i l where p: "p = (i, l)" by (cases p)
  from Cons.prems obtain out1 s1 where e: "emit ctx m opt filename i l False None out s = (Inr out1, s1)"
    and r: "emit_pending ctx m opt filename ps out1 s1 = (Inr out', s')"
    by (auto simp: p split: prod.splits sum.splits)
  have "out1 = out @ line_prefix opt filename i False @ l @ nl" by (rule emit_text[OF _ e]) simp
  then show ?case using Cons.IH[OF r] by (simp add: p)
qed simp

lemma print_selected_inv:
  assumes inv: "loop_inv m opt filename ls k st" and o: "\<not> go_only opt"
    and st: "ss_index st1 = ss_index st" "ss_last st1 = ss_last st" "ss_pending st1 = ss_pending st" "ss_out st1 = ss_out st"
      "ss_selected st1 = Suc (ss_selected st)"
    and run: "print_selected ctx m opt filename (ls ! k) mt st1 s = (Inr st2, s')"
    and sel: "selected_upto m opt ls (Suc k) = selected_upto m opt ls k @ [k]"
  shows "loop_inv m opt filename ls (Suc k) (st2\<lparr>ss_index := Suc (ss_index st2)\<rparr>)"
proof -
  define S where "S = selected_upto m opt ls k"
  define f where "f = window opt S k"
  define gap where "gap \<longleftrightarrow> (go_before opt > 0 \<or> go_after opt > 0) \<and> S \<noteq> [] \<and> settled opt S k < f"
  have fk: "f \<le> k" unfolding f_def S_def by (rule sel.window_le)
  have i: "ss_index st1 = k" "ss_last st1 = int (settled opt S k) - 1" "ss_pending st1 = map (\<lambda>i. (i, ls ! i)) [f..<k]"
      "ss_out st1 = context_output opt filename ls S k" "ss_selected st1 = Suc (length S)"
    using inv st by (auto simp: loop_inv_def S_def f_def Let_def)
  have first: "(if ss_pending st1 \<noteq> [] then fst (hd (ss_pending st1)) else k) = f"
    using fk i(3) by (cases "f = k") (simp_all add: hd_map)
  have S0: "0 < settled opt S k \<longleftrightarrow> S \<noteq> []"
    using sel.settled_last[where m = m and lines = ls and k = k and opt = opt] by (auto simp: S_def settled_def)
  have g: "((go_before opt > 0 \<or> go_after opt > 0) \<and> ss_last st1 \<ge> 0 \<and> int f > ss_last st1 + 1) = gap"
    using S0 by (auto simp: i(2) gap_def)
  from run first g i(1) obtain t s1 out2 s2 out3 where
      t: "(if gap then budget_write [''--'' @ nl] s else (Inr [], s)) = (Inr t, s1)"
    and p: "emit_pending ctx m opt filename (ss_pending st1) (ss_out st1 @ t) s1 = (Inr out2, s2)"
    and e: "emit ctx m opt filename k (ls ! k) True mt out2 s2 = (Inr out3, s')"
    and st2: "st2 = st1\<lparr>ss_out := out3, ss_pending := [], ss_pendingBytes := 0, ss_last := int k, ss_after := go_after opt\<rparr>"
    by (auto simp: print_selected_def Let_def split: prod.splits sum.splits)
  have tt: "t = (if gap then ''--'' @ nl else [])" using t budget_write_text by (fastforce split: if_splits)
  have "out3 = out2 @ line_prefix opt filename k True @ ls ! k @ nl" using emit_text[OF _ e] o by simp
  moreover have "out2 = ss_out st1 @ t @ concat (map (\<lambda>(i, l). line_prefix opt filename i False @ l @ nl) (ss_pending st1))"
    using emit_pending_text[OF p] by simp
  ultimately have "out3 = context_output opt filename ls (S @ [k]) (Suc k)"
    using sel.grow_selected[where m = m and lines = ls and ls = ls and k = k and opt = opt and filename = filename]
    by (simp add: tt i(3) i(4) S_def[symmetric] f_def[symmetric] gap_def[symmetric] comp_def)
  then show ?thesis
    using i fk by (simp add: loop_inv_def sel S_def[symmetric] st2 settled_def window_def)
qed

lemma after_inv:
  assumes inv: "loop_inv m opt filename ls k st" and a: "ss_after st > 0"
    and e: "emit ctx m opt filename k (ls ! k) False None (ss_out st) s = (Inr out1, s')"
    and sel: "selected_upto m opt ls (Suc k) = selected_upto m opt ls k"
  shows "loop_inv m opt filename ls (Suc k)
           (st\<lparr>ss_out := out1, ss_last := int k, ss_after := ss_after st - 1, ss_index := Suc k\<rparr>)"
proof -
  define S where "S = selected_upto m opt ls k"
  have i: "ss_selected st = length S" "ss_after st = (if S = [] then 0 else last S + go_after opt + 1 - k)"
      "ss_pending st = map (\<lambda>i. (i, ls ! i)) [window opt S k..<k]" "ss_out st = context_output opt filename ls S k"
    using inv by (auto simp: loop_inv_def S_def Let_def)
  have S: "S \<noteq> []" "k < last S + go_after opt + 1" using a i(2) by (auto split: if_splits)
  have "out1 = ss_out st @ line_prefix opt filename k False @ ls ! k @ nl" by (rule emit_text[OF _ e]) simp
  then have out: "out1 = context_output opt filename ls S (Suc k)"
    using sel.grow_after[where m = m and lines = ls and k = k and opt = opt and ls = ls and filename = filename] S i(4)
    by (simp add: S_def)
  have "settled opt S k = k" "settled opt S (Suc k) = Suc k" using S by (auto simp: settled_def)
  then show ?thesis using S i out by (simp add: loop_inv_def sel S_def[symmetric] window_def)
qed

lemma keep_pending_inv:
  assumes inv: "loop_inv m opt filename ls k st" and a: "ss_after st = 0" and B: "go_before opt > 0"
    and e: "keep_pending opt (ls ! k) st = Inr st1"
    and sel: "selected_upto m opt ls (Suc k) = selected_upto m opt ls k"
  shows "loop_inv m opt filename ls (Suc k) (st1\<lparr>ss_index := Suc (ss_index st1)\<rparr>)"
proof -
  define S where "S = selected_upto m opt ls k"
  define f where "f = window opt S k"
  have i: "ss_index st = k" "ss_selected st = length S" "ss_after st = (if S = [] then 0 else last S + go_after opt + 1 - k)"
      "ss_pending st = map (\<lambda>i. (i, ls ! i)) [f..<k]" "ss_out st = context_output opt filename ls S k"
      "ss_last st = int (settled opt S k) - 1"
    using inv by (auto simp: loop_inv_def S_def f_def Let_def)
  have S: "S = [] \<or> last S + go_after opt + 1 \<le> k" using a i(3) by (auto split: if_splits)
  have out: "context_output opt filename ls S (Suc k) = context_output opt filename ls S k"
    using sel.grow_none[where m = m and lines = ls and k = k and opt = opt and ls = ls and filename = filename] S
    by (simp add: S_def)
  have settled: "settled opt S (Suc k) = settled opt S k" using S by (auto simp: settled_def)
  have fk: "f \<le> k" unfolding f_def S_def by (rule sel.window_le)
  have full: "k - f = go_before opt \<longleftrightarrow> settled opt S k \<le> k - go_before opt \<and> go_before opt \<le> k"
    using B fk by (auto simp: f_def window_def)
  have win: "window opt S (Suc k) = (if k - f = go_before opt then Suc f else f)"
    using full fk settled B by (auto simp: f_def window_def)
  have "ss_pending st1 = (if k - f = go_before opt then tl (ss_pending st) else ss_pending st) @ [(k, ls ! k)]"
    and rest: "ss_index st1 = k" "ss_selected st1 = ss_selected st" "ss_after st1 = ss_after st" "ss_out st1 = ss_out st"
      "ss_last st1 = ss_last st"
    using e by (auto simp: keep_pending_def Let_def i(1) i(4) split: if_splits)
  then have "ss_pending st1 = map (\<lambda>i. (i, ls ! i)) [window opt S (Suc k)..<Suc k]"
    using fk B by (auto simp: win i(4) map_tl[symmetric] tl_upt)
  then show ?thesis
    using i S out settled rest by (auto simp: loop_inv_def sel S_def[symmetric] a)
qed

lemma skip_inv:
  assumes inv: "loop_inv m opt filename ls k st" and a: "ss_after st = 0" and B: "go_before opt = 0"
    and sel: "selected_upto m opt ls (Suc k) = selected_upto m opt ls k"
  shows "loop_inv m opt filename ls (Suc k) (st\<lparr>ss_index := Suc (ss_index st)\<rparr>)"
proof -
  define S where "S = selected_upto m opt ls k"
  have i: "ss_index st = k" "ss_selected st = length S" "ss_after st = (if S = [] then 0 else last S + go_after opt + 1 - k)"
      "ss_pending st = []" "ss_out st = context_output opt filename ls S k"
      "ss_last st = int (settled opt S k) - 1"
    using inv B by (auto simp: loop_inv_def S_def window_def Let_def)
  have S: "S = [] \<or> last S + go_after opt + 1 \<le> k" using a i(3) by (auto split: if_splits)
  have "context_output opt filename ls S (Suc k) = context_output opt filename ls S k"
    using sel.grow_none[where m = m and lines = ls and k = k and opt = opt and ls = ls and filename = filename] S
    by (simp add: S_def)
  moreover have "settled opt S (Suc k) = settled opt S k" using S by (auto simp: settled_def)
  ultimately show ?thesis using i S B by (auto simp: loop_inv_def sel S_def[symmetric] a window_def)
qed

lemma search_line_inv:
  assumes pl: "plain opt" and inv: "loop_inv m opt filename ls k st"
    and run: "search_line ctx m opt filename (exhausted opt (selected_upto m opt ls k)) (ls ! k) st s = (Inr r, s')"
  shows "\<exists>st'. r = Some st' \<and> loop_inv m opt filename ls (Suc k) (st'\<lparr>ss_index := Suc (ss_index st')\<rparr>)"
proof -
  define ex where "ex = exhausted opt (selected_upto m opt ls k)"
  have idx: "ss_index st = k" using inv by (simp add: loop_inv_def Let_def)
  obtain mt where mt: "(if ex then Inr None else re_find m (ls ! k)) = Inr mt"
    using run unfolding ex_def[symmetric] search_line_def by (auto split: sum.splits)
  show ?thesis
  proof (cases "\<not> ex \<and> (mt \<noteq> None) \<noteq> go_invert opt")
    case True
    then have "selected_upto m opt ls (Suc k) = selected_upto m opt ls k @ [k]"
      using mt by (auto simp: selected_upto_Suc Let_def ex_def line_selected_def split: if_splits)
    note sel = this
    obtain n s1 st2 where
        p: "print_selected ctx m opt filename (ls ! k) mt (st\<lparr>ss_selected := Suc (ss_selected st), ss_count := n\<rparr>) s1 = (Inr st2, s')"
      and r: "r = Some st2"
      using run True pl mt unfolding ex_def[symmetric] search_line_def
      by (auto simp: plain_def Let_def split: sum.splits prod.splits)
    have "\<not> go_only opt" using pl by (simp add: plain_def)
    then have "loop_inv m opt filename ls (Suc k) (st2\<lparr>ss_index := Suc (ss_index st2)\<rparr>)"
      by (rule print_selected_inv[OF inv _ _ _ _ _ _ p sel]) simp_all
    then show ?thesis using r by blast
  next
    case False
    then have sel: "selected_upto m opt ls (Suc k) = selected_upto m opt ls k"
      using mt by (auto simp: selected_upto_Suc Let_def ex_def line_selected_def split: if_splits)
    consider (after) "ss_after st > 0" | (before) "ss_after st = 0" "go_before opt > 0"
      | (none) "ss_after st = 0" "go_before opt = 0" by blast
    then show ?thesis
    proof cases
      case after
      then obtain out1 where "emit ctx m opt filename k (ls ! k) False None (ss_out st) s = (Inr out1, s')"
          "r = Some (st\<lparr>ss_out := out1, ss_last := int k, ss_after := ss_after st - 1\<rparr>)"
        using run False pl mt unfolding ex_def[symmetric] search_line_def
        by (auto simp: plain_def idx split: sum.splits prod.splits)
      then show ?thesis using after_inv[OF inv after _ sel] idx by simp
    next
      case before
      then obtain st1 where "keep_pending opt (ls ! k) st = Inr st1" "r = Some st1"
        using run False pl mt unfolding ex_def[symmetric] search_line_def
        by (auto simp: plain_def split: sum.splits prod.splits)
      then show ?thesis using keep_pending_inv[OF inv before _ sel] by simp
    next
      case none
      then have "r = Some st"
        using run False pl mt unfolding ex_def[symmetric] search_line_def by (auto simp: plain_def)
      then show ?thesis using skip_inv[OF inv none sel] by simp
    qed
  qed
qed

lemma context_output_done:
  assumes "S = [] \<or> last S + go_after opt + 1 \<le> k" "\<And>i. i \<in> set S \<Longrightarrow> i \<le> last S" "k \<le> n"
  shows "context_output opt filename ls S n = context_output opt filename ls S k"
proof -
  have "shown_line opt filename ls S i = []" if "k \<le> i" for i
    using assms(1,2) that by (fastforce simp: shown_line_def near_def list_ex_iff)
  then have "concat (map (shown_line opt filename ls S) [k..<n]) = []" by simp
  then show ?thesis using upt_split[OF assms(3)] by (simp add: context_output_def)
qed

lemma search_loop_spec:
  assumes "plain opt" "loop_inv m opt filename ls k st" "drop k ls = input_lines inp" "k \<le> length ls"
    "search_loop ctx m opt filename inp st s = (Inr r, s')"
  shows "\<exists>st'. r = Some st' \<and> ss_selected st' = length (selected_upto m opt ls (length ls))
    \<and> ss_out st' = context_output opt filename ls (selected_upto m opt ls (length ls)) (length ls)"
  using assms
proof (induction "length (gi_bytes inp)" arbitrary: inp st s k rule: less_induct)
  case less
  define S where "S = selected_upto m opt ls k"
  have sel: "ss_selected st = length S" "ss_out st = context_output opt filename ls S k"
      "ss_after st = (if S = [] then 0 else last S + go_after opt + 1 - k)"
    using less.prems(2) by (auto simp: loop_inv_def S_def Let_def)
  have nc: "\<not> go_count opt" using less.prems(1) by (simp add: plain_def)
  obtain u s1 where c: "check_ctx ctx s = (Inr u, s1)"
    using less.prems(5) by (subst (asm) search_loop.simps) (auto split: prod.splits sum.splits)
  have ex: "(go_maxCount opt > 0 \<and> ss_selected st \<ge> go_maxCount opt) = exhausted opt S"
    by (simp add: exhausted_def sel)
  note run = less.prems(5)[unfolded search_loop.simps[of ctx m opt filename inp st s] c prod.case sum.case Let_def ex]
  show ?case
  proof (cases "exhausted opt S \<and> ss_after st = 0")
    case True
    then have "r = Some st" using run by simp
    moreover have "selected_upto m opt ls (length ls) = S"
      using True selected_upto_exhausted less.prems(4) by (metis S_def)
    moreover have "context_output opt filename ls S (length ls) = context_output opt filename ls S k"
      using True less.prems(4) selected_upto_last unfolding sel(3) S_def
      by (intro context_output_done) (auto split: if_splits)
    ultimately show ?thesis using sel by simp
  next
    case False
    obtain v s2 where b: "budget_step s1 = (Inr v, s2)" using run False nc by (auto split: prod.splits sum.splits)
    show ?thesis
    proof (cases "readLine inp = Inr None")
      case True
      then have "length ls = k" using readLine_None less.prems(3,4) by fastforce
      moreover have "r = Some st" using run False nc b True by simp
      ultimately show ?thesis using sel by (simp add: S_def)
    next
      case more: False
      then obtain line inp' where rl: "readLine inp = Inr (Some (line, inp'))"
        using run False nc b by (auto split: sum.splits option.splits)
      have hd: "drop k ls = line # input_lines inp'" using readLine_Some(1)[OF rl] less.prems(3) by simp
      then have k: "k < length ls" "ls ! k = line" "drop (Suc k) ls = input_lines inp'"
        by (metis drop_eq_Nil list.distinct(1) not_le) (metis hd nth_via_drop, metis hd drop_Suc list.sel(3) tl_drop)
      obtain q s3 where l: "search_line ctx m opt filename (exhausted opt S) (ls ! k) st s2 = (Inr q, s3)"
        using run False nc b rl k(2) by (auto split: prod.splits sum.splits)
      obtain st' where st': "q = Some st'" "loop_inv m opt filename ls (Suc k) (st'\<lparr>ss_index := Suc (ss_index st')\<rparr>)"
        using search_line_inv[OF less.prems(1,2) l[unfolded S_def]] by blast
      have "search_loop ctx m opt filename inp' (st'\<lparr>ss_index := Suc (ss_index st')\<rparr>) s3 = (Inr r, s')"
        using run False nc b rl k(2) l st'(1) by simp
      then show ?thesis
        using less.hyps[OF readLine_shorter[OF rl] less.prems(1) st'(2) k(3)] k(1) by simp
    qed
  qed
qed

lemma search_start_inv: "loop_inv m opt filename ls 0 search_start"
  by (simp add: loop_inv_def search_start_def settled_def window_def context_output_def)

lemma search_spec:
  assumes pl: "plain opt" and run: "search ctx inp m opt filename s = (Inr (out, matched), s')"
  defines "S \<equiv> selected_upto m opt (input_lines inp) (length (input_lines inp))"
  shows "out = context_output opt filename (input_lines inp) S (length (input_lines inp)) \<and> (matched \<longleftrightarrow> S \<noteq> [])"
proof -
  from pl run obtain r where r: "search_loop ctx m opt filename inp search_start s = (Inr r, s')"
    and o: "\<And>st. r = Some st \<Longrightarrow> out = ss_out st \<and> matched = (ss_selected st > 0)"
    by (auto simp: search_def plain_def split: prod.splits sum.splits option.splits)
  show ?thesis
    using search_loop_spec[OF pl search_start_inv _ _ r, of "input_lines inp"] o by (auto simp: S_def)
qed

section \<open>When the budget is enough\<close>

lemma parts_size_ok: "used + sz + length (concat ps) \<le> maxSearchOutput \<Longrightarrow> parts_size used sz ps = Some (sz + length (concat ps))"
  by (induction ps arbitrary: sz) auto

lemma budget_write_ok:
  assumes "bg_work s < maxSearchWork" "bg_output s + length (concat ps) \<le> maxSearchOutput"
  shows "budget_write ps s = (Inr (concat ps), s\<lparr>bg_work := Suc (bg_work s), bg_output := bg_output s + length (concat ps)\<rparr>)"
  using assms parts_size_ok[of "bg_output s" 0 ps] by (simp add: budget_write_def budget_step_def)

text \<open>
  What the rest of a search may cost: a step, a result, a separator and a line for every line
  that is still to come; a line for every line that is held back.  \<open>P\<close> bounds the prefix.
\<close>

definition line_cost :: "nat \<Rightarrow> string \<Rightarrow> nat" where
  "line_cost P line = P + length line + 4"

definition held :: "nat \<Rightarrow> (nat \<times> string) list \<Rightarrow> bool" where
  "held n ps \<longleftrightarrow> list_all (\<lambda>p. fst p < n) ps"

lemma held_simps [simp]: "held n []" "held n (p # ps) \<longleftrightarrow> fst p < n \<and> held n ps" "held n (ps @ qs) \<longleftrightarrow> held n ps \<and> held n qs"
  by (simp_all add: held_def)

lemma held_Suc: "held n ps \<Longrightarrow> held (Suc n) ps"
  by (auto simp: held_def list_all_iff less_SucI)

definition affordable :: "nat \<Rightarrow> nat \<Rightarrow> string list \<Rightarrow> search_st \<Rightarrow> gstate \<Rightarrow> bool" where
  "affordable T P lines st s \<longleftrightarrow>
     ss_index st + length lines \<le> T \<and> held (ss_index st) (ss_pending st) \<and>
     bg_work s + length (ss_pending st) + 4 * length lines < maxSearchWork
     \<and> bg_results s + length lines \<le> maxSearchResults
     \<and> bg_output s + sum_list (map (\<lambda>p. line_cost P (snd p)) (ss_pending st)) + sum_list (map (line_cost P) lines) \<le> maxSearchOutput
     \<and> ss_pendingBytes st = sum_list (map (\<lambda>p. length (snd p)) (ss_pending st))
     \<and> length (ss_pending st) + length lines \<le> maxSearchResults
     \<and> ss_pendingBytes st + sum_list (map length lines) \<le> maxSearchContext"

lemma emit_ok:
  assumes "\<not> (selected \<and> go_only opt)" "length (line_prefix opt filename i selected) \<le> P" "bg_work s < maxSearchWork"
    "bg_output s + line_cost P line \<le> maxSearchOutput + 3"
  shows "\<exists>out' s'. emit ctx m opt filename i line selected mt out s = (Inr out', s') \<and> bg_work s' = Suc (bg_work s)
    \<and> bg_results s' = bg_results s \<and> bg_output s' + 3 \<le> bg_output s + line_cost P line"
  using assms budget_write_ok[of s "[line_prefix opt filename i selected, line, nl]"]
  by (auto simp: emit_def Let_def line_cost_def)

lemma emit_pending_ok:
  assumes "\<And>i l. (i, l) \<in> set ps \<Longrightarrow> length (line_prefix opt filename i False) \<le> P"
    "bg_work s + length ps \<le> maxSearchWork" "bg_output s + sum_list (map (\<lambda>p. line_cost P (snd p)) ps) \<le> maxSearchOutput"
  shows "\<exists>out' s'. emit_pending ctx m opt filename ps out s = (Inr out', s') \<and> bg_work s' = bg_work s + length ps
    \<and> bg_results s' = bg_results s \<and> bg_output s' \<le> bg_output s + sum_list (map (\<lambda>p. line_cost P (snd p)) ps)"
  using assms
proof (induction ps arbitrary: out s)
  case (Cons p ps)
  obtain i l where p: "p = (i, l)" by (cases p)
  obtain out1 s1 where e: "emit ctx m opt filename i l False None out s = (Inr out1, s1)" "bg_work s1 = Suc (bg_work s)"
      "bg_results s1 = bg_results s" "bg_output s1 + 3 \<le> bg_output s + line_cost P l"
    using emit_ok[of False opt filename i P s l ctx m None out] Cons.prems by (auto simp: p)
  have "\<exists>out' s'. emit_pending ctx m opt filename ps out1 s1 = (Inr out', s') \<and> bg_work s' = bg_work s1 + length ps
      \<and> bg_results s' = bg_results s1 \<and> bg_output s' \<le> bg_output s1 + sum_list (map (\<lambda>p. line_cost P (snd p)) ps)"
    by (rule Cons.IH) (use Cons.prems e in \<open>auto simp: p comp_def\<close>)
  then show ?case using e by (auto simp: p)
qed simp

lemma line_prefix_length: "length (line_prefix opt filename i b) = length (line_prefix opt filename i False)"
  by (simp add: line_prefix_def Let_def)

lemma print_selected_ok:
  assumes prefixes: "\<And>i. i < T \<Longrightarrow> length (line_prefix opt filename i False) \<le> P" and o: "\<not> go_only opt"
    and idx: "ss_index st < T" "held (ss_index st) (ss_pending st)"
    and work: "bg_work s + length (ss_pending st) + 1 < maxSearchWork"
    and outp: "bg_output s + sum_list (map (\<lambda>p. line_cost P (snd p)) (ss_pending st)) + line_cost P line \<le> maxSearchOutput"
  shows "\<exists>out' s'. print_selected ctx m opt filename line mt st s =
      (Inr (st\<lparr>ss_out := out', ss_pending := [], ss_pendingBytes := 0, ss_last := int (ss_index st), ss_after := go_after opt\<rparr>), s')
    \<and> bg_work s' \<le> bg_work s + length (ss_pending st) + 2 \<and> bg_results s' = bg_results s
    \<and> bg_output s' \<le> bg_output s + sum_list (map (\<lambda>p. line_cost P (snd p)) (ss_pending st)) + line_cost P line"
proof -
  define first where "first = (if ss_pending st \<noteq> [] then fst (hd (ss_pending st)) else ss_index st)"
  define gap where "gap \<longleftrightarrow> (go_before opt > 0 \<or> go_after opt > 0) \<and> ss_last st \<ge> 0 \<and> int first > ss_last st + 1"
  obtain t s1 where t: "(if gap then budget_write [''--'' @ nl] s else (Inr [], s)) = (Inr t, s1)"
      "bg_work s1 \<le> bg_work s + 1" "bg_results s1 = bg_results s" "bg_output s1 \<le> bg_output s + 3"
    using budget_write_ok[of s "[''--'' @ nl]"] work outp by (cases gap) (auto simp: line_cost_def)
  have "\<exists>out2 s2. emit_pending ctx m opt filename (ss_pending st) (ss_out st @ t) s1 = (Inr out2, s2)
      \<and> bg_work s2 = bg_work s1 + length (ss_pending st) \<and> bg_results s2 = bg_results s1
      \<and> bg_output s2 \<le> bg_output s1 + sum_list (map (\<lambda>p. line_cost P (snd p)) (ss_pending st))"
  proof (rule emit_pending_ok)
    fix i l assume "(i, l) \<in> set (ss_pending st)"
    then show "length (line_prefix opt filename i False) \<le> P" using prefixes[of i] idx by (auto simp: held_def list_all_iff)
  qed (use t work outp in \<open>auto simp: line_cost_def\<close>)
  then obtain out2 s2 where p: "emit_pending ctx m opt filename (ss_pending st) (ss_out st @ t) s1 = (Inr out2, s2)"
      "bg_work s2 = bg_work s1 + length (ss_pending st)" "bg_results s2 = bg_results s1"
      "bg_output s2 \<le> bg_output s1 + sum_list (map (\<lambda>p. line_cost P (snd p)) (ss_pending st))" by blast
  have "\<exists>out3 s3. emit ctx m opt filename (ss_index st) line True mt out2 s2 = (Inr out3, s3) \<and> bg_work s3 = Suc (bg_work s2)
      \<and> bg_results s3 = bg_results s2 \<and> bg_output s3 + 3 \<le> bg_output s2 + line_cost P line"
    by (rule emit_ok) (use o idx prefixes[of "ss_index st"] line_prefix_length[of opt filename "ss_index st" True] p t work outp in auto)
  then obtain out3 s3 where e: "emit ctx m opt filename (ss_index st) line True mt out2 s2 = (Inr out3, s3)"
      "bg_work s3 = Suc (bg_work s2)" "bg_results s3 = bg_results s2" "bg_output s3 + 3 \<le> bg_output s2 + line_cost P line" by blast
  have "print_selected ctx m opt filename line mt st s =
      (Inr (st\<lparr>ss_out := out3, ss_pending := [], ss_pendingBytes := 0, ss_last := int (ss_index st), ss_after := go_after opt\<rparr>), s3)"
    using t(1) p(1) e(1) by (simp add: print_selected_def Let_def first_def[symmetric] gap_def[symmetric])
  then show ?thesis using t p e by auto
qed

lemma keep_pending_ok:
  assumes "affordable T P (line # lines) st s0" "bg_work s = Suc (bg_work s0)" "bg_results s = bg_results s0"
    "bg_output s = bg_output s0" "go_before opt > 0"
  shows "\<exists>st'. keep_pending opt line st = Inr st' \<and> affordable T P lines (st'\<lparr>ss_index := Suc (ss_index st')\<rparr>) s"
proof (cases "length (ss_pending st) = go_before opt")
  case True
  then obtain p ps where ps: "ss_pending st = p # ps" using assms(5) by (cases "ss_pending st") auto
  then show ?thesis
    using assms True by (auto simp: keep_pending_def affordable_def Let_def line_cost_def intro: held_Suc)
next
  case False
  then show ?thesis using assms by (auto simp: keep_pending_def affordable_def Let_def line_cost_def intro: held_Suc)
qed

lemma search_line_ok:
  assumes pl: "plain opt" and prefixes: "\<And>i. i < T \<Longrightarrow> length (line_prefix opt filename i False) \<le> P"
    and engine: "ex \<or> re_find m line = Inr mt"
    and af: "affordable T P (line # lines) st s0"
    and s: "bg_work s = Suc (bg_work s0)" "bg_results s = bg_results s0" "bg_output s = bg_output s0"
  shows "\<exists>st' s'. search_line ctx m opt filename ex line st s = (Inr (Some st'), s')
    \<and> affordable T P lines (st'\<lparr>ss_index := Suc (ss_index st')\<rparr>) s'"
proof -
  define mt' where "mt' = (if ex then None else mt)"
  have mt': "(if ex then Inr None else re_find m line) = Inr mt'" using engine by (auto simp: mt'_def)
  show ?thesis
  proof (cases "\<not> ex \<and> (mt' \<noteq> None) \<noteq> go_invert opt")
    case True
    define s1 where "s1 = s\<lparr>bg_work := Suc (bg_work s), bg_results := Suc (bg_results s)\<rparr>"
    define st1 where "st1 = st\<lparr>ss_selected := Suc (ss_selected st), ss_count := Suc (ss_count st)\<rparr>"
    have r: "count_selected ctx m opt mt' (ss_count st) s = (Inr (Suc (ss_count st)), s1)"
      using af s pl by (simp add: count_selected_def plain_def budget_result_def budget_step_def affordable_def s1_def)
    have "\<exists>out' s'. print_selected ctx m opt filename line mt' st1 s1 =
        (Inr (st1\<lparr>ss_out := out', ss_pending := [], ss_pendingBytes := 0, ss_last := int (ss_index st1), ss_after := go_after opt\<rparr>), s')
      \<and> bg_work s' \<le> bg_work s1 + length (ss_pending st1) + 2 \<and> bg_results s' = bg_results s1
      \<and> bg_output s' \<le> bg_output s1 + sum_list (map (\<lambda>p. line_cost P (snd p)) (ss_pending st1)) + line_cost P line"
      by (rule print_selected_ok[OF prefixes]) (use af s pl in \<open>auto simp: plain_def affordable_def s1_def st1_def\<close>)
    then obtain out' s' where p: "print_selected ctx m opt filename line mt' st1 s1 =
        (Inr (st1\<lparr>ss_out := out', ss_pending := [], ss_pendingBytes := 0, ss_last := int (ss_index st1), ss_after := go_after opt\<rparr>), s')"
      "bg_work s' \<le> bg_work s1 + length (ss_pending st1) + 2" "bg_results s' = bg_results s1"
      "bg_output s' \<le> bg_output s1 + sum_list (map (\<lambda>p. line_cost P (snd p)) (ss_pending st1)) + line_cost P line" by blast
    then show ?thesis
      using True mt' r pl af s by (auto simp: search_line_def plain_def st1_def[symmetric] affordable_def s1_def)
        (auto simp: st1_def)
  next
    case False
    consider (after) "ss_after st > 0" | (before) "ss_after st = 0" "go_before opt > 0"
      | (none) "ss_after st = 0" "go_before opt = 0" by blast
    then show ?thesis
    proof cases
      case after
      have "\<exists>out1 s1. emit ctx m opt filename (ss_index st) line False None (ss_out st) s = (Inr out1, s1)
          \<and> bg_work s1 = Suc (bg_work s) \<and> bg_results s1 = bg_results s \<and> bg_output s1 + 3 \<le> bg_output s + line_cost P line"
        by (rule emit_ok[of _ _ _ _ P]) (use af s prefixes[of "ss_index st"] in \<open>auto simp: affordable_def\<close>)
      then show ?thesis
        using False mt' pl after af s by (auto simp: search_line_def plain_def affordable_def intro: held_Suc)
    next
      case before
      show ?thesis
        using False mt' pl before keep_pending_ok[OF af s before(2)] by (auto simp: search_line_def plain_def)
    next
      case none
      then have "affordable T P lines (st\<lparr>ss_index := Suc (ss_index st)\<rparr>) s"
        using af s by (auto simp: affordable_def intro: held_Suc)
      then show ?thesis using False mt' pl none by (auto simp: search_line_def plain_def)
    qed
  qed
qed

lemma search_loop_ok:
  assumes pl: "plain opt" and prefixes: "\<And>i. i < T \<Longrightarrow> length (line_prefix opt filename i False) \<le> P"
    and ctx: "\<And>t. ctx t = None" and engine: "\<And>line. \<exists>mt. re_find m line = Inr mt"
    and inp: "\<not> gi_failed inp" "length (gi_bytes inp) \<le> maxSearchLine"
    and af: "affordable T P (input_lines inp) st s"
  shows "\<exists>r s'. search_loop ctx m opt filename inp st s = (Inr r, s')"
  using inp af
proof (induction "length (gi_bytes inp)" arbitrary: inp st s rule: less_induct)
  case less
  define s1 where "s1 = s\<lparr>bg_ticks := Suc (bg_ticks s)\<rparr>"
  define ex where "ex \<longleftrightarrow> go_maxCount opt > 0 \<and> ss_selected st \<ge> go_maxCount opt"
  have c: "check_ctx ctx s = (Inr (), s1)" using ctx by (simp add: check_ctx_def s1_def)
  have b: "budget_step s1 = (Inr (), s1\<lparr>bg_work := Suc (bg_work s)\<rparr>)" (is "_ = (_, ?s2)")
    using less.prems(3) by (simp add: budget_step_def s1_def affordable_def)
  note unf = search_loop.simps[of ctx m opt filename inp st s] c prod.case sum.case Let_def ex_def[symmetric]
  show ?case
  proof (cases "ex \<and> ss_after st = 0")
    case True
    then show ?thesis unfolding unf by simp
  next
    case False
    have len: "length (raw_line (gi_bytes inp)) \<le> maxSearchLine"
      using raw_line_le[of "gi_bytes inp"] less.prems(2) by simp
    show ?thesis
    proof (cases "readLine inp = Inr None")
      case True
      then show ?thesis unfolding unf using False b pl by (auto simp: plain_def)
    next
      case more: False
      then obtain line inp' where rl: "readLine inp = Inr (Some (line, inp'))"
        using len less.prems(1) by (cases "gi_bytes inp = []") (auto simp: readLine_def Let_def)
      obtain mt where mt: "re_find m line = Inr mt" using engine by blast
      have ls: "input_lines inp = line # input_lines inp'" "gi_failed inp' = gi_failed inp"
        using readLine_Some[OF rl] by auto
      obtain st' s' where l: "search_line ctx m opt filename ex line st ?s2 = (Inr (Some st'), s')"
          "affordable T P (input_lines inp') (st'\<lparr>ss_index := Suc (ss_index st')\<rparr>) s'"
        using search_line_ok[OF pl prefixes _ less.prems(3)[unfolded ls(1)], of ex m mt ?s2 ctx] mt
        by (auto simp: s1_def)
      have "\<exists>r s''. search_loop ctx m opt filename inp' (st'\<lparr>ss_index := Suc (ss_index st')\<rparr>) s' = (Inr r, s'')"
        using less.hyps[OF readLine_shorter[OF rl] _ _ l(2)] less.prems(1,2) ls(2) readLine_shorter[OF rl] by simp
      then show ?thesis unfolding unf using False b rl l(1) pl by (auto simp: plain_def)
    qed
  qed
qed

lemma show_nat_length: "n < 10 ^ Suc k \<Longrightarrow> length (show_nat n) \<le> Suc k"
proof (induction k arbitrary: n)
  case 0
  then show ?case by (subst format_nat.simps) simp
next
  case (Suc k)
  then have "n div 10 < 10 ^ Suc k" by (simp add: div_less_iff_less_mult mult.commute)
  then show ?case using Suc.IH by (subst format_nat.simps) simp
qed

lemma prefix_bound: "i < 999999 \<Longrightarrow> length (line_prefix opt filename i False) \<le> length filename + 8"
  using show_nat_length[of "i + 1" 5] by (simp add: line_prefix_def Let_def)

lemma search_windows:
  fixes inp :: ginput
  defines "ls \<equiv> input_lines inp"
  assumes "plain opt" "\<And>t. ctx t = None" "\<And>line. \<exists>mt. re_find m line = Inr mt"
    "\<not> gi_failed inp" "length (gi_bytes inp) \<le> maxSearchLine"
    "bg_work s + 4 * length ls < maxSearchWork" "bg_results s + length ls \<le> maxSearchResults"
    "bg_output s + (\<Sum>l\<leftarrow>ls. length l + length filename + 12) \<le> maxSearchOutput"
  shows "fst (search ctx inp m opt filename s) =
    Inr (context_output opt filename ls (selected_upto m opt ls (length ls)) (length ls),
         selected_upto m opt ls (length ls) \<noteq> [])"
proof -
  define P where "P = length filename + 8"
  have le: "(\<Sum>l\<leftarrow>xs. length l) \<le> (\<Sum>l\<leftarrow>xs. length l + length filename + 12)" for xs :: "string list"
    by (intro sum_list_mono) simp
  have "line_cost P = (\<lambda>l. length l + length filename + 12)" by (auto simp: line_cost_def P_def)
  then have "affordable 999999 P ls search_start s"
    using assms(7-9) le[of ls]
    by (simp add: affordable_def search_start_def maxSearchWork_def maxSearchResults_def maxSearchOutput_def maxSearchContext_def)
  then obtain r s' where r: "search_loop ctx m opt filename inp search_start s = (Inr r, s')"
    using search_loop_ok[of opt 999999 filename P ctx m inp search_start s] assms(2-6) prefix_bound by (auto simp: ls_def P_def)
  obtain st where "r = Some st" using search_loop_spec[OF assms(2) search_start_inv _ _ r, of "input_lines inp"] by auto
  then obtain out matched where "search ctx inp m opt filename s = (Inr (out, matched), s')"
    using r assms(2) by (auto simp: search_def plain_def)
  then show ?thesis using search_spec[OF assms(2)] by (auto simp: ls_def)
qed

text \<open>C10: The output of a search is the selected lines with their windows of context: a line is printed when a selected line is within \<^verbatim>\<open>-A\<close> lines before it or \<^verbatim>\<open>-B\<close> lines after it, with \<^verbatim>\<open>:\<close> or \<^verbatim>\<open>-\<close> in its prefix, \<^verbatim>\<open>--\<close> stands between groups that do not touch, and \<^verbatim>\<open>-m\<close> keeps the first selected lines only; the search succeeds when the context lives, the engine does not give up and the input fits in what is left of the budget.\<close>

theorem search_prints_windows:
  fixes inp :: ginput
  defines "ls \<equiv> input_lines inp"
  assumes "plain opt" "\<And>t. ctx t = None" "\<And>line. \<exists>mt. re_find m line = Inr mt"
    "\<not> gi_failed inp" "length (gi_bytes inp) \<le> maxSearchLine"
    "bg_work s + 4 * length ls < maxSearchWork" "bg_results s + length ls \<le> maxSearchResults"
    "bg_output s + (\<Sum>l\<leftarrow>ls. length l + length filename + 12) \<le> maxSearchOutput"
  shows "fst (search ctx inp m opt filename s) =
    Inr (context_output opt filename ls (selected_upto m opt ls (length ls)) (length ls),
         selected_upto m opt ls (length ls) \<noteq> [])"
  using search_windows[of opt ctx m inp s filename] assms by simp

section \<open>A concrete search\<close>

lemma utf8_valid_ascii: "\<forall>c \<in> set s. byte_val c < 128 \<Longrightarrow> utf8_valid s"
proof (induction s)
  case (Cons c s)
  then have "encodeRune (byte_val c) = [c]" by (simp add: encodeRune_def valid_rune_def encode_bytes_def)
  then show ?case using encode_any_valid[of "byte_val c" s] Cons by simp
qed simp

definition sample_match :: re_match where
  "sample_match = \<lparr>rm_index = 0, rm_runes = [104, 105, 116], rm_group = (\<lambda>g. None)\<rparr>"

definition sample_matcher :: matcher where
  "sample_matcher =
     \<lparr>re_find = (\<lambda>line. Inr (if hasPrefix line ''hit'' then Some sample_match else None)),
      re_next = (\<lambda>mt. Inr None), resetGroup = []\<rparr>"

definition sample_input :: ginput where
  "sample_input = \<lparr>gi_bytes = joinWith nl [''a'', ''b'', ''hit1'', ''c'', ''d'', ''e'', ''hit2''], gi_failed = False\<rparr>"

definition sample_budget :: gstate where
  "sample_budget = \<lparr>bg_work = 0, bg_results = 0, bg_output = 0, bg_ticks = 0\<rparr>"

lemma sample_lines: "input_lines sample_input = [''a'', ''b'', ''hit1'', ''c'', ''d'', ''e'', ''hit2'']"
proof -
  have "splitLines_grep (gi_bytes sample_input) = [''a'', ''b'', ''hit1'', ''c'', ''d'', ''e'', ''hit2'']" by code_simp
  then show ?thesis by (simp add: input_lines_def decodeUTF8_def utf8_valid_ascii)
qed

lemma sample_length: "length (gi_bytes sample_input) = 19"
  by code_simp

lemma search_prints_windows_witness:
  "fst (search (\<lambda>t. None) sample_input sample_matcher (no_options\<lparr>go_before := 1, go_numbers := True\<rparr>) ''f'' sample_budget) =
   Inr (joinWith nl [''f-2-b'', ''f:3:hit1'', ''--'', ''f-6-e'', ''f:7:hit2'', []], True)"
proof -
  let ?opt = "no_options\<lparr>go_before := 1, go_numbers := True\<rparr>" and ?ls = "input_lines sample_input"
  note ls = sample_lines
  have S: "selected_upto sample_matcher ?opt ?ls (length ?ls) = [2, 6]" unfolding ls by code_simp
  have out: "context_output ?opt ''f'' ?ls [2, 6] (length ?ls) =
      joinWith nl [''f-2-b'', ''f:3:hit1'', ''--'', ''f-6-e'', ''f:7:hit2'', []]" unfolding ls by code_simp
  have "fst (search (\<lambda>t. None) sample_input sample_matcher ?opt ''f'' sample_budget) =
      Inr (context_output ?opt ''f'' ?ls (selected_upto sample_matcher ?opt ?ls (length ?ls)) (length ?ls),
           selected_upto sample_matcher ?opt ?ls (length ?ls) \<noteq> [])"
    by (intro search_prints_windows)
       (simp_all add: plain_def no_options_def sample_matcher_def sample_budget_def ls sample_length, simp_all add: sample_input_def
        maxSearchLine_def maxSearchWork_def maxSearchResults_def maxSearchOutput_def)
  then show ?thesis unfolding S out by simp
qed

end
