(* ===== verification/Grep_Budget.thy ===== *)
theory Grep_Budget
  imports Grep_Output
begin

text \<open>
  The limits of a grep invocation: every byte it writes to standard output is paid from the one
  budget of the invocation, which is never overdrawn, and the traversal of the operands is bounded
  whatever the filesystem answers.
\<close>

section \<open>What is printed is paid for\<close>

definition within :: "gstate \<Rightarrow> bool" where
  "within s \<longleftrightarrow> bg_work s \<le> maxSearchWork \<and> bg_results s \<le> maxSearchResults \<and> bg_output s \<le> maxSearchOutput"

text \<open>
  \<open>spent a s b s'\<close>: from the state \<open>s\<close> to \<open>s'\<close> the text grew from \<open>a\<close> to at most \<open>b\<close> bytes, all
  of the growth was paid for, and the limits were kept.
\<close>

definition spent :: "nat \<Rightarrow> gstate \<Rightarrow> nat \<Rightarrow> gstate \<Rightarrow> bool" where
  "spent a s b s' \<longleftrightarrow>
     (within s \<longrightarrow> within s' \<and> bg_output s \<le> bg_output s' \<and> bg_output s + b \<le> bg_output s' + a)"

lemma spent_refl [simp]: "spent a s a s"
  by (simp add: spent_def)

lemma spent_trans: "spent a s b s1 \<Longrightarrow> spent b s1 c s2 \<Longrightarrow> spent a s c s2"
  by (auto simp: spent_def)

lemma spent_error: "spent a s b s1 \<Longrightarrow> spent b s1 b s2 \<Longrightarrow> spent a s a s2"
  by (auto simp: spent_def)

text \<open>An error costs no text; a result \<open>x\<close> holds \<open>len x\<close> bytes of it.\<close>

definition pays :: "nat \<Rightarrow> gstate \<Rightarrow> ('a \<Rightarrow> nat) \<Rightarrow> (grep_err + 'a) \<times> gstate \<Rightarrow> bool" where
  "pays a s len r = (case r of (Inl e, s') \<Rightarrow> spent a s a s' | (Inr x, s') \<Rightarrow> spent a s (len x) s')"

lemma pays_simps [simp]:
  "pays a s len (Inl e, s') = spent a s a s'" "pays a s len (Inr x, s') = spent a s (len x) s'"
  by (simp_all add: pays_def)

lemma pays_seq:
  assumes "pays a s len r" "\<And>x s1. r = (Inr x, s1) \<Longrightarrow> pays (len x) s1 len2 (f x s1)"
  shows "pays a s len2 (case r of (Inl e, s1) \<Rightarrow> (Inl e, s1) | (Inr x, s1) \<Rightarrow> f x s1)"
proof (cases r)
  case (Pair q s1)
  then show ?thesis
  proof (cases q)
    case (Inr x)
    then have a: "spent a s (len x) s1" and b: "pays (len x) s1 len2 (f x s1)" using assms Pair by auto
    obtain q2 s2 where q: "f x s1 = (q2, s2)" by (cases "f x s1")
    have "pays a s len2 (f x s1)"
    proof (cases q2)
      case (Inl e)
      then show ?thesis using spent_error[OF a] b q by simp
    next
      case (Inr y)
      then show ?thesis using spent_trans[OF a] b q by simp
    qed
    then show ?thesis using Pair Inr by simp
  qed (use assms Pair in simp)
qed

lemma pays_weaken: "pays a s len r \<Longrightarrow> (\<And>x s'. r = (Inr x, s') \<Longrightarrow> len2 x \<le> len x) \<Longrightarrow> pays a s len2 r"
  by (cases r) (auto simp: pays_def spent_def split: sum.splits)

named_theorems paying

lemma check_ctx_pays [paying]: "pays a s (\<lambda>_. a) (check_ctx ctx s)"
  by (auto simp: check_ctx_def spent_def within_def pays_def split: option.splits)

lemma budget_step_pays [paying]: "pays a s (\<lambda>_. a) (budget_step s)"
  by (auto simp: budget_step_def spent_def within_def)

lemma budget_result_pays [paying]: "pays a s (\<lambda>_. a) (budget_result s)"
  by (auto simp: budget_result_def budget_step_def spent_def within_def)

lemma parts_size_Some:
  "parts_size used sz ps = Some n \<Longrightarrow> used + sz \<le> maxSearchOutput \<Longrightarrow> n = sz + length (concat ps) \<and> used + n \<le> maxSearchOutput"
  by (induction used sz ps rule: parts_size.induct) (auto split: if_splits)

lemma budget_write_pays [paying]: "pays a s (\<lambda>t. a + length t) (budget_write parts s)"
  using parts_size_Some[of "bg_output s" 0 parts]
  by (auto simp: budget_write_def budget_step_def spent_def within_def split: option.splits)

text \<open>A lookup that does not touch the budget.\<close>

lemma pays_lookup:
  assumes "\<And>x. r = Inr x \<Longrightarrow> pays a s len (f x)"
  shows "pays a s len (case r of Inl e \<Rightarrow> (Inl (g e), s) | Inr x \<Rightarrow> f x)"
  using assms by (cases r) auto

lemma only_matches_pays [paying]: "pays (length out) s length (only_matches ctx m p mt out s)"
proof (induction ctx m p mt out s rule: only_matches.induct)
  case (1 ctx m p mt out s)
  show ?case
  proof (cases mt)
    case (Some t)
    show ?thesis
      unfolding Some only_matches.simps[of ctx m p "Some t" out s] option.case
      apply (rule pays_seq[OF check_ctx_pays])
      apply (rule pays_seq[OF budget_result_pays])
      apply (rule pays_lookup)
      apply (rule pays_seq[OF budget_write_pays])
      apply (rule pays_lookup)
      using 1 Some by (metis length_append)
  qed (simp add: only_matches.simps)
qed

lemma count_matches_pays [paying]: "pays a s (\<lambda>_. a) (count_matches ctx m mt n s)"
proof (induction ctx m mt n s rule: count_matches.induct)
  case (1 ctx m mt n s)
  show ?case
  proof (cases mt)
    case (Some t)
    show ?thesis
      unfolding Some count_matches.simps[of ctx m "Some t" n s] option.case
      apply (rule pays_seq[OF check_ctx_pays])
      apply (rule pays_seq[OF budget_result_pays])
      apply (rule pays_lookup)
      using 1 Some by metis
  qed (simp add: count_matches.simps)
qed

lemma emit_pays [paying]: "pays (length out) s length (emit ctx m opt filename i line b mt out s)"
  unfolding emit_def Let_def
  by (auto intro!: only_matches_pays pays_seq[OF budget_write_pays])

lemma emit_pending_pays [paying]: "pays (length out) s length (emit_pending ctx m opt filename ps out s)"
  by (induction ctx m opt filename ps out s rule: emit_pending.induct) (auto intro!: pays_seq[OF emit_pays])

lemma count_selected_pays [paying]: "pays a s (\<lambda>_. a) (count_selected ctx m opt mt n s)"
  unfolding count_selected_def by (auto intro!: count_matches_pays pays_seq[OF budget_result_pays])

lemma print_selected_pays [paying]:
  "pays (length (ss_out st)) s (\<lambda>st'. length (ss_out st')) (print_selected ctx m opt filename line mt st s)"
  unfolding print_selected_def Let_def
proof (rule pays_seq[where len = "\<lambda>t. length (ss_out st @ t)"], goal_cases)
  case 1
  then show ?case using budget_write_pays[of "length (ss_out st)"] by simp
next
  case (2 t s1)
  show ?case by (rule pays_seq[OF emit_pending_pays], rule pays_seq[OF emit_pays]) simp
qed

definition kept_text :: "search_st option \<Rightarrow> nat" where
  "kept_text r = (case r of None \<Rightarrow> 0 | Some st \<Rightarrow> length (ss_out st))"

lemma keep_pending_out: "keep_pending opt line st = Inr st' \<Longrightarrow> ss_out st' = ss_out st"
  by (auto simp: keep_pending_def Let_def split: if_splits)

lemma spent_drop: "spent a s 0 s"
  by (simp add: spent_def)

lemma search_line_pays [paying]: "pays (length (ss_out st)) s kept_text (search_line ctx m opt filename ex line st s)"
  unfolding search_line_def
proof (rule pays_lookup, goal_cases)
  case (1 mt)
  consider (sel) "\<not> ex \<and> (mt \<noteq> None) \<noteq> go_invert opt"
    | (other) "\<not> (\<not> ex \<and> (mt \<noteq> None) \<noteq> go_invert opt)" by blast
  then show ?case
  proof cases
    case sel
    let ?st = "\<lambda>n. st\<lparr>ss_selected := Suc (ss_selected st), ss_count := n\<rparr>"
    have p: "pays (length (ss_out st)) s1 kept_text
        (case print_selected ctx m opt filename line mt (?st n) s1 of (Inl e, s2) \<Rightarrow> (Inl e, s2) | (Inr st2, s2) \<Rightarrow> (Inr (Some st2), s2))"
      for n s1
      using print_selected_pays[of "?st n"] by (auto intro!: pays_seq[where len = "\<lambda>st'. length (ss_out st')"] simp: kept_text_def)
    have "pays (length (ss_out st)) s kept_text
        (case count_selected ctx m opt mt (ss_count st) s of (Inl e, s1) \<Rightarrow> (Inl e, s1)
         | (Inr n, s1) \<Rightarrow> let st1 = ?st n in if go_count opt then (Inr (Some st1), s1)
             else case print_selected ctx m opt filename line mt st1 s1 of (Inl e, s2) \<Rightarrow> (Inl e, s2) | (Inr st2, s2) \<Rightarrow> (Inr (Some st2), s2))"
      by (rule pays_seq[OF count_selected_pays]) (use p in \<open>simp add: Let_def kept_text_def\<close>)
    then show ?thesis unfolding if_P[OF sel] by (simp add: kept_text_def spent_drop)
  next
    case other
    have "pays (length (ss_out st)) s kept_text
        (case emit ctx m opt filename (ss_index st) line False None (ss_out st) s of (Inl e, s1) \<Rightarrow> (Inl e, s1)
         | (Inr out1, s1) \<Rightarrow> (Inr (Some (st\<lparr>ss_out := out1, ss_last := int (ss_index st), ss_after := ss_after st - 1\<rparr>)), s1))"
      by (rule pays_seq[OF emit_pays]) (simp add: kept_text_def)
    moreover have "pays (length (ss_out st)) s kept_text
        (case keep_pending opt line st of Inl e \<Rightarrow> (Inl e, s) | Inr st1 \<Rightarrow> (Inr (Some st1), s))"
      by (rule pays_lookup) (simp add: kept_text_def keep_pending_out)
    ultimately show ?thesis unfolding if_not_P[OF other] by (simp add: kept_text_def)
  qed
qed

lemma search_loop_pays [paying]:
  "pays (length (ss_out st)) s kept_text (search_loop ctx m opt filename inp st s)"
proof (induction "length (gi_bytes inp)" arbitrary: inp st s rule: less_induct)
  case less
  have line: "pays (length (ss_out st)) s2 kept_text
      (case search_line ctx m opt filename ex line st s2 of (Inl e, s3) \<Rightarrow> (Inl e, s3) | (Inr None, s3) \<Rightarrow> (Inr None, s3)
       | (Inr (Some st'), s3) \<Rightarrow> search_loop ctx m opt filename inp' (st'\<lparr>ss_index := Suc (ss_index st')\<rparr>) s3)"
    if "readLine inp = Inr (Some (line, inp'))" for line inp' ex s2
  proof (rule pays_seq[OF search_line_pays], goal_cases)
    case (1 r s3)
    show ?case
    proof (cases r)
      case (Some st')
      then show ?thesis
        using less[OF readLine_shorter[OF that], of "st'\<lparr>ss_index := Suc (ss_index st')\<rparr>" s3] by (simp add: kept_text_def)
    qed (simp add: kept_text_def)
  qed
  show ?case
    unfolding search_loop.simps[of ctx m opt filename inp st s] Let_def
  proof (rule pays_seq[OF check_ctx_pays], goal_cases)
    case (1 u s1)
    have "pays (length (ss_out st)) s1 kept_text
      (case budget_step s1 of (Inl e, s2) \<Rightarrow> (Inl e, s2)
       | (Inr _, s2) \<Rightarrow> (case readLine inp of Inl e \<Rightarrow> (Inl e, s2) | Inr None \<Rightarrow> (Inr (Some st), s2)
          | Inr (Some (line, inp')) \<Rightarrow>
           (case search_line ctx m opt filename ex line st s2 of (Inl e, s3) \<Rightarrow> (Inl e, s3) | (Inr None, s3) \<Rightarrow> (Inr None, s3)
            | (Inr (Some st'), s3) \<Rightarrow> search_loop ctx m opt filename inp' (st'\<lparr>ss_index := Suc (ss_index st')\<rparr>) s3)))" for ex
      by (rule pays_seq[OF budget_step_pays], rule pays_lookup) (auto simp: kept_text_def line split: option.splits)
    then show ?case by (simp add: kept_text_def)
  qed
qed

lemma search_pays [paying]: "pays 0 s (\<lambda>(out, matched). length out) (search ctx inp m opt filename s)"
proof -
  let ?opt = "if go_quiet opt \<or> go_list opt \<or> go_listWithout opt then opt\<lparr>go_before := 0, go_after := 0\<rparr> else opt"
  have "pays 0 s kept_text (search_loop ctx m ?opt filename inp search_start s)"
    using search_loop_pays[of search_start] by (simp add: search_start_def)
  then show ?thesis
    unfolding search_def Let_def
  proof (rule pays_seq, goal_cases)
    case (1 r s1)
    then show ?case
      by (auto simp: kept_text_def intro!: pays_seq[OF budget_write_pays] split: option.splits)
  qed
qed

section \<open>The whole command\<close>

text \<open>The output so far is no longer than \<open>n\<close> and what was paid for.\<close>

definition solvent :: "nat \<Rightarrow> grep_st \<Rightarrow> bool" where
  "solvent n st \<longleftrightarrow> within (gs_budget st) \<and> length (gs_out st) \<le> n + bg_output (gs_budget st)"

lemma solvent_complain [simp]: "solvent n (complain m st) = solvent n st"
  by (simp add: solvent_def complain_def)

lemma solvent_stdin [simp]: "solvent n (st\<lparr>gs_stdin := i\<rparr>) = solvent n st"
  by (simp add: solvent_def)

lemma solvent_spent: "solvent n st \<Longrightarrow> spent 0 (gs_budget st) b s' \<Longrightarrow> solvent n (st\<lparr>gs_budget := s'\<rparr>)"
  by (auto simp: solvent_def spent_def)

lemma check_ctx_spent: "check_ctx ctx s = (r, s') \<Longrightarrow> spent 0 s 0 s'"
  using check_ctx_pays[of 0 s ctx] by (cases r) auto

lemma openInput_spent: "openInput E stdin name s = (r, s') \<Longrightarrow> spent 0 s 0 s'"
  using check_ctx_spent[of "ge_ctx E" s] by (auto simp: openInput_def split: prod.splits sum.splits)

lemma readAll_spent: "readAll E inp s = (r, s') \<Longrightarrow> spent 0 s 0 s'"
  using check_ctx_spent[of "ge_ctx E" s] by (auto simp: readAll_def split: if_splits prod.splits sum.splits)

lemma readInput_spent: "readInput E stdin name s = (r, stdin', s') \<Longrightarrow> spent 0 s 0 s'"
  using openInput_spent[of E stdin name s]
  by (auto simp: readInput_def split: prod.splits sum.splits opened.splits dest!: readAll_spent intro: spent_trans)

lemma unless_ended_solvent:
  assumes "solvent n st" "\<And>st'. solvent n st' \<Longrightarrow> solvent n (snd (k st'))"
  shows "solvent n (snd (unless_ended E st k))"
proof -
  obtain r b where c: "check_ctx (ge_ctx E) (gs_budget st) = (r, b)" by fastforce
  have "solvent n (st\<lparr>gs_budget := b\<rparr>)" using solvent_spent[OF assms(1) check_ctx_spent[OF c]] .
  then show ?thesis using assms(2) c by (simp add: unless_ended_def split: sum.splits)
qed

lemma ended_or_solvent:
  assumes "solvent n st" "\<And>st'. solvent n st' \<Longrightarrow> gs_out st' = gs_out st \<Longrightarrow> solvent n (snd (k st'))"
  shows "solvent n (snd (ended_or E st k))"
proof -
  obtain r b where c: "check_ctx (ge_ctx E) (gs_budget st) = (r, b)" by fastforce
  have "solvent n (st\<lparr>gs_budget := b\<rparr>)" using solvent_spent[OF assms(1) check_ctx_spent[OF c]] .
  then show ?thesis using assms(2) c by (simp add: ended_or_def split: sum.splits)
qed

lemma searchError_solvent: "solvent n st \<Longrightarrow> solvent n (snd (searchError E e st))"
  unfolding searchError_def by (rule unless_ended_solvent) simp_all

lemma pattern_files_solvent: "solvent n st \<Longrightarrow> solvent n (snd (pattern_files E names ps st))"
proof (induction E names ps st rule: pattern_files.induct)
  case (2 E name names ps st)
  obtain r stdin b where r: "readInput E (gs_stdin st) name (gs_budget st) = (r, stdin, b)" by (metis prod_cases3)
  define st1 where "st1 = st\<lparr>gs_stdin := stdin, gs_budget := b\<rparr>"
  have s1: "solvent n st1"
    using solvent_spent[OF "2.prems" readInput_spent[OF r]] by (simp add: st1_def solvent_def)
  show ?case
  proof (cases r)
    case (Inl e)
    show ?thesis
      using Inl r unless_ended_solvent[OF s1, of "\<lambda>st'. (ExitStatus 2, complain (''grep: '' @ name @ '': '' @ err_text e @ nl) st')" E]
      by (auto simp: st1_def[symmetric] Let_def split: prod.splits)
  next
    case (Inr content)
    then show ?thesis using "2.IH"[OF r[symmetric] refl refl] r s1 by (simp add: st1_def)
  qed
qed simp

lemma print_out_solvent:
  assumes "print_out E t st = (r, st')" "solvent n st" "length (gs_out st) + length t \<le> n + bg_output (gs_budget st)"
  shows "solvent n st'" and "r = Inr st2 \<Longrightarrow> st2 = st'"
  using assms by (auto simp: print_out_def solvent_def split: option.splits)

lemma search_solvent:
  assumes "search ctx inp m opt filename (gs_budget st) = (r, b)" "solvent n st"
  shows "solvent n (st\<lparr>gs_budget := b\<rparr>)"
    and "r = Inr (out, matched) \<Longrightarrow> length (gs_out st) + length out \<le> n + bg_output b"
  using search_pays[of "gs_budget st" ctx inp m opt filename] assms
  by (cases r; force simp: solvent_def spent_def)+

lemma search_implicit_solvent: "solvent n st \<Longrightarrow> solvent n (snd (search_implicit E m opt st))"
proof (cases "gs_stdin st = None")
  case False
  assume s: "solvent n st"
  obtain r b where o: "openInput E (gs_stdin st) ''-'' (gs_budget st) = (r, b)" by fastforce
  have s1: "solvent n (st\<lparr>gs_budget := b\<rparr>)" using solvent_spent[OF s openInput_spent[OF o]] .
  show ?thesis
  proof (cases r)
    case (Inl e)
    have "solvent n (snd (unless_ended E (st\<lparr>gs_budget := b\<rparr>) (\<lambda>st'.
        (ExitStatus 2, complain (''grep: (standard input): '' @ err_text e @ nl) st'))))"
      by (rule unless_ended_solvent[OF s1]) simp
    then show ?thesis using False o Inl s by (simp add: search_implicit_def)
  next
    case (Inr op)
    define inp where "inp = (case op of OpenStdin i \<Rightarrow> i | OpenFile i \<Rightarrow> i)"
    obtain q b1 where q: "search (ge_ctx E) inp m (opt\<lparr>go_list := False, go_listWithout := False\<rparr>) [] b = (q, b1)" by fastforce
    note sv = search_solvent[of "ge_ctx E" inp m _ "[]" "st\<lparr>gs_budget := b\<rparr>", simplified, OF q s1, simplified]
    show ?thesis
    proof (cases q)
      case (Inl e)
      then show ?thesis
        using False o Inr q s searchError_solvent[OF sv(1), of E e] by (simp add: search_implicit_def inp_def)
    next
      case q2: (Inr p)
      obtain out matched where p: "p = (out, matched)" by (cases p)
      obtain x st2 where po: "print_out E out (st\<lparr>gs_budget := b1\<rparr>) = (x, st2)" by fastforce
      have "solvent n st2" "\<And>st3. x = Inr st3 \<Longrightarrow> st3 = st2"
        using print_out_solvent[OF po sv(1)] sv(2) q2 p by auto
      then show ?thesis
        using False o Inr q q2 p po sv(1) s
        by (cases "go_quiet opt"; cases x) (simp_all add: search_implicit_def inp_def[symmetric])
    qed
  qed
qed (simp add: search_implicit_def)

lemma entry_output_solvent:
  assumes s: "solvent n st" and o: "length (gs_out st) + length out \<le> n + bg_output (gs_budget st)"
  shows "solvent n (snd (entry_output E opt display out matched es st))"
proof -
  define shown where "shown = listed opt display matched out"
  define w where "w = (if go_list opt \<or> go_listWithout opt then budget_write [shown] (gs_budget st) else (Inr [], gs_budget st))"
  obtain r b where r: "w = (r, b)" by (cases w)
  have p: "pays 0 (gs_budget st) (\<lambda>t. length t) w"
    using budget_write_pays[of 0] by (simp add: w_def)
  have s1: "solvent n (st\<lparr>gs_budget := b\<rparr>)" using p r s by (cases r) (auto intro: solvent_spent)
  have len: "length (gs_out st) + length shown \<le> n + bg_output b" if "r = Inr t" for t
  proof (cases "go_list opt \<or> go_listWithout opt")
    case True
    then have "t = shown" using r that budget_write_text by (fastforce simp: w_def)
    then show ?thesis using p r that s by (auto simp: solvent_def spent_def)
  next
    case False
    then have "b = gs_budget st" "length shown \<le> length out" using r by (auto simp: w_def shown_def listed_def)
    then show ?thesis using o by simp
  qed
  show ?thesis
  proof (cases r)
    case (Inl e)
    then show ?thesis
      using s r searchError_solvent[OF s1, of E e]
      by (auto simp: entry_output_def Let_def shown_def[symmetric] w_def[symmetric] split: prod.splits)
  next
    case (Inr t)
    obtain x st2 where po: "print_out E shown (st\<lparr>gs_budget := b\<rparr>) = (x, st2)" by fastforce
    have "solvent n st2" "\<And>st3. x = Inr st3 \<Longrightarrow> st3 = st2"
      using print_out_solvent[OF po s1] len[OF Inr] by auto
    then show ?thesis
      using s r Inr po
      by (auto simp: entry_output_def Let_def shown_def[symmetric] w_def[symmetric] split: sum.splits)
  qed
qed

lemma grep_entry_solvent: "solvent n st \<Longrightarrow> solvent n (snd (grep_entry E m opt sf name es st))"
  unfolding grep_entry_def
proof (rule ended_or_solvent, assumption)
  fix st1 :: grep_st
  assume s1: "solvent n st1"
  obtain r b where o: "openInput E (gs_stdin st1) name (gs_budget st1) = (r, b)" by fastforce
  have s2: "solvent n (st1\<lparr>gs_budget := b\<rparr>)" using solvent_spent[OF s1 openInput_spent[OF o]] .
  let ?body = "let display = show_name name
          in case openInput E (gs_stdin st1) name (gs_budget st1) of
               (Inl e, b) \<Rightarrow>
                 ended_or E (st1\<lparr>gs_budget := b\<rparr>) (\<lambda>st1.
                   (Inr ((add_diag display e es)\<lparr>es_error := es_error es \<or> e \<noteq> errDirectory\<rparr>), st1))
             | (Inr op, b) \<Rightarrow>
                 (let inp0 = (case op of OpenStdin i \<Rightarrow> i | OpenFile i \<Rightarrow> i);
                      inp = (if name = ''-'' \<and> es_claimed es then \<lparr>gi_bytes = [], gi_failed = False\<rparr> else inp0);
                      es1 = (if name = ''-'' then es\<lparr>es_claimed := True\<rparr> else es)
                  in case search (ge_ctx E) inp m opt (if sf then display else []) b of
                       (Inl e, b1) \<Rightarrow>
                         ended_or E (st1\<lparr>gs_budget := b1\<rparr>) (\<lambda>st1.
                           if e = errInput then (Inr ((add_diag display e es1)\<lparr>es_error := True\<rparr>), st1)
                           else (let (x, st2) = searchError E e st1 in (Inl x, st2)))
                     | (Inr (output, matched), b1) \<Rightarrow>
                         entry_output E opt display output matched es1 (st1\<lparr>gs_budget := b1\<rparr>))"
  have "solvent n (snd ?body)"
  proof (cases r)
    case (Inl e)
    then show ?thesis using o by (auto simp: Let_def intro!: ended_or_solvent[OF s2])
  next
    case (Inr op)
    define inp where "inp = (if name = ''-'' \<and> es_claimed es then \<lparr>gi_bytes = [], gi_failed = False\<rparr>
      else (case op of OpenStdin i \<Rightarrow> i | OpenFile i \<Rightarrow> i))"
    define fn where "fn = (if sf then show_name name else [])"
    obtain q b1 where q: "search (ge_ctx E) inp m opt fn b = (q, b1)" by fastforce
    note sv = search_solvent[of "ge_ctx E" inp m opt fn "st1\<lparr>gs_budget := b\<rparr>", simplified, OF q s2, simplified]
    show ?thesis
    proof (cases q)
      case (Inl e)
      then show ?thesis
        using o Inr q
        by (auto simp: Let_def inp_def[symmetric] fn_def[symmetric] case_prod_unfold
            intro!: ended_or_solvent[OF sv(1)] searchError_solvent)
    next
      case q2: (Inr p)
      obtain out matched where "p = (out, matched)" by (cases p)
      then show ?thesis
        using o Inr q q2 sv(2)
        by (auto simp: Let_def inp_def[symmetric] fn_def[symmetric] intro!: entry_output_solvent[OF sv(1)])
    qed
  qed
  then show "solvent n (snd (if name \<noteq> ''-'' \<and> \<not> go_recursive opt \<and> \<not> acceptFile E opt name then (Inr es, st1) else ?body))"
    using s1 by simp
qed

lemma grep_entries_solvent: "solvent n st \<Longrightarrow> solvent n (snd (grep_entries E m opt sf names es st))"
proof (induction names arbitrary: es st)
  case (Cons name names)
  obtain r st1 where g: "grep_entry E m opt sf name es st = (r, st1)" by fastforce
  then have "solvent n st1" using grep_entry_solvent[OF Cons.prems] by (metis snd_conv)
  then show ?case using Cons.IH g by (auto split: sum.splits)
qed simp

lemma grep_patterns_solvent: "solvent n st \<Longrightarrow> solvent n (snd (grep_patterns E opt files st))"
proof -
  assume s: "solvent n st"
  have ops: "solvent n (snd (search_operands E m opt' files st1))" if s1: "solvent n st1" for m opt' st1
  proof -
    obtain r t where c: "collectFiles E files opt' \<lparr>tb_operations = 0, tb_results = 0, tb_ticks = bg_ticks (gs_budget st1)\<rparr> = (r, t)"
      by fastforce
    define st2 where "st2 = st1\<lparr>gs_budget := (gs_budget st1)\<lparr>bg_ticks := tb_ticks t\<rparr>\<rparr>"
    have s2: "solvent n st2" using s1 by (simp add: st2_def solvent_def within_def)
    show ?thesis
    proof (cases r)
      case (Inl e)
      have "solvent n (snd (unless_ended E st2 (\<lambda>st2. (ExitStatus 2, complain (''grep: '' @ trav_text e @ nl) st2))))"
        by (rule unless_ended_solvent[OF s2]) simp
      then show ?thesis using c Inl by (simp add: search_operands_def st2_def[symmetric] Let_def)
    next
      case (Inr entries)
      define sf where "sf \<longleftrightarrow> \<not> go_noFilename opt' \<and> (length entries > 1 \<or> go_recursive opt' \<and> list_ex (\<lambda>f. f \<noteq> ''-'') files)"
      obtain q st3 where g: "grep_entries E m opt' sf entries
          \<lparr>es_match = False, es_error = False, es_claimed = False, es_diag = []\<rparr> st2 = (q, st3)" by fastforce
      then have "solvent n st3" using grep_entries_solvent[OF s2] by (metis snd_conv)
      then show ?thesis
        using c Inr g[unfolded sf_def]
        by (auto simp: search_operands_def st2_def[symmetric] Let_def split: sum.splits option.splits)
    qed
  qed
  obtain r st1 where p: "pattern_files E (go_patternFiles opt) (go_patterns opt) st = (r, st1)" by fastforce
  then have s1: "solvent n st1" using pattern_files_solvent[OF s] by (metis snd_conv)
  show ?thesis
    using p s1 ops[OF s1] search_implicit_solvent[OF s1]
    by (auto simp: grep_patterns_def Let_def split: sum.splits)
qed

text \<open>C16: An invocation of grep never writes more than 8 MiB to its standard output, whatever the files, the patterns and the options: every byte is paid from the budget of the invocation.\<close>

theorem grep_output_bounded:
  "case grep_Exec ec Getopt g args st of
     None \<Rightarrow> True
   | Some (x, st') \<Rightarrow> length (gs_out st') \<le> length (gs_out st) + maxSearchOutput"
proof (cases ec)
  case (Some E)
  obtain r b where c: "check_ctx (ge_ctx E) (gs_budget st) = (r, b)" by fastforce
  define st1 where "st1 = st\<lparr>gs_budget := b\<lparr>bg_work := 0, bg_results := 0, bg_output := 0\<rparr>\<rparr>"
  have "solvent (length (gs_out st)) st1" by (simp add: solvent_def within_def st1_def)
  then have "length (gs_out st') \<le> length (gs_out st) + maxSearchOutput" if "grep_patterns E opt files st1 = (x, st')" for opt files x st'
    using grep_patterns_solvent[of "length (gs_out st)" st1 E opt files] that by (auto simp: solvent_def within_def)
  then show ?thesis
    using c Some
    by (auto simp: grep_Exec_def st1_def complain_def Let_def split: sum.splits option.splits parsed.splits prod.splits)
qed (simp add: grep_Exec_def)

end
