(* ===== verification/Grep_Walk.thy ===== *)
theory Grep_Walk
  imports Grep_Budget
begin

text \<open>
  The traversal of grep's operands: it is bounded whatever the filesystem answers (a directory
  may list itself), and when it ends within its bounds a recursive walk has found exactly the
  regular files that the options accept.
\<close>

section \<open>Bounds\<close>

text \<open>
  \<open>bounded a s len r\<close>: started within the limits with \<open>a\<close> names at hand, the traversal \<open>r\<close> keeps the
  limits, fails at the first operation beyond them, and every name was counted.
\<close>

definition bounded :: "nat \<Rightarrow> tstate \<Rightarrow> ('a \<Rightarrow> nat) \<Rightarrow> (trav_err + 'a) \<times> tstate \<Rightarrow> bool" where
  "bounded a s len r \<longleftrightarrow>
     (tb_operations s \<le> maxTraversalOperations \<and> tb_results s \<le> maxTraversalResults \<longrightarrow>
        (case r of
           (Inl e, s') \<Rightarrow> tb_operations s' \<le> Suc maxTraversalOperations \<and> tb_results s' \<le> maxTraversalResults
         | (Inr x, s') \<Rightarrow> tb_operations s' \<le> maxTraversalOperations \<and> tb_results s' \<le> maxTraversalResults
             \<and> tb_results s + len x \<le> tb_results s' + a))"

lemma bounded_Inr [simp]: "bounded a s (\<lambda>_. a) (Inr x, s)"
  by (simp add: bounded_def)

lemma bounded_Nil [simp]: "bounded a s (\<lambda>xs. a + length xs) (Inr [], s)"
  by (simp add: bounded_def)

lemma bounded_bind:
  assumes "bounded a s len r" "\<And>x s1. r = (Inr x, s1) \<Longrightarrow> bounded (len x) s1 len2 (f x s1)"
  shows "bounded a s len2 (tbind r f)"
proof (cases r)
  case (Pair q s1)
  show ?thesis
  proof (cases q)
    case (Inr x)
    then show ?thesis
      using assms Pair by (force simp: bounded_def tbind_def split: prod.splits sum.splits)
  qed (use assms Pair in \<open>simp add: bounded_def tbind_def\<close>)
qed

lemma tstep_bounded: "bounded a s (\<lambda>_. a) (tstep s)"
  by (simp add: bounded_def tstep_def Let_def)

lemma tctx_bounded: "bounded a s (\<lambda>_. a) (tctx ctx s)"
  by (simp add: bounded_def tctx_def split: option.splits)

lemma tadd_bounded: "bounded a s (\<lambda>xs. a + length xs) (tadd name s)"
  by (simp add: bounded_def tadd_def)

lemma visit_start_bounded: "bounded a s (\<lambda>_. a) (visit_start E s)"
  unfolding visit_start_def by (intro bounded_bind[OF tstep_bounded] tctx_bounded)

text \<open>What a loop over entries needs of the visit of one of them.\<close>

locale visitor =
  fixes visit :: "'a \<Rightarrow> string list trav"
  assumes visit_bounded: "bounded a s (\<lambda>xs. a + length xs) (visit x s)"
begin

lemma each_bounded: "bounded a s (\<lambda>xs. a + length xs) (each visit ys s)"
proof (induction ys arbitrary: a s)
  case (Cons y ys)
  show ?case
  proof (simp only: each.simps, rule bounded_bind[OF visit_bounded], rule bounded_bind[OF Cons.IH], goal_cases)
    case (1 r1 s1 r2 s2)
    then show ?case by (simp add: bounded_def)
  qed
qed simp

end

lemmas bounded_rules = bounded_bind[OF visit_start_bounded] bounded_bind[OF tstep_bounded] tadd_bounded

lemma walkFiles_bounded: "bounded a s (\<lambda>xs. a + length xs) (walkFiles E opt left name s)"
proof (induction left arbitrary: a s name)
  case (Suc left)
  then have "visitor (\<lambda>e s3. tbind (tstep s3) (\<lambda>_ s4. if hasPrefix (de_name e) ''.'' then (Inr [], s4)
      else walkFiles E opt left (childPath name (de_name e)) s4))"
    by unfold_locales (auto intro!: bounded_rules)
  then show ?case
    by (auto intro!: bounded_rules visitor.each_bounded split: option.splits sum.splits)
qed (auto intro!: bounded_rules)

interpretation wf: visitor "walkFiles E opt left" for E opt left
  by unfold_locales (rule walkFiles_bounded)

lemma walkGlob_bounded: "bounded a s (\<lambda>xs. a + length xs) (walkGlob E fs glob left name s)"
proof (induction left arbitrary: a s name)
  case (Suc left)
  then have "visitor (\<lambda>e s2. walkGlob E fs glob left (childPath name (de_name e)) s2)" by unfold_locales
  then show ?case
    by (auto intro!: bounded_rules visitor.each_bounded split: sum.splits)
qed (auto intro!: bounded_rules)

interpretation wg: visitor "walkGlob E fs glob left" for E fs glob left
  by unfold_locales (rule walkGlob_bounded)

interpretation eg: visitor "\<lambda>e s2. tbind (visit_start E s2) (\<lambda>_ s3. if P e then tadd (g e) s3 else (Inr [], s3))" for E P g
  by unfold_locales (auto intro!: bounded_rules)

lemma expandGlob_bounded: "bounded a s (\<lambda>xs. a + length xs) (expandGlob E glob s)"
  unfolding expandGlob_def Let_def
  by (auto intro!: bounded_rules wg.visit_bounded bounded_bind[OF eg.each_bounded] split: option.splits sum.splits)
     (simp add: bounded_def)

interpretation co: visitor "collect_operand E opt" for E opt
proof (unfold_locales, goal_cases)
  case (1 a s name)
  have v: "visitor (\<lambda>entry s3. if \<not> go_recursive opt then tadd entry s3 else walkFiles E opt maxDepth entry s3)"
    by unfold_locales (auto intro!: tadd_bounded wf.visit_bounded)
  have e: "bounded a s2 (\<lambda>xs. a) (expandGlob E name s2)" for s2
    using expandGlob_bounded[of a s2 E name] by (auto simp: bounded_def split: sum.splits)
  show ?case
    unfolding collect_operand_def
    by (intro bounded_rules) (auto intro!: tadd_bounded bounded_bind[OF e] bounded_bind[OF bounded_Inr] visitor.each_bounded[OF v])
qed

text \<open>The traversal of the operands is bounded whatever the filesystem answers, even when directories contain themselves: it gives at most 100000 names and gives up at the 100001st operation.\<close>

theorem collectFiles_bounded:
  "case collectFiles E files opt \<lparr>tb_operations = 0, tb_results = 0, tb_ticks = t\<rparr> of
     (Inl e, s') \<Rightarrow> tb_operations s' \<le> Suc maxTraversalOperations
   | (Inr names, s') \<Rightarrow> tb_operations s' \<le> maxTraversalOperations \<and> length names \<le> maxTraversalResults"
  using co.each_bounded[of 0 "\<lparr>tb_operations = 0, tb_results = 0, tb_ticks = t\<rparr>" E opt files]
  by (auto simp: bounded_def collectFiles_def split: prod.splits sum.splits)

section \<open>What a recursive walk finds\<close>

text \<open>A file that lies at most so many levels below a name, through directories that are not excluded and entries that are not hidden.\<close>

inductive found :: "'s grep_env \<Rightarrow> grep_options \<Rightarrow> nat \<Rightarrow> string \<Rightarrow> string \<Rightarrow> bool" for E opt where
  regular: "\<lbrakk>ge_fs E = Some fs; fs_stat fs (ge_state E) (grep_resolvePath (ge_dir E) name) = Inr info;
     \<not> fi_isDir info; mode_isRegular (fi_mode info); acceptFile E opt name\<rbrakk> \<Longrightarrow> found E opt (Suc left) name name"
| below: "\<lbrakk>ge_fs E = Some fs; fs_stat fs (ge_state E) (grep_resolvePath (ge_dir E) name) = Inr info; fi_isDir info;
     \<not> matchesAny E (path_base name) (go_excludeDir opt);
     fs_readdir fs (ge_state E) (grep_resolvePath (ge_dir E) name) = Inr entries; e \<in> set entries;
     \<not> hasPrefix (de_name e) ''.''; found E opt left (childPath name (de_name e)) x\<rbrakk> \<Longrightarrow> found E opt (Suc left) name x"

inductive_simps found_0: "found E opt 0 name x"
inductive_simps found_Suc: "found E opt (Suc left) name x"

lemma tbind_Inr: "tbind r f = (Inr y, s') \<longleftrightarrow> (\<exists>x s1. r = (Inr x, s1) \<and> f x s1 = (Inr y, s'))"
  by (auto simp: tbind_def split: prod.splits sum.splits)

lemma each_found:
  assumes "each f ys s = (Inr xs, s')" "\<And>y s1 r s2. y \<in> set ys \<Longrightarrow> f y s1 = (Inr r, s2) \<Longrightarrow> set r = F y"
  shows "set xs = (\<Union>y \<in> set ys. F y)"
  using assms by (induction f ys s arbitrary: xs s' rule: each.induct) (fastforce simp: tbind_Inr)+

lemma tadd_Inr: "tadd name s = (Inr xs, s') \<Longrightarrow> xs = [name]"
  by (auto simp: tadd_def split: if_splits)

lemma walkFiles_found: "walkFiles E opt left name s = (Inr xs, s') \<Longrightarrow> set xs = {x. found E opt left name x}"
proof (induction left arbitrary: name s xs s')
  case 0
  then show ?case by (auto simp: found_0 tbind_Inr)
next
  case (Suc left)
  show ?case
  proof (cases "\<exists>fs info entries. ge_fs E = Some fs \<and> fs_stat fs (ge_state E) (grep_resolvePath (ge_dir E) name) = Inr info
      \<and> fi_isDir info \<and> \<not> matchesAny E (path_base name) (go_excludeDir opt)
      \<and> fs_readdir fs (ge_state E) (grep_resolvePath (ge_dir E) name) = Inr entries")
    case True
    then obtain fs info entries where d: "ge_fs E = Some fs"
        "fs_stat fs (ge_state E) (grep_resolvePath (ge_dir E) name) = Inr info" "fi_isDir info"
        "\<not> matchesAny E (path_base name) (go_excludeDir opt)"
        "fs_readdir fs (ge_state E) (grep_resolvePath (ge_dir E) name) = Inr entries" by blast
    let ?f = "\<lambda>e s3. tbind (tstep s3) (\<lambda>_ s4. if hasPrefix (de_name e) ''.'' then (Inr [], s4)
      else walkFiles E opt left (childPath name (de_name e)) s4)"
    let ?F = "\<lambda>e. if hasPrefix (de_name e) ''.'' then {} else {x. found E opt left (childPath name (de_name e)) x}"
    obtain s2 where r: "each ?f (sort_entries entries) s2 = (Inr xs, s')"
      using Suc.prems d by (auto simp: tbind_Inr)
    have "set xs = (\<Union>e \<in> set (sort_entries entries). ?F e)"
      by (rule each_found[OF r]) (auto simp: tbind_Inr dest!: Suc.IH)
    then show ?thesis using d by (auto simp: found_Suc split: if_splits)
  next
    case False
    show ?thesis
    proof (cases "ge_fs E")
      case None
      then show ?thesis using Suc.prems by (auto simp: tbind_Inr found_Suc)
    next
      case (Some fs)
      show ?thesis
      proof (cases "fs_stat fs (ge_state E) (grep_resolvePath (ge_dir E) name)")
        case (Inl e)
        then show ?thesis using Suc.prems Some by (auto simp: tbind_Inr found_Suc)
      next
        case (Inr info)
        show ?thesis
        proof (cases "fi_isDir info")
          case True
          then show ?thesis
            using Suc.prems Some Inr False
            by (cases "matchesAny E (path_base name) (go_excludeDir opt)";
                cases "fs_readdir fs (ge_state E) (grep_resolvePath (ge_dir E) name)") (auto simp: tbind_Inr found_Suc)
        next
          case reg: False
          then show ?thesis
            using Suc.prems Some Inr by (auto simp: tbind_Inr found_Suc dest!: tadd_Inr split: if_splits)
        qed
      qed
    qed
  qed
qed

text \<open>C11: When the traversal stays within its limits, a recursive search visits exactly the files that it should: standard input where it was named, and below every other operand (one that is no glob) the regular files that \<^verbatim>\<open>--include\<close> and \<^verbatim>\<open>--exclude\<close> accept, found through directories that \<^verbatim>\<open>--exclude-dir\<close> lets pass and entries that are not hidden, to a depth of 256.\<close>

theorem collectFiles_complete:
  assumes "go_recursive opt" "\<And>name. name \<in> set files \<Longrightarrow> \<not> list_ex (\<lambda>c. c \<in> set ''*?['') name"
    "collectFiles E files opt s = (Inr names, s')"
  shows "set names = (if ''-'' \<in> set files then {''-''} else {}) \<union> (\<Union>name \<in> set files - {''-''}. {x. found E opt maxDepth name x})"
proof -
  have "set names = (\<Union>name \<in> set files. if name = ''-'' then {''-''} else {x. found E opt maxDepth name x})"
  proof (rule each_found[OF assms(3)[unfolded collectFiles_def]])
    fix name s1 r s2
    assume "name \<in> set files" "collect_operand E opt name s1 = (Inr r, s2)"
    then show "set r = (if name = ''-'' then {''-''} else {x. found E opt maxDepth name x})"
      using assms(1,2) by (auto simp: collect_operand_def tbind_Inr dest!: tadd_Inr walkFiles_found)
  qed
  then show ?thesis by auto
qed

end
