(* ===== verification/Grep_Bre.thy ===== *)
theory Grep_Bre
  imports Grep_Regex
begin

text \<open>
  The translation of basic regular expressions, against their syntax: an expression printed in
  the basic syntax is translated to the same expression printed in the extended one
  (\<^verbatim>\<open>basicRegexp\<close> of \<^verbatim>\<open>command/internal/grep/regex.go\<close>).
\<close>

section \<open>Syntax\<close>

datatype quant = Once | Star | Repeat nat | AtLeast nat | Between nat nat

datatype bre = Expr "branch list" bool
  and branch = Branch bool "piece list"
  and piece = Piece atom quant
  and atom = Plain char | Escaped char | AnyChar | Bracket string | Group bre

text \<open>
  The flag of an expression is a final \<^verbatim>\<open>$\<close>, the flag of a branch a leading \<^verbatim>\<open>^\<close>.  A plain character
  stands for itself in the basic syntax; a character that is special there is escaped.
\<close>

fun wf_expr :: "bre \<Rightarrow> bool" and wf_branch :: "branch \<Rightarrow> bool" and wf_piece :: "piece \<Rightarrow> bool" and wf_atom :: "atom \<Rightarrow> bool" where
  "wf_expr (Expr bs d) \<longleftrightarrow> (\<forall>b \<in> set bs. wf_branch b)"
| "wf_branch (Branch a ps) \<longleftrightarrow> (\<forall>p \<in> set ps. wf_piece p)"
| "wf_piece (Piece a q) \<longleftrightarrow> wf_atom a"
| "wf_atom (Plain c) \<longleftrightarrow> c \<notin> set ''.[*^$'' \<and> c \<noteq> backslash"
| "wf_atom (Escaped c) \<longleftrightarrow> c \<in> set ''.[*^$'' \<or> c = backslash"
| "wf_atom AnyChar \<longleftrightarrow> True"
| "wf_atom (Bracket s) \<longleftrightarrow> CHR '']'' \<notin> set s \<and> backslash \<notin> set s"
| "wf_atom (Group e) \<longleftrightarrow> wf_expr e"

fun bounds_text :: "quant \<Rightarrow> string" where
  "bounds_text (Repeat n) = show_nat n"
| "bounds_text (AtLeast n) = show_nat n @ '',''"
| "bounds_text (Between n k) = show_nat n @ '','' @ show_nat k"
| "bounds_text _ = []"

definition print_quant :: "bool \<Rightarrow> quant \<Rightarrow> string" where
  "print_quant basic q =
     (case q of
        Once \<Rightarrow> []
      | Star \<Rightarrow> ''*''
      | _ \<Rightarrow> (if basic then [backslash, CHR ''{''] @ bounds_text q @ [backslash, CHR ''}''] else ''{'' @ bounds_text q @ ''}''))"

fun bre_expr :: "bre \<Rightarrow> string" and bre_branch :: "branch \<Rightarrow> string" and bre_piece :: "piece \<Rightarrow> string" and bre_atom :: "atom \<Rightarrow> string" where
  "bre_expr (Expr bs d) = joinWith [backslash, CHR ''|''] (map bre_branch bs) @ (if d then ''$'' else [])"
| "bre_branch (Branch a ps) = (if a then ''^'' else []) @ concat (map bre_piece ps)"
| "bre_piece (Piece a q) = bre_atom a @ print_quant True q"
| "bre_atom (Plain c) = [c]"
| "bre_atom (Escaped c) = [backslash, c]"
| "bre_atom AnyChar = ''.''"
| "bre_atom (Bracket s) = ''['' @ s @ '']''"
| "bre_atom (Group e) = [backslash, CHR ''(''] @ bre_expr e @ [backslash, CHR '')'']"

fun ere_expr :: "bre \<Rightarrow> string" and ere_branch :: "branch \<Rightarrow> string" and ere_piece :: "piece \<Rightarrow> string" and ere_atom :: "atom \<Rightarrow> string" where
  "ere_expr (Expr bs d) = joinWith ''|'' (map ere_branch bs) @ (if d then ''$'' else [])"
| "ere_branch (Branch a ps) = (if a then ''^'' else []) @ concat (map ere_piece ps)"
| "ere_piece (Piece a q) = ere_atom a @ print_quant False q"
| "ere_atom (Plain c) = (if c \<in> set ''+?|(){}'' then [backslash, c] else [c])"
| "ere_atom (Escaped c) = [backslash, c]"
| "ere_atom AnyChar = ''.''"
| "ere_atom (Bracket s) = ''['' @ s @ '']''"
| "ere_atom (Group e) = ''('' @ ere_expr e @ '')''"

section \<open>The loop on each kind of item\<close>

lemma loop_Nil [simp]: "basic_loop start [] = []"
  by (simp add: basic_loop.simps)

lemma loop_plain:
  "c \<notin> set ''.[*^$'' \<Longrightarrow> c \<noteq> backslash \<Longrightarrow>
   basic_loop start (c # r) = (if c \<in> set ''+?|(){}'' then [backslash, c] else [c]) @ basic_loop False r"
  by (subst basic_loop.simps) (auto simp: bre_escaped_def Let_def)

lemma loop_any: "basic_loop start (CHR ''.'' # r) = CHR ''.'' # basic_loop False r"
  by (subst basic_loop.simps) (simp add: bre_escaped_def Let_def)

lemma loop_escaped:
  "c \<in> set ''.[*^$'' \<or> c = backslash \<Longrightarrow> basic_loop start (backslash # c # r) = backslash # c # basic_loop False r"
  by (subst basic_loop.simps) (auto simp: Let_def)

lemma loop_open: "basic_loop start (backslash # CHR ''('' # r) = CHR ''('' # basic_loop True r"
  by (subst basic_loop.simps) (simp add: Let_def)

lemma loop_bar: "basic_loop start (backslash # CHR ''|'' # r) = CHR ''|'' # basic_loop True r"
  by (subst basic_loop.simps) (simp add: Let_def)

lemma loop_close: "basic_loop start (backslash # CHR '')'' # r) = CHR '')'' # basic_loop False r"
  by (subst basic_loop.simps) (simp add: Let_def)

lemma loop_star: "basic_loop False (CHR ''*'' # r) = CHR ''*'' # basic_loop False r"
  by (subst basic_loop.simps) (simp add: bre_escaped_def Let_def)

lemma loop_caret: "basic_loop True (CHR ''^'' # r) = CHR ''^'' # basic_loop True r"
  by (subst basic_loop.simps) (simp add: Let_def)

lemma loop_dollar:
  "r = [] \<or> hasPrefix r [backslash, CHR '')''] \<Longrightarrow> basic_loop start (CHR ''$'' # r) = CHR ''$'' # basic_loop False r"
  by (subst basic_loop.simps) (auto simp: Let_def)

lemma bracket_end_plain:
  "CHR '']'' \<notin> set s \<Longrightarrow> backslash \<notin> set s \<Longrightarrow> bracket_end (s @ CHR '']'' # r) = (s @ '']'', r)"
proof (induction s)
  case Nil
  then show ?case by (subst bracket_end.simps) simp
next
  case (Cons c s)
  then show ?case by (subst bracket_end.simps) auto
qed

lemma loop_bracket:
  "CHR '']'' \<notin> set s \<Longrightarrow> backslash \<notin> set s \<Longrightarrow>
   basic_loop start (CHR ''['' # s @ CHR '']'' # r) = CHR ''['' # s @ CHR '']'' # basic_loop False r"
  by (subst basic_loop.simps) (simp add: Let_def bracket_end_plain)

lemma digits_takeWhile: "\<not> is_digit c \<Longrightarrow> takeWhile is_digit (show_nat n @ c # r) = show_nat n"
  using format_nat_digits[of n] by (simp add: takeWhile_append2)

lemma digits_dropWhile: "\<not> is_digit c \<Longrightarrow> dropWhile is_digit (show_nat n @ c # r) = c # r"
  using format_nat_digits[of n] by (simp add: dropWhile_append2)

lemma not_digit: "\<not> is_digit backslash" "\<not> is_digit (CHR '','')"
  by (simp_all add: is_digit_def)

lemma show_nat_not_Nil: "show_nat n \<noteq> []"
  by (subst format_nat.simps) simp

lemma show_nat_front_digit: "is_digit (hd (show_nat n))"
  using format_nat_digits[of n] show_nat_not_Nil[of n] by (cases "show_nat n") auto

lemma basicInterval_bounds:
  assumes "q \<noteq> Once" "q \<noteq> Star"
  shows "basicInterval ([backslash, CHR ''{''] @ bounds_text q @ [backslash, CHR ''}''] @ r) =
    [backslash, CHR ''{''] @ bounds_text q @ [backslash, CHR ''}'']"
  using assms
  by (cases q) (simp_all add: basicInterval_def hasPrefix_def Let_def digits_takeWhile digits_dropWhile show_nat_not_Nil show_nat_front_digit not_digit)

lemma bounds_no_backslash: "filter (\<lambda>x. x \<noteq> backslash) (bounds_text q) = bounds_text q"
proof -
  have "c \<noteq> backslash" if "c \<in> set (show_nat n)" for c n
    using format_nat_digits[of n] that by (auto simp: is_digit_def)
  then have "filter (\<lambda>x. x \<noteq> backslash) (show_nat n) = show_nat n" for n by (simp add: filter_id_conv)
  then show ?thesis by (cases q) simp_all
qed

lemma loop_quant: "basic_loop False (print_quant True q @ r) = print_quant False q @ basic_loop False r"
proof (cases "q = Once \<or> q = Star")
  case True
  then show ?thesis by (auto simp: print_quant_def loop_star)
next
  case False
  let ?t = "[backslash, CHR ''{''] @ bounds_text q @ [backslash, CHR ''}'']"
  have p: "print_quant True q = ?t" "print_quant False q = ''{'' @ bounds_text q @ ''}''"
    using False by (auto simp: print_quant_def split: quant.splits)
  have i: "basicInterval (?t @ r) = ?t" using False basicInterval_bounds[of q r] by simp
  have "basic_loop False (?t @ r) = filter (\<lambda>x. x \<noteq> backslash) ?t @ basic_loop False r"
    by (subst basic_loop.simps) (use i in \<open>simp add: Let_def\<close>)
  then show ?thesis unfolding p by (simp add: bounds_no_backslash)
qed

lemma loop_pieces:
  assumes "\<And>p r start. p \<in> set ps \<Longrightarrow> basic_loop start (bre_piece p @ r) = ere_piece p @ basic_loop False r"
  shows "basic_loop start (concat (map bre_piece ps) @ r) = concat (map ere_piece ps) @ basic_loop (start \<and> ps = []) r"
  using assms by (induction ps arbitrary: start) auto

lemma loop_branches:
  assumes "\<And>b r. b \<in> set bs \<Longrightarrow> \<exists>start. basic_loop True (bre_branch b @ r) = ere_branch b @ basic_loop start r"
  shows "\<exists>start. basic_loop True (joinWith [backslash, CHR ''|''] (map bre_branch bs) @ r) =
    joinWith ''|'' (map ere_branch bs) @ basic_loop start r"
  using assms
proof (induction bs rule: induct_list012)
  case 1
  then show ?case by auto
next
  case (2 b)
  then show ?case by simp
next
  case (3 b b' bs)
  obtain start where s: "basic_loop True (joinWith [backslash, CHR ''|''] (map bre_branch (b' # bs)) @ r) =
      joinWith ''|'' (map ere_branch (b' # bs)) @ basic_loop start r"
    using "3.IH"(2) "3.prems" by auto
  obtain st where "basic_loop True (bre_branch b @ backslash # CHR ''|'' # joinWith [backslash, CHR ''|''] (map bre_branch (b' # bs)) @ r) =
      ere_branch b @ basic_loop st (backslash # CHR ''|'' # joinWith [backslash, CHR ''|''] (map bre_branch (b' # bs)) @ r)"
    using "3.prems"[of b] by auto
  then show ?case using s by (auto simp: loop_bar)
qed

lemma loop_end: "r = [] \<or> hasPrefix r [backslash, CHR '')''] \<Longrightarrow> basic_loop start r = basic_loop False r"
  by (cases r; cases "tl r") (auto simp: hasPrefix_def loop_close)

lemma loop_syntax:
  shows "wf_expr e \<Longrightarrow> r = [] \<or> hasPrefix r [backslash, CHR '')''] \<Longrightarrow> basic_loop True (bre_expr e @ r) = ere_expr e @ basic_loop False r"
    and "wf_branch b \<Longrightarrow> \<exists>st. basic_loop True (bre_branch b @ r) = ere_branch b @ basic_loop st r"
    and "wf_piece p \<Longrightarrow> basic_loop start (bre_piece p @ r) = ere_piece p @ basic_loop False r"
    and "wf_atom a \<Longrightarrow> basic_loop start (bre_atom a @ r) = ere_atom a @ basic_loop False r"
proof (induction e and b and p and a arbitrary: r and r and r start and r start rule: bre_expr_bre_branch_bre_piece_bre_atom.induct)
  case (1 bs d)
  have b: "\<exists>st. basic_loop True (bre_branch b @ r) = ere_branch b @ basic_loop st r" if "b \<in> set bs" for b r
    using 1 that by simp
  obtain st where "basic_loop True (joinWith [backslash, CHR ''|''] (map bre_branch bs) @ (if d then ''$'' else []) @ r) =
      joinWith ''|'' (map ere_branch bs) @ basic_loop st ((if d then ''$'' else []) @ r)"
    using loop_branches[OF b] by blast
  moreover have "basic_loop st ((if d then ''$'' else []) @ r) = (if d then ''$'' else []) @ basic_loop False r"
    using loop_end[OF 1(3), of st] loop_dollar[OF 1(3), of st] by simp
  ultimately show ?case by simp
next
  case (2 a ps)
  have p: "basic_loop start (bre_piece p @ r) = ere_piece p @ basic_loop False r" if "p \<in> set ps" for p r start
    using 2 that by simp
  show ?case using loop_pieces[OF p] by (auto simp: loop_caret)
next
  case (3 a q)
  then show ?case by (simp add: loop_quant)
next
  case (4 c)
  then show ?case using loop_plain[of c] by simp
next
  case (5 c)
  then show ?case using loop_escaped[of c] by simp
next
  case 6
  then show ?case by (simp add: loop_any)
next
  case (7 s)
  then show ?case using loop_bracket[of s] by simp
next
  case (8 e)
  then show ?case by (simp add: loop_open loop_close hasPrefix_def)
qed



text \<open>Before an alternative, where the basic syntax of other implementations has an anchor, a \<^verbatim>\<open>$\<close> is a literal.\<close>

lemma dollar_before_bar:
  "basicRegexp (''a$'' @ [backslash, CHR ''|''] @ ''b'') = ''a'' @ [backslash] @ ''$|b''"
proof -
  have "basic_loop False (CHR ''$'' # backslash # CHR ''|'' # r) = [backslash, CHR ''$''] @ basic_loop False (backslash # CHR ''|'' # r)" for r
    by (subst basic_loop.simps) (simp add: Let_def hasPrefix_def)
  then show ?thesis by (simp add: basicRegexp_def loop_plain loop_bar)
qed

end
