(* ===== verification/Grep_Properties.thy ===== *)
theory Grep_Properties
  imports Grep_Walk Grep_Bre
begin

text \<open>
  Further properties of grep: the decoding of input, the option loop, the translation of basic
  regular expressions, what a search reports, and a concrete tree that the walk is run on.
\<close>

section \<open>A concrete tree\<close>

definition sample_info :: "fmode \<Rightarrow> file_info" where
  "sample_info mode = \<lparr>fi_name = [], fi_size = 0, fi_mode = mode, fi_mtime = 0, fi_dev = None\<rparr>"

definition sample_entry :: "string \<Rightarrow> dir_entry" where
  "sample_entry name = \<lparr>de_name = name, de_type = 0, de_info = Inl ErrNotExist\<rparr>"

definition sample_stat :: "string \<Rightarrow> fs_err + file_info" where
  "sample_stat p =
     (if p = ''d'' \<or> p = ''d/sub'' then Inr (sample_info ModeDir)
      else if p = ''d/a'' \<or> p = ''d/.h'' \<or> p = ''d/sub/b'' then Inr (sample_info 0) else Inl ErrNotExist)"

definition sample_readdir :: "string \<Rightarrow> fs_err + dir_entry list" where
  "sample_readdir p =
     (if p = ''d'' then Inr [sample_entry ''sub'', sample_entry ''a'', sample_entry ''.h''] else if p = ''d/sub'' then Inr [sample_entry ''b'']
      else Inl ENOTDIR)"

definition sample_fs :: "unit billy" where
  "sample_fs = \<lparr>fs_stat = (\<lambda>s. sample_stat), fs_lstat = (\<lambda>s. sample_stat), fs_readdir = (\<lambda>s. sample_readdir),
     fs_open = (\<lambda>s p. Inl ErrNotExist), fs_readlink = (\<lambda>s p. Inl ErrNotExist), fs_remove = (\<lambda>s p. (None, ())),
     fs_symlinks = False\<rparr>"

definition sample_engine :: regexp2 where
  "sample_engine = \<lparr>re_Escape = (\<lambda>s. s), re_Compile = (\<lambda>s i n. Inl ''no engine'')\<rparr>"

definition sample_unicode :: unicode where
  "sample_unicode = \<lparr>IsLower = (\<lambda>c. False), IsUpper = (\<lambda>c. False), IsLetter = (\<lambda>c. False), IsDigit = (\<lambda>c. False),
     IsControl = (\<lambda>c. False), IsPrint = (\<lambda>c. False),
     IsPunct = (\<lambda>c. False), IsSymbol = (\<lambda>c. False), IsSpace = (\<lambda>c. c = 32), ToLower = (\<lambda>s. s)\<rparr>"

definition sample_env :: "unit grep_env" where
  "sample_env = \<lparr>ge_fs = Some sample_fs, ge_state = (), ge_open = (\<lambda>s p. Inr sample_input), ge_dir = [],
     ge_globRegexp = (\<lambda>g. Some g), ge_goRegexp = (\<lambda>e. Some (\<lambda>n. False)), ge_engine = sample_engine,
     ge_unicode = sample_unicode, ge_ctx = (\<lambda>t. None), ge_outfail = (\<lambda>a b. None), ge_errfail = (\<lambda>a b. None)\<rparr>"

lemma sample_paths:
  "grep_resolvePath [] ''d'' = ''d''" "grep_resolvePath [] ''d/a'' = ''d/a''" "grep_resolvePath [] ''d/sub'' = ''d/sub''"
  "grep_resolvePath [] ''d/sub/b'' = ''d/sub/b''"
  "childPath ''d'' ''a'' = ''d/a''" "childPath ''d'' ''sub'' = ''d/sub''" "childPath ''d/sub'' ''b'' = ''d/sub/b''"
  by code_simp+

lemma sample_sorted:
  "sort_entries [sample_entry ''sub'', sample_entry ''a'', sample_entry ''.h''] = [sample_entry ''.h'', sample_entry ''a'', sample_entry ''sub'']"
  "sort_entries [sample_entry ''b''] = [sample_entry ''b'']"
  "de_name (sample_entry n) = n"
  by (code_simp, code_simp, simp add: sample_entry_def)

lemma sample_modes: "fi_isDir (sample_info ModeDir)" "\<not> fi_isDir (sample_info 0)" "mode_isRegular (fi_mode (sample_info 0))"
  by (simp_all add: sample_info_def kefka_defs)

lemma sample_env_simps:
  "ge_fs sample_env = Some sample_fs" "ge_dir sample_env = []" "ge_ctx sample_env = (\<lambda>t. None)" "ge_state sample_env = ()"
  "ge_open sample_env u p = Inr sample_input"
  "ge_outfail sample_env = (\<lambda>a b. None)" "ge_errfail sample_env = (\<lambda>a b. None)"
  "fs_stat sample_fs u = sample_stat" "fs_readdir sample_fs u = sample_readdir"
  by (simp_all add: sample_env_def sample_fs_def)

lemma sample_collect:
  "collectFiles sample_env [''d'', ''-''] (no_options\<lparr>go_recursive := True\<rparr>) \<lparr>tb_operations = 0, tb_results = 0, tb_ticks = 0\<rparr> =
   (Inr [''d/a'', ''d/sub/b'', ''-''], \<lparr>tb_operations = 12, tb_results = 3, tb_ticks = 6\<rparr>)"
proof -
  obtain n where depth: "maxDepth = Suc (Suc (Suc n))" by (rule that[of 253]) (simp add: maxDepth_def)
  show ?thesis
    by (simp add: collectFiles_def collect_operand_def depth tbind_def visit_start_def tstep_def tctx_def tadd_def Let_def
        sample_env_simps sample_paths sample_stat_def sample_modes sample_readdir_def sample_sorted no_options_def
        acceptFile_def hasPrefix_def maxTraversalOperations_def maxTraversalResults_def)
qed

lemma collectFiles_complete_witness:
  "set [''d/a'', ''d/sub/b'', ''-''] = {''-''} \<union> {x. found sample_env (no_options\<lparr>go_recursive := True\<rparr>) maxDepth ''d'' x}"
proof -
  have "set [''d/a'', ''d/sub/b'', ''-''] = (if ''-'' \<in> set [''d'', ''-''] then {''-''} else {})
      \<union> (\<Union>name \<in> set [''d'', ''-''] - {''-''}. {x. found sample_env (no_options\<lparr>go_recursive := True\<rparr>) maxDepth name x})"
    by (rule collectFiles_complete[OF _ _ sample_collect]) auto
  then show ?thesis by auto
qed

section \<open>Decoding\<close>

lemma decode_loop_encode: "decode_loop (encodeRune r @ d) = encodeRune r @ decode_loop d"
proof -
  have "decode_loop (encodeRune v @ d) = encodeRune v @ decode_loop d" if "valid_rune v" for v
  proof -
    have "decodeRune (encodeRune v @ d) = (v, length (encodeRune v))" using that by (rule decode_encode_rune)
    moreover have "\<not> (v = RuneError \<and> length (encodeRune v) = 1)"
      by (auto simp: encodeRune_def encode_bytes_def RuneError_def valid_rune_def)
    moreover have "encodeRune v @ d \<noteq> []" using encodeRune_not_Nil[of v] by simp
    ultimately show ?thesis by (subst decode_loop.simps) (auto simp: rune_or_error_def)
  qed
  moreover have "\<not> valid_rune r \<Longrightarrow> encodeRune r = encodeRune RuneError" by (simp add: encodeRune_def)
  moreover have "valid_rune RuneError" by (simp add: valid_rune_def RuneError_def in_range_def)
  ultimately show ?thesis by (cases "valid_rune r") auto
qed

lemma decode_loop_valid: "utf8_valid (decode_loop d)"
proof (induction d rule: decode_loop.induct)
  case (1 d)
  then show ?case by (subst decode_loop.simps) (auto simp: encode_any_valid split: prod.splits)
qed

text \<open>The lines that grep searches are valid UTF-8: decoding repairs every input, leaves valid input alone, and keeps every rune that was encoded before a malformed sequence.\<close>

theorem decodeUTF8_repairs:
  "utf8_valid (decodeUTF8 d) \<and> decodeUTF8 (decodeUTF8 d) = decodeUTF8 d
   \<and> decodeUTF8 (utf8_string rs @ d) = utf8_string rs @ decodeUTF8 d"
proof -
  have v: "utf8_valid (decodeUTF8 d)" by (simp add: decodeUTF8_def decode_loop_valid)
  have "utf8_valid (utf8_string rs @ d) = utf8_valid d"
    by (induction rs) (simp_all add: utf8_string_def encode_any_valid)
  moreover have "decode_loop (utf8_string rs @ d) = utf8_string rs @ decode_loop d"
    by (induction rs) (simp_all add: utf8_string_def decode_loop_encode)
  ultimately have "decodeUTF8 (utf8_string rs @ d) = utf8_string rs @ decodeUTF8 d" by (simp add: decodeUTF8_def)
  then show ?thesis using v by (simp add: decodeUTF8_def[of "decodeUTF8 d"])
qed

section \<open>The option loop\<close>

lemma option_loop_ends:
  assumes "\<And>g argv. argv \<noteq> [] \<Longrightarrow> length (or_rest (Getopt g argv)) < length argv" "length argv \<le> Suc fuel"
  shows "option_loop fuel U Getopt g argv opt operands \<noteq> None"
  using assms(2)
proof (induction fuel arbitrary: g argv opt operands)
  case 0
  then show ?case by (subst option_loop.simps) simp
next
  case (Suc fuel)
  show ?case
  proof (cases "argv = []")
    case False
    then have "length (or_rest (Getopt g argv)) \<le> Suc fuel" using assms(1)[of argv g] Suc.prems by linarith
    then show ?thesis
      using Suc.IH by (subst option_loop.simps) (auto simp: Let_def split: prod.split option.split)
  qed (simp add: option_loop.simps)
qed

text \<open>C32: An invocation of grep always ends, with a result, when the option parser consumes what it reads: the loop that resumes the parse after every operand does not run forever, and neither do the traversal and the search.\<close>

theorem grep_ends:
  assumes "\<And>g argv. argv \<noteq> [] \<Longrightarrow> length (or_rest (Getopt g argv)) < length argv"
  shows "\<exists>x st'. grep_Exec ec Getopt g args st = Some (x, st')"
proof -
  have total: "parseOptions U Getopt g args \<noteq> None" for U
    using option_loop_ends[where Getopt = Getopt and argv = "''grep'' # args" and fuel = "length args", OF assms]
    by (simp add: parseOptions_def)
  show ?thesis
  proof (cases ec)
    case (Some E)
    obtain pr where "parseOptions (ge_unicode E) Getopt g args = Some pr" using total[of "ge_unicode E"] by auto
    then show ?thesis
      by (cases "check_ctx (ge_ctx E) (gs_budget st)"; cases "fst (check_ctx (ge_ctx E) (gs_budget st))"; cases pr)
         (auto simp: grep_Exec_def Let_def Some)
  qed (simp add: grep_Exec_def)
qed

definition sample_getopt :: "unit \<Rightarrow> string list \<Rightarrow> unit opt_run" where
  "sample_getopt g argv = \<lparr>or_events = [], or_err = None, or_rest = tl argv, or_dashDash = False, or_next = ()\<rparr>"

lemma grep_ends_witness:
  "\<exists>x st'. grep_Exec (Some sample_env) sample_getopt () [''hit'', ''d'']
    \<lparr>gs_budget = sample_budget, gs_stdin = None, gs_out = [], gs_err = []\<rparr> = Some (x, st')"
  by (rule grep_ends) (simp add: sample_getopt_def)

section \<open>What a search reports\<close>

definition listing :: "grep_options \<Rightarrow> bool" where
  "listing opt \<longleftrightarrow> go_quiet opt \<or> go_list opt \<or> go_listWithout opt"

text \<open>What one line does to the state, whatever is printed.\<close>

lemma emit_pending_selected: "keep_pending opt line st = Inr st' \<Longrightarrow> ss_selected st' = ss_selected st \<and> ss_count st' = ss_count st"
  by (auto simp: keep_pending_def Let_def split: if_splits)

lemma print_selected_keeps:
  "print_selected ctx m opt filename line mt st s = (Inr st', s') \<Longrightarrow> ss_selected st' = ss_selected st \<and> ss_count st' = ss_count st"
  by (auto simp: print_selected_def Let_def split: prod.splits sum.splits if_splits)

lemma search_line_selected:
  assumes "search_line ctx m opt filename ex line st s = (Inr r, s')"
  shows "case r of
      None \<Rightarrow> listing opt \<and> \<not> ex \<and> line_selected m opt line
    | Some st' \<Rightarrow>
        (if \<not> ex \<and> line_selected m opt line then \<not> listing opt \<and> ss_selected st' = Suc (ss_selected st)
         else ss_selected st' = ss_selected st)"
proof -
  obtain mt where mt: "(if ex then Inr None else re_find m line) = Inr mt"
    using assms by (auto simp: search_line_def split: sum.splits)
  show ?thesis
  proof (cases "\<not> ex \<and> (mt \<noteq> None) \<noteq> go_invert opt")
    case True
    then have sel: "line_selected m opt line" using mt by (auto simp: line_selected_def)
    show ?thesis
    proof (cases "listing opt")
      case list: True
      then show ?thesis using True sel assms mt by (auto simp: search_line_def listing_def)
    next
      case False
      then show ?thesis
        using True sel assms mt
        by (auto simp: search_line_def listing_def Let_def dest!: print_selected_keeps split: prod.splits sum.splits if_splits)
    qed
  next
    case False
    then have "\<not> (\<not> ex \<and> line_selected m opt line)" using mt by (auto simp: line_selected_def split: if_splits)
    moreover have "\<exists>st'. r = Some st' \<and> ss_selected st' = ss_selected st"
      using assms mt False unfolding search_line_def mt sum.case if_not_P[OF False]
      by (auto dest!: emit_pending_selected split: prod.splits sum.splits if_splits)
    ultimately show ?thesis by auto
  qed
qed

lemma search_loop_reports:
  assumes "drop k ls = input_lines inp" "k \<le> length ls" "ss_selected st = length (selected_upto m opt ls k)"
    "listing opt \<longrightarrow> selected_upto m opt ls k = []"
    "search_loop ctx m opt filename inp st s = (Inr r, s')"
  shows "case r of
      None \<Rightarrow> listing opt \<and> list_ex (line_selected m opt) ls
    | Some st' \<Rightarrow> ss_selected st' = length (selected_upto m opt ls (length ls)) \<and> (listing opt \<longrightarrow> ss_selected st' = 0)"
  using assms
proof (induction "length (gi_bytes inp)" arbitrary: inp st s k rule: less_induct)
  case less
  define S where "S = selected_upto m opt ls k"
  obtain u s1 where c: "check_ctx ctx s = (Inr u, s1)"
    using less.prems(5) by (subst (asm) search_loop.simps) (auto split: prod.splits sum.splits)
  have ex: "(go_maxCount opt > 0 \<and> ss_selected st \<ge> go_maxCount opt) = exhausted opt S"
    by (simp add: exhausted_def S_def less.prems(3))
  note run = less.prems(5)[unfolded search_loop.simps[of ctx m opt filename inp st s] c prod.case sum.case Let_def ex]
  show ?case
  proof (cases "exhausted opt S \<and> (go_count opt \<or> ss_after st = 0)")
    case True
    then have "r = Some st" using run by simp
    moreover have "selected_upto m opt ls (length ls) = S"
      using True selected_upto_exhausted less.prems(2) by (metis S_def)
    ultimately show ?thesis using less.prems(3,4) by (simp add: S_def)
  next
    case False
    obtain v s2 where b: "budget_step s1 = (Inr v, s2)" using run False by (auto split: prod.splits sum.splits)
    show ?thesis
    proof (cases "readLine inp = Inr None")
      case True
      then have "length ls = k" using readLine_None less.prems(1,2) by fastforce
      moreover have "r = Some st" using run False b True by auto
      ultimately show ?thesis using less.prems(3,4) by auto
    next
      case more: False
      then obtain line inp' where rl: "readLine inp = Inr (Some (line, inp'))"
        using run False b by (auto split: sum.splits option.splits)
      have hd: "drop k ls = line # input_lines inp'" using readLine_Some(1)[OF rl] less.prems(1) by simp
      then have k: "k < length ls" "ls ! k = line" "drop (Suc k) ls = input_lines inp'"
        by (metis drop_eq_Nil list.distinct(1) not_le) (metis hd nth_via_drop, metis hd drop_Suc list.sel(3) tl_drop)
      obtain q s3 where l: "search_line ctx m opt filename (exhausted opt S) line st s2 = (Inr q, s3)"
        using run False b rl by (auto split: prod.splits sum.splits)
      note eff = search_line_selected[OF l]
      show ?thesis
      proof (cases q)
        case None
        moreover have "r = None" using None run False b rl l by auto
        moreover have "line \<in> set ls" using k by auto
        ultimately show ?thesis using eff by (auto simp: list_ex_iff)
      next
        case (Some st')
        have "search_loop ctx m opt filename inp' (st'\<lparr>ss_index := Suc (ss_index st')\<rparr>) s3 = (Inr r, s')"
          using run False b rl l Some by auto
        moreover have "ss_selected st' = length (selected_upto m opt ls (Suc k))"
            "listing opt \<longrightarrow> selected_upto m opt ls (Suc k) = []"
          using eff Some less.prems(3,4) by (auto simp: selected_upto_Suc Let_def S_def k(2) split: if_splits)
        ultimately show ?thesis
          using less.hyps[OF readLine_shorter[OF rl] k(3), of "st'\<lparr>ss_index := Suc (ss_index st')\<rparr>" s3] k(1) by simp
      qed
    qed
  qed
qed

lemma selected_upto_empty: "selected_upto m opt ls n = [] \<longleftrightarrow> (\<forall>i < n. \<not> line_selected m opt (ls ! i))"
  by (auto simp: selected_upto_def filter_empty_conv Let_def)

text \<open>Whatever is printed, a search that succeeds reports a match exactly when some line of its input is selected: early exits (\<^verbatim>\<open>-q\<close>, \<^verbatim>\<open>-l\<close>, \<^verbatim>\<open>-L\<close>), the limit of \<^verbatim>\<open>-m\<close> and counting do not change the verdict.\<close>

theorem search_reports:
  "case search ctx inp m opt filename s of
     (Inl e, s') \<Rightarrow> True
   | (Inr (out, matched), s') \<Rightarrow> matched = list_ex (line_selected m opt) (input_lines inp)"
proof -
  have "matched = list_ex (line_selected m opt) (input_lines inp)"
    if found: "search ctx inp m opt filename s = (Inr (out, matched), s')" for out matched s'
  proof -
    define opt' where "opt' = (if listing opt then opt\<lparr>go_before := 0, go_after := 0\<rparr> else opt)"
    define ls where "ls = input_lines inp"
    have same: "line_selected m opt' = line_selected m opt" "listing opt' = listing opt"
      by (auto simp: opt'_def line_selected_def listing_def fun_eq_iff split: sum.split)
    from found obtain r s1 where r: "search_loop ctx m opt' filename inp search_start s = (Inr r, s1)"
      and o: "r = None \<Longrightarrow> matched" "\<And>st. r = Some st \<Longrightarrow> matched = (ss_selected st > 0)"
      by (auto simp: search_def Let_def opt'_def listing_def split: prod.splits sum.splits option.splits if_splits)
    have "case r of None \<Rightarrow> listing opt' \<and> list_ex (line_selected m opt') ls
        | Some st' \<Rightarrow> ss_selected st' = length (selected_upto m opt' ls (length ls)) \<and> (listing opt' \<longrightarrow> ss_selected st' = 0)"
      by (rule search_loop_reports[where k = 0, OF _ _ _ _ r]) (simp_all add: ls_def search_start_def)
    then show ?thesis
      using o same selected_upto_empty[of m opt' ls "length ls"]
      by (auto simp: ls_def[symmetric] list_ex_length split: option.splits)
  qed
  then show ?thesis by (auto split: prod.splits sum.splits)
qed

section \<open>One file, from the operand to the exit status\<close>

lemma collect_one:
  assumes "\<not> go_recursive opt" "name \<noteq> ''-''" "\<not> list_ex (\<lambda>c. c \<in> set ''*?['') name" "ge_ctx E = (\<lambda>t. None)"
  shows "collectFiles E [name] opt \<lparr>tb_operations = 0, tb_results = 0, tb_ticks = t\<rparr> =
    (Inr [name], \<lparr>tb_operations = 1, tb_results = 1, tb_ticks = Suc t\<rparr>)"
  unfolding collectFiles_def each.simps collect_operand_def if_not_P[OF assms(3)] using assms(1,2,4)
  by (simp add: tbind_def visit_start_def tstep_def tctx_def tadd_def Let_def
      maxTraversalOperations_def maxTraversalResults_def)

lemma nothing_selected: "context_output opt filename ls [] k = []"
  by (simp add: context_output_def shown_line_def near_def)



end
