(* ===== verification/Gzip_Properties.thy ===== *)
theory Gzip_Properties
  imports S3fs_Session
begin

text \<open>
  gzip, gunzip and zcat compared: on compressed files they print the same bytes.  Where gzip is
  forced, it can destroy its operand.
\<close>

section \<open>The three ways to print compressed files\<close>

text \<open>An operand that is a regular file, can be read, and decompresses to \<open>d\<close>.\<close>

definition holds_gz :: "'s gz_env \<Rightarrow> 's billy \<Rightarrow> 's \<Rightarrow> string \<Rightarrow> string \<Rightarrow> bool" where
  "holds_gz E F s f d \<longleftrightarrow> f \<noteq> ''-'' \<and>
     (\<exists>i z. fs_stat F s (resolvePath (gz_dir E) f) = Inr i \<and> \<not> fi_isDir i \<and>
       fs_open F s (resolvePath (gz_dir E) f) = Inr (Inr z) \<and> isGzip z \<and> gz_decompress E z = Inr d)"

text \<open>A state that differs from another only in what was printed.\<close>

definition printed :: "string \<Rightarrow> 's gz_st \<Rightarrow> 's gz_st \<Rightarrow> bool" where
  "printed t st st' \<longleftrightarrow> gz_state st' = gz_state st \<and> gz_code st' = gz_code st \<and> gz_out st' = gz_out st @ t"

lemma printed_refl [simp]: "printed [] st st"
  by (simp add: printed_def)

lemma printed_trans: "printed t st st1 \<Longrightarrow> printed u st1 st2 \<Longrightarrow> printed (t @ u) st st2"
  by (simp add: printed_def)

lemma printed_emit: "printed t st (gz_emit t st)" "printed t st (gz_say m (gz_emit t st))"
  by (simp_all add: printed_def gz_emit_def gz_say_def)

lemma printed_state: "printed t st st' \<Longrightarrow> gz_state st' = gz_state st"
  by (simp add: printed_def)

lemma gzip_prints:
  assumes "holds_gz E F (gz_state st) f d" and "gz_fs E = Some F" and "gzo_stdout opts" and "hasSuffix f (gzo_suffix opts)"
  shows "\<exists>st'. on_operand E k (decompress_file E opts) f st = (None, st') \<and> printed d st st'"
  using assms
  by (auto simp: holds_gz_def on_operand_def decompress_file_def read_file_def deliver_def Let_def intro: printed_emit)

lemma zcat_prints:
  assumes "holds_gz E F (gz_state st) f d" and "gz_fs E = Some F"
  shows "\<exists>st'. zc_cat_file E opts f st = (None, st') \<and> printed d st st'"
  using assms
  by (auto simp: holds_gz_def zc_cat_file_def zc_readFile_def zc_ok_def intro: printed_emit)

lemma gunzip_prints:
  assumes "holds_gz E F (gz_state st) f d" and "gun_stdout opts"
  shows "\<exists>st'. gun_file E opts F f st = (None, st') \<and> printed d st st'"
  using assms
  by (auto simp: holds_gz_def gun_file_def gun_readFile_def Let_def intro: printed_emit)

lemma gun_collect_files:
  assumes "gz_fs E = Some F" and "list_all2 (holds_gz E F (gz_state st)) fs ds"
  shows "gun_collect E suf recursive quiet fs st = (Inr fs, st)"
  using assms(2)
proof (induction fs arbitrary: ds)
  case (Cons f fs)
  then obtain d ds' where d: "ds = d # ds'" "holds_gz E F (gz_state st) f d" "list_all2 (holds_gz E F (gz_state st)) fs ds'"
    by (auto simp: list_all2_Cons1)
  then have "gun_collect E suf recursive quiet fs st = (Inr fs, st)" by (intro Cons.IH)
  then show ?case using d assms(1) by (auto simp: holds_gz_def)
qed simp

lemma each_operand_prints:
  assumes "\<And>st f d. holds_gz E F (gz_state st) f d \<Longrightarrow> P f \<Longrightarrow> \<exists>st'. g f st = (None, st') \<and> printed d st st'"
    and "list_all2 (holds_gz E F (gz_state st)) fs ds" and "gz_code st = 0" and "\<forall>f \<in> set fs. P f"
  shows "\<exists>st'. each_operand g fs st = (Returned ExitOk, st') \<and> printed (concat ds) st st'"
  using assms(2-4)
proof (induction fs arbitrary: st ds)
  case (Cons f fs)
  then obtain d ds' where d: "ds = d # ds'" "holds_gz E F (gz_state st) f d" "list_all2 (holds_gz E F (gz_state st)) fs ds'"
    by (auto simp: list_all2_Cons1)
  obtain st1 where st1: "g f st = (None, st1)" "printed d st st1"
    using assms(1)[OF d(2)] Cons.prems(3) by auto
  then have "list_all2 (holds_gz E F (gz_state st1)) fs ds'" "gz_code st1 = 0"
    using d(3) Cons.prems(2) by (simp_all add: printed_def)
  then obtain st2 where "each_operand g fs st1 = (Returned ExitOk, st2)" "printed (concat ds') st1 st2"
    using Cons.IH Cons.prems(3) by (metis list.set_intros(2))
  then show ?case using st1 printed_trans[OF st1(2)] d(1) by auto
qed simp

lemma each_file_prints:
  assumes "\<And>st f d. holds_gz E F (gz_state st) f d \<Longrightarrow> \<exists>st'. g f st = (None, st') \<and> printed d st st'"
    and "list_all2 (holds_gz E F (gz_state st)) fs ds"
  shows "\<exists>st'. each_file g fs st = (Returned ExitOk, st') \<and> printed (concat ds) st st'"
  using assms(2)
proof (induction fs arbitrary: st ds)
  case (Cons f fs)
  then obtain d ds' where d: "ds = d # ds'" "holds_gz E F (gz_state st) f d" "list_all2 (holds_gz E F (gz_state st)) fs ds'"
    by (auto simp: list_all2_Cons1)
  obtain st1 where st1: "g f st = (None, st1)" "printed d st st1" using assms(1)[OF d(2)] by auto
  then have "list_all2 (holds_gz E F (gz_state st1)) fs ds'" using d(3) by (simp add: printed_def)
  then obtain st2 where "each_file g fs st1 = (Returned ExitOk, st2)" "printed (concat ds') st1 st2"
    using Cons.IH by blast
  then show ?case using st1 printed_trans[OF st1(2)] d(1) by auto
qed simp

text \<open>C33: zcat, gzip -dc and gunzip -c agree: on readable compressed files that carry the suffix each of them succeeds and prints exactly the decompressed contents, one after the other, and leaves the filesystem as it is, whatever the other options.\<close>

theorem decompressors_agree:
  assumes "gz_fs E = Some F" and "list_all2 (holds_gz E F (gz_state st)) (f # fs) ds" and "gz_code st = 0"
    and "gzo_files opts = f # fs" and "gzo_decompress opts \<and> gzo_stdout opts \<and> \<not> gzo_help opts \<and> \<not> gzo_list opts \<and> \<not> gzo_test opts"
    and "\<forall>x \<in> set (f # fs). hasSuffix x (gzo_suffix opts)"
    and "gun_files gopts = f # fs" and "gun_stdout gopts \<and> \<not> gun_help gopts \<and> \<not> gun_list gopts \<and> \<not> gun_test gopts"
    and "zc_files zopts = f # fs" and "\<not> zc_help zopts \<and> \<not> zc_list zopts \<and> \<not> zc_test zopts"
  shows "\<forall>run \<in> {gzip_Exec E (Inr opts), gunzip_Exec E (Inr gopts), zcat_Exec E (Inr zopts)}.
    fst (run st) = Returned ExitOk \<and> gz_out (snd (run st)) = gz_out st @ concat ds \<and> gz_state (snd (run st)) = gz_state st"
proof -
  have dash: "f \<noteq> ''-''" using assms(2) by (auto simp: holds_gz_def list_all2_Cons1)
  have st0: "st\<lparr>gz_code := 0\<rparr> = st" using assms(3) by simp
  have "\<exists>st'. each_operand (on_operand E k (decompress_file E opts)) (f # fs) st = (Returned ExitOk, st') \<and> printed (concat ds) st st'" for k
    by (rule each_operand_prints[where P = "\<lambda>x. hasSuffix x (gzo_suffix opts)" and F = F and E = E, OF _ assms(2,3,6)])
      (use assms(1,5) in \<open>auto intro: gzip_prints\<close>)
  then have "\<exists>st'. gzip_Exec E (Inr opts) st = (Returned ExitOk, st') \<and> printed (concat ds) st st'"
    using assms(4,5) st0 by (simp add: gzip_Exec_def decompressMode_def del: each_operand.simps)
  moreover have "\<exists>st'. each_file (\<lambda>x st2. case gz_fs E of None \<Rightarrow> (Some Panicked, st2) | Some F \<Rightarrow> gun_file E gopts F x st2) (f # fs) st
      = (Returned ExitOk, st') \<and> printed (concat ds) st st'"
    by (rule each_file_prints[OF _ assms(2)]) (use assms(1,8) gunzip_prints in auto)
  then have "\<exists>st'. gunzip_Exec E (Inr gopts) st = (Returned ExitOk, st') \<and> printed (concat ds) st st'"
    using gun_collect_files[OF assms(1,2)] assms(7,8) dash
    by (simp add: gunzip_Exec_def decompressFiles_def on_files_def del: each_file.simps gun_collect.simps)
  moreover have "\<exists>st'. each_file (zc_cat_file E zopts) (f # fs) st = (Returned ExitOk, st') \<and> printed (concat ds) st st'"
    by (rule each_file_prints[OF zcat_prints[OF _ assms(1)] assms(2)])
  then have "\<exists>st'. zcat_Exec E (Inr zopts) st = (Returned ExitOk, st') \<and> printed (concat ds) st st'"
    using assms(9,10) by (simp add: zcat_Exec_def del: each_file.simps)
  ultimately show ?thesis by (auto simp: printed_def)
qed

theorem decompressors_agree_witness:
  "gz_out (snd (zcat_Exec demo_gz (Inr \<lparr>zc_list = False, zc_quiet = False, zc_test = False, zc_verbose = False, zc_help = False,
      zc_files = [''f.gz'', ''f.gz'']\<rparr>) (demo_gz_st ''f.gz'' (gz_magic @ ''hello'')))) = ''hellohello''"
proof -
  let ?z = "gz_magic @ ''hello''" and ?F = "sess_fs demo_texts 1 mem_client demo_s3fs"
  let ?st = "demo_gz_st ''f.gz'' ?z"
  let ?zo = "\<lparr>zc_list = False, zc_quiet = False, zc_test = False, zc_verbose = False, zc_help = False, zc_files = [''f.gz'', ''f.gz'']\<rparr>"
  let ?go = "(demo_gz_opts ''f.gz'' True)\<lparr>gzo_stdout := True, gzo_files := [''f.gz'', ''f.gz'']\<rparr>"
  let ?uo = "\<lparr>gun_stdout = True, gun_force = False, gun_keep = False, gun_list = False, gun_quiet = False,
      gun_recursive = False, gun_suffix = ''.gz'', gun_test = False, gun_verbose = False, gun_help = False,
      gun_files = [''f.gz'', ''f.gz'']\<rparr>"
  have s: "gz_state ?st = demo_gz_world ''f.gz'' ?z []" "gz_dir demo_gz = ''.''" "gz_fs demo_gz = Some ?F" "gz_out ?st = []"
    by (simp_all add: demo_gz_st_def demo_gz_def demo_format_def)
  have "isGzip ?z" "gz_decompress demo_gz ?z = Inr ''hello''"
    by (simp_all add: demo_gz_def demo_format_def gz_magic_def isGzip_def)
  moreover obtain i where "fs_stat ?F (gz_state ?st) ''f.gz'' = Inr i" "\<not> fi_isDir i"
    using demo_gz_stat(2) s by metis
  moreover have "fs_open ?F (gz_state ?st) ''f.gz'' = Inr (Inr ?z)"
    unfolding s by (rule demo_gz_open) (simp_all add: demo_paths object_key_def)
  ultimately have h: "holds_gz demo_gz ?F (gz_state ?st) ''f.gz'' ''hello''"
    by (simp add: holds_gz_def s demo_paths)
  show ?thesis
    using decompressors_agree[OF s(3), of ?st "''f.gz''" "[''f.gz'']" "[''hello'', ''hello'']" ?go ?uo ?zo] h s(4)
    by (simp add: demo_gz_opts_def demo_gz_st_def hasSuffix_def)
qed

section \<open>Forced\<close>

text \<open>
  With a suffix that names the operand again, \<^verbatim>\<open>gzip -f -S / f\<close> writes the compressed bytes over the
  file and then removes the file: the command succeeds and the bucket is empty.
\<close>

theorem gzip_force_destroys:
  "\<exists>st'. gzip_Exec demo_gz (Inr ((demo_gz_opts ''f'' False)\<lparr>gzo_force := True, gzo_suffix := ''/''\<rparr>)) (demo_gz_st ''f'' ''hello'')
      = (Returned ExitOk, st') \<and> sess_files mem_client demo_s3fs (gz_state st') k = None"
proof -
  let ?F = "sess_fs demo_texts 1 mem_client demo_s3fs" and ?w = "demo_gz_world ''f'' ''hello'' []"
  have p: "resolvePath ''.'' ''f/'' = ''f''" "\<not> hasSuffix ''f'' ''/''" by code_simp+
  obtain i where i: "fs_stat ?F ?w ''f'' = Inr i" "\<not> fi_isDir i" using demo_gz_stat(1) by blast
  have env: "gz_fs demo_gz = Some ?F" "gz_dir demo_gz = ''.''" "gz_compress demo_gz l d = Inr (gz_magic @ d)" for l d
    by (simp_all add: demo_gz_def demo_format_def)
  have "\<exists>z. writeOutput demo_gz (wo_create (gz_writes demo_gz)) ?F ''f'' (gz_magic @ ''hello'') ?w = (None, z) \<and>
      sess_files mem_client demo_s3fs (snd (fs_remove ?F z ''f'')) k = None"
    by (auto simp: demo_gz_def writeOutput_def sess_writes_def sess_openFile_def OpenFile_def SupportedOFlags_def sess_write_def
        sess_close_def write_Close_def newS3WriteFile_def newFileMetadata_def mem_client_def mem_put_def demo_gz_world_def
        sess_fs_def s3_Remove_def detachTemp_def temps_get_def mem_delete_def Let_def demo_paths sess_files_def contents_def mem_get_def)
  then show ?thesis using env i p by (auto simp: demo_run)
qed

end
