(* ===== verification/Text_Commands.thy ===== *)
theory Text_Commands
  imports Cmd_Path
begin

text \<open>
  The commands over text: tac (\<^verbatim>\<open>command/internal/tac/tac.go\<close>) and column
  (\<^verbatim>\<open>command/internal/column/column.go\<close>), and the four that print a fixed text: clear, whoami,
  hostname and commands.  The option parser is outside: a command is given its message or the
  option values.  A nil writer discards, so the bytes written are always collected.
\<close>

section \<open>Shared by the commands\<close>

definition ret :: "'s exec_context \<Rightarrow> string \<Rightarrow> string \<Rightarrow> exit_result \<Rightarrow> 's cmd_result" where
  "ret ec out err e = \<lparr>r_stdout = out, r_stderr = err, r_exit = e, r_state = ec_state ec\<rparr>"

lemma ret_simps [simp]:
  "r_stdout (ret ec out err e) = out" "r_stderr (ret ec out err e) = err" "r_exit (ret ec out err e) = e"
  "r_state (ret ec out err e) = ec_state ec"
  by (simp_all add: ret_def)

text \<open>\<^verbatim>\<open>unicode.IsSpace\<close>, and \<^verbatim>\<open>strings.TrimSpace(s) == ""\<close>.\<close>

definition is_space :: "rune \<Rightarrow> bool" where
  "is_space r \<longleftrightarrow> 9 \<le> r \<and> r \<le> 13 \<or> r = 32 \<or> r = 0x85 \<or> r = 0xA0 \<or> r = 0x1680 \<or> 0x2000 \<le> r \<and> r \<le> 0x200A \<or>
     r = 0x2028 \<or> r = 0x2029 \<or> r = 0x202F \<or> r = 0x205F \<or> r = 0x3000"

definition blank :: "string \<Rightarrow> bool" where
  "blank s \<longleftrightarrow> (\<forall>r \<in> set (runes s). is_space r)"

text \<open>64-bit two's complement.\<close>

definition wrap64 :: "int \<Rightarrow> int" where
  "wrap64 i = (i + 2 ^ 63) mod 2 ^ 64 - 2 ^ 63"

lemma wrap64_id: "- (2 ^ 63) \<le> i \<Longrightarrow> i < 2 ^ 63 \<Longrightarrow> wrap64 i = i"
  by (simp add: wrap64_def mod_pos_pos_trivial)

section \<open>tac\<close>

definition reverseLines :: "string \<Rightarrow> string" where
  "reverseLines content =
     (let lines = splitOn newline content;
          lines' = (if last lines = [] then butlast lines else lines)
      in concat (map (\<lambda>l. l @ nl) (rev lines')))"

definition tac_readStdin :: "'s exec_context \<Rightarrow> exit_result + string" where
  "tac_readStdin ec = (case ec_stdin ec of None \<Rightarrow> Inr [] | Some (Inl _) \<Rightarrow> Inl (ExitStatus 1) | Some (Inr data) \<Rightarrow> Inr data)"

text \<open>The name of the command, and the text of an error of reading.\<close>

definition no_file :: "string \<Rightarrow> string \<Rightarrow> string" where
  "no_file cmd f = cmd @ '': '' @ f @ '': No such file or directory'' @ nl"

definition cmd_readFile ::
  "string \<Rightarrow> (fs_err \<Rightarrow> string) \<Rightarrow> 's exec_context \<Rightarrow> string \<Rightarrow> (string \<times> exit_result) + string" where
  "cmd_readFile cmd errtext ec f =
     (case ec_fs ec of
        None \<Rightarrow> Inl (no_file cmd f, ExitStatus 1)
      | Some fs \<Rightarrow>
          (case fs_open fs (ec_state ec) (resolvePath (ec_dir ec) f) of
             Inl _ \<Rightarrow> Inl (no_file cmd f, ExitStatus 1)
           | Inr (Inl e) \<Rightarrow> Inl (cmd @ '': '' @ f @ '': '' @ errtext e @ nl, ExitStatus 1)
           | Inr (Inr data) \<Rightarrow> Inr data))"

definition tac_usage :: string where
  "tac_usage =
     ''Usage: tac [OPTION]... [FILE]...'' @ nl @
     ''Write each FILE to standard output, last line first.'' @ nl @
     ''With no FILE, or when FILE is -, read standard input.'' @ nl @ nl @
     ''      --help   display this help and exit'' @ nl"

record help_opts =
  ho_help :: bool
  ho_args :: "string list"

definition tac_Exec :: "(fs_err \<Rightarrow> string) \<Rightarrow> 's exec_context \<Rightarrow> string + help_opts \<Rightarrow> 's cmd_result" where
  "tac_Exec errtext ec opts0 =
     (case opts0 of
        Inl m \<Rightarrow> ret ec [] (''tac: '' @ m @ nl @ tac_usage) (ExitStatus 1)
      | Inr opts \<Rightarrow>
          if ho_help opts then ret ec [] tac_usage ExitOk
          else if ho_args opts \<noteq> [] \<and> hd (ho_args opts) \<noteq> ''-'' then
            (case cmd_readFile ''tac'' errtext ec (hd (ho_args opts)) of
               Inl (m, e) \<Rightarrow> ret ec [] m e
             | Inr data \<Rightarrow> ret ec (reverseLines data) [] ExitOk)
          else
            (case tac_readStdin ec of
               Inl e \<Rightarrow> ret ec [] [] e
             | Inr data \<Rightarrow> ret ec (reverseLines data) [] ExitOk))"

section \<open>column: fields\<close>

text \<open>\<^verbatim>\<open>strings.Split\<close> with a non-empty separator, and splitting at a class of bytes or at runs of it.\<close>

fun splitStr :: "string \<Rightarrow> string \<Rightarrow> string list" where
  "splitStr [] sep = [[]]"
| "splitStr (x # xs) sep =
     (if hasPrefix (x # xs) sep then [] # splitStr (drop (length sep - 1) xs) sep
      else case splitStr xs sep of [] \<Rightarrow> [[x]] | p # ps \<Rightarrow> (x # p) # ps)"

fun splitClass :: "(char \<Rightarrow> bool) \<Rightarrow> string \<Rightarrow> string list" where
  "splitClass P [] = [[]]"
| "splitClass P (x # xs) =
     (if P x then [] # splitClass P xs
      else case splitClass P xs of [] \<Rightarrow> [[x]] | p # ps \<Rightarrow> (x # p) # ps)"

function splitRun :: "(char \<Rightarrow> bool) \<Rightarrow> string \<Rightarrow> string list" where
  "splitRun P [] = [[]]"
| "splitRun P (x # xs) =
     (if P x then [] # splitRun P (dropWhile P xs)
      else case splitRun P xs of [] \<Rightarrow> [[x]] | p # ps \<Rightarrow> (x # p) # ps)"
  by pat_completeness auto
termination by (relation "measure (\<lambda>(P, s). length s)") (auto simp: le_imp_less_Suc[OF length_dropWhile_le])

definition space_tab :: "char \<Rightarrow> bool" where
  "space_tab c \<longleftrightarrow> c = CHR '' '' \<or> c = tab"

definition removeEmpty :: "string list \<Rightarrow> string list" where
  "removeEmpty xs = filter (\<lambda>s. s \<noteq> []) xs"

definition splitFields :: "string \<Rightarrow> string \<Rightarrow> bool \<Rightarrow> string list" where
  "splitFields line sep noMerge =
     (if sep \<noteq> [] then
        (let parts = splitStr line sep in if noMerge then parts else removeEmpty parts)
      else if noMerge then splitClass space_tab line
      else removeEmpty (splitRun space_tab line))"

section \<open>column: layout\<close>

definition padEnd :: "string \<Rightarrow> nat \<Rightarrow> string" where
  "padEnd s w = s @ replicate (w - length s) (CHR '' '')"

text \<open>The widths so far, extended by a row.\<close>

fun widen :: "nat list \<Rightarrow> string list \<Rightarrow> nat list" where
  "widen ws [] = ws"
| "widen [] (c # cs) = length c # widen [] cs"
| "widen (w # ws) (c # cs) = max w (length c) # widen ws cs"

definition widths :: "string list list \<Rightarrow> nat list" where
  "widths rows = foldl widen [] rows"

text \<open>All cells of a row but the last are padded.\<close>

definition pad_cells :: "nat list \<Rightarrow> string list \<Rightarrow> string list" where
  "pad_cells ws row =
     map (\<lambda>i. if i = length row - 1 then row ! i else padEnd (row ! i) (ws ! i)) [0..<length row]"

definition formatTable :: "string list list \<Rightarrow> string \<Rightarrow> string" where
  "formatTable rows outSep =
     (if rows = [] then [] else joinWith nl (map (\<lambda>row. joinWith outSep (pad_cells (widths rows) row)) rows))"

text \<open>
  Fill mode.  The number of rows is computed with 64-bit integers; a negative one is a panic of
  \<^verbatim>\<open>make\<close>, which is \<^const>\<open>None\<close>.
\<close>

definition max_width :: "string list \<Rightarrow> nat" where
  "max_width items = foldl (\<lambda>m s. max m (length s)) 0 items"

definition num_columns :: "string list \<Rightarrow> int \<Rightarrow> string \<Rightarrow> int" where
  "num_columns items width outSep =
     (let colWidth = int (max_width items) + int (length outSep)
      in if colWidth > 0 then max 1 (wrap64 (width + int (length outSep)) div colWidth) else 1)"

definition num_rows :: "string list \<Rightarrow> int \<Rightarrow> string \<Rightarrow> int" where
  "num_rows items width outSep =
     (let n = num_columns items width outSep; m = wrap64 (int (length items) + n - 1)
      in if m < 0 then - ((- m) div n) else m div n)"

definition fill_cell :: "string list \<Rightarrow> nat \<Rightarrow> nat \<Rightarrow> nat \<Rightarrow> nat \<Rightarrow> string option" where
  "fill_cell items numRows numColumns row col =
     (let index = col * numRows + row
      in if index \<ge> length items then None
         else if col = numColumns - 1 \<or> (col + 1) * numRows + row \<ge> length items then Some (items ! index)
         else Some (padEnd (items ! index) (max_width items)))"

definition fill_row :: "string list \<Rightarrow> nat \<Rightarrow> nat \<Rightarrow> string \<Rightarrow> nat \<Rightarrow> string" where
  "fill_row items numRows numColumns outSep row =
     joinWith outSep (List.map_filter (fill_cell items numRows numColumns row) [0..<numColumns])"

definition formatFill :: "string list \<Rightarrow> int \<Rightarrow> string \<Rightarrow> string option" where
  "formatFill items width outSep =
     (if items = [] then Some []
      else let numColumns = num_columns items width outSep; numRows = num_rows items width outSep
           in if numRows < 0 then None
              else Some (joinWith nl (map (fill_row items (nat numRows) (nat numColumns) outSep) [0..<nat numRows])))"

definition content_lines :: "string \<Rightarrow> string list" where
  "content_lines content =
     (let lines = splitOn newline content
      in if hasSuffix content nl \<and> last lines = [] then butlast lines else lines)"

definition formatColumns :: "string \<Rightarrow> bool \<Rightarrow> string \<Rightarrow> string \<Rightarrow> int \<Rightarrow> bool \<Rightarrow> string option" where
  "formatColumns content table sep outSep width noMerge =
     (if blank content then Some []
      else
        (let nonEmpty = filter (\<lambda>l. \<not> blank l) (content_lines content);
             rows = map (\<lambda>l. splitFields l sep noMerge) nonEmpty;
             out = (if table then Some (formatTable rows outSep) else formatFill (concat rows) width outSep)
         in map_option (\<lambda>t. if t \<noteq> [] then t @ nl else t) out))"

section \<open>column: the command\<close>

text \<open>The operands read one after the other; standard input gives its bytes once.\<close>

fun col_readFiles ::
  "(fs_err \<Rightarrow> string) \<Rightarrow> 's exec_context \<Rightarrow> (fs_err + string) option \<Rightarrow> string list \<Rightarrow> (string \<times> exit_result) + string" where
  "col_readFiles errtext ec stdin [] = Inr []"
| "col_readFiles errtext ec stdin (f # fs) =
     (if f = ''-'' then
        (case stdin of
           None \<Rightarrow> col_readFiles errtext ec stdin fs
         | Some (Inl _) \<Rightarrow> Inl ([], ExitStatus 1)
         | Some (Inr data) \<Rightarrow> map_sum id ((@) data) (col_readFiles errtext ec (Some (Inr [])) fs))
      else case cmd_readFile ''column'' errtext ec f of
        Inl e \<Rightarrow> Inl e
      | Inr data \<Rightarrow> map_sum id ((@) data) (col_readFiles errtext ec stdin fs))"

definition readInput :: "(fs_err \<Rightarrow> string) \<Rightarrow> 's exec_context \<Rightarrow> string list \<Rightarrow> (string \<times> exit_result) + string" where
  "readInput errtext ec files =
     (if files = [] then map_sum (Pair []) id (tac_readStdin ec) else col_readFiles errtext ec (ec_stdin ec) files)"

record column_opts =
  cl_table :: bool
  cl_sep :: string
  cl_outSep :: string
  cl_width :: int
  cl_noMerge :: bool
  cl_help :: bool
  cl_files :: "string list"

definition column_usage :: string where
  "column_usage =
     ''Usage: column [OPTION]... [FILE]...'' @ nl @
     ''Format input into multiple columns. By default, fills rows first. Use -t to create a table based on whitespace-delimited input.'' @ nl @ nl @
     ''  -t, --table       create a table (determine columns from input)'' @ nl @
     ''  -s SEP            input field delimiter (default: whitespace)'' @ nl @
     ''  -o SEP            output field delimiter (default: two spaces)'' @ nl @
     ''  -c WIDTH          output width for fill mode (default: 80)'' @ nl @
     ''  -n                don'' @ [squote] @ ''t merge multiple adjacent delimiters'' @ nl @
     ''      --help        display this help and exit'' @ nl"

text \<open>\<^const>\<open>None\<close> is the panic of fill mode.\<close>

definition column_Exec :: "(fs_err \<Rightarrow> string) \<Rightarrow> 's exec_context \<Rightarrow> string + column_opts \<Rightarrow> 's cmd_result option" where
  "column_Exec errtext ec opts0 =
     (case opts0 of
        Inl m \<Rightarrow> Some (ret ec [] (''column: '' @ m @ nl @ column_usage) (ExitStatus 1))
      | Inr opts \<Rightarrow>
          if cl_help opts then Some (ret ec [] column_usage ExitOk)
          else (case readInput errtext ec (cl_files opts) of
            Inl (m, e) \<Rightarrow> Some (ret ec [] m e)
          | Inr content \<Rightarrow>
              map_option (\<lambda>out. ret ec out [] ExitOk)
                (formatColumns content (cl_table opts) (cl_sep opts) (cl_outSep opts) (cl_width opts) (cl_noMerge opts))))"

section \<open>Commands with a fixed output\<close>

definition clear_usage :: string where
  "clear_usage =
     ''Usage: clear [OPTIONS]'' @ nl @ ''Clear the terminal screen.'' @ nl @ nl @ ''      --help  display this help and exit'' @ nl"

definition clear_Exec :: "'s exec_context \<Rightarrow> string + help_opts \<Rightarrow> 's cmd_result" where
  "clear_Exec ec opts0 =
     (case opts0 of
        Inl m \<Rightarrow> ret ec [] (''clear: '' @ m @ nl @ clear_usage) (ExitStatus 1)
      | Inr opts \<Rightarrow> if ho_help opts then ret ec [] clear_usage ExitOk else ret ec (CHR 0x1B # ''[2J'' @ CHR 0x1B # ''[H'') [] ExitOk)"

definition whoami_usage :: string where
  "whoami_usage =
     ''Usage: whoami [OPTION]...'' @ nl @ ''Print the user name associated with the current effective user ID.'' @ nl @ nl @
     ''      --help  display this help and exit'' @ nl"

definition whoami_Exec :: "'s exec_context \<Rightarrow> string + help_opts \<Rightarrow> 's cmd_result" where
  "whoami_Exec ec opts0 =
     (case opts0 of
        Inl m \<Rightarrow> ret ec [] (''whoami: '' @ m @ nl @ whoami_usage) (ExitStatus 1)
      | Inr opts \<Rightarrow> if ho_help opts then ret ec [] whoami_usage ExitOk else ret ec (''user'' @ nl) [] ExitOk)"

definition hostname_Exec :: "'s exec_context \<Rightarrow> 's cmd_result" where
  "hostname_Exec ec = ret ec (''localhost'' @ nl) [] ExitOk"

definition commands_usage :: string where
  "commands_usage =
     ''Usage: commands [OPTION]...'' @ nl @ ''List all built-in commands as a sorted Markdown list.'' @ nl @ nl @
     ''      --help  display this help and exit'' @ nl"

text \<open>The names come from the registry the command was made with, if any.\<close>

definition commands_Exec :: "string list option \<Rightarrow> 's exec_context \<Rightarrow> string + help_opts \<Rightarrow> 's cmd_result" where
  "commands_Exec reg ec opts0 =
     (case opts0 of
        Inl m \<Rightarrow> ret ec [] (''commands: '' @ m @ nl @ commands_usage) (ExitStatus 1)
      | Inr opts \<Rightarrow>
          if ho_help opts then ret ec [] commands_usage ExitOk
          else (case reg of
            None \<Rightarrow> ret ec [] (''commands: no command registry available'' @ nl) (ExitStatus 1)
          | Some names \<Rightarrow> ret ec (concat (map (\<lambda>n. ''- '' @ [backquote] @ n @ [backquote] @ nl) (sort names))) [] ExitOk))"

end
