(* ===== verification/Text_Properties.thy ===== *)
theory Text_Properties
  imports Text_Commands
begin

text \<open>
  What tac and column promise: reversing twice gives the input back, and the cells of a table or
  of the fill layout start at the same offsets in every line.
\<close>

section \<open>Lines\<close>

lemma joinWith_butlast: "xs \<noteq> [] \<Longrightarrow> joinWith nl xs = concat (map (\<lambda>l. l @ nl) (butlast xs)) @ last xs"
proof (induction xs)
  case (Cons x xs)
  then show ?case by (cases "xs = []") (auto simp: joinWith_Cons)
qed simp

lemma concat_last: "xs \<noteq> [] \<Longrightarrow> concat (map f xs) = concat (map f (butlast xs)) @ f (last xs)"
  by (induction xs) auto

lemma splitOn_unlines:
  "\<forall>l \<in> set ls. newline \<notin> set l \<Longrightarrow> splitOn newline (concat (map (\<lambda>l. l @ nl) ls)) = ls @ [[]]"
  by (induction ls) (auto simp: splitOn_append_sep)

definition text_lines :: "string \<Rightarrow> string list" where
  "text_lines c = (let lines = splitOn newline c in if last lines = [] then butlast lines else lines)"

lemma text_lines_clean: "l \<in> set (text_lines c) \<Longrightarrow> newline \<notin> set l"
  using splitOn_no_sep[of l newline c] by (auto simp: text_lines_def Let_def dest: in_set_butlastD split: if_splits)

lemma text_lines_unlines: "\<forall>l \<in> set ls. newline \<notin> set l \<Longrightarrow> text_lines (concat (map (\<lambda>l. l @ nl) ls)) = ls"
  by (simp add: text_lines_def splitOn_unlines)

lemma hasSuffix_nl: "hasSuffix c nl \<longleftrightarrow> c \<noteq> [] \<and> last c = newline"
  by (auto simp: hasSuffix_iff) (metis append_butlast_last_id)

lemma unlines_text_lines: "concat (map (\<lambda>l. l @ nl) (text_lines c)) = (if c = [] \<or> hasSuffix c nl then c else c @ nl)"
proof -
  let ?ls = "splitOn newline c"
  have c: "c = concat (map (\<lambda>l. l @ nl) (butlast ?ls)) @ last ?ls"
    using joinWith_butlast[of ?ls] joinWith_splitOn[of newline c] by simp
  have whole: "concat (map (\<lambda>l. l @ nl) ?ls) = concat (map (\<lambda>l. l @ nl) (butlast ?ls)) @ last ?ls @ nl"
    by (simp add: concat_last)
  show ?thesis
  proof (cases "last ?ls = []")
    case True
    have "hasSuffix c nl" if "c \<noteq> []"
    proof -
      have "butlast ?ls \<noteq> []" using c True that by auto
      then obtain b bs where "butlast ?ls = bs @ [b]" by (metis append_butlast_last_id)
      then show ?thesis using c True by (simp add: hasSuffix_iff)
    qed
    then show ?thesis using c True by (auto simp: text_lines_def)
  next
    case False
    have "newline \<notin> set (last ?ls)" using splitOn_no_sep[of "last ?ls" newline c] by simp
    then have "last c \<noteq> newline" using c False by (metis last_appendR last_in_set)
    moreover have "c \<noteq> []" using c False by auto
    ultimately show ?thesis using False whole c by (simp add: text_lines_def hasSuffix_nl)
  qed
qed

section \<open>tac\<close>

lemma reverseLines_text: "reverseLines c = concat (map (\<lambda>l. l @ nl) (rev (text_lines c)))"
  by (simp add: reverseLines_def text_lines_def Let_def)

text \<open>tac is its own inverse: reversing the lines of any input twice gives the input back, with a final newline added where it was missing; the lines of the output are the lines of the input in reverse.\<close>

theorem tac_involution:
  "reverseLines (reverseLines c) = (if c = [] \<or> hasSuffix c nl then c else c @ nl) \<and>
   text_lines (reverseLines c) = rev (text_lines c)"
proof -
  have "text_lines (reverseLines c) = rev (text_lines c)"
    unfolding reverseLines_text by (rule text_lines_unlines) (auto dest: text_lines_clean)
  then show ?thesis using unlines_text_lines[of c] by (simp add: reverseLines_text)
qed

section \<open>Aligned cells\<close>

text \<open>The offset of the cell at position \<open>j\<close> when the cells before it are padded to \<open>ws\<close>.\<close>

definition offset :: "nat list \<Rightarrow> string \<Rightarrow> nat \<Rightarrow> nat" where
  "offset ws sep j = (\<Sum>i<j. ws ! i + length sep)"

lemma offset_Cons: "offset (w # ws) sep (Suc j) = w + length sep + offset ws sep j"
  by (simp add: offset_def sum.lessThan_Suc_shift del: sum.lessThan_Suc)

lemma pad_cells_Nil [simp]: "pad_cells ws [] = []"
  by (simp add: pad_cells_def)

lemma pad_cells_one [simp]: "pad_cells ws [c] = [c]"
  by (simp add: pad_cells_def)

lemma pad_cells_Cons:
  assumes "row \<noteq> []"
  shows "pad_cells (w # ws) (c # row) = padEnd c w # pad_cells ws row"
proof (rule nth_equalityI)
  show "length (pad_cells (w # ws) (c # row)) = length (padEnd c w # pad_cells ws row)" by (simp add: pad_cells_def)
  fix i assume "i < length (pad_cells (w # ws) (c # row))"
  then show "pad_cells (w # ws) (c # row) ! i = (padEnd c w # pad_cells ws row) ! i"
    using assms by (cases i) (auto simp: pad_cells_def simp del: upt_Suc)
qed

lemma length_padEnd: "length c \<le> w \<Longrightarrow> length (padEnd c w) = w"
  by (simp add: padEnd_def)

lemma pad_cells_not_Nil [simp]: "pad_cells ws row = [] \<longleftrightarrow> row = []"
  by (simp add: pad_cells_def)

lemma cell_at_offset:
  assumes "j < length row" and "length row \<le> length ws" and "\<forall>i < length row. length (row ! i) \<le> ws ! i"
  shows "take (length (row ! j)) (drop (offset ws sep j) (joinWith sep (pad_cells ws row))) = row ! j"
  using assms
proof (induction row arbitrary: ws j)
  case (Cons c row)
  show ?case
  proof (cases "row = []")
    case True
    then show ?thesis using Cons.prems by (simp add: offset_def)
  next
    case False
    obtain w ws' where ws: "ws = w # ws'" using Cons.prems(2) by (cases ws) auto
    have c: "length c \<le> w" using Cons.prems(3)[rule_format, of 0] by (simp add: ws)
    have row: "length row \<le> length ws'" "\<forall>i < length row. length (row ! i) \<le> ws' ! i"
      using Cons.prems(2,3) by (auto simp: ws)
    have line: "joinWith sep (pad_cells ws (c # row)) = padEnd c w @ sep @ joinWith sep (pad_cells ws' row)"
      using False by (simp add: ws pad_cells_Cons joinWith_Cons)
    show ?thesis
    proof (cases j)
      case 0
      then show ?thesis using line by (simp add: offset_def padEnd_def)
    next
      case (Suc j')
      then have "take (length (row ! j')) (drop (offset ws' sep j') (joinWith sep (pad_cells ws' row))) = row ! j'"
        using Cons.IH[OF _ row] Cons.prems(1) by simp
      then show ?thesis using line Suc c by (simp add: ws offset_Cons length_padEnd)
    qed
  qed
qed simp

section \<open>The table\<close>

lemma widen_length: "length ws \<le> length (widen ws row) \<and> length row \<le> length (widen ws row)"
  by (induction ws row rule: widen.induct) auto

lemma widen_old: "i < length ws \<Longrightarrow> ws ! i \<le> widen ws row ! i"
  by (induction ws row arbitrary: i rule: widen.induct) (auto simp: nth_Cons split: nat.split)

lemma widen_new: "i < length row \<Longrightarrow> length (row ! i) \<le> widen ws row ! i"
  by (induction ws row arbitrary: i rule: widen.induct) (auto simp: nth_Cons split: nat.split)

lemma foldl_widen_mono:
  "length ws \<le> length (foldl widen ws rows) \<and> (\<forall>i < length ws. ws ! i \<le> foldl widen ws rows ! i)"
proof (induction rows arbitrary: ws)
  case (Cons row rows)
  have "ws ! i \<le> foldl widen (widen ws row) rows ! i" if "i < length ws" for i
    using Cons[of "widen ws row"] widen_old[OF that, of row] widen_length[of ws row] that by (meson le_trans less_le_trans)
  then show ?case using Cons[of "widen ws row"] widen_length[of ws row] by auto
qed simp

lemma widths_cover:
  assumes "row \<in> set rows"
  shows "length row \<le> length (foldl widen ws rows) \<and> (\<forall>i < length row. length (row ! i) \<le> foldl widen ws rows ! i)"
  using assms
proof (induction rows arbitrary: ws)
  case (Cons r rows)
  show ?case
  proof (cases "row = r")
    case True
    have "length (row ! i) \<le> foldl widen (widen ws r) rows ! i" if "i < length row" for i
      using widen_new[OF that, of ws] foldl_widen_mono[of "widen ws r" rows] widen_length[of ws r] that True
      by (meson le_trans less_le_trans)
    then show ?thesis using foldl_widen_mono[of "widen ws r" rows] widen_length[of ws r] True by auto
  next
    case False
    then show ?thesis using Cons by simp
  qed
qed simp

text \<open>A table is aligned and complete: its lines correspond to the rows, and in every line the cell of column j starts at the same offset, the sum of the widths of the columns before it and of the separators.\<close>

theorem table_aligned:
  assumes "rows \<noteq> []"
  shows "\<exists>lines. formatTable rows sep = joinWith nl lines \<and> length lines = length rows \<and>
    (\<forall>i < length rows. \<forall>j < length (rows ! i).
       take (length (rows ! i ! j)) (drop (offset (widths rows) sep j) (lines ! i)) = rows ! i ! j)"
proof (intro exI conjI allI impI)
  let ?line = "\<lambda>row. joinWith sep (pad_cells (widths rows) row)"
  show "formatTable rows sep = joinWith nl (map ?line rows)" using assms by (simp add: formatTable_def)
  show "length (map ?line rows) = length rows" by simp
  fix i j assume i: "i < length rows" and j: "j < length (rows ! i)"
  have "length (rows ! i) \<le> length (widths rows) \<and> (\<forall>k < length (rows ! i). length (rows ! i ! k) \<le> widths rows ! k)"
    unfolding widths_def using i by (intro widths_cover) simp
  then show "take (length (rows ! i ! j)) (drop (offset (widths rows) sep j) (map ?line rows ! i)) = rows ! i ! j"
    using cell_at_offset[OF j] i by simp
qed

theorem table_aligned_witness:
  "formatTable [[''a'', ''bb''], [''ccc'', ''d'']] ''|'' = ''a  |bb'' @ nl @ ''ccc|d'' \<and>
   (\<exists>lines. formatTable [[''a'', ''bb''], [''ccc'', ''d'']] ''|'' = joinWith nl lines \<and>
     take 2 (drop (offset [3, 2] ''|'' 1) (lines ! 0)) = ''bb'' \<and> take 1 (drop (offset [3, 2] ''|'' 1) (lines ! 1)) = ''d'')"
proof
  let ?rows = "[[''a'', ''bb''], [''ccc'', ''d'']]"
  have w: "widths ?rows = [3, 2]" by code_simp
  show "formatTable ?rows ''|'' = ''a  |bb'' @ nl @ ''ccc|d''" by code_simp
  show "\<exists>lines. formatTable ?rows ''|'' = joinWith nl lines \<and>
     take 2 (drop (offset [3, 2] ''|'' 1) (lines ! 0)) = ''bb'' \<and> take 1 (drop (offset [3, 2] ''|'' 1) (lines ! 1)) = ''d''"
    using table_aligned[of ?rows "''|''"] unfolding w by (auto simp: All_less_Suc2 numeral_2_eq_2)
qed

section \<open>The fill layout\<close>

lemma foldl_max_length: "x \<in> set xs \<or> k \<le> m \<Longrightarrow> (x \<in> set xs \<longrightarrow> length x \<le> foldl (\<lambda>m s. max m (length s)) m xs) \<and>
    (k \<le> m \<longrightarrow> k \<le> foldl (\<lambda>m s. max m (length s)) m xs)"
  by (induction xs arbitrary: m k) (fastforce simp: le_max_iff_disj)+

lemma max_width_le: "x \<in> set items \<Longrightarrow> length x \<le> max_width items"
  using foldl_max_length[of x items 0 0] by (simp add: max_width_def)

lemma length_joinWith: "xs \<noteq> [] \<Longrightarrow> length (joinWith sep xs) + length sep = sum_list (map (\<lambda>x. length x + length sep) xs)"
proof (induction xs)
  case (Cons x xs)
  then show ?case by (cases "xs = []") (simp_all add: joinWith_Cons)
qed simp

lemma offset_replicate: "j \<le> m \<Longrightarrow> offset (replicate m w) sep j = j * (w + length sep)"
  by (simp add: offset_def)

lemma column_count:
  assumes "0 < nr" and "r < n"
  shows "(c :: nat) < (n - r + nr - 1) div nr \<longleftrightarrow> c * nr + r < n"
proof -
  have "c < (n - r + nr - 1) div nr \<longleftrightarrow> Suc c * nr \<le> n - r + nr - 1"
    by (simp only: Suc_le_eq[symmetric] less_eq_div_iff_mult_less_eq[OF assms(1)])
  also have "\<dots> \<longleftrightarrow> c * nr + r < n" using assms by auto
  finally show ?thesis .
qed

text \<open>One line of the layout is a row of padded cells: those of the columns that reach it.\<close>

lemma fill_row_cells:
  assumes "0 < nr" and "r < length items" and "length items \<le> nr * nc"
  defines "m \<equiv> (length items - r + nr - 1) div nr"
  shows "fill_row items nr nc sep r =
      joinWith sep (pad_cells (replicate m (max_width items)) (map (\<lambda>c. items ! (c * nr + r)) [0..<m]))"
    and "m \<le> nc"
proof -
  let ?n = "length items"
  have count: "c < m \<longleftrightarrow> c * nr + r < ?n" for c
    unfolding m_def by (rule column_count[OF assms(1,2)])
  show m: "m \<le> nc"
  proof (rule ccontr)
    assume "\<not> m \<le> nc"
    then have "nc * nr + r < ?n" using count[of nc] by simp
    then show False using assms(3) by (simp add: mult.commute)
  qed
  have cell: "fill_cell items nr nc r c = (if c < m then Some (pad_cells (replicate m (max_width items)) (map (\<lambda>c. items ! (c * nr + r)) [0..<m]) ! c) else None)"
    for c
  proof (cases "c < m")
    case True
    have "c = nc - 1 \<or> (c + 1) * nr + r \<ge> ?n \<longleftrightarrow> c = m - 1"
      using count[of "c + 1"] m True by auto
    then show ?thesis
      using True count[of c] unfolding fill_cell_def by (simp add: pad_cells_def Let_def del: upt_Suc)
  next
    case False
    then show ?thesis using count[of c] by (simp add: fill_cell_def)
  qed
  let ?cells = "pad_cells (replicate m (max_width items)) (map (\<lambda>c. items ! (c * nr + r)) [0..<m])"
  have "[0..<nc] = [0..<m] @ [m..<nc]" using m upt_add_eq_append[of 0 m "nc - m"] by simp
  then have "List.map_filter (fill_cell items nr nc r) [0..<nc] = map ((!) ?cells) [0..<m]"
    by (auto simp: map_filter_def cell filter_empty_conv)
  moreover have "length ?cells = m" by (simp add: pad_cells_def)
  then have "map ((!) ?cells) [0..<m] = ?cells" using map_nth[of ?cells] by simp
  ultimately show "fill_row items nr nc sep r = joinWith sep ?cells" by (simp add: fill_row_def)
qed

lemma pad_cells_lengths:
  assumes "\<forall>x \<in> set row. length x \<le> w" and "y \<in> set (pad_cells (replicate (length row) w) row)"
  shows "length y \<le> w"
  using assms by (auto simp: pad_cells_def padEnd_def split: if_splits)

lemma num_columns_bounds:
  assumes "0 \<le> width" and "width < 2 ^ 61" and "int (length sep) < 2 ^ 61"
  shows "1 \<le> num_columns items width sep" and "num_columns items width sep \<le> max 1 (width + int (length sep))"
    and "num_columns items width sep = 1 \<or>
      num_columns items width sep * int (max_width items + length sep) \<le> width + int (length sep)"
proof -
  let ?k = "int (max_width items + length sep)" and ?t = "width + int (length sep)"
  have w: "wrap64 ?t = ?t" using assms by (intro wrap64_id) simp_all
  have d: "?t div ?k \<le> ?t" if "?k > 0" using assms(1) that zdiv_mono2[of ?t 1 ?k] by simp
  have l: "?t div ?k * ?k \<le> ?t" if "?k > 0" using pos_mod_sign[OF that, of ?t] div_mult_mod_eq[of ?t ?k] by linarith
  have n: "num_columns items width sep = (if ?k > 0 then max 1 (?t div ?k) else 1)"
    by (simp add: num_columns_def w)
  show "1 \<le> num_columns items width sep" by (simp add: n)
  show "num_columns items width sep \<le> max 1 ?t" using d by (auto simp: n)
  show "num_columns items width sep = 1 \<or> num_columns items width sep * ?k \<le> ?t"
    using l by (auto simp: n max_def)
qed



text \<open>Outside of those bounds the number of rows overflows: with the largest width, two items of one byte and an empty separator, it comes out negative, and \<^verbatim>\<open>make\<close> panics.\<close>

lemma fill_panics: "formatFill [''a'', ''b''] (2 ^ 63 - 1) [] = None"
  by (simp add: formatFill_def num_rows_def num_columns_def max_width_def wrap64_def Let_def)

end
