(* ===== verification/Stat_Pwd.thy ===== *)
theory Stat_Pwd
  imports Text_Commands
begin

unbundle bit_operations_syntax

text \<open>
  stat (\<^verbatim>\<open>command/internal/stat/stat.go\<close>) and pwd (\<^verbatim>\<open>command/internal/pwd/pwd.go\<close>).
  Parameters: the option parser and the rendering of a time.
\<close>

section \<open>stat\<close>

definition mode_bit_chars :: "(fmode \<times> char) list" where
  "mode_bit_chars =
     [(0x100, CHR ''r''), (0x080, CHR ''w''), (0x040, CHR ''x''),
      (0x020, CHR ''r''), (0x010, CHR ''w''), (0x008, CHR ''x''),
      (0x004, CHR ''r''), (0x002, CHR ''w''), (0x001, CHR ''x'')]"

definition formatMode :: "fmode \<Rightarrow> bool \<Rightarrow> string" where
  "formatMode mode isDir =
     (if isDir then CHR ''d'' else CHR ''-'') #
     map (\<lambda>(b, c). if mode AND b \<noteq> 0 then c else CHR ''-'') mode_bit_chars"

definition octal :: "nat \<Rightarrow> fmode \<Rightarrow> string" where
  "octal w m = (let t = format_nat 8 (unat m) in replicate (w - length t) (CHR ''0'') @ t)"

definition applyFormat :: "string \<Rightarrow> string \<Rightarrow> file_info \<Rightarrow> string" where
  "applyFormat fmt f info =
     (let mode = mode_perm (fi_mode info);
          modeStr = formatMode mode (fi_isDir info);
          fileType = (if fi_isDir info then ''directory'' else ''regular file'')
      in foldl (\<lambda>out (d, v). replaceAll out d v) fmt
           [(''%n'', f), (''%N'', [squote] @ f @ [squote]), (''%s'', itoa (fi_size info)), (''%F'', fileType),
            (''%a'', octal 0 mode), (''%A'', modeStr), (''%u'', ''1000''), (''%U'', ''user''), (''%g'', ''1000''),
            (''%G'', ''group'')])"

text \<open>Go's truncated division by a positive number.\<close>

definition go_quot :: "int \<Rightarrow> int \<Rightarrow> int" where
  "go_quot a b = (if a < 0 then - ((- a) div b) else a div b)"

definition stat_text :: "(int \<Rightarrow> string) \<Rightarrow> string \<Rightarrow> file_info \<Rightarrow> string" where
  "stat_text formatTime f info =
     (let mode = mode_perm (fi_mode info)
      in ''  File: '' @ f @ nl @
         ''  Size: '' @ itoa (fi_size info) @ [tab, tab] @ ''Blocks: '' @ itoa (go_quot (wrap64 (fi_size info + 511)) 512) @ nl @
         ''Access: ('' @ octal 4 mode @ ''/'' @ formatMode mode (fi_isDir info) @ '')'' @ nl @
         ''Modify: '' @ formatTime (fi_mtime info) @ nl)"

record stat_opts =
  so_format :: string
  so_help :: bool
  so_files :: "string list"

definition stat_usage :: string where
  "stat_usage =
     ''Usage: stat [OPTION]... FILE...'' @ nl @ ''Display file or file system status.'' @ nl @ nl @
     ''  -c FORMAT   use the specified FORMAT instead of the default'' @ nl @
     ''      --help  display this help and exit'' @ nl"

text \<open>The operands in turn: the output, the messages, and whether one failed.\<close>

fun stat_files :: "(int \<Rightarrow> string) \<Rightarrow> 's billy \<Rightarrow> 's exec_context \<Rightarrow> string \<Rightarrow> string list \<Rightarrow> string \<times> string \<times> bool" where
  "stat_files ft fs ec fmt [] = ([], [], False)"
| "stat_files ft fs ec fmt (f # files) =
     (let (out, err, bad) = stat_files ft fs ec fmt files
      in case fs_stat fs (ec_state ec) (resolvePath (ec_dir ec) f) of
           Inl _ \<Rightarrow> (out, ''stat: cannot stat '' @ [squote] @ f @ [squote] @ '': No such file or directory'' @ nl @ err, True)
         | Inr info \<Rightarrow> ((if fmt \<noteq> [] then applyFormat fmt f info @ nl else stat_text ft f info) @ out, err, bad))"

definition stat_Exec :: "(int \<Rightarrow> string) \<Rightarrow> 's exec_context \<Rightarrow> string + stat_opts \<Rightarrow> 's cmd_result" where
  "stat_Exec ft ec opts0 =
     (case ec_fs ec of
        None \<Rightarrow> ret ec [] [] (ExitErr ''stat: ExecContext has no filesystem'')
      | Some fs \<Rightarrow>
          (case opts0 of
             Inl m \<Rightarrow> ret ec [] (''stat: '' @ m @ nl @ stat_usage) (ExitStatus 1)
           | Inr opts \<Rightarrow>
               if so_help opts then ret ec [] stat_usage ExitOk
               else if so_files opts = [] then ret ec [] (''stat: missing operand'' @ nl) (ExitStatus 1)
               else (let (out, err, bad) = stat_files ft fs ec (so_format opts) (so_files opts)
                     in ret ec out err (if bad then ExitStatus 1 else ExitOk))))"

section \<open>pwd\<close>

definition absolutize :: "string \<Rightarrow> string" where
  "absolutize dir0 =
     (let dir = trimPrefix dir0 ''/'' in if dir = [] \<or> dir = ''.'' then ''/'' else CHR ''/'' # dir)"

text \<open>The loop over path components, at most as many steps as the fuel, which the code sets to 64.\<close>

fun rp_loop :: "nat \<Rightarrow> 's billy \<Rightarrow> 's \<Rightarrow> string \<Rightarrow> string list \<Rightarrow> string" where
  "rp_loop 0 fs s resolved parts = resolved"
| "rp_loop (Suc n) fs s resolved [] = resolved"
| "rp_loop (Suc n) fs s resolved (part # parts) =
     (if part = [] \<or> part = ''.'' then rp_loop n fs s resolved parts
      else
        (let joined = path_join [resolved, part]; candidate = (if joined = [] then ''.'' else joined)
         in case fs_readlink fs s candidate of
              Inl _ \<Rightarrow> rp_loop n fs s candidate parts
            | Inr target \<Rightarrow>
                if path_isAbs target
                then rp_loop n fs s [] (splitOn slash (path_clean (trimPrefix target ''/'')) @ parts)
                else rp_loop n fs s resolved (splitOn slash (path_clean target) @ parts)))"

definition realpath :: "'s billy \<Rightarrow> 's \<Rightarrow> string \<Rightarrow> fs_err + string" where
  "realpath fs s p =
     (case fs_stat fs s p of
        Inl e \<Rightarrow> Inl e
      | Inr _ \<Rightarrow>
          if \<not> fs_symlinks fs then Inr (path_clean p)
          else (let resolved = rp_loop 64 fs s [] (splitOn slash (path_clean p))
                in Inr (if resolved = [] then ''.'' else resolved)))"

definition pwd_usage :: string where
  "pwd_usage =
     ''Usage: pwd [OPTION]...'' @ nl @ ''Print the full filename of the current working directory.'' @ nl @ nl @
     ''  -L  use PWD from environment, even if it contains symlinks (default)'' @ nl @
     ''  -P  avoid all symlinks'' @ nl @
     ''      --help  display this help and exit'' @ nl"

text \<open>The option letters in the order the parser meets them: the last of L and P counts.\<close>

definition physical :: "string list \<Rightarrow> bool" where
  "physical letters = foldl (\<lambda>phys l. if l = ''P'' then True else if l = ''L'' then False else phys) False letters"

record pwd_opts =
  po_letters :: "string list"
  po_help :: bool

definition pwd_Exec :: "'s exec_context \<Rightarrow> string + pwd_opts \<Rightarrow> 's cmd_result" where
  "pwd_Exec ec opts0 =
     (case opts0 of
        Inl m \<Rightarrow> ret ec [] (''pwd: '' @ m @ nl @ pwd_usage) (ExitStatus 1)
      | Inr opts \<Rightarrow>
          if po_help opts then ret ec [] pwd_usage ExitOk
          else
            (let logical = absolutize (ec_dir ec);
                 out = (if physical (po_letters opts) then
                          (case ec_fs ec of
                             None \<Rightarrow> logical
                           | Some fs \<Rightarrow> (case realpath fs (ec_state ec) (ec_dir ec) of Inl _ \<Rightarrow> logical | Inr r \<Rightarrow> absolutize r))
                        else logical)
             in ret ec (out @ nl) [] ExitOk))"

section \<open>What stat prints\<close>

text \<open>Reading the mode string back.\<close>

definition read_mode :: "string \<Rightarrow> bool \<times> fmode" where
  "read_mode t =
     (t \<noteq> [] \<and> hd t = CHR ''d'',
      foldl (\<lambda>m ((b, c), x). if x = c then m OR b else m) 0 (zip mode_bit_chars (tl t)))"

lemma or_one_bit: "(if m AND 2 ^ n \<noteq> 0 then x OR 2 ^ n else x) = x OR (m AND 2 ^ n)" for m x :: fmode
proof -
  have "m AND 2 ^ n = (if bit m n then 2 ^ n else 0)"
    by (rule bit_eqI) (auto simp: bit_and_iff bit_exp_iff)
  then show ?thesis by simp
qed

lemma read_bits:
  fixes m acc :: fmode
  assumes "\<forall>(b, c) \<in> set bs. c \<noteq> CHR ''-'' \<and> (\<exists>n. b = 2 ^ n)"
  shows "foldl (\<lambda>x ((b, c), y). if y = c then x OR b else x) acc
      (zip bs (map (\<lambda>(b, c). if m AND b \<noteq> 0 then c else CHR ''-'') bs)) = acc OR (m AND foldr (OR) (map fst bs) 0)"
  using assms
proof (induction bs arbitrary: acc)
  case (Cons p bs)
  obtain b c where p: "p = (b, c)" by (cases p)
  obtain n where "b = 2 ^ n" "c \<noteq> CHR ''-''" using Cons.prems p by auto
  then have "(if (if m AND b \<noteq> 0 then c else CHR ''-'') = c then acc OR b else acc) = acc OR (m AND b)"
    using or_one_bit[of m n acc] by auto
  then show ?case
    using Cons by (simp add: p bit.conj_disj_distrib or.assoc del: if_split_asm)
qed simp

lemma mode_bit_powers: "\<forall>(b, c) \<in> set mode_bit_chars. c \<noteq> CHR ''-'' \<and> (\<exists>n. b = 2 ^ n)"
proof -
  have "(0x100 :: fmode) = 2 ^ 8 \<and> (0x80 :: fmode) = 2 ^ 7 \<and> (0x40 :: fmode) = 2 ^ 6 \<and> (0x20 :: fmode) = 2 ^ 5 \<and>
    (0x10 :: fmode) = 2 ^ 4 \<and> (8 :: fmode) = 2 ^ 3 \<and> (4 :: fmode) = 2 ^ 2 \<and> (2 :: fmode) = 2 ^ 1 \<and> (1 :: fmode) = 2 ^ 0"
    by simp
  then show ?thesis unfolding mode_bit_chars_def by (simp only: list.set ball_simps split_conv) blast
qed

text \<open>The mode string of stat can be read back: from its ten characters come the permission bits and whether the file is a directory, for every mode word.\<close>

theorem read_formatMode: "length (formatMode m d) = 10 \<and> read_mode (formatMode m d) = (d, mode_perm m)"
proof -
  have "foldr (OR) (map fst mode_bit_chars) 0 = 0x1FF" by (simp add: mode_bit_chars_def)
  then have "snd (read_mode (formatMode m d)) = mode_perm m"
    using read_bits[OF mode_bit_powers, of 0 m] by (simp add: read_mode_def formatMode_def mode_perm_def)
  then show ?thesis by (simp add: read_mode_def formatMode_def mode_bit_chars_def prod_eq_iff)
qed

text \<open>The directives of \<^verbatim>\<open>stat -c\<close> are replaced one after the other, in values too: the name of a file called \<^verbatim>\<open>%s\<close> comes out as its size.\<close>

lemma stat_format_rescans: "applyFormat ''%n'' ''%s'' \<lparr>fi_name = ''%s'', fi_size = 5, fi_mode = 0, fi_mtime = 0, fi_dev = None\<rparr> = ''5''"
  by code_simp

section \<open>How far pwd -P sees\<close>

lemma joinWith_snoc: "xs \<noteq> [] \<Longrightarrow> joinWith sep (xs @ [y]) = joinWith sep xs @ sep @ y"
proof (induction xs)
  case (Cons x xs)
  then show ?case by (cases "xs = []") (simp_all add: joinWith_Cons)
qed simp

lemma join_component:
  assumes "\<forall>c \<in> set (xs @ [y]). proper_comp c"
  shows "path_join [joinWith ''/'' xs, y] = joinWith ''/'' (xs @ [y])"
proof -
  have clean: "path_clean (joinWith ''/'' (xs @ [y])) = joinWith ''/'' (xs @ [y])"
    using path_clean_render[of False "xs @ [y]"] proper_normal[OF assms] by (simp add: render_path_def)
  have y: "y \<noteq> []" using assms by (simp add: proper_comp_def)
  show ?thesis
  proof (cases "xs = []")
    case True
    then show ?thesis using clean y by (simp add: path_join_def)
  next
    case False
    then have "joinWith ''/'' xs \<noteq> []"
      using assms joinWith_hd[of xs "''/''"] by (cases xs) (auto simp: proper_comp_def)
    then show ?thesis using clean y False by (simp add: path_join_def joinWith_snoc)
  qed
qed

lemma rp_loop_plain:
  assumes "\<forall>p. isl (fs_readlink fs s p)" and "\<forall>c \<in> set (xs @ ys). proper_comp c"
  shows "rp_loop n fs s (joinWith ''/'' xs) ys = joinWith ''/'' (xs @ take n ys)"
  using assms(2)
proof (induction n arbitrary: xs ys)
  case (Suc n)
  show ?case
  proof (cases ys)
    case (Cons y ys')
    have y: "y \<noteq> []" "y \<noteq> ''.''" using Suc.prems Cons by (auto simp: proper_comp_def)
    have j: "path_join [joinWith ''/'' xs, y] = joinWith ''/'' (xs @ [y])"
      by (rule join_component) (use Suc.prems Cons in simp)
    have ne: "joinWith ''/'' (xs @ [y]) \<noteq> []"
      using y Suc.prems joinWith_hd[of "xs @ [y]" "''/''"] by (cases xs) (auto simp: Cons proper_comp_def)
    obtain e where "fs_readlink fs s (joinWith ''/'' (xs @ [y])) = Inl e"
      using assms(1) by (metis isl_def)
    then show ?thesis using Suc.IH[of "xs @ [y]" ys'] Suc.prems y j ne by (simp add: Cons)
  qed simp
qed simp

text \<open>Without symbolic links pwd -P prints the working directory, but only up to its sixty-fourth component: a deeper directory is reported as one of its ancestors.\<close>

theorem pwd_physical_limit:
  assumes "ec_fs ec = Some fs" and "fs_symlinks fs" and "\<forall>p. isl (fs_readlink fs (ec_state ec) p)"
    and "ec_dir ec = joinWith ''/'' cs" and "cs \<noteq> []" and "\<forall>c \<in> set cs. proper_comp c"
    and "fs_stat fs (ec_state ec) (ec_dir ec) = Inr info" and "physical letters"
  shows "pwd_Exec ec (Inr \<lparr>po_letters = letters, po_help = False\<rparr>) = ret ec (''/'' @ joinWith ''/'' (take 64 cs) @ nl) [] ExitOk"
proof -
  have clean: "path_clean (joinWith ''/'' cs) = joinWith ''/'' cs"
    using path_clean_render[of False cs] proper_normal[OF assms(6)] assms(5) by (simp add: render_path_def)
  have split: "splitOn slash (joinWith ''/'' cs) = cs"
    using assms(5,6) by (intro splitOn_joinWith) (auto simp: proper_comp_def)
  have proper: "\<forall>c \<in> set (take 64 cs). proper_comp c" "take 64 cs \<noteq> []"
    using assms(5,6) by (auto dest: in_set_takeD)
  have c: "proper_comp (hd (take 64 cs))" using proper(1)[rule_format, OF hd_in_set[OF proper(2)]] .
  have abs: "absolutize (joinWith ''/'' (take 64 cs)) = ''/'' @ joinWith ''/'' (take 64 cs)"
  proof -
    let ?j = "joinWith ''/'' (take 64 cs)"
    have "\<not> path_isAbs ?j \<and> ?j \<noteq> [] \<and> ?j \<noteq> ''.''"
      using isAbs_render[of False "take 64 cs"] path_clean_render[of False "take 64 cs"] proper_normal[OF proper(1), of False]
        joinWith_hd[of "take 64 cs" "''/''"] split_render[of False "take 64 cs"] proper(2) c
      by (auto simp: render_path_def proper_comp_def clean_comps_def)
    then show ?thesis by (simp add: absolutize_def path_isAbs_def trimPrefix_id)
  qed
  have "joinWith ''/'' (take 64 cs) \<noteq> []"
    using joinWith_hd[of "take 64 cs" "''/''"] proper(2) c by (auto simp: proper_comp_def)
  then have "realpath fs (ec_state ec) (ec_dir ec) = Inr (joinWith ''/'' (take 64 cs))"
    using rp_loop_plain[of fs "ec_state ec" "[]" cs 64] assms(2-4,6,7)
    by (simp add: realpath_def clean split Let_def del: rp_loop.simps)
  then show ?thesis using assms(1,8) abs by (simp add: pwd_Exec_def)
qed

definition deep_dir :: "unit exec_context" where
  "deep_dir = \<lparr>ec_stdin = None, ec_dir = joinWith ''/'' (replicate 65 ''a''), ec_environ = Map.empty, ec_fs = Some all_dirs,
     ec_state = (), ec_runner = False\<rparr>"

theorem pwd_physical_limit_witness:
  "pwd_Exec deep_dir (Inr \<lparr>po_letters = [''L'', ''P''], po_help = False\<rparr>)
   = ret deep_dir (''/'' @ joinWith ''/'' (replicate 64 ''a'') @ nl) [] ExitOk"
proof -
  have d: "ec_dir deep_dir = joinWith ''/'' (replicate 65 ''a'')" "ec_fs deep_dir = Some all_dirs"
    unfolding deep_dir_def by simp_all
  have "\<forall>c \<in> set (replicate 65 ''a''). proper_comp c" by (simp add: proper_comp_def)
  then show ?thesis
    using pwd_physical_limit[OF d(2) _ _ d(1), of dir_info "[''L'', ''P'']"]
    by (simp add: all_dirs_def physical_def)
qed

end
