(* ===== verification/Du_Tree.thy ===== *)
theory Du_Tree
  imports Stat_Pwd
begin

unbundle bit_operations_syntax

text \<open>
  du (\<^verbatim>\<open>command/internal/du/du.go\<close>) and tree (\<^verbatim>\<open>command/internal/tree/tree.go\<close>), the two
  commands that walk directories for a report.  Sizes are 64-bit integers and their sums wrap.
  du stops by itself below a thousand levels; the walk of tree has no limit without \<^verbatim>\<open>-L\<close>, so it
  takes fuel and is \<^const>\<open>None\<close> when the fuel is used up.
\<close>

section \<open>du: sizes\<close>

record duOptions =
  du_allFiles :: bool
  du_humanReadable :: bool
  du_summarize :: bool
  du_grandTotal :: bool
  du_maxDepth :: "int option"
  du_followCmdLine :: bool
  du_followAll :: bool
  du_blockSize :: int

definition maxRecursionDepth :: nat where
  "maxRecursionDepth = 1000"

definition resolveBlockSize :: "(string \<Rightarrow> string option) \<Rightarrow> bool \<Rightarrow> bool \<Rightarrow> int" where
  "resolveBlockSize env kilobytes bytes =
     (if bytes then 1
      else if kilobytes then 1024
      else if env ''POSIXLY_CORRECT'' \<notin> {None, Some []} then 512
      else case env ''BLOCKSIZE'' of
        None \<Rightarrow> 1024
      | Some v \<Rightarrow> (case parseInt v 10 64 of Some n \<Rightarrow> if n > 0 then n else 1024 | None \<Rightarrow> 1024))"

text \<open>\<open>human\<close> is what \<^verbatim>\<open>%.1f\<close> prints of a quotient.\<close>

definition formatSize :: "(int \<Rightarrow> int \<Rightarrow> string) \<Rightarrow> int \<Rightarrow> bool \<Rightarrow> int \<Rightarrow> string" where
  "formatSize human bytes humanReadable blockSize0 =
     (let blockSize = (if blockSize0 \<le> 0 then 1024 else blockSize0)
      in if \<not> humanReadable then
           (let v = go_quot (wrap64 (wrap64 (bytes + blockSize) - 1)) blockSize in itoa (if v \<le> 0 then 1 else v))
         else if bytes < 1024 then itoa bytes
         else if bytes < 1024 * 1024 then human bytes 1024 @ ''K''
         else if bytes < 1024 * 1024 * 1024 then human bytes (1024 * 1024) @ ''M''
         else human bytes (1024 * 1024 * 1024) @ ''G'')"

definition statEntry :: "'s billy \<Rightarrow> 's \<Rightarrow> string \<Rightarrow> bool \<Rightarrow> fs_err + file_info" where
  "statEntry fs s p follow = (if follow \<or> \<not> fs_symlinks fs then fs_stat fs s p else fs_lstat fs s p)"

definition du_joinDisplay :: "string \<Rightarrow> string \<Rightarrow> string" where
  "du_joinDisplay d name = (if d = ''.'' then name else d @ ''/'' @ name)"

definition du_line :: "(int \<Rightarrow> int \<Rightarrow> string) \<Rightarrow> duOptions \<Rightarrow> int \<Rightarrow> string \<Rightarrow> string" where
  "du_line human opts sz d = formatSize human sz (du_humanReadable opts) (du_blockSize opts) @ [tab] @ d @ nl"

definition du_denied :: "string \<Rightarrow> string" where
  "du_denied d = ''du: cannot read directory '' @ [squote] @ d @ [squote] @ '': Permission denied'' @ nl"

section \<open>du: the walk\<close>

text \<open>Output, total and messages so far; below, \<open>sub\<close> is the call for a directory one level deeper.\<close>

type_synonym du_result = "string \<times> int \<times> string"

definition du_shows :: "duOptions \<Rightarrow> nat \<Rightarrow> bool" where
  "du_shows opts depth \<longleftrightarrow> (case du_maxDepth opts of None \<Rightarrow> True | Some d \<Rightarrow> int depth \<le> d)"

definition du_add_sub :: "duOptions \<Rightarrow> nat \<Rightarrow> du_result \<Rightarrow> du_result \<Rightarrow> du_result" where
  "du_add_sub opts depth r acc =
     (case acc of (out, sz, err) \<Rightarrow> case r of (subOut, subTotal, subErr) \<Rightarrow>
        (if \<not> du_summarize opts \<and> du_shows opts (depth + 1) then out @ subOut else out, wrap64 (sz + subTotal), err @ subErr))"

definition du_add_file :: "(int \<Rightarrow> int \<Rightarrow> string) \<Rightarrow> duOptions \<Rightarrow> string \<Rightarrow> int \<Rightarrow> du_result \<Rightarrow> du_result" where
  "du_add_file human opts d entrySize acc =
     (case acc of (out, sz, err) \<Rightarrow>
        (if du_allFiles opts \<and> \<not> du_summarize opts then out @ du_line human opts entrySize d else out, wrap64 (sz + entrySize), err))"

definition entry_size :: "dir_entry \<Rightarrow> int" where
  "entry_size e = (case de_info e of Inr i \<Rightarrow> fi_size i | Inl _ \<Rightarrow> 0)"

definition du_file_entry ::
  "(int \<Rightarrow> int \<Rightarrow> string) \<Rightarrow> 's billy \<Rightarrow> 's \<Rightarrow> duOptions \<Rightarrow> (string \<Rightarrow> string \<Rightarrow> du_result) \<Rightarrow> string \<Rightarrow> string \<Rightarrow> nat
   \<Rightarrow> dir_entry \<Rightarrow> du_result \<Rightarrow> du_result" where
  "du_file_entry human fs s opts sub full disp depth e acc =
     (let entryPath = path_join [full, de_name e]; d = du_joinDisplay disp (de_name e)
      in if de_type e AND ModeSymlink \<noteq> 0 \<and> du_followAll opts then
           (case fs_stat fs s entryPath of
              Inl _ \<Rightarrow> du_add_file human opts d (entry_size e) acc
            | Inr linked \<Rightarrow>
                if fi_isDir linked then du_add_sub opts depth (sub entryPath d) acc
                else du_add_file human opts d (fi_size linked) acc)
         else du_add_file human opts d (entry_size e) acc)"

text \<open>The two passes over the entries: first what is not a directory, then the directories.\<close>

definition du_files ::
  "(int \<Rightarrow> int \<Rightarrow> string) \<Rightarrow> 's billy \<Rightarrow> 's \<Rightarrow> duOptions \<Rightarrow> (string \<Rightarrow> string \<Rightarrow> du_result) \<Rightarrow> string \<Rightarrow> string \<Rightarrow> nat
   \<Rightarrow> dir_entry list \<Rightarrow> du_result" where
  "du_files human fs s opts sub full disp depth es =
     foldl (\<lambda>acc e. if de_isDir e then acc else du_file_entry human fs s opts sub full disp depth e acc) ([], 0, []) es"

definition du_dirs ::
  "duOptions \<Rightarrow> (string \<Rightarrow> string \<Rightarrow> du_result) \<Rightarrow> string \<Rightarrow> string \<Rightarrow> nat \<Rightarrow> dir_entry list \<Rightarrow> du_result \<Rightarrow> du_result" where
  "du_dirs opts sub full disp depth es acc0 =
     foldl (\<lambda>acc e. if \<not> de_isDir e then acc
                   else du_add_sub opts depth (sub (path_join [full, de_name e]) (du_joinDisplay disp (de_name e))) acc)
       acc0 es"

text \<open>The fuel is what is left of the recursion limit.\<close>

fun du_calc ::
  "nat \<Rightarrow> (int \<Rightarrow> int \<Rightarrow> string) \<Rightarrow> 's billy \<Rightarrow> 's \<Rightarrow> duOptions \<Rightarrow> string \<Rightarrow> string \<Rightarrow> nat \<Rightarrow> bool \<Rightarrow> du_result" where
  "du_calc 0 human fs s opts full disp depth isCmd = ([], 0, [])"
| "du_calc (Suc n) human fs s opts full disp depth isCmd =
     (let follow = (du_followAll opts \<or> du_followCmdLine opts \<and> isCmd)
      in case statEntry fs s full follow of
           Inl _ \<Rightarrow> ([], 0, du_denied disp)
         | Inr info \<Rightarrow>
             if fi_mode info AND ModeSymlink \<noteq> 0 \<and> \<not> follow \<or> \<not> fi_isDir info then
               (if du_allFiles opts \<or> depth = 0 then du_line human opts (fi_size info) disp else [], fi_size info, [])
             else (case fs_readdir fs s full of
                Inl _ \<Rightarrow> ([], 0, du_denied disp)
              | Inr es0 \<Rightarrow>
                  (let es = sort_entries es0;
                       sub = (\<lambda>p d. du_calc n human fs s opts p d (depth + 1) False);
                       r1 = du_files human fs s opts sub full disp depth es;
                       (out, dirSize, err) = du_dirs opts sub full disp depth es r1
                   in (if du_summarize opts \<or> du_shows opts depth then out @ du_line human opts dirSize disp else out, dirSize, err))))"

definition calculateSize ::
  "(int \<Rightarrow> int \<Rightarrow> string) \<Rightarrow> 's billy \<Rightarrow> 's \<Rightarrow> duOptions \<Rightarrow> string \<Rightarrow> string \<Rightarrow> nat \<Rightarrow> bool \<Rightarrow> du_result" where
  "calculateSize human fs s opts full disp depth isCmd =
     du_calc (Suc maxRecursionDepth - depth) human fs s opts full disp depth isCmd"

section \<open>du: the command\<close>

record du_flags =
  df_allFiles :: bool
  df_bytes :: bool
  df_humanReadable :: bool
  df_kilobytes :: bool
  df_summarize :: bool
  df_grandTotal :: bool
  df_followCmdLine :: bool
  df_followAll :: bool
  df_maxDepth :: "int option"
  df_help :: bool
  df_targets :: "string list"

definition du_usage :: string where
  "du_usage =
     ''Usage: du [OPTION]... [FILE]...'' @ nl @ ''Estimate file space usage.'' @ nl @ nl @
     ''  -a               write counts for all files, not just directories'' @ nl @
     ''  -b, --bytes      equivalent to --apparent-size --block-size=1'' @ nl @
     ''      --apparent-size  print apparent sizes rather than disk usage'' @ nl @
     ''  -h               print sizes in human readable format'' @ nl @
     ''  -k               like --block-size=1K'' @ nl @
     ''  -s               display only a total for each argument'' @ nl @
     ''  -c               produce a grand total'' @ nl @
     ''  -H               follow symbolic links on the command line only'' @ nl @
     ''  -L               follow all symbolic links'' @ nl @
     ''  -x, --one-file-system  skip directories on different file systems'' @ nl @
     ''      --max-depth=N  print total for directory only if N or fewer levels deep'' @ nl @
     ''      --help       display this help and exit'' @ nl"

definition du_target :: "(int \<Rightarrow> int \<Rightarrow> string) \<Rightarrow> 's billy \<Rightarrow> 's exec_context \<Rightarrow> duOptions \<Rightarrow> string \<Rightarrow> du_result" where
  "du_target human fs ec opts target =
     (let full = resolvePath (ec_dir ec) target
      in case statEntry fs (ec_state ec) full (du_followAll opts \<or> du_followCmdLine opts) of
           Inl _ \<Rightarrow> ([], 0, ''du: cannot access '' @ [squote] @ target @ [squote] @ '': No such file or directory'' @ nl)
         | Inr _ \<Rightarrow> calculateSize human fs (ec_state ec) opts full target 0 True)"

definition du_options :: "(string \<Rightarrow> string option) \<Rightarrow> du_flags \<Rightarrow> duOptions" where
  "du_options env fl =
     \<lparr>du_allFiles = df_allFiles fl, du_humanReadable = df_humanReadable fl, du_summarize = df_summarize fl,
      du_grandTotal = df_grandTotal fl, du_maxDepth = df_maxDepth fl, du_followCmdLine = df_followCmdLine fl,
      du_followAll = df_followAll fl, du_blockSize = resolveBlockSize env (df_kilobytes fl) (df_bytes fl)\<rparr>"

definition du_Exec :: "(int \<Rightarrow> int \<Rightarrow> string) \<Rightarrow> 's exec_context \<Rightarrow> string + du_flags \<Rightarrow> 's cmd_result" where
  "du_Exec human ec flags0 =
     (case ec_fs ec of
        None \<Rightarrow> ret ec [] [] (ExitErr ''du: ExecContext has no filesystem'')
      | Some fs \<Rightarrow>
          (case flags0 of
             Inl m \<Rightarrow> ret ec [] (''du: '' @ m @ nl @ du_usage) (ExitStatus 1)
           | Inr fl \<Rightarrow>
               if df_help fl then ret ec [] du_usage ExitOk
               else
                 (let opts = du_options (ec_environ ec) fl;
                      targets = (if df_targets fl = [] then [''.''] else df_targets fl);
                      rs = map (du_target human fs ec opts) targets;
                      out = concat (map fst rs); err = concat (map (\<lambda>r. snd (snd r)) rs);
                      grand = foldl (\<lambda>g r. wrap64 (g + fst (snd r))) 0 rs
                  in ret ec (if du_grandTotal opts
                             then out @ formatSize human grand (du_humanReadable opts) (du_blockSize opts) @ [tab] @ ''total'' @ nl
                             else out)
                       err (if err = [] then ExitOk else ExitStatus 1))))"

section \<open>tree\<close>

record treeOptions =
  to_showHidden :: bool
  to_directoriesOnly :: bool
  to_fullPath :: bool
  to_maxDepth :: "int option"

record treeResult =
  tr_output :: string
  tr_stderr :: string
  tr_dirCount :: nat
  tr_fileCount :: nat

definition tree_joinDisplay :: "string \<Rightarrow> string \<Rightarrow> string" where
  "tree_joinDisplay par name =
     (if par = [] \<or> par = ''.'' then ''./'' @ name else if par = ''/'' then ''/'' @ name else par @ ''/'' @ name)"

text \<open>The entries of a directory that are shown, by name.\<close>

definition tree_infos :: "treeOptions \<Rightarrow> dir_entry list \<Rightarrow> (string \<times> bool) list" where
  "tree_infos opts es =
     sort_key fst (map (\<lambda>e. (de_name e, de_isDir e))
       (filter (\<lambda>e. (to_showHidden opts \<or> \<not> hasPrefix (de_name e) ''.'') \<and> (to_directoriesOnly opts \<longrightarrow> de_isDir e)) es))"

definition tree_line :: "string \<Rightarrow> bool \<Rightarrow> string \<Rightarrow> string" where
  "tree_line pfx isLast shown = pfx @ (if isLast then backquote # ''-- '' else ''|-- '') @ shown @ nl"

fun tree_walk ::
  "nat \<Rightarrow> 's billy \<Rightarrow> 's \<Rightarrow> treeOptions \<Rightarrow> string \<Rightarrow> string \<Rightarrow> string \<Rightarrow> nat \<Rightarrow> treeResult \<Rightarrow> treeResult option"
and tree_entries ::
  "nat \<Rightarrow> 's billy \<Rightarrow> 's \<Rightarrow> treeOptions \<Rightarrow> string \<Rightarrow> string \<Rightarrow> string \<Rightarrow> nat \<Rightarrow> (string \<times> bool) list \<Rightarrow> treeResult \<Rightarrow> treeResult option"
where
  "tree_walk 0 fs s opts disp p pfx depth r = None"
| "tree_walk (Suc n) fs s opts disp p pfx depth r =
     (if (case to_maxDepth opts of None \<Rightarrow> False | Some m \<Rightarrow> int depth \<ge> m) then Some r
      else case fs_readdir fs s p of
        Inl _ \<Rightarrow> Some r
      | Inr es \<Rightarrow> tree_entries n fs s opts disp p pfx depth (tree_infos opts es) r)"
| "tree_entries n fs s opts disp p pfx depth [] r = Some r"
| "tree_entries n fs s opts disp p pfx depth ((name, isDir) # es) r =
     (let entryDisplay = tree_joinDisplay disp name;
          shown = (if to_fullPath opts then entryDisplay else name);
          r1 = r\<lparr>tr_output := tr_output r @ tree_line pfx (es = []) shown\<rparr>
      in case (if isDir
               then tree_walk n fs s opts entryDisplay (path_join [p, name]) (pfx @ (if es = [] then ''    '' else ''|   '')) (depth + 1)
                      (r1\<lparr>tr_dirCount := Suc (tr_dirCount r1)\<rparr>)
               else Some (r1\<lparr>tr_fileCount := Suc (tr_fileCount r1)\<rparr>)) of
           None \<Rightarrow> None
         | Some r2 \<Rightarrow> tree_entries n fs s opts disp p pfx depth es r2)"

definition walkRoot :: "nat \<Rightarrow> 's billy \<Rightarrow> 's exec_context \<Rightarrow> treeOptions \<Rightarrow> string \<Rightarrow> treeResult \<Rightarrow> treeResult option" where
  "walkRoot n fs ec opts disp r =
     (let p = resolvePath (ec_dir ec) disp
      in case fs_stat fs (ec_state ec) p of
           Inl _ \<Rightarrow> Some (r\<lparr>tr_stderr := tr_stderr r @ ''tree: '' @ disp @ '': No such file or directory'' @ nl\<rparr>)
         | Inr info \<Rightarrow>
             (let r1 = r\<lparr>tr_output := tr_output r @ disp @ nl\<rparr>
              in if \<not> fi_isDir info then Some (r1\<lparr>tr_fileCount := Suc (tr_fileCount r1)\<rparr>)
                 else tree_walk n fs (ec_state ec) opts disp p [] 0 r1))"

fun walk_roots :: "nat \<Rightarrow> 's billy \<Rightarrow> 's exec_context \<Rightarrow> treeOptions \<Rightarrow> string list \<Rightarrow> treeResult \<Rightarrow> treeResult option" where
  "walk_roots n fs ec opts [] r = Some r"
| "walk_roots n fs ec opts (d # ds) r =
     (case walkRoot n fs ec opts d r of None \<Rightarrow> None | Some r1 \<Rightarrow> walk_roots n fs ec opts ds r1)"

definition tree_summary :: "treeOptions \<Rightarrow> treeResult \<Rightarrow> string" where
  "tree_summary opts r =
     nl @ show_nat (tr_dirCount r) @ '' '' @ (if tr_dirCount r = 1 then ''directory'' else ''directories'') @
     (if to_directoriesOnly opts then []
      else '', '' @ show_nat (tr_fileCount r) @ '' '' @ (if tr_fileCount r = 1 then ''file'' else ''files'')) @ nl"

record tree_flags =
  tf_opts :: treeOptions
  tf_help :: bool
  tf_dirs :: "string list"

definition tree_usage :: string where
  "tree_usage =
     ''Usage: tree [OPTION]... [DIRECTORY]...'' @ nl @ ''List contents of directories in a tree-like format.'' @ nl @ nl @
     ''  -a          include hidden files'' @ nl @
     ''  -d          list directories only'' @ nl @
     ''  -L LEVEL    limit depth of directory tree'' @ nl @
     ''  -f          print full path prefix for each file'' @ nl @
     ''      --help  display this help and exit'' @ nl"

definition tree_Exec :: "nat \<Rightarrow> 's exec_context \<Rightarrow> string + tree_flags \<Rightarrow> 's cmd_result option" where
  "tree_Exec n ec flags0 =
     (case ec_fs ec of
        None \<Rightarrow> Some (ret ec [] [] (ExitErr ''tree: ExecContext has no filesystem''))
      | Some fs \<Rightarrow>
          (case flags0 of
             Inl m \<Rightarrow> Some (ret ec [] (''tree: '' @ m @ nl @ tree_usage) (ExitStatus 1))
           | Inr fl \<Rightarrow>
               if tf_help fl then Some (ret ec [] tree_usage ExitOk)
               else map_option
                      (\<lambda>r. ret ec (tr_output r @ tree_summary (tf_opts fl) r) (tr_stderr r)
                             (if tr_stderr r = [] then ExitOk else ExitStatus 1))
                      (walk_roots n fs ec (tf_opts fl) (if tf_dirs fl = [] then [''.''] else tf_dirs fl)
                         \<lparr>tr_output = [], tr_stderr = [], tr_dirCount = 0, tr_fileCount = 0\<rparr>)))"

end
