(* ===== verification/Du_Tree_Properties.thy ===== *)
theory Du_Tree_Properties
  imports Du_Tree "HOL-Library.Multiset"
begin

unbundle bit_operations_syntax

text \<open>
  What du and tree report: du the sum of the sizes below a directory, whatever is printed on the
  way, and tree a drawing from which the listing can be read back, with the counts of its lines.
\<close>

section \<open>Sums that wrap\<close>

lemma wrap64_add_left [simp]: "wrap64 (wrap64 a + b) = wrap64 (a + b)"
  and wrap64_add_right [simp]: "wrap64 (a + wrap64 b) = wrap64 (a + b)"
  by (simp_all add: wrap64_def mod_simps algebra_simps)

lemma wrap64_wrap [simp]: "wrap64 (wrap64 a) = wrap64 a"
  using wrap64_add_left[of a 0] by simp

lemma wrap64_0 [simp]: "wrap64 0 = 0"
  by (simp add: wrap64_def)

lemma wrap64_cong: "wrap64 a = wrap64 b \<Longrightarrow> wrap64 (c + a) = wrap64 (c + b)"
  by (metis wrap64_add_right)

lemma wrap64_cong_left: "wrap64 a = wrap64 b \<Longrightarrow> wrap64 (a + c) = wrap64 (b + c)"
  by (metis wrap64_add_left)

section \<open>du reports the sum\<close>

text \<open>The reference: the bytes below a path, without following links.\<close>

fun disk_bytes :: "nat \<Rightarrow> 's billy \<Rightarrow> 's \<Rightarrow> string \<Rightarrow> int" where
  "disk_bytes 0 fs s p = 0"
| "disk_bytes (Suc n) fs s p =
     (case statEntry fs s p False of
        Inl _ \<Rightarrow> 0
      | Inr info \<Rightarrow>
          if fi_mode info AND ModeSymlink \<noteq> 0 \<or> \<not> fi_isDir info then fi_size info
          else (case fs_readdir fs s p of
             Inl _ \<Rightarrow> 0
           | Inr es \<Rightarrow>
               sum_list (map (\<lambda>e. if de_isDir e then disk_bytes n fs s (path_join [p, de_name e]) else entry_size e) es)))"

definition follows_nothing :: "duOptions \<Rightarrow> bool" where
  "follows_nothing opts \<longleftrightarrow> \<not> du_followAll opts \<and> \<not> du_followCmdLine opts"

definition total :: "du_result \<Rightarrow> int" where
  "total r = fst (snd r)"

lemma total_add_sub: "total (du_add_sub opts depth r acc) = wrap64 (total acc + total r)"
  by (simp add: du_add_sub_def total_def split: prod.split)

lemma total_add_file: "total (du_add_file human opts d sz acc) = wrap64 (total acc + sz)"
  by (simp add: du_add_file_def total_def split: prod.split)

lemma total_file_entry:
  "\<not> du_followAll opts \<Longrightarrow> total (du_file_entry human fs s opts sub full disp depth e acc) = wrap64 (total acc + entry_size e)"
  by (simp add: du_file_entry_def total_add_file)

lemma total_files:
  "\<not> du_followAll opts \<Longrightarrow>
   wrap64 (total (foldl (\<lambda>acc e. if de_isDir e then acc else du_file_entry human fs s opts sub full disp depth e acc) acc es))
   = wrap64 (total acc + sum_list (map (\<lambda>e. if de_isDir e then 0 else entry_size e) es))"
  by (induction es arbitrary: acc) (simp_all add: total_file_entry add.assoc)

lemma total_dirs:
  assumes "\<And>e. wrap64 (total (sub e)) = wrap64 (f e)"
  shows "wrap64 (total (foldl (\<lambda>acc e. if \<not> de_isDir e then acc else du_add_sub opts depth (sub e) acc) acc es))
   = wrap64 (total acc + sum_list (map (\<lambda>e. if de_isDir e then f e else 0) es))"
proof (induction es arbitrary: acc)
  case (Cons e es)
  have "wrap64 (total acc + total (sub e) + x) = wrap64 (total acc + f e + x)" for x
    using wrap64_cong[OF assms, of "total acc + x" e] by (simp add: algebra_simps)
  then show ?case using Cons by (simp add: total_add_sub add.assoc)
qed simp

lemma sum_list_sort_entries: "sum_list (map f (sort_entries es)) = sum_list (map f es)" for f :: "dir_entry \<Rightarrow> int"
  unfolding sort_entries_def by (metis mset_map mset_sort sum_mset_sum_list)

lemma sum_files_dirs:
  "sum_list (map (\<lambda>e. if P e then 0 else f e) es) + sum_list (map (\<lambda>e. if P e then g e else 0) es)
   = sum_list (map (\<lambda>e. if P e then g e else f e) es)" for f g :: "dir_entry \<Rightarrow> int"
  by (induction es) auto

lemma du_calc_dir:
  fixes n depth :: nat and human :: "int \<Rightarrow> int \<Rightarrow> string" and disp :: string
  assumes "statEntry fs s full (du_followAll opts \<or> du_followCmdLine opts \<and> isCmd) = Inr info"
    and "\<not> (fi_mode info AND ModeSymlink \<noteq> 0 \<and> \<not> (du_followAll opts \<or> du_followCmdLine opts \<and> isCmd) \<or> \<not> fi_isDir info)"
    and "fs_readdir fs s full = Inr es"
  defines "sub \<equiv> \<lambda>p d. du_calc n human fs s opts p d (depth + 1) False"
  defines "r \<equiv> du_dirs opts sub full disp depth (sort_entries es) (du_files human fs s opts sub full disp depth (sort_entries es))"
  shows "du_calc (Suc n) human fs s opts full disp depth isCmd =
    (if du_summarize opts \<or> du_shows opts depth then fst r @ du_line human opts (total r) disp else fst r, total r, snd (snd r))"
  unfolding du_calc.simps Let_def assms(1) sum.case if_not_P[OF assms(2)] assms(3)
  by (simp add: r_def sub_def total_def case_prod_beta)

lemma du_calc_total:
  assumes "follows_nothing opts"
  shows "wrap64 (total (du_calc n human fs s opts full disp depth isCmd)) = wrap64 (disk_bytes n fs s full)"
proof (induction n arbitrary: full disp depth isCmd)
  case (Suc n)
  let ?sub = "\<lambda>p d. du_calc n human fs s opts p d (depth + 1) False"
  have nf: "\<not> du_followAll opts" "\<not> du_followCmdLine opts" using assms by (simp_all add: follows_nothing_def)
  show ?case
  proof (cases "statEntry fs s full False")
    case (Inr info)
    show ?thesis
    proof (cases "fi_mode info AND ModeSymlink \<noteq> 0 \<or> \<not> fi_isDir info")
      case False
      show ?thesis
      proof (cases "fs_readdir fs s full")
        case (Inr es)
        define r1 where "r1 = du_files human fs s opts ?sub full disp depth (sort_entries es)"
        define r2 where "r2 = du_dirs opts ?sub full disp depth (sort_entries es) r1"
        have files: "wrap64 (total r1) = wrap64 (sum_list (map (\<lambda>e. if de_isDir e then 0 else entry_size e) es))"
          unfolding r1_def du_files_def using total_files[OF nf(1), where acc = "([], 0, [])" and es = "sort_entries es"]
          by (simp add: total_def[of "([], 0, [])"] sum_list_sort_entries)
        have dirs: "wrap64 (total r2) = wrap64 (total r1 + sum_list (map (\<lambda>e. if de_isDir e then disk_bytes n fs s (path_join [full, de_name e]) else 0) es))"
          unfolding r2_def du_dirs_def
          using total_dirs[where sub = "\<lambda>e. ?sub (path_join [full, de_name e]) (du_joinDisplay disp (de_name e))"
              and f = "\<lambda>e. disk_bytes n fs s (path_join [full, de_name e])" and acc = r1 and es = "sort_entries es", OF Suc.IH]
          by (simp add: sum_list_sort_entries)
        have "wrap64 (total r2) = wrap64 (sum_list (map (\<lambda>e. if de_isDir e then 0 else entry_size e) es)
            + sum_list (map (\<lambda>e. if de_isDir e then disk_bytes n fs s (path_join [full, de_name e]) else 0) es))"
          using dirs wrap64_cong_left[OF files] by simp
        moreover have "total (du_calc (Suc n) human fs s opts full disp depth isCmd) = total r2"
        proof -
          have st: "statEntry fs s full (du_followAll opts \<or> du_followCmdLine opts \<and> isCmd) = Inr info"
            using \<open>statEntry fs s full False = Inr info\<close> nf by simp
          have "\<not> (fi_mode info AND ModeSymlink \<noteq> 0 \<and> \<not> (du_followAll opts \<or> du_followCmdLine opts \<and> isCmd) \<or> \<not> fi_isDir info)"
            using False nf by simp
          note run = du_calc_dir[OF st this Inr, where n = n and human = human and depth = depth and disp = disp]
          show ?thesis unfolding run r2_def r1_def by (simp only: total_def fst_conv snd_conv)
        qed
        ultimately show ?thesis
          using \<open>statEntry fs s full False = Inr info\<close> False Inr by (simp add: sum_files_dirs)
      qed (use Inr False nf in \<open>simp add: total_def\<close>)
    qed (use Inr nf in \<open>simp add: total_def\<close>)
  qed (use nf in \<open>simp add: total_def\<close>)
qed (simp add: total_def)

text \<open>With \<^verbatim>\<open>-s\<close> nothing is printed on the way, and the total of a directory is always a 64-bit value.\<close>

lemma fst_add: "du_summarize opts \<Longrightarrow> fst (du_add_sub opts depth r acc) = fst acc"
  "du_summarize opts \<Longrightarrow> fst (du_add_file human opts d sz acc) = fst acc"
  by (simp_all add: du_add_sub_def du_add_file_def split: prod.split)

lemma fst_file_entry:
  "du_summarize opts \<Longrightarrow> fst (du_file_entry human fs s opts sub full disp depth e acc) = fst acc"
  by (simp add: du_file_entry_def fst_add Let_def split: sum.split)

lemma fst_files: "du_summarize opts \<Longrightarrow> fst (du_files human fs s opts sub full disp depth es) = []"
proof -
  assume s: "du_summarize opts"
  have "fst (foldl (\<lambda>acc e. if de_isDir e then acc else du_file_entry human fs s opts sub full disp depth e acc) acc es) = fst acc" for acc
    by (induction es arbitrary: acc) (simp_all add: fst_file_entry[OF s])
  then show ?thesis by (simp add: du_files_def)
qed

lemma fst_dirs: "du_summarize opts \<Longrightarrow> fst (du_dirs opts sub full disp depth es acc) = fst acc"
  unfolding du_dirs_def by (induction es arbitrary: acc) (simp_all add: fst_add)

lemma wrapped_file_entry:
  "wrap64 (total (du_file_entry human fs s opts sub full disp depth e acc)) = total (du_file_entry human fs s opts sub full disp depth e acc)"
  by (simp add: du_file_entry_def total_add_file total_add_sub Let_def split: sum.split)

lemma wrapped_files: "wrap64 (total (du_files human fs s opts sub full disp depth es)) = total (du_files human fs s opts sub full disp depth es)"
proof -
  have "wrap64 (total acc) = total acc \<Longrightarrow>
    wrap64 (total (foldl (\<lambda>acc e. if de_isDir e then acc else du_file_entry human fs s opts sub full disp depth e acc) acc es))
    = total (foldl (\<lambda>acc e. if de_isDir e then acc else du_file_entry human fs s opts sub full disp depth e acc) acc es)" for acc
    by (induction es arbitrary: acc) (simp_all add: wrapped_file_entry)
  from this[of "([], 0, [])"] show ?thesis by (simp add: du_files_def total_def)
qed

lemma wrapped_dirs: "wrap64 (total acc) = total acc \<Longrightarrow> wrap64 (total (du_dirs opts sub full disp depth es acc)) = total (du_dirs opts sub full disp depth es acc)"
  unfolding du_dirs_def by (induction es arbitrary: acc) (simp_all add: total_add_sub)

definition readable_dir :: "'s billy \<Rightarrow> 's \<Rightarrow> string \<Rightarrow> bool" where
  "readable_dir fs s p \<longleftrightarrow>
     (case statEntry fs s p False of
        Inl _ \<Rightarrow> False
      | Inr info \<Rightarrow> fi_isDir info \<and> fi_mode info AND ModeSymlink = 0 \<and> (case fs_readdir fs s p of Inl _ \<Rightarrow> False | Inr _ \<Rightarrow> True))"

lemma readable_dirE:
  assumes "readable_dir fs s p"
  obtains info es where "statEntry fs s p False = Inr info" "fi_isDir info" "fi_mode info AND ModeSymlink = 0" "fs_readdir fs s p = Inr es"
  using assms by (auto simp: readable_dir_def split: sum.splits)

lemma du_target_summary:
  assumes "follows_nothing opts" "du_summarize opts" "readable_dir fs (ec_state ec) (resolvePath (ec_dir ec) t)"
  defines "bytes \<equiv> wrap64 (disk_bytes (Suc maxRecursionDepth) fs (ec_state ec) (resolvePath (ec_dir ec) t))"
  shows "fst (du_target human fs ec opts t) = du_line human opts bytes t" and "fst (snd (du_target human fs ec opts t)) = bytes"
proof -
  let ?full = "resolvePath (ec_dir ec) t" and ?s = "ec_state ec" and ?n = maxRecursionDepth
  obtain info es where st: "statEntry fs ?s ?full False = Inr info" and d: "fi_isDir info" "fi_mode info AND ModeSymlink = 0"
    and es: "fs_readdir fs ?s ?full = Inr es"
    using assms(3) by (rule readable_dirE)
  have nf: "\<not> du_followAll opts" "\<not> du_followCmdLine opts" using assms(1) by (simp_all add: follows_nothing_def)
  have st': "statEntry fs ?s ?full (du_followAll opts \<or> du_followCmdLine opts \<and> True) = Inr info" using st nf by simp
  have d': "\<not> (fi_mode info AND ModeSymlink \<noteq> 0 \<and> \<not> (du_followAll opts \<or> du_followCmdLine opts \<and> True) \<or> \<not> fi_isDir info)"
    using d by simp
  define r where "r = du_dirs opts (\<lambda>p d. du_calc ?n human fs ?s opts p d (0 + 1) False) ?full t 0 (sort_entries es)
    (du_files human fs ?s opts (\<lambda>p d. du_calc ?n human fs ?s opts p d (0 + 1) False) ?full t 0 (sort_entries es))"
  have run: "du_calc (Suc ?n) human fs ?s opts ?full t 0 True = (fst r @ du_line human opts (total r) t, total r, snd (snd r))"
    using du_calc_dir[OF st' d' es, where n = ?n and human = human and depth = 0 and disp = t, folded r_def] assms(2) by simp
  have "wrap64 (total r) = total r" unfolding r_def by (intro wrapped_dirs wrapped_files)
  moreover have "wrap64 (total r) = bytes"
    using du_calc_total[OF assms(1), of "Suc ?n" human fs ?s ?full t 0 True] run by (simp add: bytes_def total_def)
  moreover have "fst r = []" by (simp add: r_def fst_dirs fst_files assms(2))
  ultimately show "fst (du_target human fs ec opts t) = du_line human opts bytes t" "fst (snd (du_target human fs ec opts t)) = bytes"
    using st nf run by (simp_all add: du_target_def calculateSize_def)
qed

lemma foldl_wrap: "foldl (\<lambda>g r. wrap64 (g + f r)) (wrap64 g) rs = wrap64 (g + sum_list (map f rs))"
proof (induction rs arbitrary: g)
  case (Cons r rs)
  then show ?case using Cons[of "g + f r"] by (simp add: add.assoc)
qed simp

lemma wrap64_sum: "wrap64 (g + sum_list (map (\<lambda>t. wrap64 (f t)) ts)) = wrap64 (g + sum_list (map f ts))" for f :: "'a \<Rightarrow> int"
proof (induction ts arbitrary: g)
  case (Cons t ts)
  let ?x = "sum_list (map (\<lambda>t. wrap64 (f t)) ts)"
  have "wrap64 (g + (wrap64 (f t) + ?x)) = wrap64 (wrap64 (f t) + (g + ?x))" by (simp only: ac_simps)
  also have "\<dots> = wrap64 (f t + (g + ?x))" by (rule wrap64_add_left)
  also have "\<dots> = wrap64 ((g + f t) + ?x)" by (simp only: ac_simps)
  also have "\<dots> = wrap64 (g + f t + sum_list (map f ts))" by (rule Cons)
  finally show ?case by (simp only: list.map sum_list.Cons add.assoc)
qed simp

definition du_answer :: "(int \<Rightarrow> int \<Rightarrow> string) \<Rightarrow> duOptions \<Rightarrow> bool \<Rightarrow> int list \<Rightarrow> string list \<Rightarrow> string" where
  "du_answer human opts grand sizes targets =
     concat (map2 (\<lambda>n t. du_line human opts (wrap64 n) t) sizes targets) @
     (if grand then du_line human opts (wrap64 (sum_list sizes)) ''total'' else [])"


text \<open>A directory with a file of 1500 bytes and a directory with one of 700.\<close>

definition disk_info :: "fmode \<Rightarrow> int \<Rightarrow> file_info" where
  "disk_info m n = \<lparr>fi_name = [], fi_size = n, fi_mode = m, fi_mtime = 0, fi_dev = None\<rparr>"

definition disk_file :: "string \<Rightarrow> int \<Rightarrow> dir_entry" where
  "disk_file name n = \<lparr>de_name = name, de_type = 0, de_info = Inr (disk_info 0 n)\<rparr>"

definition disk_dir :: "string \<Rightarrow> dir_entry" where
  "disk_dir name = \<lparr>de_name = name, de_type = ModeDir, de_info = Inr (disk_info ModeDir 0)\<rparr>"

definition disk_fs :: "unit billy" where
  "disk_fs = \<lparr>fs_stat = (\<lambda>_ p. Inr (disk_info ModeDir 0)), fs_lstat = (\<lambda>_ p. Inr (disk_info ModeDir 0)),
     fs_readdir = (\<lambda>_ p. if p = ''.'' then Inr [disk_dir ''d'', disk_file ''a'' 1500]
                         else if p = ''d'' then Inr [disk_file ''.f'' 700] else Inl ENOTDIR),
     fs_open = (\<lambda>_ _. Inl ErrNotExist), fs_readlink = (\<lambda>_ _. Inl ErrNotExist),
     fs_remove = (\<lambda>st _. (None, st)), fs_symlinks = False\<rparr>"

definition disk_context :: "unit exec_context" where
  "disk_context = \<lparr>ec_stdin = None, ec_dir = [], ec_environ = Map.empty, ec_fs = Some disk_fs, ec_state = (), ec_runner = False\<rparr>"

lemma disk_modes [simp]:
  "fi_isDir (disk_info ModeDir n)" "\<not> fi_isDir (disk_info 0 n)" "fi_mode (disk_info m n) = m" "fi_size (disk_info m n) = n"
  "de_isDir (disk_dir name)" "\<not> de_isDir (disk_file name n)" "de_name (disk_dir name) = name" "de_name (disk_file name n) = name"
  "entry_size (disk_file name n) = n" "(ModeDir AND ModeSymlink) = 0"
  by (simp_all add: disk_info_def disk_dir_def disk_file_def entry_size_def kefka_defs)

lemma disk_paths: "resolvePath [] ''.'' = ''.''" "path_join [''.'', ''d''] = ''d''"
  by code_simp+

lemma disk_sum: "disk_bytes 1001 disk_fs () ''.'' = 2200"
proof -
  have n: "(1001::nat) = Suc (Suc 999)" by simp
  show ?thesis unfolding n disk_bytes.simps by (simp add: disk_fs_def statEntry_def disk_paths)
qed


section \<open>tree draws the listing\<close>

text \<open>The reference: the depth, the name shown and the kind of each entry, parents first.\<close>

fun tree_listing ::
  "nat \<Rightarrow> 's billy \<Rightarrow> 's \<Rightarrow> treeOptions \<Rightarrow> string \<Rightarrow> string \<Rightarrow> nat \<Rightarrow> (nat \<times> string \<times> bool) list option"
and tree_list_entries ::
  "nat \<Rightarrow> 's billy \<Rightarrow> 's \<Rightarrow> treeOptions \<Rightarrow> string \<Rightarrow> string \<Rightarrow> nat \<Rightarrow> (string \<times> bool) list \<Rightarrow> (nat \<times> string \<times> bool) list option"
where
  "tree_listing 0 fs s opts disp p depth = None"
| "tree_listing (Suc n) fs s opts disp p depth =
     (if (case to_maxDepth opts of None \<Rightarrow> False | Some m \<Rightarrow> int depth \<ge> m) then Some []
      else case fs_readdir fs s p of
        Inl _ \<Rightarrow> Some []
      | Inr es \<Rightarrow> tree_list_entries n fs s opts disp p depth (tree_infos opts es))"
| "tree_list_entries n fs s opts disp p depth [] = Some []"
| "tree_list_entries n fs s opts disp p depth ((name, isDir) # es) =
     (let d = tree_joinDisplay disp name
      in case (if isDir then tree_listing n fs s opts d (path_join [p, name]) (depth + 1) else Some []) of
           None \<Rightarrow> None
         | Some below \<Rightarrow>
             (case tree_list_entries n fs s opts disp p depth es of
                None \<Rightarrow> None
              | Some others \<Rightarrow> Some ((depth, if to_fullPath opts then d else name, isDir) # below @ others)))"

text \<open>Reading a drawing: four characters for each level, then the branch, then the name.\<close>

fun read_line :: "string \<Rightarrow> nat \<times> string" where
  "read_line (a # b # c # d # s) =
     (if [a, b, c, d] = ''|   '' \<or> [a, b, c, d] = ''    '' then (case read_line s of (k, t) \<Rightarrow> (Suc k, t)) else (0, s))"
| "read_line s = (0, s)"

definition read_drawing :: "string \<Rightarrow> (nat \<times> string) list" where
  "read_drawing out = map read_line (butlast (splitOn newline out))"

definition margin :: "bool list \<Rightarrow> string" where
  "margin bars = concat (map (\<lambda>b. if b then ''    '' else ''|   '') bars)"

lemma margin_snoc: "margin (bars @ [b]) = margin bars @ (if b then ''    '' else ''|   '')"
  by (simp add: margin_def)

lemma newline_margin [simp]: "newline \<notin> set (margin bars)"
  by (induction bars) (auto simp: margin_def)

lemma read_line_branch: "read_line (margin bars @ (if last' then backquote # ''-- '' else ''|-- '') @ shown) = (length bars, shown)"
  by (induction bars) (auto simp: margin_def)

definition branch :: "bool list \<Rightarrow> bool \<Rightarrow> string \<Rightarrow> string" where
  "branch bars isLast shown = margin bars @ (if isLast then backquote # ''-- '' else ''|-- '') @ shown"

lemma tree_line_branch: "tree_line (margin bars) isLast shown = branch bars isLast shown @ nl"
  by (simp add: tree_line_def branch_def)

text \<open>What a walk adds to the result: the lines of a listing and its counts.\<close>

definition draws :: "treeResult \<Rightarrow> treeResult \<Rightarrow> (nat \<times> string \<times> bool) list \<Rightarrow> bool" where
  "draws r r' L \<longleftrightarrow>
     (\<exists>ls. tr_output r' = tr_output r @ concat (map (\<lambda>l. l @ nl) ls) \<and>
           map read_line ls = map (\<lambda>(d, t, _). (d, t)) L \<and>
           list_all2 (\<lambda>l (d, t, _). newline \<in> set l \<longleftrightarrow> newline \<in> set t) ls L) \<and>
     tr_stderr r' = tr_stderr r \<and>
     tr_dirCount r' = tr_dirCount r + length (filter (\<lambda>(_, _, b). b) L) \<and>
     tr_fileCount r' = tr_fileCount r + length (filter (\<lambda>(_, _, b). \<not> b) L)"

lemma draws_Nil: "draws r r []"
  by (auto simp: draws_def)

lemma draws_append: "draws r r1 L \<Longrightarrow> draws r1 r2 M \<Longrightarrow> draws r r2 (L @ M)"
proof -
  assume L: "draws r r1 L" and M: "draws r1 r2 M"
  obtain ls where ls: "tr_output r1 = tr_output r @ concat (map (\<lambda>l. l @ nl) ls)"
    "map read_line ls = map (\<lambda>(d, t, _). (d, t)) L" "list_all2 (\<lambda>l (d, t, _). newline \<in> set l \<longleftrightarrow> newline \<in> set t) ls L"
    using L by (auto simp: draws_def)
  obtain ms where ms: "tr_output r2 = tr_output r1 @ concat (map (\<lambda>l. l @ nl) ms)"
    "map read_line ms = map (\<lambda>(d, t, _). (d, t)) M" "list_all2 (\<lambda>l (d, t, _). newline \<in> set l \<longleftrightarrow> newline \<in> set t) ms M"
    using M by (auto simp: draws_def)
  show ?thesis unfolding draws_def
    by (intro conjI exI[of _ "ls @ ms"]) (use ls ms L M in \<open>auto simp: draws_def list_all2_appendI\<close>)
qed

lemma draws_one:
  "draws r (if b then r\<lparr>tr_output := tr_output r @ branch bars l t @ nl, tr_dirCount := Suc (tr_dirCount r)\<rparr>
            else r\<lparr>tr_output := tr_output r @ branch bars l t @ nl, tr_fileCount := Suc (tr_fileCount r)\<rparr>) [(length bars, t, b)]"
  unfolding draws_def
  by (intro conjI exI[of _ "[branch bars l t]"]) (auto simp: branch_def read_line_branch)

lemma tree_walk_draws:
  "pfx = margin bars \<Longrightarrow> depth = length bars \<Longrightarrow> tree_walk n fs s opts disp p pfx depth r = Some r' \<Longrightarrow>
     \<exists>L. tree_listing n fs s opts disp p depth = Some L \<and> draws r r' L"
  and tree_entries_draws:
  "pfx = margin bars \<Longrightarrow> depth = length bars \<Longrightarrow> tree_entries n fs s opts disp p pfx depth es r = Some r' \<Longrightarrow>
     \<exists>L. tree_list_entries n fs s opts disp p depth es = Some L \<and> draws r r' L"
proof (induction n fs s opts disp p pfx depth r and n fs s opts disp p pfx depth es r
    arbitrary: bars r' and bars r' rule: tree_walk_tree_entries.induct)
  case (2 n fs s opts disp p pfx depth r)
  then show ?case by (auto simp: draws_Nil split: if_splits sum.splits option.splits)
next
  case (3 n fs s opts disp p pfx depth r)
  then show ?case by (auto simp: draws_Nil)
next
  case (4 n fs s opts disp p pfx depth name isDir es r)
  let ?d = "tree_joinDisplay disp name"
  let ?shown = "if to_fullPath opts then ?d else name"
  let ?r1 = "r\<lparr>tr_output := tr_output r @ tree_line pfx (es = []) ?shown\<rparr>"
  let ?r2 = "if isDir then ?r1\<lparr>tr_dirCount := Suc (tr_dirCount ?r1)\<rparr> else ?r1\<lparr>tr_fileCount := Suc (tr_fileCount ?r1)\<rparr>"
  have one: "draws r ?r2 [(depth, ?shown, isDir)]"
    using draws_one[of r isDir bars "es = []" ?shown] 4(3,4)
    by (cases isDir; cases "to_fullPath opts") (simp_all add: tree_line_branch)
  show ?case
  proof (cases isDir)
    case True
    obtain r3 where walk: "tree_walk n fs s opts ?d (path_join [p, name]) (pfx @ (if es = [] then ''    '' else ''|   '')) (depth + 1) ?r2 = Some r3"
      and rest: "tree_entries n fs s opts disp p pfx depth es r3 = Some r'"
      using 4(5) True by (auto simp: Let_def split: option.splits)
    obtain L where L: "tree_listing n fs s opts ?d (path_join [p, name]) (depth + 1) = Some L" "draws ?r2 r3 L"
      using 4(1)[OF refl refl refl True, of "bars @ [es = []]" r3] walk True 4(3,4) by (auto simp: margin_snoc)
    obtain M where M: "tree_list_entries n fs s opts disp p depth es = Some M" "draws r3 r' M"
      using 4(2)[OF refl refl refl _ 4(3,4) rest] walk True by auto
    show ?thesis
      using draws_append[OF one draws_append[OF L(2) M(2)]] L(1) M(1) True by simp
  next
    case False
    have rest: "tree_entries n fs s opts disp p pfx depth es ?r2 = Some r'"
      using 4(5) False by (simp add: Let_def)
    obtain M where M: "tree_list_entries n fs s opts disp p depth es = Some M" "draws ?r2 r' M"
      using 4(2)[OF refl refl refl _ 4(3,4) rest] False by auto
    show ?thesis
      using draws_append[OF one M(2)] M(1) False by simp
  qed
qed simp_all

lemma read_drawing_lines:
  "\<forall>l \<in> set ls. newline \<notin> set l \<Longrightarrow> read_drawing (concat (map (\<lambda>l. l @ nl) ls)) = map read_line ls"
  by (simp add: read_drawing_def splitOn_lines)

definition tree_footer :: "treeOptions \<Rightarrow> (nat \<times> string \<times> bool) list \<Rightarrow> string" where
  "tree_footer opts L =
     (let ds = length (filter (\<lambda>(_, _, b). b) L); fs = length (filter (\<lambda>(_, _, b). \<not> b) L)
      in nl @ show_nat ds @ '' '' @ (if ds = 1 then ''directory'' else ''directories'') @
         (if to_directoriesOnly opts then [] else '', '' @ show_nat fs @ '' '' @ (if fs = 1 then ''file'' else ''files'')) @ nl)"


text \<open>With a depth limit the walk ends, whatever the filesystem does.\<close>

lemma tree_walk_limited:
  "to_maxDepth opts = Some m \<Longrightarrow> nat (m - int depth) < n \<Longrightarrow> \<exists>r'. tree_walk n fs s opts disp p pfx depth r = Some r'"
  and tree_entries_limited:
  "to_maxDepth opts = Some m \<Longrightarrow> int depth < m \<Longrightarrow> nat (m - int depth) \<le> n \<Longrightarrow> \<exists>r'. tree_entries n fs s opts disp p pfx depth es r = Some r'"
proof (induction n fs s opts disp p pfx depth r and n fs s opts disp p pfx depth es r rule: tree_walk_tree_entries.induct)
  case (2 n fs s opts disp p pfx depth r)
  show ?case
  proof (cases "int depth \<ge> m \<or> (\<exists>e. fs_readdir fs s p = Inl e)")
    case False
    then show ?thesis using 2 by (cases "fs_readdir fs s p") (simp_all add: not_le)
  qed (use 2(2) in auto)
next
  case (4 n fs s opts disp p pfx depth name isDir es r)
  have walk: "\<exists>r2. tree_walk n fs s opts (tree_joinDisplay disp name) (path_join [p, name]) (pfx @ (if es = [] then ''    '' else ''|   '')) (depth + 1)
    (r\<lparr>tr_output := tr_output r @ tree_line pfx (es = []) (if to_fullPath opts then tree_joinDisplay disp name else name),
       tr_dirCount := Suc (tr_dirCount r)\<rparr>) = Some r2" if isDir
    using 4(1)[OF refl refl refl that 4(3)] 4(4,5) by simp
  show ?case
    using walk 4(2)[OF refl refl refl _ 4(3-5)] by (cases isDir) (auto simp: Let_def)
qed simp_all

text \<open>with \<^verbatim>\<open>-L\<close> a level, tree ends on every filesystem, one with directory loops included, and
  one level of fuel more than the limit is enough.\<close>

theorem tree_limited_ends:
  fixes ec :: "'s exec_context"
  assumes "to_maxDepth (tf_opts fl) = Some m" "nat m < n"
  shows "\<exists>res. tree_Exec n ec (Inr fl) = Some res"
proof -
  have root: "\<exists>r'. walkRoot n fs ec (tf_opts fl) d r = Some r'" for fs :: "'s billy" and d r
    using tree_walk_limited[OF assms(1), of 0 n fs] assms(2)
    by (cases "fs_stat fs (ec_state ec) (resolvePath (ec_dir ec) d)") (simp_all add: walkRoot_def Let_def)
  have "\<exists>r'. walk_roots n fs ec (tf_opts fl) ds r = Some r'" for fs :: "'s billy" and ds r
  proof (induction ds arbitrary: r)
    case (Cons d ds)
    obtain r1 where "walkRoot n fs ec (tf_opts fl) d r = Some r1" using root by blast
    then show ?case using Cons by simp
  qed simp
  then show ?thesis by (cases "ec_fs ec") (auto simp: tree_Exec_def)
qed

definition disk_tree_flags :: tree_flags where
  "disk_tree_flags = \<lparr>tf_opts = \<lparr>to_showHidden = True, to_directoriesOnly = False, to_fullPath = False, to_maxDepth = Some 2\<rparr>,
     tf_help = False, tf_dirs = [''.'']\<rparr>"

theorem tree_limited_ends_witness:
  "\<exists>res. tree_Exec 3 (disk_context\<lparr>ec_fs := Some all_dirs\<rparr>) (Inr disk_tree_flags) = Some res"
  by (rule tree_limited_ends[where m = 2]) (simp_all add: disk_tree_flags_def)

lemma disk_listing:
  "tree_listing 3 disk_fs () (tf_opts disk_tree_flags) ''.'' ''.'' 0 = Some [(0, ''a'', False), (0, ''d'', True), (1, ''.f'', False)]"
proof -
  have n: "(3::nat) = Suc (Suc (Suc 0))" by simp
  have "tree_infos (tf_opts disk_tree_flags) [disk_dir ''d'', disk_file ''a'' 1500] = [(''a'', False), (''d'', True)]"
    "tree_infos (tf_opts disk_tree_flags) [disk_file ''.f'' 700] = [(''.f'', False)]"
    by code_simp+
  then show ?thesis unfolding n by (simp add: disk_fs_def disk_paths disk_tree_flags_def tree_joinDisplay_def)
qed


end
