(* ===== verification/Sophia.thy ===== *)
theory Sophia
  imports S3fs "HOL-Library.Sublist"
begin

text \<open>
  The SSH server (\<^verbatim>\<open>cmd/sophia/main.go\<close>): the options of the filesystem, the line discipline of
  a session as a machine of two goroutines (the pump, which distributes what the client types, and
  the shell loop, which runs commands) that share a mutex and the pipe of the foreground command,
  and the life of the sessions during a shutdown.  SSH, the terminal, the shell interpreter and the
  storage service are the environment: what they may do is a step.
\<close>

section \<open>Filesystem options\<close>

text \<open>
  The flags are arguments.  Without \<^verbatim>\<open>--fs-unix-metadata\<close> there is no option; the umask must be
  octal.  An error carries the flag it is about.
\<close>

definition buildFSOptions ::
  "(string \<Rightarrow> string option) \<Rightarrow> (string \<Rightarrow> string option) \<Rightarrow> bool \<Rightarrow> string \<Rightarrow> string \<Rightarrow> string
   \<Rightarrow> string + (s3fs \<Rightarrow> s3fs) list" where
  "buildFSOptions passwd groups fsUnixMetadata fsUser fsGroup fsUmask =
     (if \<not> fsUnixMetadata then Inr []
      else case LookupUID passwd fsUser of
        None \<Rightarrow> Inl ''--fs-user''
      | Some uid \<Rightarrow>
          (case LookupGID groups fsGroup of
             None \<Rightarrow> Inl ''--fs-group''
           | Some gid \<Rightarrow>
               (case parseUint fsUmask 8 32 of
                  None \<Rightarrow> Inl ''--fs-umask''
                | Some umask \<Rightarrow> Inr [WithUnixMetadata uid gid (of_nat umask)])))"

section \<open>Echo and lines\<close>

abbreviation carriage :: char where "carriage \<equiv> CHR 0x0D"
abbreviation ctrl_d :: char where "ctrl_d \<equiv> CHR 0x04"

text \<open>
  The writes of \<^verbatim>\<open>echoLineDiscipline\<close>, one after the other.  \<open>pending\<close> is the part of the buffer
  from \<^verbatim>\<open>start\<close> to the byte looked at.
\<close>

fun echo_loop :: "string \<Rightarrow> string \<Rightarrow> string list" where
  "echo_loop pending [] = (if pending \<noteq> [] then [pending] else [])"
| "echo_loop pending (b # buf) =
     (if b = newline
      then (if pending \<noteq> [] then [pending] else []) @ [[carriage, newline]] @ echo_loop [] buf
      else echo_loop (pending @ [b]) buf)"

definition echoLineDiscipline :: "string \<Rightarrow> string list" where
  "echoLineDiscipline buf = echo_loop [] buf"

text \<open>
  \<^verbatim>\<open>termLineReader.Read\<close>: what is left of the last line, and what the terminal will answer, a line
  or the error that ends it.
\<close>

record 'e line_reader =
  lr_buf :: string
  lr_term :: "('e + string) list"

fun ReadLine :: "'e \<Rightarrow> ('e + string) list \<Rightarrow> ('e + string) \<times> ('e + string) list" where
  "ReadLine eof [] = (Inl eof, [])"
| "ReadLine eof (l # ls) = (l, ls)"

definition reader_Read :: "'e \<Rightarrow> nat \<Rightarrow> 'e line_reader \<Rightarrow> ('e + string) \<times> 'e line_reader" where
  "reader_Read eof n r =
     (if lr_buf r = [] then
        (case ReadLine eof (lr_term r) of
           (Inl e, ls) \<Rightarrow> (Inl e, r\<lparr>lr_term := ls\<rparr>)
         | (Inr line, ls) \<Rightarrow> (Inr (take n (line @ nl)), r\<lparr>lr_buf := drop n (line @ nl), lr_term := ls\<rparr>))
      else (Inr (take n (lr_buf r)), r\<lparr>lr_buf := drop n (lr_buf r)\<rparr>))"

text \<open>What a pump iteration makes of a chunk: line feeds for carriage returns, up to a Ctrl-D.\<close>

definition icrnl :: "string \<Rightarrow> string" where
  "icrnl buf = map (\<lambda>b. if b = carriage then newline else b) buf"

definition before_eof :: "string \<Rightarrow> string" where
  "before_eof buf = takeWhile (\<lambda>b. b \<noteq> ctrl_d) buf"

definition has_eof :: "string \<Rightarrow> bool" where
  "has_eof buf \<longleftrightarrow> ctrl_d \<in> set buf"

section \<open>A session: the pump and the shell loop\<close>

text \<open>
  Where the pump is: reading from the client; waiting for the mutex with the bytes for the command
  and whether to close its pipe; writing while it holds the mutex; closing down after the client has
  gone; gone.  Where the loop is: at the prompt; between the creation of the pipe and its
  publication; before and after the flag is set; in the command; after it; after the flag is
  cleared; after the pipe is withdrawn; returned.
\<close>

datatype pump_pc = PumpRead | PumpLock string bool | PumpWrite string bool | PumpClosing | PumpDone

datatype loop_pc = LoopPrompt | LoopPipe | LoopPublished | LoopRun | LoopEnded | LoopCleared | LoopWithdrawn | LoopReturned

text \<open>The pipe of the foreground command: the bytes in it, and whether its write end is open.\<close>

record cmd_pipe =
  cp_data :: string
  cp_open :: bool

text \<open>
  \<open>cmdStdinW\<close> says that the shared variable is not nil: it then is the write end of the current
  pipe.  \<open>holding\<close> says that the pump holds \<^verbatim>\<open>cmdMu\<close>; the loop holds it only within one step.
  The last three fields record what happened: the bytes the client typed, translated; those handed
  on, each with its destination; and those echoed.
\<close>

datatype dest = ToPrompt | ToCommand

record session =
  se_pump :: pump_pc
  se_loop :: loop_pc
  se_holding :: bool
  se_active :: bool
  se_pipe :: "cmd_pipe option"
  se_cmdStdinW :: bool
  se_typed :: string
  se_given :: "(dest \<times> char) list"
  se_echo :: string

definition session_start :: session where
  "session_start =
     \<lparr>se_pump = PumpRead, se_loop = LoopPrompt, se_holding = False, se_active = False, se_pipe = None,
      se_cmdStdinW = False, se_typed = [], se_given = [], se_echo = []\<rparr>"

text \<open>
  Closing the write end and setting the variable to nil.
\<close>

definition withdraw :: "session \<Rightarrow> session" where
  "withdraw s =
     (if se_cmdStdinW s
      then s\<lparr>se_pipe := map_option (\<lambda>p. p\<lparr>cp_open := False\<rparr>) (se_pipe s), se_cmdStdinW := False\<rparr>
      else s)"

text \<open>
  One iteration of the pump on a chunk, up to the mutex: the flag is read once.  While a command
  runs, the bytes before a Ctrl-D are echoed and are for the command, and what follows the Ctrl-D is
  dropped; otherwise all is for the prompt.
\<close>

definition pump_chunk :: "string \<Rightarrow> session \<Rightarrow> session" where
  "pump_chunk chunk s =
     (let buf = icrnl chunk; s1 = s\<lparr>se_typed := se_typed s @ buf\<rparr>
      in if se_active s then
           s1\<lparr>se_pump := PumpLock (before_eof buf) (has_eof buf),
              se_echo := se_echo s @ concat (echoLineDiscipline (before_eof buf))\<rparr>
         else s1\<lparr>se_given := se_given s @ map (Pair ToPrompt) buf\<rparr>)"

text \<open>With the mutex: a nil variable drops the bytes.\<close>

definition pump_locked :: "string \<Rightarrow> bool \<Rightarrow> session \<Rightarrow> session" where
  "pump_locked data eof s =
     (if se_cmdStdinW s then s\<lparr>se_pump := PumpWrite data eof, se_holding := True\<rparr>
      else s\<lparr>se_pump := PumpRead\<rparr>)"

text \<open>A part of the data goes into the pipe, as much as there is room for; a write blocks without room.\<close>

definition pump_write :: "nat \<Rightarrow> session \<Rightarrow> session" where
  "pump_write k s =
     (case (se_pump s, se_pipe s) of
        (PumpWrite data eof, Some p) \<Rightarrow>
          s\<lparr>se_pump := PumpWrite (drop k data) eof, se_pipe := Some (p\<lparr>cp_data := cp_data p @ take k data\<rparr>),
            se_given := se_given s @ map (Pair ToCommand) (take k data)\<rparr>
      | _ \<Rightarrow> s)"

definition pump_unlock :: "bool \<Rightarrow> session \<Rightarrow> session" where
  "pump_unlock eof s = (if eof then withdraw s else s)\<lparr>se_pump := PumpRead, se_holding := False\<rparr>"

definition room :: "nat \<Rightarrow> session \<Rightarrow> nat" where
  "room cap s = (case se_pipe s of None \<Rightarrow> 0 | Some p \<Rightarrow> cap - length (cp_data p))"

definition pumpBuffer :: nat where
  "pumpBuffer = 4096"

text \<open>
  The steps, for pipes that hold \<open>cap\<close> bytes.  Those of the environment are the
  arrival of a chunk, the end of the connection, a line at the prompt, and the command that reads
  its input or ends.
\<close>

inductive tty_step :: "nat \<Rightarrow> session \<Rightarrow> session \<Rightarrow> bool" for cap :: nat where
  chunk: "se_pump s = PumpRead \<Longrightarrow> c \<noteq> [] \<Longrightarrow> length c \<le> pumpBuffer \<Longrightarrow> tty_step cap s (pump_chunk c s)"
| disconnect: "se_pump s = PumpRead \<Longrightarrow> tty_step cap s (s\<lparr>se_pump := PumpClosing\<rparr>)"
| lock: "se_pump s = PumpLock data eof \<Longrightarrow> \<not> se_holding s \<Longrightarrow> tty_step cap s (pump_locked data eof s)"
| write_part: "se_pump s = PumpWrite data eof \<Longrightarrow> data \<noteq> [] \<Longrightarrow> 0 < k \<Longrightarrow> k \<le> room cap s \<Longrightarrow> k \<le> length data \<Longrightarrow>
    tty_step cap s (pump_write k s)"
| written: "se_pump s = PumpWrite [] eof \<Longrightarrow> tty_step cap s (pump_unlock eof s)"
| pump_ends: "se_pump s = PumpClosing \<Longrightarrow> \<not> se_holding s \<Longrightarrow> tty_step cap s ((withdraw s)\<lparr>se_pump := PumpDone\<rparr>)"
| statement: "se_loop s = LoopPrompt \<Longrightarrow>
    tty_step cap s (s\<lparr>se_loop := LoopPipe, se_pipe := Some \<lparr>cp_data = [], cp_open = True\<rparr>\<rparr>)"
| publish: "se_loop s = LoopPipe \<Longrightarrow> \<not> se_holding s \<Longrightarrow>
    tty_step cap s (s\<lparr>se_loop := LoopPublished, se_cmdStdinW := True\<rparr>)"
| activate: "se_loop s = LoopPublished \<Longrightarrow> tty_step cap s (s\<lparr>se_loop := LoopRun, se_active := True\<rparr>)"
| consume: "se_loop s = LoopRun \<Longrightarrow> se_pipe s = Some p \<Longrightarrow> 0 < k \<Longrightarrow> k \<le> length (cp_data p) \<Longrightarrow>
    tty_step cap s (s\<lparr>se_pipe := Some (p\<lparr>cp_data := drop k (cp_data p)\<rparr>)\<rparr>)"
| command_ends: "se_loop s = LoopRun \<Longrightarrow> tty_step cap s (s\<lparr>se_loop := LoopEnded\<rparr>)"
| clear_active: "se_loop s = LoopEnded \<Longrightarrow> tty_step cap s (s\<lparr>se_loop := LoopCleared, se_active := False\<rparr>)"
| withdrawn: "se_loop s = LoopCleared \<Longrightarrow> \<not> se_holding s \<Longrightarrow> tty_step cap s ((withdraw s)\<lparr>se_loop := LoopWithdrawn\<rparr>)"
| close_read: "se_loop s = LoopWithdrawn \<Longrightarrow> tty_step cap s (s\<lparr>se_loop := LoopPrompt, se_pipe := None\<rparr>)"
| exited: "se_loop s = LoopWithdrawn \<Longrightarrow> tty_step cap s (s\<lparr>se_loop := LoopReturned, se_pipe := None\<rparr>)"
| input_ends: "se_loop s = LoopPrompt \<Longrightarrow> se_pump s = PumpDone \<Longrightarrow> tty_step cap s (s\<lparr>se_loop := LoopReturned\<rparr>)"

inductive tty_states :: "nat \<Rightarrow> session \<Rightarrow> bool" for cap :: nat where
  start: "tty_states cap session_start"
| step: "tty_states cap s \<Longrightarrow> tty_step cap s s' \<Longrightarrow> tty_states cap s'"

section \<open>Sessions and the shutdown\<close>

text \<open>
  A session handler has been started by the SSH library, has entered (and is counted), has made the
  fork of the bucket, has attempted to delete it or failed before, or is done.  \<open>late\<close> marks a
  session that entered after the wait had returned.  The server is serving, stops (shutting down
  connections or closing them), waits for the counter, has seen it at zero, or has exited: cleanly,
  by the timeout, or because listening failed.
\<close>

datatype handler = Started | Entered | Forked | Leaving | Done
datatype server_pc = Serving | Stopping | Waiting | WaitReturned | ExitClean | ExitForced | ExitError

record server =
  sv_pc :: server_pc
  sv_handlers :: "nat \<Rightarrow> handler option"
  sv_late :: "nat \<Rightarrow> bool"
  sv_count :: nat

definition server_start :: server where
  "server_start = \<lparr>sv_pc = Serving, sv_handlers = Map.empty, sv_late = (\<lambda>_. False), sv_count = 0\<rparr>"

definition running :: "server \<Rightarrow> bool" where
  "running v \<longleftrightarrow> sv_pc v \<notin> {ExitClean, ExitForced, ExitError}"

definition set_handler :: "nat \<Rightarrow> handler \<Rightarrow> server \<Rightarrow> server" where
  "set_handler i h v = v\<lparr>sv_handlers := (sv_handlers v)(i \<mapsto> h)\<rparr>"

inductive server_step :: "server \<Rightarrow> server \<Rightarrow> bool" where
  accept: "sv_pc v \<in> {Serving, Stopping} \<Longrightarrow> sv_handlers v i = None \<Longrightarrow> server_step v (set_handler i Started v)"
| enter: "running v \<Longrightarrow> sv_handlers v i = Some Started \<Longrightarrow>
    server_step v ((set_handler i Entered v)\<lparr>sv_count := Suc (sv_count v), sv_late := (sv_late v)(i := sv_pc v = WaitReturned)\<rparr>)"
| fork: "running v \<Longrightarrow> sv_handlers v i = Some Entered \<Longrightarrow> server_step v (set_handler i Forked v)"
| fork_fails: "running v \<Longrightarrow> sv_handlers v i = Some Entered \<Longrightarrow> server_step v (set_handler i Leaving v)"
| delete: "running v \<Longrightarrow> sv_handlers v i = Some Forked \<Longrightarrow> server_step v (set_handler i Leaving v)"
| leave: "running v \<Longrightarrow> sv_handlers v i = Some Leaving \<Longrightarrow>
    server_step v ((set_handler i Done v)\<lparr>sv_count := sv_count v - 1\<rparr>)"
| serve_fails: "sv_pc v = Serving \<Longrightarrow> server_step v (v\<lparr>sv_pc := ExitError\<rparr>)"
| shutdown: "sv_pc v = Serving \<Longrightarrow> server_step v (v\<lparr>sv_pc := Stopping\<rparr>)"
| stopped: "sv_pc v = Stopping \<Longrightarrow> server_step v (v\<lparr>sv_pc := Waiting\<rparr>)"
| wait_returns: "sv_pc v = Waiting \<Longrightarrow> sv_count v = 0 \<Longrightarrow> server_step v (v\<lparr>sv_pc := WaitReturned\<rparr>)"
| clean_exit: "sv_pc v = WaitReturned \<Longrightarrow> server_step v (v\<lparr>sv_pc := ExitClean\<rparr>)"
| force_timeout: "sv_pc v = Waiting \<Longrightarrow> server_step v (v\<lparr>sv_pc := ExitForced\<rparr>)"

inductive server_states :: "server \<Rightarrow> bool" where
  start: "server_states server_start"
| step: "server_states v \<Longrightarrow> server_step v v' \<Longrightarrow> server_states v'"

end
