(* ===== verification/Sophia_Properties.thy ===== *)
theory Sophia_Properties
  imports Sophia
begin

text \<open>
  What holds in every state of a session and of the server, and the two states that should not be
  reachable: a session whose goroutines wait for each other, and a bucket that outlives a clean exit.
\<close>

section \<open>Echo and lines\<close>

definition crlf :: "string \<Rightarrow> string" where
  "crlf s = concat (map (\<lambda>b. if b = newline then [carriage, newline] else [b]) s)"

lemma crlf_append [simp]: "crlf (s @ t) = crlf s @ crlf t"
  by (simp add: crlf_def)

lemma crlf_plain: "newline \<notin> set s \<Longrightarrow> crlf s = s"
  by (induction s) (auto simp: crlf_def)

lemma echo_loop_crlf: "newline \<notin> set pending \<Longrightarrow> concat (echo_loop pending buf) = crlf (pending @ buf)"
  by (induction pending buf rule: echo_loop.induct) (auto simp: crlf_plain, simp_all add: crlf_def)

lemma echo_crlf: "concat (echoLineDiscipline buf) = crlf buf"
  by (simp add: echoLineDiscipline_def echo_loop_crlf)

text \<open>Reads of the given sizes, until one fails: the bytes, and the reader after them.\<close>

fun reads :: "'e \<Rightarrow> nat list \<Rightarrow> 'e line_reader \<Rightarrow> string \<times> 'e line_reader" where
  "reads eof [] r = ([], r)"
| "reads eof (n # ns) r =
     (case reader_Read eof n r of
        (Inl _, r') \<Rightarrow> ([], r')
      | (Inr b, r') \<Rightarrow> (case reads eof ns r' of (bs, r'') \<Rightarrow> (b @ bs, r'')))"

definition unread :: "'e line_reader \<Rightarrow> string" where
  "unread r = lr_buf r @ concat (map (\<lambda>l. case l of Inr s \<Rightarrow> s @ nl | Inl _ \<Rightarrow> []) (lr_term r))"

lemma reader_Read_unread: "reader_Read eof n r = (Inr b, r') \<Longrightarrow> unread r = b @ unread r'"
proof (cases "lr_buf r = []")
  case True
  assume run: "reader_Read eof n r = (Inr b, r')"
  then obtain line ls where "lr_term r = Inr line # ls" "b = take n (line @ nl)" "r' = r\<lparr>lr_buf := drop n (line @ nl), lr_term := ls\<rparr>"
    using True by (cases "lr_term r") (auto simp: reader_Read_def split: sum.splits)
  then show ?thesis using True append_take_drop_id[of n "line @ nl"] by (simp add: unread_def del: take_append drop_append append_take_drop_id)
next
  case False
  assume "reader_Read eof n r = (Inr b, r')"
  then have "b = take n (lr_buf r)" "r' = r\<lparr>lr_buf := drop n (lr_buf r)\<rparr>" using False by (auto simp: reader_Read_def)
  then show ?thesis by (simp add: unread_def)
qed

lemma reads_in_order:
  "(\<forall>l \<in> set (lr_term r). \<exists>s. l = Inr s) \<Longrightarrow> unread r = fst (reads eof ns r) @ unread (snd (reads eof ns r))"
proof (induction ns arbitrary: r)
  case (Cons n ns)
  show ?case
  proof (cases "reader_Read eof n r")
    case (Pair res r')
    have "lr_term r' = lr_term r \<or> lr_term r' = tl (lr_term r)"
      using Pair by (cases "lr_term r") (auto simp: reader_Read_def split: if_splits sum.splits)
    then have ok: "\<forall>l \<in> set (lr_term r'). \<exists>s. l = Inr s"
      using Cons.prems by (cases "lr_term r") auto
    show ?thesis
    proof (cases res)
      case (Inl e)
      then have "unread r' = unread r"
        using Pair Cons.prems by (cases "lr_term r") (auto simp: reader_Read_def unread_def split: if_splits sum.splits)
      then show ?thesis using Pair Inl by simp
    next
      case (Inr b)
      then show ?thesis
        using Pair reader_Read_unread[of eof n r b r'] Cons.IH[OF ok] by (auto simp: case_prod_beta)
    qed
  qed
qed simp

section \<open>Sessions: the invariant\<close>

definition pending_input :: "session \<Rightarrow> string" where
  "pending_input s = (case se_pump s of PumpLock d _ \<Rightarrow> d | PumpWrite d _ \<Rightarrow> d | _ \<Rightarrow> [])"

definition published :: "loop_pc \<Rightarrow> bool" where
  "published l \<longleftrightarrow> l \<in> {LoopPublished, LoopRun, LoopEnded, LoopCleared}"

fun writing :: "pump_pc \<Rightarrow> bool" where
  "writing (PumpWrite _ _) = True"
| "writing _ = False"

text \<open>The pipe, the flag and the mutex agree with the two program counters.\<close>

fun pipe_at :: "loop_pc \<Rightarrow> cmd_pipe option \<Rightarrow> bool \<Rightarrow> bool" where
  "pipe_at LoopPrompt pipe w \<longleftrightarrow> pipe = None \<and> \<not> w"
| "pipe_at LoopReturned pipe w \<longleftrightarrow> pipe = None \<and> \<not> w"
| "pipe_at LoopPipe pipe w \<longleftrightarrow> (\<exists>p. pipe = Some p \<and> cp_open p) \<and> \<not> w"
| "pipe_at LoopWithdrawn pipe w \<longleftrightarrow> (\<exists>p. pipe = Some p \<and> \<not> cp_open p) \<and> \<not> w"
| "pipe_at _ pipe w \<longleftrightarrow> (\<exists>p. pipe = Some p \<and> cp_open p = w)"

fun active_at :: "loop_pc \<Rightarrow> bool" where
  "active_at LoopRun = True"
| "active_at LoopEnded = True"
| "active_at _ = False"

definition pipe_inv :: "session \<Rightarrow> bool" where
  "pipe_inv s \<longleftrightarrow>
     pipe_at (se_loop s) (se_pipe s) (se_cmdStdinW s) \<and> se_active s = active_at (se_loop s) \<and>
     se_holding s = writing (se_pump s) \<and> (writing (se_pump s) \<longrightarrow> se_cmdStdinW s)"

lemma pipe_inv_reaches:
  "pipe_inv s \<Longrightarrow> se_cmdStdinW s \<Longrightarrow> published (se_loop s) \<and> (\<exists>p. se_pipe s = Some p \<and> cp_open p)"
  by (cases "se_loop s") (auto simp: pipe_inv_def published_def)

lemma pipe_inv_withdraw: "pipe_inv s \<Longrightarrow> pipe_at (se_loop s) (se_pipe (withdraw s)) False"
  by (cases "se_loop s") (auto simp: pipe_inv_def withdraw_def)

lemma pipe_inv_open_write:
  "pipe_inv s \<Longrightarrow> se_pipe s = Some p \<Longrightarrow> pipe_at (se_loop s) (Some (p\<lparr>cp_data := d\<rparr>)) (se_cmdStdinW s)"
  by (cases "se_loop s") (auto simp: pipe_inv_def)

lemma pipe_inv_start: "pipe_inv session_start"
  by (simp add: pipe_inv_def session_start_def)

lemma withdraw_simps [simp]:
  "se_pump (withdraw s) = se_pump s" "se_loop (withdraw s) = se_loop s" "se_holding (withdraw s) = se_holding s"
  "se_active (withdraw s) = se_active s" "se_typed (withdraw s) = se_typed s" "se_given (withdraw s) = se_given s"
  "\<not> se_cmdStdinW (withdraw s)"
  by (simp_all add: withdraw_def)

lemma pump_chunk_simps [simp]:
  "se_loop (pump_chunk c s) = se_loop s" "se_holding (pump_chunk c s) = se_holding s" "se_active (pump_chunk c s) = se_active s"
  "se_pipe (pump_chunk c s) = se_pipe s" "se_cmdStdinW (pump_chunk c s) = se_cmdStdinW s"
  "se_pump s = PumpRead \<Longrightarrow> \<not> writing (se_pump (pump_chunk c s))"
  by (simp_all add: pump_chunk_def Let_def)

lemma pipe_inv_step: "tty_step cap s s' \<Longrightarrow> pipe_inv s \<Longrightarrow> pipe_inv s'"
proof (induction rule: tty_step.induct)
  case (write_part s data eof k)
  then obtain p where "se_pipe s = Some p" using pipe_inv_reaches[of s] by (auto simp: pipe_inv_def)
  then show ?case
    using write_part(1,6) pipe_inv_open_write[OF write_part(6), of p "cp_data p @ take k data"] by (simp add: pump_write_def pipe_inv_def)
next
  case (written s eof)
  have "se_cmdStdinW s = True" using written by (simp add: pipe_inv_def)
  then show ?case
    using written(2) pipe_inv_withdraw[OF written(2)] by (cases eof) (simp_all add: pump_unlock_def pipe_inv_def)
next
  case (pump_ends s)
  then show ?case
    using pipe_inv_withdraw[OF pump_ends(3)] by (simp add: pipe_inv_def)
next
  case (consume s p k)
  then show ?case using pipe_inv_open_write[OF consume(5), of p "drop k (cp_data p)"] by (simp add: pipe_inv_def)
next
  case (withdrawn s)
  then show ?case by (cases "se_cmdStdinW s") (auto simp: pipe_inv_def withdraw_def)
qed (auto simp: pipe_inv_def pump_locked_def)

lemma pipe_inv: "tty_states cap s \<Longrightarrow> pipe_inv s"
  by (induction rule: tty_states.induct) (auto intro: pipe_inv_start pipe_inv_step)


section \<open>Sessions: what the client types\<close>

definition input_inv :: "session \<Rightarrow> bool" where
  "input_inv s \<longleftrightarrow>
     subseq (map snd (se_given s) @ pending_input s) (se_typed s) \<and>
     carriage \<notin> set (se_typed s) \<and> ctrl_d \<notin> set (pending_input s) \<and> (ToCommand, ctrl_d) \<notin> set (se_given s)"

lemma subseq_appendD: "subseq (a @ b) c \<Longrightarrow> subseq a c"
  by (metis append.right_neutral list_emb_append_mono list_emb_Nil subseq_order.order_refl subseq_order.trans)

lemma icrnl_no_carriage: "carriage \<notin> set (icrnl buf)"
  by (auto simp: icrnl_def)

lemma before_eof_no_eof: "ctrl_d \<notin> set (before_eof buf)"
  unfolding before_eof_def by (induction buf) auto

lemma subseq_before_eof: "subseq (before_eof buf) buf"
  unfolding before_eof_def by (induction buf) auto

lemma input_inv_pump_write:
  assumes "se_pump s = PumpWrite data eof" "input_inv s"
  shows "input_inv (pump_write k s)"
proof (cases "se_pipe s")
  case (Some p)
  have "map snd (se_given s) @ pending_input s = (map snd (se_given s) @ take k data) @ drop k data"
    using assms(1) by (simp add: pending_input_def)
  moreover have "set (take k data) \<subseteq> set data" "set (drop k data) \<subseteq> set data"
    by (rule set_take_subset, rule set_drop_subset)
  ultimately show ?thesis
    using assms Some by (auto simp: input_inv_def pump_write_def pending_input_def comp_def)
qed (use assms in \<open>simp add: pump_write_def split: pump_pc.splits\<close>)

lemma input_inv_step: "tty_step cap s s' \<Longrightarrow> input_inv s \<Longrightarrow> input_inv s'"
proof (induction rule: tty_step.induct)
  case (chunk s c)
  let ?b = "icrnl c"
  have p: "pending_input s = []" using chunk by (simp add: pending_input_def)
  have "subseq (map snd (se_given s) @ before_eof ?b) (se_typed s @ ?b)" "subseq (map snd (se_given s) @ ?b) (se_typed s @ ?b)"
    using chunk(4) p by (auto simp: input_inv_def intro: list_emb_append_mono subseq_before_eof)
  then show ?case
    using chunk(4) p icrnl_no_carriage[of c] before_eof_no_eof[of ?b]
    by (auto simp: input_inv_def pump_chunk_def Let_def pending_input_def comp_def)
next
  case (lock s data eof)
  have "subseq (map snd (se_given s)) (se_typed s)"
    using lock(3) by (auto simp: input_inv_def dest: subseq_appendD)
  then show ?case using lock by (auto simp: input_inv_def pump_locked_def pending_input_def)
next
  case (write_part s data eof k)
  then show ?case by (intro input_inv_pump_write)
next
  case (written s eof)
  then show ?case by (auto simp: input_inv_def pump_unlock_def pending_input_def)
qed (auto simp: input_inv_def pending_input_def split: pump_pc.splits)

lemma input_inv_start: "input_inv session_start"
  by (simp add: input_inv_def session_start_def pending_input_def)

lemma input_inv: "tty_states cap s \<Longrightarrow> input_inv s"
  by (induction rule: tty_states.induct) (auto intro: input_inv_start input_inv_step)

text \<open>C18: whatever the interleaving of the pump with the commands, a byte the client types is
  handed on at most once, to the prompt or to a command, and in the order of typing; neither gets a
  carriage return, and a command never gets a Ctrl-D.\<close>

theorem session_input_in_order:
  assumes "tty_states cap s"
  shows "subseq (map snd (se_given s)) (se_typed s) \<and> carriage \<notin> snd ` set (se_given s) \<and> (ToCommand, ctrl_d) \<notin> set (se_given s)"
proof -
  have inv: "input_inv s" using assms by (rule input_inv)
  then have sub: "subseq (map snd (se_given s)) (se_typed s)"
    by (auto simp: input_inv_def dest: subseq_appendD)
  have "b \<in> set (se_typed s)" if "b \<in> set (map snd (se_given s))" for b
    using list_emb_set[OF sub that] by auto
  then show ?thesis using sub inv by (fastforce simp: input_inv_def)
qed
section \<open>Sessions: the deadlock\<close>

definition stuck :: "nat \<Rightarrow> session \<Rightarrow> bool" where
  "stuck cap s \<longleftrightarrow> (\<forall>s'. \<not> tty_step cap s s')"

text \<open>The pump holds the mutex before a full pipe that nobody will read: the loop waits for the mutex.\<close>

definition deadlocked :: "nat \<Rightarrow> session \<Rightarrow> bool" where
  "deadlocked cap s \<longleftrightarrow>
     se_loop s = LoopCleared \<and> se_holding s \<and> room cap s = 0 \<and> (\<exists>data eof. se_pump s = PumpWrite data eof \<and> data \<noteq> [])"

lemma deadlocked_stuck: "deadlocked cap s \<Longrightarrow> stuck cap s"
  unfolding stuck_def
proof (intro allI notI)
  fix s' assume d: "deadlocked cap s" and step: "tty_step cap s s'"
  show False using step d by cases (auto simp: deadlocked_def)
qed

lemma stuck_deadlocked:
  assumes reach: "tty_states cap s" and stuck: "stuck cap s" and live: "\<not> (se_pump s = PumpDone \<and> se_loop s = LoopReturned)"
  shows "deadlocked cap s"
proof -
  have inv: "pipe_inv s" using reach by (rule pipe_inv)
  have no: "\<And>s'. \<not> tty_step cap s s'" using stuck by (simp add: stuck_def)
  have not_read: "se_pump s \<noteq> PumpRead" and loops: "se_loop s \<notin> {LoopPrompt, LoopPublished, LoopRun, LoopEnded, LoopWithdrawn}"
    using no tty_step.disconnect[of s cap] tty_step.statement[of s cap] tty_step.activate[of s cap] tty_step.command_ends[of s cap]
      tty_step.clear_active[of s cap] tty_step.close_read[of s cap] by auto
  show ?thesis
  proof (cases "se_pump s")
    case (PumpWrite data eof)
    have h: "se_holding s" "se_cmdStdinW s" "published (se_loop s)"
      using inv PumpWrite pipe_inv_reaches[OF inv] by (simp_all add: pipe_inv_def)
    then have "se_loop s = LoopCleared" using loops by (auto simp: published_def)
    moreover have "data \<noteq> []" using no tty_step.written[of s eof cap] PumpWrite by blast
    moreover have "room cap s = 0"
    proof (rule ccontr)
      assume "room cap s \<noteq> 0"
      then have "tty_step cap s (pump_write 1 s)"
        using PumpWrite \<open>data \<noteq> []\<close> by (intro tty_step.write_part[of s data eof 1]) (auto simp: Suc_le_eq)
      then show False using no by blast
    qed
    ultimately show ?thesis using h PumpWrite by (auto simp: deadlocked_def)
  next
    case (PumpLock data eof)
    then have "\<not> se_holding s" using inv by (simp add: pipe_inv_def)
    then show ?thesis using no tty_step.lock[OF PumpLock] by blast
  next
    case PumpClosing
    then have "\<not> se_holding s" using inv by (simp add: pipe_inv_def)
    then show ?thesis using no tty_step.pump_ends[OF PumpClosing] by blast
  next
    case PumpDone
    then have "\<not> se_holding s" using inv by (simp add: pipe_inv_def)
    then have "se_loop s \<noteq> LoopPipe" "se_loop s \<noteq> LoopCleared"
      using no tty_step.publish[of s cap] tty_step.withdrawn[of s cap] by auto
    then show ?thesis using live PumpDone loops by (cases "se_loop s") auto
  qed (use not_read in simp)
qed

text \<open>
  Filling the pipe of a command that does not read: a state in which the command runs and \<open>n\<close> bytes
  wait in its pipe.
\<close>

definition filled :: "nat \<Rightarrow> session \<Rightarrow> bool" where
  "filled n s \<longleftrightarrow>
     se_loop s = LoopRun \<and> se_pump s = PumpRead \<and> \<not> se_holding s \<and> se_active s \<and> se_cmdStdinW s \<and>
     (\<exists>p. se_pipe s = Some p \<and> length (cp_data p) = n)"

lemma filled_start: "\<exists>s. tty_states cap s \<and> filled 0 s"
proof -
  let ?s0 = "session_start"
  let ?s1 = "?s0\<lparr>se_loop := LoopPipe, se_pipe := Some \<lparr>cp_data = [], cp_open = True\<rparr>\<rparr>"
  let ?s2 = "?s1\<lparr>se_loop := LoopPublished, se_cmdStdinW := True\<rparr>"
  let ?s3 = "?s2\<lparr>se_loop := LoopRun, se_active := True\<rparr>"
  have "tty_states cap ?s0" by (rule tty_states.start)
  moreover have "tty_step cap ?s0 ?s1" by (rule tty_step.statement) (simp add: session_start_def)
  moreover have "tty_step cap ?s1 ?s2" by (rule tty_step.publish) (simp_all add: session_start_def)
  moreover have "tty_step cap ?s2 ?s3" by (rule tty_step.activate) (simp add: session_start_def)
  ultimately have "tty_states cap ?s3" by (meson tty_states.step)
  moreover have "filled 0 ?s3" by (simp add: filled_def session_start_def)
  ultimately show ?thesis by blast
qed

lemma before_eof_a: "before_eof (icrnl (replicate n (CHR ''a''))) = replicate n (CHR ''a'')" "\<not> has_eof (icrnl (replicate n (CHR ''a'')))"
  by (simp_all add: before_eof_def icrnl_def has_eof_def takeWhile_eq_all_conv)

lemma typed_chunk:
  assumes "tty_states cap s" "filled n s" "0 < k" "k \<le> pumpBuffer"
  obtains s' where "tty_states cap s'" "se_pump s' = PumpWrite (replicate k (CHR ''a'')) False" "se_loop s' = LoopRun"
    "se_holding s'" "se_active s'" "se_cmdStdinW s'" "se_pipe s' = se_pipe s"
proof -
  let ?c = "replicate k (CHR ''a'')"
  let ?s1 = "pump_chunk ?c s" and ?s2 = "pump_locked ?c False (pump_chunk ?c s)"
  have f: "se_loop s = LoopRun" "se_pump s = PumpRead" "\<not> se_holding s" "se_active s" "se_cmdStdinW s"
    using assms(2) by (simp_all add: filled_def)
  have "tty_step cap s ?s1" by (rule tty_step.chunk) (use f assms(3,4) in simp_all)
  moreover have "tty_step cap ?s1 ?s2"
    by (rule tty_step.lock) (use f in \<open>simp_all add: pump_chunk_def Let_def before_eof_a\<close>)
  ultimately have "tty_states cap ?s2" using assms(1) by (meson tty_states.step)
  then show thesis by (rule that) (use f in \<open>simp_all add: pump_locked_def\<close>)
qed

lemma filled_more:
  assumes "tty_states cap s" "filled n s" "0 < k" "k \<le> pumpBuffer" "n + k \<le> cap"
  shows "\<exists>s'. tty_states cap s' \<and> filled (n + k) s'"
proof -
  obtain p where p: "se_pipe s = Some p" "length (cp_data p) = n" using assms(2) by (auto simp: filled_def)
  obtain s1 where s1: "tty_states cap s1" "se_pump s1 = PumpWrite (replicate k (CHR ''a'')) False" "se_loop s1 = LoopRun"
    "se_holding s1" "se_active s1" "se_cmdStdinW s1" "se_pipe s1 = se_pipe s"
    using typed_chunk[OF assms(1-4)] .
  let ?s2 = "pump_write k s1" and ?s3 = "pump_unlock False (pump_write k s1)"
  have w: "se_pump ?s2 = PumpWrite [] False" "se_loop ?s2 = LoopRun" "se_active ?s2" "se_cmdStdinW ?s2"
    "se_pipe ?s2 = Some (p\<lparr>cp_data := cp_data p @ replicate k (CHR ''a'')\<rparr>)"
    using s1 p by (simp_all add: pump_write_def)
  have "tty_step cap s1 ?s2"
    by (rule tty_step.write_part[OF s1(2)]) (use assms p s1(7) in \<open>simp_all add: room_def\<close>)
  moreover have "tty_step cap ?s2 ?s3" by (rule tty_step.written) (use w in simp)
  ultimately have "tty_states cap ?s3" using s1(1) by (meson tty_states.step)
  moreover have "filled (n + k) ?s3" using w p(2) by (simp add: filled_def pump_unlock_def)
  ultimately show ?thesis by blast
qed

lemma filled_any:
  assumes "n \<le> cap"
  shows "\<exists>s. tty_states cap s \<and> filled n s"
  using assms
proof (induction n)
  case 0
  then show ?case using filled_start by simp
next
  case (Suc n)
  then obtain s where "tty_states cap s" "filled n s" by auto
  then show ?case using filled_more[of cap s n 1] Suc.prems by (simp add: pumpBuffer_def)
qed

text \<open>C5: a session in which nothing can happen any more, although neither the client has gone nor
  the loop returned, is in exactly one situation: the pump blocks on the full pipe of a command that
  has ended without reading its input, while it holds the mutex that the loop needs to withdraw and
  close that pipe.  The situation is reachable, whatever the capacity of a pipe.\<close>

theorem session_deadlock:
  assumes "0 < cap"
  shows "(\<forall>s. tty_states cap s \<longrightarrow>
      (stuck cap s \<longleftrightarrow> deadlocked cap s \<or> se_pump s = PumpDone \<and> se_loop s = LoopReturned)) \<and>
    (\<exists>s. tty_states cap s \<and> deadlocked cap s)"
proof (intro conjI allI impI)
  fix s assume r: "tty_states cap s"
  have "stuck cap s" if "se_pump s = PumpDone \<and> se_loop s = LoopReturned"
    unfolding stuck_def
  proof (intro allI notI)
    fix s' assume "tty_step cap s s'"
    then show False using that by cases auto
  qed
  then show "stuck cap s \<longleftrightarrow> deadlocked cap s \<or> se_pump s = PumpDone \<and> se_loop s = LoopReturned"
    using stuck_deadlocked[OF r] deadlocked_stuck by blast
next
  obtain s where s: "tty_states cap s" "filled cap s" using filled_any[of cap cap] by auto
  obtain s1 where s1: "tty_states cap s1" "se_pump s1 = PumpWrite (replicate 1 (CHR ''a'')) False" "se_loop s1 = LoopRun"
    "se_holding s1" "se_active s1" "se_cmdStdinW s1" "se_pipe s1 = se_pipe s"
    using typed_chunk[OF s, of 1] by (auto simp: pumpBuffer_def)
  let ?s2 = "s1\<lparr>se_loop := LoopEnded\<rparr>"
  let ?s3 = "?s2\<lparr>se_loop := LoopCleared, se_active := False\<rparr>"
  have "tty_step cap s1 ?s2" by (rule tty_step.command_ends) (rule s1)
  moreover have "tty_step cap ?s2 ?s3" by (rule tty_step.clear_active) simp
  ultimately have "tty_states cap ?s3" using s1(1) by (meson tty_states.step)
  moreover have "deadlocked cap ?s3" using s1 s(2) by (auto simp: deadlocked_def filled_def room_def)
  ultimately show "\<exists>s. tty_states cap s \<and> deadlocked cap s" by blast
qed

theorem session_deadlock_witness: "\<exists>s. tty_states 65536 s \<and> stuck 65536 s \<and> se_pump s \<noteq> PumpDone"
proof -
  have c: "0 < (65536::nat)" by simp
  obtain s where s: "tty_states 65536 s" "deadlocked 65536 s" using session_deadlock[OF c] by blast
  then have "stuck 65536 s" by (intro deadlocked_stuck)
  moreover have "se_pump s \<noteq> PumpDone" using s(2) by (auto simp: deadlocked_def)
  ultimately show ?thesis using s(1) by blast
qed


theorem session_input_in_order_witness:
  "subseq (map snd (se_given (pump_chunk ''ls'' session_start))) (se_typed (pump_chunk ''ls'' session_start))"
proof -
  have "tty_step 65536 session_start (pump_chunk ''ls'' session_start)"
    by (rule tty_step.chunk) (simp_all add: session_start_def pumpBuffer_def)
  then have "tty_states 65536 (pump_chunk ''ls'' session_start)" by (rule tty_states.step[OF tty_states.start])
  then show ?thesis using session_input_in_order by blast
qed

section \<open>Sessions and the shutdown\<close>

text \<open>The handlers that the counter counts, and those that have a bucket.\<close>

fun counted :: "handler option \<Rightarrow> bool" where
  "counted (Some h) = (h \<in> {Entered, Forked, Leaving})"
| "counted None = False"

definition live :: "server \<Rightarrow> nat set" where
  "live v = {i. counted (sv_handlers v i)}"

definition server_inv :: "server \<Rightarrow> bool" where
  "server_inv v \<longleftrightarrow>
     finite (live v) \<and> sv_count v = card (live v) \<and>
     (sv_pc v \<in> {WaitReturned, ExitClean} \<longrightarrow> (\<forall>i \<in> live v. sv_late v i))"

lemma live_set_handler:
  "live (set_handler i h v) = (if counted (Some h) then insert i (live v) else live v - {i})"
  by (auto simp: live_def set_handler_def)

lemma live_updates [simp]:
  "live (v\<lparr>sv_pc := pc\<rparr>) = live v" "live (v\<lparr>sv_count := c\<rparr>) = live v" "live (v\<lparr>sv_count := c, sv_late := l\<rparr>) = live v"
  by (simp_all add: live_def)

lemma set_handler_simps [simp]:
  "sv_pc (set_handler i h v) = sv_pc v" "sv_count (set_handler i h v) = sv_count v" "sv_late (set_handler i h v) = sv_late v"
  by (simp_all add: set_handler_def)

lemma in_live: "sv_handlers v i = Some h \<Longrightarrow> i \<in> live v \<longleftrightarrow> h \<in> {Entered, Forked, Leaving}"
  by (simp add: live_def)

lemma server_inv_step: "server_step v v' \<Longrightarrow> server_inv v \<Longrightarrow> server_inv v'"
proof (induction rule: server_step.induct)
  case (accept v i)
  have "i \<notin> live v" using accept(2) by (simp add: live_def)
  then show ?case using accept by (auto simp: server_inv_def live_set_handler)
next
  case (enter v i)
  have "i \<notin> live v" using in_live[OF enter(2)] by simp
  then show ?case using enter by (auto simp: server_inv_def live_set_handler running_def)
next
  case (fork v i)
  have "insert i (live v) = live v" using in_live[OF fork(2)] by auto
  then show ?case using fork by (auto simp: server_inv_def live_set_handler)
next
  case (fork_fails v i)
  have "insert i (live v) = live v" using in_live[OF fork_fails(2)] by auto
  then show ?case using fork_fails by (auto simp: server_inv_def live_set_handler)
next
  case (delete v i)
  have "insert i (live v) = live v" using in_live[OF delete(2)] by auto
  then show ?case using delete by (auto simp: server_inv_def live_set_handler)
next
  case (leave v i)
  have "i \<in> live v" using in_live[OF leave(2)] by simp
  then show ?case using leave by (auto simp: server_inv_def live_set_handler)
qed (auto simp: server_inv_def)

lemma server_inv_start: "server_inv server_start"
  by (simp add: server_inv_def server_start_def live_def)

lemma server_inv: "server_states v \<Longrightarrow> server_inv v"
  by (induction rule: server_states.induct) (auto intro: server_inv_start server_inv_step)

text \<open>C20: when the server exits cleanly, a session whose bucket is still there entered after the
  wait for the sessions had returned: every session that had entered before has attempted to delete
  its bucket.  Such a late session is possible, so a clean exit does not exclude an orphaned bucket.\<close>

theorem clean_exit_orphans:
  "(\<forall>v i. server_states v \<longrightarrow> sv_pc v = ExitClean \<longrightarrow> sv_handlers v i = Some Forked \<longrightarrow> sv_late v i) \<and>
   (\<exists>v. server_states v \<and> sv_pc v = ExitClean \<and> sv_handlers v 0 = Some Forked)"
proof (intro conjI allI impI)
  fix v i assume v: "server_states v" "sv_pc v = ExitClean" "sv_handlers v i = Some Forked"
  then have "i \<in> live v" by (simp add: live_def)
  then show "sv_late v i" using server_inv[OF v(1)] v(2) by (simp add: server_inv_def)
next
  let ?v1 = "set_handler 0 Started server_start"
  let ?v2 = "?v1\<lparr>sv_pc := Stopping\<rparr>" let ?v3 = "?v2\<lparr>sv_pc := Waiting\<rparr>" let ?v4 = "?v3\<lparr>sv_pc := WaitReturned\<rparr>"
  let ?v5 = "(set_handler 0 Entered ?v4)\<lparr>sv_count := Suc (sv_count ?v4), sv_late := (sv_late ?v4)(0 := sv_pc ?v4 = WaitReturned)\<rparr>"
  let ?v6 = "set_handler 0 Forked ?v5" let ?v7 = "?v6\<lparr>sv_pc := ExitClean\<rparr>"
  note [simp] = server_start_def set_handler_def running_def
  have "server_step server_start ?v1" by (rule server_step.accept) simp_all
  moreover have "server_step ?v1 ?v2" by (rule server_step.shutdown) simp
  moreover have "server_step ?v2 ?v3" by (rule server_step.stopped) simp
  moreover have "server_step ?v3 ?v4" by (rule server_step.wait_returns) simp_all
  moreover have "server_step ?v4 ?v5" by (rule server_step.enter) simp_all
  moreover have "server_step ?v5 ?v6" by (rule server_step.fork) simp_all
  moreover have "server_step ?v6 ?v7" by (rule server_step.clean_exit) simp
  ultimately have "server_states ?v7" by (meson server_states.intros)
  then show "\<exists>v. server_states v \<and> sv_pc v = ExitClean \<and> sv_handlers v 0 = Some Forked"
    by (intro exI[of _ ?v7]) simp
qed

theorem clean_exit_orphans_witness: "\<exists>v. server_states v \<and> sv_pc v = ExitClean \<and> sv_handlers v 0 = Some Forked \<and> sv_late v 0"
  using clean_exit_orphans by blast

end
