(* ===== verification/Entry_Points.thy ===== *)
theory Entry_Points
  imports Registry Grep
begin

text \<open>
  The local shell (\<^verbatim>\<open>cmd/kefka/main.go\<close>): where its program comes from and the interactive
  loop; and the \<^verbatim>\<open>snapshot\<close> command of the SSH server
  (\<^verbatim>\<open>cmd/sophia/commands/snapshot/snapshot.go\<close>).  The interpreter, the flag parser, the encoders
  and the storage client are records of functions.
\<close>

section \<open>The local shell\<close>

text \<open>
  The interpreter: \<open>rl_new\<close> makes a runner (or fails), \<open>rl_run\<close> runs a parsed node under the
  deadline of the whole process or of one line; \<open>'w\<close> is the runner with everything it may change,
  its output included.
\<close>

datatype deadline = Whole_Process | One_Line

record ('p, 'w) runner_lib =
  rl_new :: "impl registry \<Rightarrow> string list \<Rightarrow> 'w \<Rightarrow> string + 'w"
  rl_parse :: "string \<Rightarrow> string \<Rightarrow> string + 'p"
  rl_reset :: "'w \<Rightarrow> 'w"
  rl_run :: "deadline \<Rightarrow> 'p \<Rightarrow> 'w \<Rightarrow> string option \<times> 'w"
  rl_exited :: "'w \<Rightarrow> bool"
  rl_print :: "string \<Rightarrow> 'w \<Rightarrow> 'w"
  rl_open :: "string \<Rightarrow> 'w \<Rightarrow> string + string"

text \<open>The command line and the standard input: its bytes, or what the parser's interactive sequence yields.\<close>

datatype 'p interactive = Broken string | Stmts "'p list" (incomplete: bool)

record 'p kefka_args =
  ka_command :: string
  ka_operands :: "string list"
  ka_terminal :: bool
  ka_stdin :: string
  ka_typed :: "'p interactive list"

definition kefka_environ :: "string list" where
  "kefka_environ =
     [''HOME=/'', ''IFS='' @ nl, ''MACHTYPE=x86_64-pc-linux-gnu'', ''HOSTTYPE=x86_64'',
      ''HOSTNAME=localhost'', ''PWD=/'', ''OLDPWD=/'', ''OPTIND=1'', ''KEFKA=1'',
      ''PATH=/usr/bin:/bin'']"

definition kefka_middleware ::
  "(impl \<Rightarrow> 's exec_context \<Rightarrow> string list \<Rightarrow> 's cmd_result) \<Rightarrow> impl registry \<Rightarrow>
   's exec_context \<Rightarrow> bool \<Rightarrow> string list \<Rightarrow> 's cmd_result" where
  "kefka_middleware impls reg hc stderr_set args = Exec impls reg hc stderr_set args"

definition runReader :: "('p, 'w) runner_lib \<Rightarrow> string \<Rightarrow> string \<Rightarrow> 'w \<Rightarrow> string option \<times> 'w" where
  "runReader L content name w =
     (case rl_parse L content name of
        Inl err \<Rightarrow> (Some err, w)
      | Inr prog \<Rightarrow> rl_run L Whole_Process prog (rl_reset L w))"

definition runFile :: "('p, 'w) runner_lib \<Rightarrow> string \<Rightarrow> 'w \<Rightarrow> string option \<times> 'w" where
  "runFile L fname w =
     (case rl_open L fname w of
        Inl err \<Rightarrow> (Some err, w)
      | Inr content \<Rightarrow> runReader L content fname w)"

text \<open>
  One line: its statements in order, until one leaves the shell; then the result is the error of
  that statement.  The errors of the others are dropped.
\<close>

fun run_line :: "('p, 'w) runner_lib \<Rightarrow> 'p list \<Rightarrow> 'w \<Rightarrow> string option option \<times> 'w" where
  "run_line L [] w = (None, w)"
| "run_line L (stmt # stmts) w =
     (let (err, w') = rl_run L One_Line stmt w
      in if rl_exited L w' then (Some err, w') else run_line L stmts w')"

fun interactive_loop :: "('p, 'w) runner_lib \<Rightarrow> 'p interactive list \<Rightarrow> 'w \<Rightarrow> string option \<times> 'w" where
  "interactive_loop L [] w = (None, w)"
| "interactive_loop L (Broken err # _) w = (Some err, w)"
| "interactive_loop L (Stmts stmts open_line # rest) w =
     (if open_line then interactive_loop L rest (rl_print L ''> '' w)
      else case run_line L stmts w of
             (Some err, w') \<Rightarrow> (err, w')
           | (None, w') \<Rightarrow> interactive_loop L rest (rl_print L ''$ '' w'))"

definition runInteractive :: "('p, 'w) runner_lib \<Rightarrow> 'p interactive list \<Rightarrow> 'w \<Rightarrow> string option \<times> 'w" where
  "runInteractive L typed w = interactive_loop L typed (rl_print L ''$ '' w)"

definition kefka_run :: "('p, 'w) runner_lib \<Rightarrow> 'p kefka_args \<Rightarrow> 'w \<Rightarrow> string option \<times> 'w" where
  "kefka_run L a w =
     (case rl_new L default_registry kefka_environ w of
        Inl err \<Rightarrow> (Some (''can't make shell: '' @ err), w)
      | Inr w \<Rightarrow>
          if ka_command a \<noteq> [] then runReader L (ka_command a) ''<argument>'' w
          else if length (ka_operands a) = 1 then runFile L (ka_operands a ! 0) w
          else if ka_terminal a then runInteractive L (ka_typed a) w
          else runReader L (ka_stdin a) ''<stdin>'' w)"

text \<open>The process: what \<^verbatim>\<open>main\<close> prints to the standard error, and the status it ends with.\<close>

definition kefka_main :: "('p, 'w) runner_lib \<Rightarrow> 'p kefka_args \<Rightarrow> 'w \<Rightarrow> string \<times> nat \<times> 'w" where
  "kefka_main L a w =
     (let (err, w') = kefka_run L a w
      in ((case err of None \<Rightarrow> [] | Some e \<Rightarrow> ''can't run shell: '' @ e @ nl), 0, w'))"

section \<open>Snapshots\<close>

record 't snapshot =
  sn_name :: "string option"
  sn_created :: "'t option"

record ('t, 'c) storage_client =
  sc_list :: "string \<Rightarrow> 'c \<Rightarrow> string + 't snapshot list"
  sc_create :: "string \<Rightarrow> string \<Rightarrow> 'c \<Rightarrow> (string + string option) \<times> 'c"
  sc_rfc3339 :: "'t \<Rightarrow> string"

record snapshotInfo =
  si_version :: string
  si_name :: string

record snap_flags =
  sf_json :: bool
  sf_list :: bool
  sf_name :: string
  sf_args :: "string list"

text \<open>
  The library around the command: the flag parser (which prints the usage itself before it reports
  that help was asked for), its table of flags, the JSON encoder, the table writer and \<^verbatim>\<open>%q\<close>.
\<close>

record ('t, 'c) snap_lib =
  sl_parse :: "string list \<Rightarrow> (bool \<times> string) + snap_flags"
  sl_defaults :: string
  sl_json_list :: "'t snapshot list \<Rightarrow> string"
  sl_json_info :: "snapshotInfo \<Rightarrow> string"
  sl_tabulate :: "string \<Rightarrow> string"
  sl_quote :: "string \<Rightarrow> string"

definition parseSnapshotName :: "unicode \<Rightarrow> string \<Rightarrow> string \<times> string" where
  "parseSnapshotName U raw =
     (let (version, rest, ok) = strCut raw '';''
      in if \<not> ok then (raw, [])
         else (version, trimPrefix (trimSpace U rest) ''name=''))"

definition snapshot_usage :: "('t, 'c) snap_lib \<Rightarrow> string" where
  "snapshot_usage L =
     ''Usage: snapshot [flags] [bucket]'' @ nl @
     ''      To list snapshots in the current bucket:'' @ nl @
     ''        snapshot --list'' @ nl @
     ''      To take a new snapshot in the current bucket:'' @ nl @
     ''        snapshot --name \"Human readable name here\" '' @ nl @
     nl @
     ''Environment Variables:'' @ nl @
     ''      BUCKET_NAME: the Tigris bucket to operate against (set by the platform)'' @ nl @
     nl @
     ''Flags:'' @ nl @
     sl_defaults L"

definition snapshot_row :: "unicode \<Rightarrow> ('t \<Rightarrow> string) \<Rightarrow> 't snapshot \<Rightarrow> string" where
  "snapshot_row U rfc3339 b =
     (let raw = (case sn_name b of None \<Rightarrow> [] | Some n \<Rightarrow> n);
          (version, snapName) = parseSnapshotName U raw;
          created = (case sn_created b of None \<Rightarrow> [] | Some t \<Rightarrow> rfc3339 t)
      in version @ tab # snapName @ tab # created @ nl)"

text \<open>The two modes: standard output, standard error, status and the storage afterwards.\<close>

definition snapshot_list ::
  "unicode \<Rightarrow> ('t, 'c) snap_lib \<Rightarrow> ('t, 'c) storage_client \<Rightarrow> bool \<Rightarrow> string \<Rightarrow> 'c
   \<Rightarrow> string \<times> string \<times> exit_result \<times> 'c" where
  "snapshot_list U L client useJSON bucket c =
     (case sc_list client bucket c of
        Inl err \<Rightarrow> ([], ''error listing snapshots for bucket '' @ sl_quote L bucket @ '': '' @ err,
                    ExitStatus 2, c)
      | Inr snapshots \<Rightarrow>
          if useJSON then (sl_json_list L snapshots, [], ExitOk, c)
          else (sl_tabulate L (''VERSION'' @ tab # ''NAME'' @ tab # ''CREATED'' @ nl @
                  concat (map (snapshot_row U (sc_rfc3339 client)) snapshots)), [], ExitOk, c))"

definition snapshot_create ::
  "('t, 'c) snap_lib \<Rightarrow> ('t, 'c) storage_client \<Rightarrow> bool \<Rightarrow> string \<Rightarrow> string \<Rightarrow> 'c
   \<Rightarrow> string \<times> string \<times> exit_result \<times> 'c" where
  "snapshot_create L client useJSON name bucket c =
     (if name = []
      then ([], ''when creating a snapshot, --name must be set'' @ nl @ snapshot_usage L, ExitStatus 2, c)
      else case sc_create client name bucket c of
        (Inl err, c') \<Rightarrow> ([], ''error creating snapshot for bucket '' @ sl_quote L bucket @ '': '' @ err,
                          ExitStatus 2, c')
      | (Inr header, c') \<Rightarrow>
          let info = \<lparr>si_version = (case header of None \<Rightarrow> [] | Some v \<Rightarrow> v), si_name = name\<rparr>
          in if useJSON then (sl_json_info L info, [], ExitOk, c')
             else (sl_tabulate L (''VERSION'' @ tab # ''NAME'' @ nl @
                     si_version info @ tab # si_name info @ nl), [], ExitOk, c'))"

definition snapshot_Exec ::
  "unicode \<Rightarrow> ('t, 'c) snap_lib \<Rightarrow> ('t, 'c) storage_client \<Rightarrow> 's exec_context \<Rightarrow> string list \<Rightarrow> 'c
   \<Rightarrow> string \<times> string \<times> exit_result \<times> 'c" where
  "snapshot_Exec U L client ec args c =
     (case sl_parse L args of
        Inl (help, err) \<Rightarrow>
          ([], (if help then snapshot_usage L else []) @ err @ nl, ExitStatus 2, c)
      | Inr f \<Rightarrow>
          (let arg0 = (case sf_args f of [] \<Rightarrow> [] | a # _ \<Rightarrow> a);
               var = (case ec_environ ec ''BUCKET_NAME'' of None \<Rightarrow> [] | Some v \<Rightarrow> v);
               bucket = (if arg0 \<noteq> [] then arg0 else var)
           in if bucket = []
              then ([], ''BUCKET_NAME not set and bucket not passed as argument'' @ nl @ snapshot_usage L,
                    ExitStatus 2, c)
              else if sf_list f then snapshot_list U L client (sf_json f) bucket c
              else snapshot_create L client (sf_json f) (sf_name f) bucket c))"

section \<open>What they do\<close>

lemma run_line_append:
  "run_line L (xs @ ys) w =
     (case run_line L xs w of
        (Some err, w') \<Rightarrow> (Some err, w')
      | (None, w') \<Rightarrow> run_line L ys w')"
  by (induction xs arbitrary: w) (auto split: prod.splits)

lemma run_line_stays:
  "(\<And>stmt w. \<not> rl_exited L (snd (rl_run L One_Line stmt w))) \<Longrightarrow> fst (run_line L stmts w) = None"
proof (induction stmts arbitrary: w)
  case (Cons stmt stmts)
  obtain err w' where r: "rl_run L One_Line stmt w = (err, w')" by fastforce
  with Cons.prems [of stmt w] have "\<not> rl_exited L w'" by simp
  with r Cons show ?case by simp
qed simp

text \<open>
  While no statement leaves the shell, an interactive session reports no error of a statement: it
  ends with the input, or with the first thing the parser cannot read.
\<close>

lemma interactive_reports_parser_only:
  assumes stay: "\<And>stmt w. \<not> rl_exited L (snd (rl_run L One_Line stmt w))"
  shows "fst (runInteractive L typed w) =
     (case dropWhile (\<lambda>i. \<exists>stmts b. i = Stmts stmts b) typed of
        Broken err # _ \<Rightarrow> Some err
      | _ \<Rightarrow> None)"
proof -
  have "fst (interactive_loop L typed w) =
     (case dropWhile (\<lambda>i. \<exists>stmts b. i = Stmts stmts b) typed of
        Broken err # _ \<Rightarrow> Some err
      | _ \<Rightarrow> None)" for w
  proof (induction typed arbitrary: w)
    case (Cons i typed)
    show ?case
    proof (cases i)
      case (Stmts stmts b)
      obtain w' where "run_line L stmts w = (None, w')"
        using run_line_stays [OF stay, of stmts w] by (metis prod.collapse)
      with Stmts Cons show ?thesis by simp
    qed simp
  qed simp
  then show ?thesis by (simp add: runInteractive_def)
qed

lemma rune_chunks_ascii: "of_char b < (0x80 :: nat) \<Longrightarrow> rune_chunks (b # s) = [b] # rune_chunks s"
  by (subst rune_chunks.simps) (simp add: decodeRune_def decode_bytes_def)

lemma trimSpace_skip: "IsSpace U 0x20 \<Longrightarrow> trimSpace U (CHR '' '' # s) = trimSpace U s"
  by (simp add: trimSpace_def Let_def rune_chunks_ascii decodeRune_def decode_bytes_def)

lemma strCut_byte: "c \<notin> set a \<Longrightarrow> strCut (a @ c # b) [c] = (a, b, True)"
proof -
  assume "c \<notin> set a"
  then have "strIndex (a @ c # b) [c] = Some (length a)"
    by (induction a) auto
  then show ?thesis by (simp add: strCut_def)
qed

text \<open>The names the storage service gives to snapshots: a version, a semicolon, a space and the name.\<close>

lemma parseSnapshotName_reads:
  assumes "CHR '';'' \<notin> set version" and "IsSpace U 0x20"
    and "trimSpace U (''name='' @ name) = ''name='' @ name"
  shows "parseSnapshotName U (version @ ''; name='' @ name) = (version, name)"
proof -
  have "strCut (version @ '';'' @ '' name='' @ name) '';'' = (version, '' name='' @ name, True)"
    using strCut_byte [OF assms(1), of "'' name='' @ name"] by simp
  then show ?thesis
    using assms(2,3) trimSpace_skip [of U "''name='' @ name"] trimPrefix_append [of "''name=''" name]
    by (simp add: parseSnapshotName_def)
qed

text \<open>A failing run prints nothing on the standard output; and only a successful parse that asks for a
  snapshot of a bucket reaches the storage service.\<close>

lemma snapshot_reports:
  assumes "snapshot_Exec U L client ec args c = (out, err, st, c')"
  shows "st = ExitOk \<and> err = [] \<or> st = ExitStatus 2 \<and> out = []"
  using assms
  by (auto simp: snapshot_Exec_def snapshot_list_def snapshot_create_def Let_def
      split: sum.splits prod.splits if_splits)

lemma snapshot_changes_by_create:
  assumes "snapshot_Exec U L client ec args c = (out, err, st, c')" and "c' \<noteq> c"
  obtains f bucket where "sl_parse L args = Inr f" and "\<not> sf_list f" and "sf_name f \<noteq> []"
    and "bucket \<noteq> []" and "c' = snd (sc_create client (sf_name f) bucket c)"
  using assms
  by (auto simp: snapshot_Exec_def snapshot_list_def snapshot_create_def Let_def
      split: sum.splits prod.splits if_splits)

end
