(* ===== verification/Sophia_Session.thy ===== *)
theory Sophia_Session
  imports Sophia Entry_Points S3fs_Properties
begin

text \<open>
  One SSH session from its start to its end (\<^verbatim>\<open>main\<close>, \<^verbatim>\<open>HandleSSH\<close> and \<^verbatim>\<open>runKefka\<close> of
  \<^verbatim>\<open>cmd/sophia/main.go\<close>): the registry, the fork of the bucket, the pipes, the shell and the loop
  over the statements that are typed, with what is undone on each way out.  What the goroutines do to
  each other is the machine of \<^verbatim>\<open>Sophia\<close>; here the session's own goroutine is followed.
\<close>

section \<open>The environment of a session\<close>

text \<open>
  The storage client, the pipes, the terminal and the interpreter, over a state \<open>'w\<close> that holds all
  of them.  \<open>ss_begin\<close> publishes the write end of a command's pipe, gives the read end to the
  interpreter and marks the command active; \<open>ss_finish\<close> undoes that and closes both ends.
\<close>

record ('p, 'c, 'w) session_lib =
  ss_client :: "'w \<Rightarrow> (string + 'c s3_client) \<times> 'w"
  ss_uuid :: "'w \<Rightarrow> string \<times> 'w"
  ss_fork :: "string \<Rightarrow> string \<Rightarrow> 'w \<Rightarrow> string option \<times> 'w"
  ss_delete :: "string \<Rightarrow> 'w \<Rightarrow> string option \<times> 'w"
  ss_pipe :: "'w \<Rightarrow> (string + nat) \<times> 'w"
  ss_close :: "nat \<Rightarrow> 'w \<Rightarrow> 'w"
  ss_write :: "string \<Rightarrow> 'w \<Rightarrow> 'w"
  ss_start :: "nat \<Rightarrow> nat \<Rightarrow> nat \<Rightarrow> 'w \<Rightarrow> 'w"
  ss_term :: "string \<Rightarrow> 'w \<Rightarrow> 'w"
  ss_prompt :: "string \<Rightarrow> 'w \<Rightarrow> 'w"
  ss_shell :: "impl registry \<Rightarrow> s3fs \<Rightarrow> string list \<Rightarrow> nat \<Rightarrow> nat \<Rightarrow> 'w \<Rightarrow> string option \<times> 'w"
  ss_begin :: "nat \<Rightarrow> 'w \<Rightarrow> 'w"
  ss_run :: "'p \<Rightarrow> 'w \<Rightarrow> string option \<times> 'w"
  ss_finish :: "nat \<Rightarrow> 'w \<Rightarrow> 'w"
  ss_exited :: "'w \<Rightarrow> bool"
  ss_errText :: "io_err \<Rightarrow> string"

text \<open>What the parser's interactive sequence yields.\<close>

datatype 'p typed_item = At_EOF | Parse_Error string | Typed "'p list" bool

section \<open>The loop over statements\<close>

text \<open>
  One line.  A statement for which there is no pipe is skipped with a message; the error of a
  statement is printed, unless it leaves the shell: then it is the result.
\<close>

fun run_statements :: "('p, 'c, 'w) session_lib \<Rightarrow> 'p list \<Rightarrow> 'w \<Rightarrow> string option option \<times> 'w" where
  "run_statements L [] w = (None, w)"
| "run_statements L (stmt # stmts) w =
     (case ss_pipe L w of
        (Inl perr, w) \<Rightarrow> run_statements L stmts (ss_term L (''stdin pipe: '' @ perr @ nl) w)
      | (Inr cmd, w) \<Rightarrow>
          (let (runErr, w) = ss_run L stmt (ss_begin L cmd w);
               w = ss_finish L cmd w
           in if ss_exited L w then (Some runErr, w)
              else run_statements L stmts (case runErr of None \<Rightarrow> w | Some e \<Rightarrow> ss_term L (e @ nl) w)))"

fun session_loop :: "('p, 'c, 'w) session_lib \<Rightarrow> 'p typed_item list \<Rightarrow> 'w \<Rightarrow> string option \<times> 'w" where
  "session_loop L [] w = (None, w)"
| "session_loop L (At_EOF # _) w = (None, w)"
| "session_loop L (Parse_Error err # rest) w =
     session_loop L rest (ss_prompt L ''$ '' (ss_term L (''parse error: '' @ err @ nl) w))"
| "session_loop L (Typed stmts open_line # rest) w =
     (if open_line then session_loop L rest (ss_prompt L ''> '' w)
      else case run_statements L stmts w of
             (Some err, w) \<Rightarrow> (err, w)
           | (None, w) \<Rightarrow> session_loop L rest (ss_prompt L ''$ '' w))"

section \<open>The session\<close>

definition sophia_registry :: "impl registry" where
  "sophia_registry = Register ''snapshot'' Snapshot default_registry"

definition sophia_environ :: "string \<Rightarrow> string list" where
  "sophia_environ sessBucket = kefka_environ @ [''BUCKET_NAME='' @ sessBucket]"

text \<open>Opening a pipe whose two ends are closed when the rest has returned.\<close>

definition with_pipe ::
  "('p, 'c, 'w) session_lib \<Rightarrow> string \<Rightarrow> (nat \<Rightarrow> 'w \<Rightarrow> string option \<times> 'w) \<Rightarrow> 'w \<Rightarrow> string option \<times> 'w" where
  "with_pipe L what rest w =
     (case ss_pipe L w of
        (Inl err, w) \<Rightarrow> (Some (''can't open '' @ what @ '' pipe: '' @ err), w)
      | (Inr p, w) \<Rightarrow> (let (r, w) = rest p w in (r, ss_close L p w)))"

definition session_shell ::
  "('p, 'c, 'w) session_lib \<Rightarrow> string \<Rightarrow> s3fs \<Rightarrow> 'p typed_item list \<Rightarrow> nat \<Rightarrow> nat \<Rightarrow> nat \<Rightarrow> 'w \<Rightarrow> string option \<times> 'w" where
  "session_shell L sessBucket fsys typed prompt out err w =
     (case ss_shell L sophia_registry fsys (sophia_environ sessBucket) out err (ss_start L prompt out err w) of
        (Some e, w) \<Rightarrow> (Some (''can't make shell: '' @ e), w)
      | (None, w) \<Rightarrow> session_loop L typed w)"

definition on_session_bucket ::
  "('p, 'c, 'w) session_lib \<Rightarrow> 'c s3_client \<Rightarrow> (s3fs \<Rightarrow> s3fs) list \<Rightarrow> string \<Rightarrow> 'p typed_item list \<Rightarrow> 'w \<Rightarrow> string option \<times> 'w" where
  "on_session_bucket L client fsOpts sessBucket typed w =
     (case NewS3FS (Some client) sessBucket fsOpts of
        Inl err \<Rightarrow> (Some (''can't setup s3fs: '' @ ss_errText L err), w)
      | Inr fsys \<Rightarrow>
          with_pipe L ''prompt'' (\<lambda>prompt.
            with_pipe L ''stdout'' (\<lambda>out.
              with_pipe L ''stderr'' (\<lambda>err. session_shell L sessBucket fsys typed prompt out err))) w)"

definition isolation_notice :: "string \<Rightarrow> string \<Rightarrow> string" where
  "isolation_notice bucket sessBucket =
     nl @ ''You are isolated to the bucket '' @ sessBucket @ '', which was automatically forked from '' @
     bucket @ '' on connection.'' @ nl @ nl"

text \<open>The deferred deletion runs last, and its error is only logged.\<close>

definition runKefka ::
  "('p, 'c, 'w) session_lib \<Rightarrow> (s3fs \<Rightarrow> s3fs) list \<Rightarrow> string \<Rightarrow> 'p typed_item list \<Rightarrow> 'w \<Rightarrow> string option \<times> 'w" where
  "runKefka L fsOpts bucket typed w =
     (case ss_client L w of
        (Inl err, w) \<Rightarrow> (Some (''can't make storage client: '' @ err), w)
      | (Inr client, w) \<Rightarrow>
          (let (sessID, w) = ss_uuid L w;
               sessBucket = bucket @ ''-'' @ sessID;
               w = ss_write L (isolation_notice bucket sessBucket) w
           in case ss_fork L bucket sessBucket w of
                (Some err, w) \<Rightarrow> (Some (''can't create per-session bucket fork: '' @ err), w)
              | (None, w) \<Rightarrow>
                  (let (result, w) = on_session_bucket L client fsOpts sessBucket typed w
                   in (result, snd (ss_delete L sessBucket w)))))"

definition HandleSSH ::
  "('p, 'c, 'w) session_lib \<Rightarrow> string \<Rightarrow> (s3fs \<Rightarrow> s3fs) list \<Rightarrow> string \<Rightarrow> 'p typed_item list \<Rightarrow> 'w \<Rightarrow> 'w" where
  "HandleSSH L motd fsOpts bucket typed w =
     (case runKefka L fsOpts bucket typed (ss_write L motd w) of
        (Some err, w) \<Rightarrow> ss_write L (''internal server error: '' @ err @ nl) w
      | (None, w) \<Rightarrow> w)"

text \<open>
  The process before it listens: both key files must be there, the options must be right and the host
  key must load; otherwise it ends with a message.
\<close>

definition sophia_start ::
  "(string \<Rightarrow> string option) \<Rightarrow> (string \<Rightarrow> string) \<Rightarrow> string \<Rightarrow> string \<Rightarrow> string + (s3fs \<Rightarrow> s3fs) list \<Rightarrow>
   (string \<Rightarrow> string option) \<Rightarrow> string + (s3fs \<Rightarrow> s3fs) list" where
  "sophia_start stat quote privateKey publicKey options hostKey =
     (case stat privateKey of
        Some err \<Rightarrow> Inl (''--ssh-private-key '' @ quote privateKey @ '': '' @ err)
      | None \<Rightarrow>
          (case stat publicKey of
             Some err \<Rightarrow> Inl (''--ssh-public-key '' @ quote publicKey @ '': '' @ err)
           | None \<Rightarrow>
               (case options of
                  Inl err \<Rightarrow> Inl err
                | Inr fsOpts \<Rightarrow>
                    (case hostKey privateKey of
                       Some err \<Rightarrow> Inl (''can't set SSH host key: '' @ err)
                     | None \<Rightarrow> Inr fsOpts))))"

section \<open>What a session leaves behind\<close>

text \<open>
  What the session relies on: forking makes a bucket that was not there or changes nothing, deleting
  removes the bucket or changes nothing, a new pipe is a new one, closing gives it back; nothing else
  touches buckets or the pipes that are open.
\<close>

definition keeps :: "('w \<Rightarrow> string set) \<Rightarrow> ('w \<Rightarrow> nat set) \<Rightarrow> 'w \<Rightarrow> 'w \<Rightarrow> bool" where
  "keeps bk pi w w' \<longleftrightarrow> bk w' = bk w \<and> pi w' = pi w"

definition session_laws ::
  "('p, 'c, 'w) session_lib \<Rightarrow> ('w \<Rightarrow> string set) \<Rightarrow> ('w \<Rightarrow> nat set) \<Rightarrow> bool" where
  "session_laws L bk pi \<longleftrightarrow>
     (\<forall>w. keeps bk pi w (snd (ss_client L w)) \<and> keeps bk pi w (snd (ss_uuid L w)) \<and>
        (\<forall>t. keeps bk pi w (ss_write L t w) \<and> keeps bk pi w (ss_term L t w) \<and> keeps bk pi w (ss_prompt L t w)) \<and>
        (\<forall>a b c. keeps bk pi w (ss_start L a b c w)) \<and>
        (\<forall>r f e a b. keeps bk pi w (snd (ss_shell L r f e a b w))) \<and>
        (\<forall>p. keeps bk pi w (snd (ss_run L p w))) \<and> (\<forall>c. keeps bk pi w (ss_begin L c w)) \<and>
        (\<forall>p. bk (ss_close L p w) = bk w \<and> pi (ss_close L p w) = pi w - {p}) \<and>
        (\<forall>c. bk (ss_finish L c w) = bk w \<and> pi (ss_finish L c w) = pi w - {c}) \<and>
        (case ss_pipe L w of
           (Inl _, w') \<Rightarrow> keeps bk pi w w'
         | (Inr p, w') \<Rightarrow> p \<notin> pi w \<and> bk w' = bk w \<and> pi w' = insert p (pi w)) \<and>
        (\<forall>src b. case ss_fork L src b w of
           (Some _, w') \<Rightarrow> keeps bk pi w w'
         | (None, w') \<Rightarrow> b \<notin> bk w \<and> bk w' = insert b (bk w) \<and> pi w' = pi w) \<and>
        (\<forall>b. case ss_delete L b w of
           (Some _, w') \<Rightarrow> keeps bk pi w w'
         | (None, w') \<Rightarrow> bk w' = bk w - {b} \<and> pi w' = pi w))"

lemma keeps_refl [simp]: "keeps bk pi w w"
  by (simp add: keeps_def)

lemma keeps_trans [trans]: "keeps bk pi a b \<Longrightarrow> keeps bk pi b c \<Longrightarrow> keeps bk pi a c"
  by (simp add: keeps_def)

lemma session_lawsD:
  assumes "session_laws L bk pi"
  shows "keeps bk pi w (snd (ss_client L w))" "keeps bk pi w (snd (ss_uuid L w))"
    "keeps bk pi w (ss_write L t w)" "keeps bk pi w (ss_term L t w)" "keeps bk pi w (ss_prompt L t w)"
    "keeps bk pi w (ss_start L a b c w)" "keeps bk pi w (snd (ss_shell L r f e a b w))"
    "keeps bk pi w (snd (ss_run L p w))" "keeps bk pi w (ss_begin L k w)"
    "bk (ss_close L k w) = bk w" "pi (ss_close L k w) = pi w - {k}"
    "bk (ss_finish L k w) = bk w" "pi (ss_finish L k w) = pi w - {k}"
    "ss_pipe L w = (Inl err, w') \<Longrightarrow> keeps bk pi w w'"
    "ss_pipe L w = (Inr k, w') \<Longrightarrow> k \<notin> pi w \<and> bk w' = bk w \<and> pi w' = insert k (pi w)"
    "ss_fork L src bucket w = (Some err, w') \<Longrightarrow> keeps bk pi w w'"
    "ss_fork L src bucket w = (None, w') \<Longrightarrow> bucket \<notin> bk w \<and> bk w' = insert bucket (bk w) \<and> pi w' = pi w"
    "ss_delete L bucket w = (Some err, w') \<Longrightarrow> keeps bk pi w w'"
    "ss_delete L bucket w = (None, w') \<Longrightarrow> bk w' = bk w - {bucket} \<and> pi w' = pi w"
  using assms unfolding session_laws_def by (fastforce split: prod.splits sum.splits option.splits)+

text \<open>A pipe that is opened, used by something that keeps the rest, and closed is gone.\<close>

lemma pipe_used:
  assumes "session_laws L bk pi" and "ss_pipe L w = (Inr k, w1)" and "keeps bk pi w1 w2"
  shows "keeps bk pi w (ss_close L k w2)" and "keeps bk pi w (ss_finish L k w2)"
  using assms session_lawsD(10-13)[OF assms(1), of k w2] session_lawsD(15)[OF assms(1,2)]
  by (auto simp: keeps_def)

lemma run_statements_keeps:
  assumes laws: "session_laws L bk pi"
  shows "keeps bk pi w (snd (run_statements L stmts w))"
proof (induction stmts arbitrary: w)
  case (Cons stmt stmts)
  show ?case
  proof (cases "ss_pipe L w")
    case (Pair r w1)
    show ?thesis
    proof (cases r)
      case (Inl err)
      then have "keeps bk pi w w1" using Pair session_lawsD(14)[OF laws] by simp
      then show ?thesis using Pair Inl Cons session_lawsD(4)[OF laws, of w1] by (simp add: keeps_def)
    next
      case (Inr k)
      obtain e w2 where run: "ss_run L stmt (ss_begin L k w1) = (e, w2)" by fastforce
      have "keeps bk pi w1 w2"
        using keeps_trans[OF session_lawsD(9)[OF laws, of w1 k] session_lawsD(8)[OF laws, of "ss_begin L k w1" stmt]] run by simp
      then have after: "keeps bk pi w (ss_finish L k w2)" using pipe_used(2)[OF laws _ \<open>keeps bk pi w1 w2\<close>] Pair Inr by simp
      then show ?thesis
        using Pair Inr run Cons session_lawsD(4)[OF laws, of "ss_finish L k w2"]
        by (simp add: keeps_def Let_def split: option.split)
    qed
  qed
qed simp

lemma session_loop_keeps:
  assumes laws: "session_laws L bk pi"
  shows "keeps bk pi w (snd (session_loop L typed w))"
proof (induction typed arbitrary: w)
  case (Cons i typed)
  note step = session_lawsD(4)[OF laws] session_lawsD(5)[OF laws] run_statements_keeps[OF laws]
  show ?case
  proof (cases i)
    case (Parse_Error err)
    then show ?thesis using Cons step by (simp add: keeps_def)
  next
    case (Typed stmts b)
    obtain r w1 where "run_statements L stmts w = (r, w1)" by fastforce
    then show ?thesis using Typed Cons step(2) step(3)[of w stmts] by (auto simp: keeps_def split: option.split)
  qed simp
qed simp

lemma with_pipe_keeps:
  assumes laws: "session_laws L bk pi" and body: "\<And>p w. keeps bk pi w (snd (body p w))"
  shows "keeps bk pi w (snd (with_pipe L what body w))"
proof (cases "ss_pipe L w")
  case (Pair r w1)
  show ?thesis
  proof (cases r)
    case (Inl err)
    then show ?thesis using Pair session_lawsD(14)[OF laws] by (simp add: with_pipe_def)
  next
    case (Inr k)
    obtain r' w2 where "body k w1 = (r', w2)" by fastforce
    then show ?thesis
      using Pair Inr pipe_used(1)[OF laws, of w k w1 w2] body[of w1 k] by (simp add: with_pipe_def)
  qed
qed

lemma session_shell_keeps:
  assumes laws: "session_laws L bk pi"
  shows "keeps bk pi w (snd (session_shell L b fsys typed prompt out err w))"
proof -
  obtain e w1 where sh: "ss_shell L sophia_registry fsys (sophia_environ b) out err (ss_start L prompt out err w) = (e, w1)"
    by fastforce
  have "keeps bk pi w w1"
    using keeps_trans[OF session_lawsD(6)[OF laws] session_lawsD(7)[OF laws]] sh by (metis snd_conv)
  then show ?thesis
    using sh session_loop_keeps[OF laws, of w1 typed]
    by (auto simp: session_shell_def intro: keeps_trans split: option.split)
qed

lemma on_session_bucket_keeps:
  assumes laws: "session_laws L bk pi"
  shows "keeps bk pi w (snd (on_session_bucket L C opts b typed w))"
  unfolding on_session_bucket_def
  by (auto split: sum.split intro!: with_pipe_keeps[OF laws] session_shell_keeps[OF laws])

lemma session_fs_of:
  assumes "NewS3FS (Some C) b opts = Inr fs" and "\<forall>opt \<in> set opts. \<exists>u g m. opt = WithUnixMetadata u g m"
  shows "s3_bucket fs = b \<and> rooted_at fs []"
proof -
  have "s3_bucket (foldl (\<lambda>fs opt. opt fs) f opts) = s3_bucket f" for f
    using assms(2) by (induction opts arbitrary: f) (auto simp: WithUnixMetadata_def)
  then show ?thesis using NewS3FS_rooted[OF assms] assms(1) by (auto simp: NewS3FS_def)
qed

text \<open>The part between a fork that was made and its deletion.\<close>

lemma forked_part:
  assumes laws: "session_laws L bk pi" and fork: "ss_fork L src b w = (None, w0)"
    and body: "keeps bk pi w0 w1" and del: "ss_delete L b w1 = (rd, w2)"
  shows "keeps bk pi w w2 \<or>
    (\<exists>b w1 e. b \<notin> bk w \<and> ss_delete L b w1 = (Some e, w2) \<and> bk w2 = insert b (bk w) \<and> pi w2 = pi w)"
proof (cases rd)
  case None
  then show ?thesis
    using session_lawsD(17)[OF laws fork] body session_lawsD(19)[OF laws, of b w1] del by (auto simp: keeps_def)
next
  case (Some e)
  then have "b \<notin> bk w \<and> bk w2 = insert b (bk w) \<and> pi w2 = pi w"
    using session_lawsD(17)[OF laws fork] body session_lawsD(18)[OF laws, of b w1] del by (simp add: keeps_def)
  then show ?thesis using del Some by blast
qed

lemma runKefka_buckets:
  assumes laws: "session_laws L bk pi"
  shows "keeps bk pi w (snd (runKefka L opts bucket typed w)) \<or>
    (\<exists>b w1 e w2. b \<notin> bk w \<and> ss_delete L b w1 = (Some e, w2) \<and> snd (runKefka L opts bucket typed w) = w2 \<and>
       bk w2 = insert b (bk w) \<and> pi w2 = pi w)"
proof -
  obtain rc wc where c: "ss_client L w = (rc, wc)" by fastforce
  then have kc: "keeps bk pi w wc" using session_lawsD(1)[OF laws, of w] by simp
  show ?thesis
  proof (cases rc)
    case (Inl e)
    then show ?thesis using c kc by (simp add: runKefka_def)
  next
    case (Inr C)
    obtain i wi where u: "ss_uuid L wc = (i, wi)" by fastforce
    let ?b = "bucket @ ''-'' @ i"
    let ?wn = "ss_write L (isolation_notice bucket ?b) wi"
    have kn: "keeps bk pi w ?wn"
      using kc session_lawsD(2)[OF laws, of wc] session_lawsD(3)[OF laws, of wi] u by (simp add: keeps_def)
    obtain rf wf where f: "ss_fork L bucket ?b ?wn = (rf, wf)" by fastforce
    obtain r w1 where s: "on_session_bucket L C opts ?b typed wf = (r, w1)" by fastforce
    then have k1: "keeps bk pi wf w1" using on_session_bucket_keeps[OF laws, of wf C opts ?b typed] by simp
    obtain rd w2 where d: "ss_delete L ?b w1 = (rd, w2)" by fastforce
    show ?thesis
    proof (cases rf)
      case (Some e)
      then have "keeps bk pi w wf" using session_lawsD(16)[OF laws] f kn by (simp add: keeps_def)
      then show ?thesis using c Inr u f Some by (simp add: runKefka_def)
    next
      case None
      then have "snd (runKefka L opts bucket typed w) = w2"
        using c Inr u f s d by (simp add: runKefka_def)
      then show ?thesis
        using forked_part[OF laws f[unfolded None] k1 d] kn by (simp add: keeps_def)
    qed
  qed
qed


text \<open>A storage service that deletes what it is told to, and a machine with enough pipes.\<close>

definition tidy_lib :: "(string, mem_s3, string list \<times> nat list) session_lib" where
  "tidy_lib =
     \<lparr>ss_client = (\<lambda>w. (Inr mem_client, w)), ss_uuid = (\<lambda>w. (''1'', w)),
      ss_fork = (\<lambda>src b w. if b \<in> set (fst w) then (Some ''exists'', w) else (None, b # fst w, snd w)),
      ss_delete = (\<lambda>b w. (None, filter (\<lambda>x. x \<noteq> b) (fst w), snd w)),
      ss_pipe = (\<lambda>w. let k = Suc (sum_list (snd w)) in (Inr k, fst w, k # snd w)),
      ss_close = (\<lambda>k w. (fst w, filter (\<lambda>x. x \<noteq> k) (snd w))), ss_write = (\<lambda>t w. w), ss_start = (\<lambda>a b c w. w),
      ss_term = (\<lambda>t w. w), ss_prompt = (\<lambda>t w. w), ss_shell = (\<lambda>r f e a b w. (None, w)), ss_begin = (\<lambda>k w. w),
      ss_run = (\<lambda>p w. (Some p, w)), ss_finish = (\<lambda>k w. (fst w, filter (\<lambda>x. x \<noteq> k) (snd w))),
      ss_exited = (\<lambda>w. False), ss_errText = (\<lambda>e. ''error'')\<rparr>"

lemma fresh_pipe: "Suc (sum_list xs) \<notin> set (xs :: nat list)"
  using member_le_sum_list[of "Suc (sum_list xs)" xs] by auto

lemma tidy_laws: "session_laws tidy_lib (\<lambda>w. set (fst w)) (\<lambda>w. set (snd w))"
  by (auto simp: session_laws_def keeps_def tidy_lib_def Let_def fresh_pipe)


end
