(* ===== verification/Env_Time.thy ===== *)
theory Env_Time
  imports Text_Commands
begin

unbundle bit_operations_syntax

text \<open>
  env (\<^verbatim>\<open>command/internal/env/env.go\<close>) and time (\<^verbatim>\<open>command/internal/time/time.go\<close>), the commands
  that run another command.  They parse their arguments themselves, build a line of shell text and
  give it to the interpreter, which is a parameter: quoting, parsing, the set-up of a subshell, and
  what running a program does.
\<close>

section \<open>The interpreter\<close>

text \<open>\<open>sh_goq\<close> is what \<^verbatim>\<open>%q\<close> prints; errors are their texts.\<close>

record ('p, 's) sh_interp =
  sh_quote :: "string \<Rightarrow> string + string"
  sh_parse :: "string \<Rightarrow> string + 'p"
  sh_stdio :: "string option"
  sh_run :: "'p \<Rightarrow> 's exec_context \<Rightarrow> 's cmd_result"
  sh_goq :: "string \<Rightarrow> string"

text \<open>A variable of the environment, and the environment as the sequence that \<^verbatim>\<open>Each\<close> visits.\<close>

datatype var_kind = KindString | KindNameRef | KindOther

record variable =
  vr_set :: bool
  vr_kind :: var_kind
  vr_exported :: bool
  vr_readOnly :: bool
  vr_value :: string

type_synonym environ = "(string \<times> variable) list"

section \<open>env: arguments\<close>

record env_args =
  ea_ignoreEnv :: bool
  ea_unsetVars :: "string list"
  ea_setOrder :: "string list"
  ea_setVars :: "string \<Rightarrow> string option"

definition env_start :: env_args where
  "env_start = \<lparr>ea_ignoreEnv = False, ea_unsetVars = [], ea_setOrder = [], ea_setVars = Map.empty\<rparr>"

definition add_unset :: "string \<Rightarrow> env_args \<Rightarrow> env_args" where
  "add_unset name a = a\<lparr>ea_unsetVars := ea_unsetVars a @ [name]\<rparr>"

definition add_set :: "string \<Rightarrow> string \<Rightarrow> env_args \<Rightarrow> env_args" where
  "add_set name val a =
     a\<lparr>ea_setOrder := (if ea_setVars a name = None then ea_setOrder a @ [name] else ea_setOrder a),
       ea_setVars := (ea_setVars a)(name \<mapsto> val)\<rparr>"

datatype env_parsed = EnvBad string | EnvHelp | EnvGo env_args "string list"

fun env_loop :: "env_args \<Rightarrow> string list \<Rightarrow> env_parsed" where
  "env_loop a [] = EnvGo a []"
| "env_loop a (arg # rest) =
     (if arg = ''-i'' \<or> arg = ''--ignore-environment'' \<or> arg = ''-'' then env_loop (a\<lparr>ea_ignoreEnv := True\<rparr>) rest
      else if arg = ''-u'' \<or> arg = ''--unset'' then
        (case rest of
           [] \<Rightarrow> EnvBad (''option requires an argument -- '' @ [squote] @ dropWhile (\<lambda>c. c = CHR ''-'') arg @ [squote])
         | name # rest' \<Rightarrow> env_loop (add_unset name a) rest')
      else if hasPrefix arg ''--unset='' then env_loop (add_unset (trimPrefix arg ''--unset='') a) rest
      else if hasPrefix arg ''-u'' \<and> length arg > 2 then env_loop (add_unset (drop 2 arg) a) rest
      else if arg = ''--help'' then EnvHelp
      else if arg = ''--'' then EnvGo a rest
      else if hasPrefix arg ''--'' then EnvBad (''unrecognized option '' @ [squote] @ arg @ [squote])
      else if hasPrefix arg ''-'' then EnvBad (''invalid option -- '' @ [squote] @ drop 1 arg @ [squote])
      else if CHR ''='' \<in> set arg then
        env_loop (add_set (takeWhile (\<lambda>c. c \<noteq> CHR ''='') arg) (tl (dropWhile (\<lambda>c. c \<noteq> CHR ''='') arg)) a) rest
      else EnvGo a (arg # rest))"

section \<open>env: the two ways to end\<close>

definition exportableString :: "variable \<Rightarrow> bool" where
  "exportableString vr \<longleftrightarrow> vr_set vr \<and> (vr_kind vr = KindString \<or> vr_kind vr = KindNameRef) \<and> vr_exported vr"

text \<open>The resulting environment: a map, and the names that may be in it.\<close>

definition env_parent :: "environ option \<Rightarrow> bool \<Rightarrow> (string \<times> string) list" where
  "env_parent parent ignoreEnv =
     (case parent of
        None \<Rightarrow> []
      | Some vs \<Rightarrow> if ignoreEnv then [] else map (\<lambda>(n, v). (n, vr_value v)) (filter (\<lambda>(n, v). exportableString v) vs))"

definition go_index :: "(string \<Rightarrow> string option) \<Rightarrow> string \<Rightarrow> string" where
  "go_index m n = (case m n of None \<Rightarrow> [] | Some v \<Rightarrow> v)"

definition env_result :: "environ option \<Rightarrow> env_args \<Rightarrow> string \<Rightarrow> string option" where
  "env_result parent a =
     (let m0 = foldl (\<lambda>m (n, v). m(n \<mapsto> v)) Map.empty (env_parent parent (ea_ignoreEnv a));
          m1 = foldl (\<lambda>m n. m(n := None)) m0 (ea_unsetVars a)
      in foldl (\<lambda>m n. m(n \<mapsto> go_index (ea_setVars a) n)) m1 (ea_setOrder a))"

definition env_names :: "environ option \<Rightarrow> env_args \<Rightarrow> string list" where
  "env_names parent a =
     sort (remdups (filter (\<lambda>n. env_result parent a n \<noteq> None) (map fst (env_parent parent (ea_ignoreEnv a)) @ ea_setOrder a)))"

definition printEnvironment :: "environ option \<Rightarrow> env_args \<Rightarrow> string" where
  "printEnvironment parent a =
     concat (map (\<lambda>n. n @ ''='' @ go_index (env_result parent a) n @ nl) (env_names parent a))"

text \<open>The script: names that cannot be quoted are left out, the first value or argument that cannot fails.\<close>

definition unset_line :: "(string \<Rightarrow> string + string) \<Rightarrow> string \<Rightarrow> string" where
  "unset_line quote name = (case quote name of Inl _ \<Rightarrow> [] | Inr q \<Rightarrow> ''unset '' @ q @ nl)"

definition unsettable :: "variable \<Rightarrow> bool" where
  "unsettable vr \<longleftrightarrow> vr_set vr \<and> \<not> vr_readOnly vr \<and> vr_exported vr \<and> (vr_kind vr = KindString \<or> vr_kind vr = KindNameRef)"

definition env_existing :: "environ option \<Rightarrow> bool \<Rightarrow> string list" where
  "env_existing parent ignoreEnv =
     (case parent of None \<Rightarrow> [] | Some vs \<Rightarrow> if ignoreEnv then sort (map fst (filter (\<lambda>(n, v). unsettable v) vs)) else [])"

fun env_assignments :: "(string \<Rightarrow> string + string) \<Rightarrow> env_args \<Rightarrow> string list \<Rightarrow> string + string" where
  "env_assignments quote a [] = Inr []"
| "env_assignments quote a (n # ns) =
     (case quote (go_index (ea_setVars a) n) of
        Inl e \<Rightarrow> Inl (''env: cannot quote value for '' @ n @ '': '' @ e @ nl)
      | Inr q \<Rightarrow> map_sum id (\<lambda>t. n @ ''='' @ q @ '' '' @ t) (env_assignments quote a ns))"

fun env_words :: "(string \<Rightarrow> string + string) \<Rightarrow> (string \<Rightarrow> string) \<Rightarrow> string list \<Rightarrow> string + string" where
  "env_words quote goq [] = Inr []"
| "env_words quote goq (w # ws) =
     (case quote w of
        Inl e \<Rightarrow> Inl (''env: cannot quote argument '' @ goq w @ '': '' @ e @ nl)
      | Inr q \<Rightarrow> map_sum id (\<lambda>t. '' '' @ q @ t) (env_words quote goq ws))"

definition env_script ::
  "(string \<Rightarrow> string + string) \<Rightarrow> (string \<Rightarrow> string) \<Rightarrow> environ option \<Rightarrow> env_args \<Rightarrow> string list \<Rightarrow> string + string" where
  "env_script quote goq parent a command =
     (let unsets = concat (map (unset_line quote) (env_existing parent (ea_ignoreEnv a) @ ea_unsetVars a))
      in case env_assignments quote a (ea_setOrder a) of
           Inl m \<Rightarrow> Inl m
         | Inr assigns \<Rightarrow> map_sum id (\<lambda>ws. unsets @ assigns @ ''command --'' @ ws) (env_words quote goq command))"

text \<open>Parsing and running a script, with the name and the status of the command for its failures.\<close>

definition run_script :: "('p, 's) sh_interp \<Rightarrow> string \<Rightarrow> nat \<Rightarrow> 's exec_context \<Rightarrow> string \<Rightarrow> 's cmd_result" where
  "run_script sh cmd status ec script =
     (case sh_parse sh script of
        Inl e \<Rightarrow> ret ec [] (cmd @ '': cannot parse command: '' @ e @ nl) (ExitStatus status)
      | Inr prog \<Rightarrow>
          (case sh_stdio sh of
             Some e \<Rightarrow> ret ec [] (cmd @ '': cannot configure subshell: '' @ e @ nl) (ExitStatus status)
           | None \<Rightarrow> sh_run sh prog ec))"

definition runWithEnv :: "('p, 's) sh_interp \<Rightarrow> environ option \<Rightarrow> 's exec_context \<Rightarrow> env_args \<Rightarrow> string list \<Rightarrow> 's cmd_result" where
  "runWithEnv sh parent ec a command =
     (case env_script (sh_quote sh) (sh_goq sh) parent a command of
        Inl m \<Rightarrow> ret ec [] m (ExitStatus 125)
      | Inr script \<Rightarrow> run_script sh ''env'' 125 ec script)"

definition env_usage :: string where
  "env_usage =
     ''Usage: env [OPTION]... [-] [NAME=VALUE]... [COMMAND [ARG]...]'' @ nl @
     ''Set each NAME to VALUE in the environment and run COMMAND.'' @ nl @ nl @
     ''  -i, --ignore-environment  start with an empty environment'' @ nl @
     ''  -u, --unset=NAME          remove variable from the environment'' @ nl @
     ''      --help                display this help and exit'' @ nl @ nl @
     ''A mere - implies -i. If no COMMAND, print the resulting environment.'' @ nl"

definition env_Exec :: "('p, 's) sh_interp \<Rightarrow> environ option \<Rightarrow> 's exec_context \<Rightarrow> string list \<Rightarrow> 's cmd_result" where
  "env_Exec sh parent ec args =
     (case env_loop env_start args of
        EnvBad m \<Rightarrow> ret ec [] (''env: '' @ m @ nl @ env_usage) (ExitStatus 125)
      | EnvHelp \<Rightarrow> ret ec env_usage [] ExitOk
      | EnvGo a command \<Rightarrow>
          if command = [] then ret ec (printEnvironment parent a) [] ExitOk
          else if \<not> ec_runner ec then ret ec [] (''env: exec not available'' @ nl) (ExitStatus 127)
          else runWithEnv sh parent ec a command)"

section \<open>time: arguments\<close>

record time_args =
  ta_format :: string
  ta_outputFile :: string
  ta_append :: bool
  ta_posix :: bool

definition time_start :: time_args where
  "time_start = \<lparr>ta_format = ''%e %M'', ta_outputFile = [], ta_append = False, ta_posix = False\<rparr>"

datatype time_parsed = TimeBad string | TimeHelp | TimeGo time_args "string list"

definition verbose_format :: string where
  "verbose_format =
     ''Command being timed: %C'' @ nl @ ''Elapsed (wall clock) time: %e seconds'' @ nl @ ''Maximum resident set size (kbytes): %M''"

fun time_loop :: "time_args \<Rightarrow> string list \<Rightarrow> time_parsed" where
  "time_loop a [] = TimeGo a []"
| "time_loop a (arg # rest) =
     (if arg = ''-f'' \<or> arg = ''--format'' then
        (case rest of [] \<Rightarrow> TimeBad (''time: missing argument to '' @ [squote] @ ''-f'' @ [squote] @ nl)
         | v # rest' \<Rightarrow> time_loop (a\<lparr>ta_format := v\<rparr>) rest')
      else if hasPrefix arg ''--format='' then time_loop (a\<lparr>ta_format := trimPrefix arg ''--format=''\<rparr>) rest
      else if arg = ''-o'' \<or> arg = ''--output'' then
        (case rest of [] \<Rightarrow> TimeBad (''time: missing argument to '' @ [squote] @ ''-o'' @ [squote] @ nl)
         | v # rest' \<Rightarrow> time_loop (a\<lparr>ta_outputFile := v\<rparr>) rest')
      else if hasPrefix arg ''--output='' then time_loop (a\<lparr>ta_outputFile := trimPrefix arg ''--output=''\<rparr>) rest
      else if arg = ''-a'' \<or> arg = ''--append'' then time_loop (a\<lparr>ta_append := True\<rparr>) rest
      else if arg = ''-v'' \<or> arg = ''--verbose'' then time_loop (a\<lparr>ta_format := verbose_format\<rparr>) rest
      else if arg = ''-p'' \<or> arg = ''--portability'' then time_loop (a\<lparr>ta_posix := True\<rparr>) rest
      else if arg = ''--help'' then TimeHelp
      else if arg = ''--'' then TimeGo a rest
      else if hasPrefix arg ''-'' \<and> arg \<noteq> ''-'' then time_loop a rest
      else TimeGo a (arg # rest))"

section \<open>time: the report\<close>

text \<open>
  What the elapsed seconds give, which are a floating point number: \<^verbatim>\<open>%.2f\<close> of them, the whole
  hours, the whole minutes of the last hour, and \<^verbatim>\<open>%05.2f\<close> of the seconds of the last minute.
\<close>

record timing =
  tm_seconds :: string
  tm_hours :: int
  tm_minutes :: nat
  tm_secs :: string

definition time_pad2 :: "nat \<Rightarrow> string" where
  "time_pad2 n = (let t = show_nat n in replicate (2 - length t) (CHR ''0'') @ t)"

definition formatElapsedTime :: "timing \<Rightarrow> string" where
  "formatElapsedTime t =
     (if tm_hours t > 0 then itoa (tm_hours t) @ '':'' @ time_pad2 (tm_minutes t) @ '':'' @ tm_secs t
      else show_nat (tm_minutes t) @ '':'' @ tm_secs t)"

definition time_applyFormat :: "string \<Rightarrow> timing \<Rightarrow> string \<Rightarrow> string" where
  "time_applyFormat fmt t displayCommand =
     foldl (\<lambda>out (d, v). replaceAll out d v) fmt
       [(''%e'', tm_seconds t), (''%E'', formatElapsedTime t), (''%M'', ''0''), (''%S'', ''0.00''), (''%U'', ''0.00''),
        (''%P'', ''0%''), (''%C'', displayCommand)]"

definition timing_output :: "time_args \<Rightarrow> timing \<Rightarrow> string list \<Rightarrow> string" where
  "timing_output a t command =
     (if ta_posix a then ''real '' @ tm_seconds t @ nl @ ''user 0.00'' @ nl @ ''sys 0.00'' @ nl
      else (let out = time_applyFormat (ta_format a) t (joinWith '' '' command)
            in if hasSuffix out nl then out else out @ nl))"

section \<open>time: the command\<close>

text \<open>Opening a file with flags, writing to it and closing it; errors are their texts.\<close>

record 's file_ops =
  fo_openFile :: "'s \<Rightarrow> string \<Rightarrow> nat \<Rightarrow> (string + nat) \<times> 's"
  fo_write :: "'s \<Rightarrow> nat \<Rightarrow> string \<Rightarrow> string option \<times> 's"
  fo_close :: "'s \<Rightarrow> nat \<Rightarrow> 's"

definition timing_flags :: "bool \<Rightarrow> nat" where
  "timing_flags appendMode = 0x40 OR 0x1 OR (if appendMode then 0x400 else 0x200)"

definition writeTimingFile ::
  "'s file_ops \<Rightarrow> 's exec_context \<Rightarrow> 's \<Rightarrow> string \<Rightarrow> string \<Rightarrow> bool \<Rightarrow> string option \<times> 's" where
  "writeTimingFile ops ec s outputFile out appendMode =
     (if ec_fs ec = None then (Some ''no filesystem available'', s)
      else case fo_openFile ops s (resolvePath (ec_dir ec) outputFile) (timing_flags appendMode) of
        (Inl e, s1) \<Rightarrow> (Some e, s1)
      | (Inr h, s1) \<Rightarrow> (case fo_write ops s1 h out of (e, s2) \<Rightarrow> (e, fo_close ops s2 h)))"

fun time_words :: "(string \<Rightarrow> string + string) \<Rightarrow> (string \<Rightarrow> string) \<Rightarrow> string list \<Rightarrow> string + string list" where
  "time_words quote goq [] = Inr []"
| "time_words quote goq (w # ws) =
     (case quote w of
        Inl e \<Rightarrow> Inl (''time: cannot quote argument '' @ goq w @ '': '' @ e @ nl)
      | Inr q \<Rightarrow> map_sum id ((#) q) (time_words quote goq ws))"

definition runInner :: "('p, 's) sh_interp \<Rightarrow> 's exec_context \<Rightarrow> string list \<Rightarrow> 's cmd_result" where
  "runInner sh ec command =
     (if \<not> ec_runner ec then ret ec [] (''time: exec not available'' @ nl) (ExitStatus 127)
      else case time_words (sh_quote sh) (sh_goq sh) command of
        Inl m \<Rightarrow> ret ec [] m (ExitStatus 1)
      | Inr qs \<Rightarrow> run_script sh ''time'' 1 ec (joinWith '' '' qs))"

definition time_usage :: string where
  "time_usage =
     ''Usage: time [OPTION]... COMMAND [ARGUMENT]...'' @ nl @ ''Time the execution of COMMAND.'' @ nl @ nl @
     ''  -f, --format=FORMAT     use FORMAT for output (default '' @ [CHR 0x22] @ ''%e %M'' @ [CHR 0x22] @ '')'' @ nl @
     ''  -o, --output=FILE       write timing output to FILE'' @ nl @
     ''  -a, --append            append to output file (with -o)'' @ nl @
     ''  -v, --verbose           verbose output'' @ nl @
     ''  -p, --portability       POSIX portable output format'' @ nl @
     ''      --help              display this help and exit'' @ nl @ nl @
     ''Format specifiers:'' @ nl @
     ''  %C    Command being timed'' @ nl @
     ''  %e    Elapsed real time in seconds'' @ nl @
     ''  %E    Elapsed time in [hours:]minutes:seconds format'' @ nl @
     ''  %M    Maximum resident set size (KB) - always 0'' @ nl @
     ''  %S    System CPU time (seconds) - always 0.00'' @ nl @
     ''  %U    User CPU time (seconds) - always 0.00'' @ nl @
     ''  %P    CPU percentage - always 0%'' @ nl"

text \<open>The writers of the context are taken to be there.\<close>

definition time_Exec :: "('p, 's) sh_interp \<Rightarrow> 's file_ops \<Rightarrow> timing \<Rightarrow> 's exec_context \<Rightarrow> string list \<Rightarrow> 's cmd_result" where
  "time_Exec sh ops t ec args =
     (case time_loop time_start args of
        TimeBad m \<Rightarrow> ret ec [] m (ExitStatus 1)
      | TimeHelp \<Rightarrow> ret ec [] time_usage ExitOk
      | TimeGo a command \<Rightarrow>
          if command = [] then ret ec [] time_usage (ExitStatus 1)
          else
            (let r = runInner sh ec command; out = timing_output a t command
             in if ta_outputFile a \<noteq> [] then
                  (case writeTimingFile ops ec (r_state r) (ta_outputFile a) out (ta_append a) of
                     (None, s) \<Rightarrow> r\<lparr>r_state := s\<rparr>
                   | (Some e, s) \<Rightarrow>
                       r\<lparr>r_stderr := r_stderr r @ ''time: cannot write to '' @ [squote] @ ta_outputFile a @ [squote] @ '': '' @ e @ nl,
                         r_state := s\<rparr>)
                else r\<lparr>r_stderr := r_stderr r @ out\<rparr>))"

end
