(* ===== verification/Env_Time_Properties.thy ===== *)
theory Env_Time_Properties
  imports Env_Time S3fs
begin

text \<open>
  env without a command prints the environment it was told to make, in a form that can be read back;
  time leaves the command it times alone.
\<close>

section \<open>env prints the environment\<close>

text \<open>The arguments for an environment: whether to start empty, names to unset and assignments.\<close>

definition env_arguments :: "bool \<Rightarrow> string list \<Rightarrow> (string \<times> string) list \<Rightarrow> string list" where
  "env_arguments ign us vs =
     (if ign then [''-i''] else []) @ concat (map (\<lambda>n. [''-u'', n]) us) @ map (\<lambda>(n, v). n @ ''='' @ v) vs"

definition plain_name :: "string \<Rightarrow> bool" where
  "plain_name n \<longleftrightarrow> CHR ''='' \<notin> set n \<and> newline \<notin> set n \<and> \<not> hasPrefix n ''-''"

lemma cut_assignment:
  assumes "CHR ''='' \<notin> set n"
  shows "takeWhile (\<lambda>c. c \<noteq> CHR ''='') (n @ ''='' @ v) = n" "tl (dropWhile (\<lambda>c. c \<noteq> CHR ''='') (n @ ''='' @ v)) = v"
  using assms by (induction n) auto

lemma no_dash:
  assumes "plain_name n"
  shows "\<not> hasPrefix (n @ CHR ''='' # v) (CHR ''-'' # p)" "n @ CHR ''='' # v \<noteq> CHR ''-'' # p"
  using assms by (cases n; auto simp: plain_name_def hasPrefix_iff)+

lemma env_loop_assignment:
  assumes "plain_name n"
  shows "env_loop a ((n @ ''='' @ v) # rest) = env_loop (add_set n v a) rest"
proof -
  have "CHR ''='' \<notin> set n" using assms by (simp add: plain_name_def)
  note cut = cut_assignment[OF this, of v]
  show ?thesis using cut no_dash[OF assms] by simp
qed

lemma env_loop_assignments:
  "\<forall>(n, v) \<in> set vs. plain_name n \<Longrightarrow>
   env_loop a (map (\<lambda>(n, v). n @ ''='' @ v) vs) = EnvGo (foldl (\<lambda>a (n, v). add_set n v a) a vs) []"
proof (induction vs arbitrary: a)
  case (Cons x vs)
  obtain n v where x: "x = (n, v)" by (cases x)
  then have "plain_name n" using Cons.prems by simp
  then show ?case
    unfolding list.map x prod.case by (subst env_loop_assignment) (use Cons in \<open>simp_all\<close>)
qed simp

lemma env_loop_unsets:
  "env_loop a (concat (map (\<lambda>n. [''-u'', n]) us) @ rest) = env_loop (a\<lparr>ea_unsetVars := ea_unsetVars a @ us\<rparr>) rest"
  by (induction us arbitrary: a) (simp_all add: add_unset_def hasPrefix_def)

lemma sets_frame:
  "ea_ignoreEnv (foldl (\<lambda>a (n, v). add_set n v a) a vs) = ea_ignoreEnv a"
  "ea_unsetVars (foldl (\<lambda>a (n, v). add_set n v a) a vs) = ea_unsetVars a"
  by (induction vs arbitrary: a) (auto simp: add_set_def)

lemma sets_vars: "ea_setVars (foldl (\<lambda>a (n, v). add_set n v a) a vs) = ea_setVars a ++ map_of (rev vs)"
  by (induction vs arbitrary: a) (auto simp: add_set_def map_add_def fun_eq_iff split: option.splits)

lemma sets_order:
  "set (ea_setOrder a) = dom (ea_setVars a) \<Longrightarrow>
   set (ea_setOrder (foldl (\<lambda>a (n, v). add_set n v a) a vs)) = dom (ea_setVars (foldl (\<lambda>a (n, v). add_set n v a) a vs))"
proof (induction vs arbitrary: a)
  case (Cons x vs)
  have "set (ea_setOrder (add_set n v a)) = dom (ea_setVars (add_set n v a))" for n v
    using Cons.prems by (auto simp: add_set_def)
  then show ?case using Cons.IH by (auto split: prod.split)
qed simp

definition env_made :: "bool \<Rightarrow> string list \<Rightarrow> (string \<times> string) list \<Rightarrow> env_args" where
  "env_made ign us vs = foldl (\<lambda>a (n, v). add_set n v a) (env_start\<lparr>ea_ignoreEnv := ign, ea_unsetVars := us\<rparr>) vs"

lemma env_loop_arguments:
  "\<forall>(n, v) \<in> set vs. plain_name n \<Longrightarrow> env_loop env_start (env_arguments ign us vs) = EnvGo (env_made ign us vs) []"
proof -
  assume ok: "\<forall>(n, v) \<in> set vs. plain_name n"
  have start: "env_loop env_start ((if ign then [''-i''] else []) @ r) = env_loop (env_start\<lparr>ea_ignoreEnv := ign\<rparr>) r" for r
    by (simp add: env_start_def)
  have frame: "env_start\<lparr>ea_ignoreEnv := ign, ea_unsetVars := ea_unsetVars (env_start\<lparr>ea_ignoreEnv := ign\<rparr>) @ us\<rparr>
      = env_start\<lparr>ea_ignoreEnv := ign, ea_unsetVars := us\<rparr>"
    by (simp add: env_start_def)
  show ?thesis
    unfolding env_arguments_def env_made_def start env_loop_unsets env_loop_assignments[OF ok] frame ..
qed

lemma env_made_simps:
  "ea_ignoreEnv (env_made ign us vs) = ign" "ea_unsetVars (env_made ign us vs) = us"
  "ea_setVars (env_made ign us vs) = map_of (rev vs)" "set (ea_setOrder (env_made ign us vs)) = fst ` set vs"
  using sets_order[of "env_start\<lparr>ea_ignoreEnv := ign, ea_unsetVars := us\<rparr>" vs]
  by (simp_all add: env_made_def sets_frame sets_vars env_start_def dom_map_of_conv_image_fst)

lemma foldl_set: "foldl (\<lambda>m (n, v). m(n \<mapsto> v)) m xs = m ++ map_of (rev xs)"
  by (induction xs arbitrary: m) (auto simp: map_add_def fun_eq_iff split: option.splits)

lemma foldl_unset: "foldl (\<lambda>m n. m(n := None)) m ns = m |` (- set ns)"
  by (induction ns arbitrary: m) (auto simp: restrict_map_def fun_eq_iff)

lemma foldl_order: "foldl (\<lambda>m n. m(n \<mapsto> f n)) m ns = (\<lambda>n. if n \<in> set ns then Some (f n) else m n)"
  by (induction ns arbitrary: m) (auto simp: fun_eq_iff)

text \<open>The environment that was asked for.\<close>

definition env_spec :: "environ option \<Rightarrow> bool \<Rightarrow> string list \<Rightarrow> (string \<times> string) list \<Rightarrow> string \<Rightarrow> string option" where
  "env_spec parent ign us vs = map_of (rev (env_parent parent ign)) |` (- set us) ++ map_of (rev vs)"

lemma env_result_spec: "env_result parent (env_made ign us vs) = env_spec parent ign us vs"
proof -
  have "n \<in> fst ` set vs \<longleftrightarrow> map_of (rev vs) n \<noteq> None" for n by (simp add: map_of_eq_None_iff)
  then have "(if n \<in> fst ` set vs then Some (go_index (map_of (rev vs)) n) else m n) = (m ++ map_of (rev vs)) n" for m n
    by (simp add: go_index_def map_add_def split: option.split)
  then show ?thesis
    by (simp add: env_result_def Let_def foldl_set foldl_unset foldl_order env_made_simps env_spec_def)
qed

lemma env_names_spec:
  "sorted (env_names parent (env_made ign us vs))" "distinct (env_names parent (env_made ign us vs))"
  "set (env_names parent (env_made ign us vs)) = dom (env_spec parent ign us vs)"
proof -
  have "dom (env_spec parent ign us vs) \<subseteq> fst ` set (env_parent parent ign) \<union> fst ` set vs"
    by (auto simp: env_spec_def restrict_map_def map_add_def split: if_splits option.splits dest!: map_of_SomeD)
      (force dest: map_of_SomeD)+
  then show "set (env_names parent (env_made ign us vs)) = dom (env_spec parent ign us vs)"
    by (auto simp: env_names_def env_result_spec env_made_simps)
qed (simp_all add: env_names_def)

definition read_env :: "string \<Rightarrow> (string \<times> string) list" where
  "read_env out =
     map (\<lambda>l. (takeWhile (\<lambda>c. c \<noteq> CHR ''='') l, tl (dropWhile (\<lambda>c. c \<noteq> CHR ''='') l))) (butlast (splitOn newline out))"

lemma read_env_lines:
  assumes "\<forall>n \<in> set ns. CHR ''='' \<notin> set n \<and> newline \<notin> set n \<and> newline \<notin> set (f n)"
  shows "read_env (concat (map (\<lambda>n. n @ ''='' @ f n @ nl) ns)) = map (\<lambda>n. (n, f n)) ns"
proof -
  let ?ls = "map (\<lambda>n. n @ ''='' @ f n) ns"
  have "concat (map (\<lambda>n. n @ ''='' @ f n @ nl) ns) = concat (map (\<lambda>l. l @ [newline]) ?ls)" by (simp add: comp_def)
  moreover have "\<forall>l \<in> set ?ls. newline \<notin> set l" using assms by auto
  ultimately have "read_env (concat (map (\<lambda>n. n @ ''='' @ f n @ nl) ns))
      = map (\<lambda>l. (takeWhile (\<lambda>c. c \<noteq> CHR ''='') l, tl (dropWhile (\<lambda>c. c \<noteq> CHR ''='') l))) ?ls"
    unfolding read_env_def by (simp only: splitOn_lines butlast_snoc)
  also have "\<dots> = map (\<lambda>n. (n, f n)) ns"
    unfolding list.map_comp by (rule map_cong[OF refl]) (use assms cut_assignment in simp)
  finally show ?thesis .
qed

text \<open>C34: env without a command prints the environment it is told to make: reading the lines back
  gives the exported variables of the parent (none with \<^verbatim>\<open>-i\<close>), less the names after \<^verbatim>\<open>-u\<close>, with the
  assignments, of which the last for a name counts; each name once, in order.  Names hold no equals
  sign and do not start with a dash, and nothing holds a line feed.\<close>

theorem env_prints_environment:
  fixes sh :: "('p, 's) sh_interp" and ec :: "'s exec_context" and us :: "string list"
  assumes "\<forall>(n, v) \<in> set vs. plain_name n \<and> newline \<notin> set v"
    and "\<forall>(n, v) \<in> set (env_parent parent ign). plain_name n \<and> newline \<notin> set v"
  defines "out \<equiv> read_env (r_stdout (env_Exec sh parent ec (env_arguments ign us vs)))"
  shows "map_of out = env_spec parent ign us vs \<and> sorted (map fst out) \<and> distinct (map fst out)"
proof -
  let ?R = "env_spec parent ign us vs" and ?ns = "env_names parent (env_made ign us vs)"
  have val: "(n, v) \<in> set vs \<or> (n, v) \<in> set (env_parent parent ign)" if "?R n = Some v" for n v
    using that by (auto simp: env_spec_def map_add_Some_iff restrict_map_def split: if_splits dest!: map_of_SomeD)
  have ns: "CHR ''='' \<notin> set n \<and> newline \<notin> set n \<and> newline \<notin> set (go_index ?R n)" if n: "n \<in> set ?ns" for n
  proof -
    obtain v where v: "?R n = Some v" using n env_names_spec(3)[of parent ign us vs] by auto
    then have "plain_name n \<and> newline \<notin> set v" using val[OF v] assms(1,2) by fastforce
    then show ?thesis using v by (simp add: plain_name_def go_index_def)
  qed
  have "env_loop env_start (env_arguments ign us vs) = EnvGo (env_made ign us vs) []"
    by (rule env_loop_arguments) (use assms(1) in auto)
  then have "out = map (\<lambda>n. (n, go_index ?R n)) ?ns"
    unfolding out_def by (simp add: env_Exec_def printEnvironment_def env_result_spec) (rule read_env_lines[simplified], use ns in auto)
  moreover have "map_of (map (\<lambda>n. (n, go_index ?R n)) ?ns) = ?R"
  proof
    fix n
    show "map_of (map (\<lambda>n. (n, go_index ?R n)) ?ns) n = ?R n"
      using env_names_spec(3)[of parent ign us vs] by (cases "?R n") (auto simp: map_of_map_restrict restrict_map_def go_index_def)
  qed
  ultimately show ?thesis using env_names_spec(1,2)[of parent ign us vs] by (simp add: comp_def)
qed

theorem env_prints_environment_witness:
  "\<forall>(sh :: ('p, 's) sh_interp) (ec :: 's exec_context). map_of (read_env (r_stdout (env_Exec sh
      (Some [(''A'', \<lparr>vr_set = True, vr_kind = KindString, vr_exported = True, vr_readOnly = False, vr_value = ''1''\<rparr>),
             (''B'', \<lparr>vr_set = True, vr_kind = KindString, vr_exported = False, vr_readOnly = False, vr_value = ''2''\<rparr>)])
      ec [''-u'', ''X'', ''C=x=y'', ''C=3'']))) ''C'' = Some ''3''"
proof -
  let ?p = "Some [(''A'', \<lparr>vr_set = True, vr_kind = KindString, vr_exported = True, vr_readOnly = False, vr_value = ''1''\<rparr>),
             (''B'', \<lparr>vr_set = True, vr_kind = KindString, vr_exported = False, vr_readOnly = False, vr_value = ''2''\<rparr>)]"
  have args: "env_arguments False [''X''] [(''C'', ''x=y''), (''C'', ''3'')] = [''-u'', ''X'', ''C=x=y'', ''C=3'']"
    by (simp add: env_arguments_def)
  have par: "env_parent ?p False = [(''A'', ''1'')]" by (simp add: env_parent_def exportableString_def)
  have "map_of (read_env (r_stdout (env_Exec sh ?p ec (env_arguments False [''X''] [(''C'', ''x=y''), (''C'', ''3'')]))))
      = env_spec ?p False [''X''] [(''C'', ''x=y''), (''C'', ''3'')]" for sh :: "('p, 's) sh_interp" and ec :: "'s exec_context"
    by (rule env_prints_environment[THEN conjunct1]) (simp_all add: par plain_name_def hasPrefix_def)
  then show ?thesis by (simp add: args env_spec_def)
qed

section \<open>The script of env\<close>

text \<open>The name of an assignment goes into the script as it is: it may hold commands of its own.\<close>

lemma env_name_unquoted:
  assumes "quote v = Inr q" "env_words quote goq command = Inr ws" "plain_name n" "parent = None"
  shows "\<exists>a. env_loop env_start [n @ ''='' @ v, ''--''] = EnvGo a [] \<and>
    env_script quote goq parent a command = Inr (n @ ''='' @ q @ '' command --'' @ ws)"
proof -
  let ?a = "add_set n v env_start"
  have "env_loop env_start [n @ ''='' @ v, ''--''] = EnvGo ?a []"
    by (subst env_loop_assignment[OF assms(3)]) (simp add: hasPrefix_def)
  then show ?thesis
    using assms by (auto simp: env_script_def env_existing_def add_set_def env_start_def go_index_def)
qed

section \<open>time leaves the command alone\<close>

lemma time_words_all: "\<forall>w \<in> set ws. quote w = Inr (q w) \<Longrightarrow> time_words quote goq ws = Inr (map q ws)"
  by (induction ws) simp_all

text \<open>whatever the options of time, the command runs once, as the line of its quoted words; its
  output and its status are those of time, the report comes after what it wrote to standard error,
  and without an output file the filesystem is as the command left it.\<close>

theorem time_transparent:
  assumes "time_loop time_start args = TimeGo a command" "command \<noteq> []" "ec_runner ec"
    and "\<forall>w \<in> set command. sh_quote sh w = Inr (q w)" "sh_parse sh (joinWith '' '' (map q command)) = Inr prog" "sh_stdio sh = None"
  shows "r_stdout (time_Exec sh ops t ec args) = r_stdout (sh_run sh prog ec) \<and>
    r_exit (time_Exec sh ops t ec args) = r_exit (sh_run sh prog ec) \<and>
    hasPrefix (r_stderr (time_Exec sh ops t ec args)) (r_stderr (sh_run sh prog ec)) \<and>
    (ta_outputFile a = [] \<longrightarrow>
       r_state (time_Exec sh ops t ec args) = r_state (sh_run sh prog ec) \<and>
       r_stderr (time_Exec sh ops t ec args) = r_stderr (sh_run sh prog ec) @ timing_output a t command)"
proof -
  have inner: "runInner sh ec command = sh_run sh prog ec"
    using assms(3,5,6) by (simp add: runInner_def time_words_all[OF assms(4)] run_script_def)
  show ?thesis
    using assms(1,2)
    by (auto simp: time_Exec_def inner Let_def hasPrefix_iff split: prod.split option.split)
qed

text \<open>On the bucket filesystem the report cannot go to a file: the flags are refused.\<close>

lemma timing_flags_refused: "fst (OpenFile C fs name (timing_flags app) w) = Inl (Failed ''unsupported open flag'')"
proof -
  have "timing_flags True AND SupportedOFlags \<noteq> timing_flags True" "timing_flags False AND SupportedOFlags \<noteq> timing_flags False"
    by code_simp+
  then have "timing_flags app AND SupportedOFlags \<noteq> timing_flags app" by (cases app) simp_all
  then show ?thesis by (simp add: OpenFile_def)
qed

definition plain_shell :: "(string, unit) sh_interp" where
  "plain_shell = \<lparr>sh_quote = Inr, sh_parse = Inr, sh_stdio = None,
     sh_run = (\<lambda>prog ec. \<lparr>r_stdout = prog @ nl, r_stderr = ''warning'' @ nl, r_exit = ExitStatus 3, r_state = ()\<rparr>), sh_goq = (\<lambda>s. s)\<rparr>"

definition plain_context :: "unit exec_context" where
  "plain_context = \<lparr>ec_stdin = None, ec_dir = [], ec_environ = Map.empty, ec_fs = None, ec_state = (), ec_runner = True\<rparr>"

theorem time_transparent_witness:
  "r_stdout (time_Exec plain_shell ops t plain_context [''-p'', ''--'', ''ls'', ''x'']) = ''ls x'' @ nl \<and>
   r_exit (time_Exec plain_shell ops t plain_context [''-p'', ''--'', ''ls'', ''x'']) = ExitStatus 3"
proof -
  have loop: "time_loop time_start [''-p'', ''--'', ''ls'', ''x''] = TimeGo (time_start\<lparr>ta_posix := True\<rparr>) [''ls'', ''x'']"
    by (simp add: hasPrefix_def)
  show ?thesis
    using time_transparent[OF loop, of plain_context plain_shell "\<lambda>w. w" "''ls x''" ops t]
    by (simp add: plain_context_def plain_shell_def)
qed

end
