(* ===== verification/Wasm_Fs.thy ===== *)
theory Wasm_Fs
  imports S3fs Text_Commands
begin

unbundle bit_operations_syntax

text \<open>
  What WebAssembly guests see: the filesystem adapter (\<^verbatim>\<open>wasm/billyfs/billyfs.go\<close>) and the commands
  that run a guest (\<^verbatim>\<open>command/wasmcommand\<close>, \<^verbatim>\<open>command/uutils\<close>, and the python3, qjs and rg
  commands), over the runtime wazero, which is a parameter.
\<close>

section \<open>Errors and flags\<close>

text \<open>The error numbers of the guest that the adapter names, and any other.\<close>

datatype errno = E_OK | ENOENT | EEXIST | EPERM | ENOSYS | EROFS | EIO | E_OTHER nat

text \<open>
  What the adapter asks of an error: \<^verbatim>\<open>errors.Is\<close> for five values, and the number the runtime finds
  in it, if any.
\<close>

record go_error =
  ge_notExist :: bool
  ge_exist :: bool
  ge_permission :: bool
  ge_notSupported :: bool
  ge_readOnly :: bool
  ge_unwrap :: errno

definition toErrno :: "go_error option \<Rightarrow> errno" where
  "toErrno err =
     (case err of
        None \<Rightarrow> E_OK
      | Some e \<Rightarrow>
          if ge_notExist e then ENOENT
          else if ge_exist e then EEXIST
          else if ge_permission e then EPERM
          else if ge_notSupported e then ENOSYS
          else if ge_readOnly e then EROFS
          else if ge_unwrap e \<noteq> E_OK then ge_unwrap e
          else EIO)"

text \<open>The open flags of the runtime, whose values are its own.\<close>

record oflags =
  of_RDONLY :: nat
  of_RDWR :: nat
  of_WRONLY :: nat
  of_APPEND :: nat
  of_CREAT :: nat
  of_EXCL :: nat
  of_TRUNC :: nat

definition go_O_RDONLY :: nat where "go_O_RDONLY = 0"
definition go_O_WRONLY :: nat where "go_O_WRONLY = 1"
definition go_O_RDWR :: nat where "go_O_RDWR = 2"
definition go_O_CREATE :: nat where "go_O_CREATE = 0x40"
definition go_O_EXCL :: nat where "go_O_EXCL = 0x80"
definition go_O_TRUNC :: nat where "go_O_TRUNC = 0x200"
definition go_O_APPEND :: nat where "go_O_APPEND = 0x400"

lemmas go_flags = go_O_RDONLY_def go_O_WRONLY_def go_O_RDWR_def go_O_CREATE_def go_O_EXCL_def go_O_TRUNC_def go_O_APPEND_def

definition add_flag :: "nat \<Rightarrow> nat \<Rightarrow> nat \<Rightarrow> nat \<Rightarrow> nat" where
  "add_flag flag b goFlag f = (if flag AND b \<noteq> 0 then f OR goFlag else f)"

definition toOSFlag :: "oflags \<Rightarrow> nat \<Rightarrow> nat" where
  "toOSFlag F flag =
     (let acc = flag AND 3;
          f0 = (if acc = of_RDONLY F then go_O_RDONLY else if acc = of_RDWR F then go_O_RDWR
                else if acc = of_WRONLY F then go_O_WRONLY else 0)
      in add_flag flag (of_TRUNC F) go_O_TRUNC (add_flag flag (of_EXCL F) go_O_EXCL
           (add_flag flag (of_CREAT F) go_O_CREATE (add_flag flag (of_APPEND F) go_O_APPEND f0))))"

section \<open>The adapter\<close>

text \<open>
  The operations of the adapted filesystem and of its open files, over its state \<open>'s\<close>; an end of
  file is apart from the errors.  Without the symlink capability there is no \<open>Lstat\<close> and so on.
\<close>

datatype rw_err = AtEOF | RwErr go_error

record ('s, 'i) host_fs =
  hf_openFile :: "'s \<Rightarrow> string \<Rightarrow> nat \<Rightarrow> nat \<Rightarrow> (go_error + nat) \<times> 's"
  hf_stat :: "'s \<Rightarrow> string \<Rightarrow> go_error + 'i"
  hf_lstat :: "('s \<Rightarrow> string \<Rightarrow> go_error + 'i) option"
  hf_mkdirAll :: "'s \<Rightarrow> string \<Rightarrow> nat \<Rightarrow> go_error option \<times> 's"
  hf_remove :: "'s \<Rightarrow> string \<Rightarrow> go_error option \<times> 's"
  hf_rename :: "'s \<Rightarrow> string \<Rightarrow> string \<Rightarrow> go_error option \<times> 's"
  hf_readlink :: "('s \<Rightarrow> string \<Rightarrow> go_error + string) option"
  hf_symlink :: "('s \<Rightarrow> string \<Rightarrow> string \<Rightarrow> go_error option \<times> 's) option"
  hf_readDir :: "'s \<Rightarrow> string \<Rightarrow> go_error + (string \<times> fmode) list"
  hf_isDir :: "'i \<Rightarrow> bool"
  hf_name :: "nat \<Rightarrow> string"
  hf_read :: "'s \<Rightarrow> nat \<Rightarrow> nat \<Rightarrow> string \<times> rw_err option \<times> 's"
  hf_write :: "'s \<Rightarrow> nat \<Rightarrow> string \<Rightarrow> nat \<times> rw_err option \<times> 's"
  hf_seek :: "'s \<Rightarrow> nat \<Rightarrow> int \<Rightarrow> int \<Rightarrow> int \<times> rw_err option \<times> 's"
  hf_readAt :: "'s \<Rightarrow> nat \<Rightarrow> nat \<Rightarrow> int \<Rightarrow> string \<times> rw_err option \<times> 's"
  hf_truncate :: "'s \<Rightarrow> nat \<Rightarrow> int \<Rightarrow> go_error option \<times> 's"
  hf_close :: "'s \<Rightarrow> nat \<Rightarrow> go_error option \<times> 's"

text \<open>An open file of the adapter: the handle below it and the directory entries read so far.\<close>

record wasm_file =
  wf_handle :: nat
  wf_dirEntries :: "(string \<times> fmode) list"
  wf_dirRead :: bool
  wf_dirOffset :: nat

definition errno_of :: "go_error + 'a \<Rightarrow> errno + 'a" where
  "errno_of r = map_sum (\<lambda>e. toErrno (Some e)) id r"

definition fs_OpenFile ::
  "oflags \<Rightarrow> ('s, 'i) host_fs \<Rightarrow> string \<Rightarrow> nat \<Rightarrow> nat \<Rightarrow> 's \<Rightarrow> (errno + wasm_file) \<times> 's" where
  "fs_OpenFile F H path flag perm s =
     (case hf_openFile H s path (toOSFlag F flag) perm of
        (Inl e, s') \<Rightarrow> (Inl (toErrno (Some e)), s')
      | (Inr h, s') \<Rightarrow> (Inr \<lparr>wf_handle = h, wf_dirEntries = [], wf_dirRead = False, wf_dirOffset = 0\<rparr>, s'))"

definition fs_Stat :: "('s, 'i) host_fs \<Rightarrow> string \<Rightarrow> 's \<Rightarrow> errno + 'i" where
  "fs_Stat H path s = errno_of (hf_stat H s path)"

definition fs_Lstat :: "('s, 'i) host_fs \<Rightarrow> string \<Rightarrow> 's \<Rightarrow> errno + 'i" where
  "fs_Lstat H path s = (case hf_lstat H of None \<Rightarrow> fs_Stat H path s | Some lstat \<Rightarrow> errno_of (lstat s path))"

definition fs_Mkdir :: "('s, 'i) host_fs \<Rightarrow> string \<Rightarrow> nat \<Rightarrow> 's \<Rightarrow> errno \<times> 's" where
  "fs_Mkdir H path perm s = map_prod toErrno id (hf_mkdirAll H s path perm)"

definition fs_Unlink :: "('s, 'i) host_fs \<Rightarrow> string \<Rightarrow> 's \<Rightarrow> errno \<times> 's" where
  "fs_Unlink H path s = map_prod toErrno id (hf_remove H s path)"

definition fs_Rmdir :: "('s, 'i) host_fs \<Rightarrow> string \<Rightarrow> 's \<Rightarrow> errno \<times> 's" where
  "fs_Rmdir H path s = map_prod toErrno id (hf_remove H s path)"

definition fs_Rename :: "('s, 'i) host_fs \<Rightarrow> string \<Rightarrow> string \<Rightarrow> 's \<Rightarrow> errno \<times> 's" where
  "fs_Rename H old new s = map_prod toErrno id (hf_rename H s old new)"

definition fs_Readlink :: "('s, 'i) host_fs \<Rightarrow> string \<Rightarrow> 's \<Rightarrow> errno + string" where
  "fs_Readlink H path s = (case hf_readlink H of None \<Rightarrow> Inl ENOSYS | Some readlink \<Rightarrow> errno_of (readlink s path))"

definition fs_Symlink :: "('s, 'i) host_fs \<Rightarrow> string \<Rightarrow> string \<Rightarrow> 's \<Rightarrow> errno \<times> 's" where
  "fs_Symlink H old link s =
     (case hf_symlink H of None \<Rightarrow> (ENOSYS, s) | Some symlink \<Rightarrow> map_prod toErrno id (symlink s old link))"

text \<open>An end of file with the bytes read is a success; elsewhere it is an error like any other.\<close>

definition eof_errno :: "rw_err option \<Rightarrow> errno" where
  "eof_errno e = (case e of None \<Rightarrow> E_OK | Some AtEOF \<Rightarrow> E_OK | Some (RwErr g) \<Rightarrow> toErrno (Some g))"

definition any_errno :: "go_error \<Rightarrow> rw_err option \<Rightarrow> errno" where
  "any_errno eofErr e = (case e of None \<Rightarrow> E_OK | Some AtEOF \<Rightarrow> toErrno (Some eofErr) | Some (RwErr g) \<Rightarrow> toErrno (Some g))"

definition wasm_Stat :: "('s, 'i) host_fs \<Rightarrow> wasm_file \<Rightarrow> 's \<Rightarrow> errno + 'i" where
  "wasm_Stat H f s = errno_of (hf_stat H s (hf_name H (wf_handle f)))"

definition wasm_Read :: "('s, 'i) host_fs \<Rightarrow> wasm_file \<Rightarrow> nat \<Rightarrow> 's \<Rightarrow> string \<times> errno \<times> 's" where
  "wasm_Read H f n s = (case hf_read H s (wf_handle f) n of (b, e, s') \<Rightarrow> (b, eof_errno e, s'))"

definition wasm_Write :: "('s, 'i) host_fs \<Rightarrow> go_error \<Rightarrow> wasm_file \<Rightarrow> string \<Rightarrow> 's \<Rightarrow> nat \<times> errno \<times> 's" where
  "wasm_Write H eofErr f b s = (case hf_write H s (wf_handle f) b of (n, e, s') \<Rightarrow> (n, any_errno eofErr e, s'))"

definition wasm_Seek :: "('s, 'i) host_fs \<Rightarrow> go_error \<Rightarrow> wasm_file \<Rightarrow> int \<Rightarrow> int \<Rightarrow> 's \<Rightarrow> int \<times> errno \<times> 's" where
  "wasm_Seek H eofErr f off whence s = (case hf_seek H s (wf_handle f) off whence of (n, e, s') \<Rightarrow> (n, any_errno eofErr e, s'))"

definition wasm_Pread :: "('s, 'i) host_fs \<Rightarrow> wasm_file \<Rightarrow> nat \<Rightarrow> int \<Rightarrow> 's \<Rightarrow> string \<times> errno \<times> 's" where
  "wasm_Pread H f n off s = (case hf_readAt H s (wf_handle f) n off of (b, e, s') \<Rightarrow> (b, eof_errno e, s'))"

definition wasm_Truncate :: "('s, 'i) host_fs \<Rightarrow> wasm_file \<Rightarrow> int \<Rightarrow> 's \<Rightarrow> errno \<times> 's" where
  "wasm_Truncate H f n s = map_prod toErrno id (hf_truncate H s (wf_handle f) n)"

definition wasm_Close :: "('s, 'i) host_fs \<Rightarrow> wasm_file \<Rightarrow> 's \<Rightarrow> errno \<times> 's" where
  "wasm_Close H f s = map_prod toErrno id (hf_close H s (wf_handle f))"

definition wasm_IsDir :: "('s, 'i) host_fs \<Rightarrow> wasm_file \<Rightarrow> 's \<Rightarrow> errno + bool" where
  "wasm_IsDir H f s = map_sum id (hf_isDir H) (wasm_Stat H f s)"

text \<open>
  Reading a directory in pages: the entries are read once, and a page is at most \<open>n\<close> of those not
  yet given, or all of them when \<open>n\<close> is not positive.
\<close>

definition Readdir :: "('s, 'i) host_fs \<Rightarrow> int \<Rightarrow> 's \<Rightarrow> wasm_file \<Rightarrow> (errno + (string \<times> fmode) list) \<times> wasm_file" where
  "Readdir H n s f0 =
     (case (if wf_dirRead f0 then Inr f0
            else map_sum id (\<lambda>es. f0\<lparr>wf_dirEntries := es, wf_dirRead := True\<rparr>) (hf_readDir H s (hf_name H (wf_handle f0)))) of
        Inl e \<Rightarrow> (Inl (toErrno (Some e)), f0)
      | Inr f \<Rightarrow>
          (let remaining = int (length (wf_dirEntries f)) - int (wf_dirOffset f)
           in if remaining \<le> 0 then (Inr [], f)
              else (let count = nat (if n > 0 \<and> n < remaining then n else remaining)
                    in (Inr (take count (drop (wf_dirOffset f) (wf_dirEntries f))), f\<lparr>wf_dirOffset := wf_dirOffset f + count\<rparr>))))"

section \<open>Commands that run a guest\<close>

text \<open>
  The runtime: compiling a module (in two steps that may fail), and running an instance, which ends
  with a normal return, the exit status of the guest, or another error.
\<close>

datatype guest_end = GuestReturns | GuestExits nat | GuestFails string

record guest_config =
  gc_args :: "string list"
  gc_name :: string
  gc_env :: "(string \<times> string) list"

record 's wazero =
  wz_wasi :: "string option"
  wz_compile :: "string \<Rightarrow> string option"
  wz_run :: "guest_config \<Rightarrow> 's exec_context \<Rightarrow> guest_end \<times> string \<times> string \<times> 's"

text \<open>\<^verbatim>\<open>sync.Once\<close>: nothing yet, or the outcome of the one compilation, which is an error or not.\<close>

type_synonym compile_once = "string option option"

definition compile :: "'s wazero \<Rightarrow> string \<Rightarrow> compile_once \<Rightarrow> string option \<times> compile_once" where
  "compile W wasm once =
     (case once of
        Some r \<Rightarrow> (r, once)
      | None \<Rightarrow> (let r = (case wz_wasi W of Some e \<Rightarrow> Some e | None \<Rightarrow> wz_compile W wasm) in (r, Some r)))"

text \<open>The status of a guest: its low eight bits, unless it is zero.\<close>

definition guest_status :: "guest_end \<Rightarrow> exit_result" where
  "guest_status g =
     (case g of
        GuestReturns \<Rightarrow> ExitOk
      | GuestExits code \<Rightarrow> if code \<noteq> 0 then ExitStatus (code mod 256) else ExitOk
      | GuestFails e \<Rightarrow> ExitErr e)"

definition run_guest ::
  "'s wazero \<Rightarrow> string \<Rightarrow> string \<Rightarrow> guest_config \<Rightarrow> 's exec_context \<Rightarrow> compile_once \<Rightarrow> 's cmd_result \<times> compile_once" where
  "run_guest W failure wasm cfg ec once =
     (case compile W wasm once of
        (Some e, once') \<Rightarrow> (ret ec [] [] (ExitErr (failure @ '': '' @ e)), once')
      | (None, once') \<Rightarrow>
          (case wz_run W cfg ec of
             (g, out, err, s) \<Rightarrow> (\<lparr>r_stdout = out, r_stderr = err, r_exit = guest_status g, r_state = s\<rparr>, once')))"

definition wasmcommand_Exec ::
  "'s wazero \<Rightarrow> string \<Rightarrow> string \<Rightarrow> 's exec_context \<Rightarrow> string list \<Rightarrow> compile_once \<Rightarrow> 's cmd_result \<times> compile_once" where
  "wasmcommand_Exec W name wasm ec args once =
     run_guest W (''wasmcommand: can'' @ [squote] @ ''t compile '' @ name) wasm
       \<lparr>gc_args = name # args, gc_name = name, gc_env = []\<rparr> ec once"

definition uutils_command_Exec ::
  "'s wazero \<Rightarrow> string \<Rightarrow> string \<Rightarrow> 's exec_context \<Rightarrow> string list \<Rightarrow> compile_once \<Rightarrow> 's cmd_result \<times> compile_once" where
  "uutils_command_Exec W name wasm ec args once =
     run_guest W (''uutils: can'' @ [squote] @ ''t compile wasm'') wasm
       \<lparr>gc_args = name # args, gc_name = ''uutils::'' @ name, gc_env = [(''PWD'', GuestPWD ec)]\<rparr> ec once"

definition python3_Exec ::
  "'s wazero \<Rightarrow> string \<Rightarrow> 's exec_context \<Rightarrow> string list \<Rightarrow> compile_once \<Rightarrow> 's cmd_result \<times> compile_once" where
  "python3_Exec W wasm ec args once =
     run_guest W (''python3: can'' @ [squote] @ ''t compile wasm'') wasm
       \<lparr>gc_args = ''python3'' # (if args = [] then [''-i'', ''-S''] else args), gc_name = ''python3'', gc_env = [(''PYTHONUNBUFFERED'', ''1'')]\<rparr> ec once"

definition qjs_Exec ::
  "'s wazero \<Rightarrow> string \<Rightarrow> 's exec_context \<Rightarrow> string list \<Rightarrow> compile_once \<Rightarrow> 's cmd_result \<times> compile_once" where
  "qjs_Exec W wasm ec args once =
     run_guest W (''qjs: can'' @ [squote] @ ''t compile wasm'') wasm \<lparr>gc_args = ''qjs'' # args, gc_name = ''qjs'', gc_env = []\<rparr> ec once"

definition rg_Exec ::
  "'s wazero \<Rightarrow> string \<Rightarrow> 's exec_context \<Rightarrow> string list \<Rightarrow> compile_once \<Rightarrow> 's cmd_result \<times> compile_once" where
  "rg_Exec W wasm ec args once =
     run_guest W (''rg: can'' @ [squote] @ ''t compile wasm'') wasm \<lparr>gc_args = ''rg'' # args, gc_name = ''rg'', gc_env = []\<rparr> ec once"

text \<open>The commands made from \<^verbatim>\<open>wasmcommand\<close>.\<close>

definition jo_Exec where "jo_Exec W wasm = wasmcommand_Exec W ''jo'' wasm"
definition jq_Exec where "jq_Exec W wasm = wasmcommand_Exec W ''jq'' wasm"

end
