(* ===== verification/Wasm_Properties.thy ===== *)
theory Wasm_Properties
  imports Wasm_Fs S3fs_Properties
begin

unbundle bit_operations_syntax

text \<open>
  What a guest can rely on: pages of a directory, errors that are reported, and one compilation; and
  what it cannot do on the bucket filesystem.
\<close>

section \<open>Errors\<close>

lemma toErrno_OK [simp]: "toErrno e = E_OK \<longleftrightarrow> e = None"
  by (auto simp: toErrno_def split: option.split)

lemma adapter_reports:
  "fst (fs_Mkdir H path perm s) = E_OK \<longleftrightarrow> fst (hf_mkdirAll H s path perm) = None"
  "fst (fs_Unlink H path s) = E_OK \<longleftrightarrow> fst (hf_remove H s path) = None"
  "fst (fs_Rename H old new s) = E_OK \<longleftrightarrow> fst (hf_rename H s old new) = None"
  "fst (wasm_Truncate H f n s) = E_OK \<longleftrightarrow> fst (hf_truncate H s (wf_handle f) n) = None"
  "fst (wasm_Close H f s) = E_OK \<longleftrightarrow> fst (hf_close H s (wf_handle f)) = None"
  by (simp_all add: fs_Mkdir_def fs_Unlink_def fs_Rename_def wasm_Truncate_def wasm_Close_def)

section \<open>Directories in pages\<close>

text \<open>
  Calls of \<open>Readdir\<close> on one handle, each with its size and the state of the filesystem at its time:
  the entries of the pages, until a call fails.
\<close>

fun pages :: "('s, 'i) host_fs \<Rightarrow> (int \<times> 's) list \<Rightarrow> wasm_file \<Rightarrow> (string \<times> fmode) list" where
  "pages H [] f = []"
| "pages H ((n, s) # calls) f = (case Readdir H n s f of (Inl _, f') \<Rightarrow> [] | (Inr es, f') \<Rightarrow> es @ pages H calls f')"

lemma Readdir_page:
  assumes "wf_dirRead f" "n > 0"
  defines "left \<equiv> drop (wf_dirOffset f) (wf_dirEntries f)"
  shows "\<exists>f'. Readdir H n s f = (Inr (take (nat n) left), f') \<and> wf_dirRead f' \<and>
    drop (wf_dirOffset f') (wf_dirEntries f') = drop (nat n) left"
proof -
  let ?k = "min (nat n) (length left)" and ?r = "int (length (wf_dirEntries f)) - int (wf_dirOffset f)"
  have k: "nat (if n > 0 \<and> n < ?r then n else ?r) = ?k" using assms(2) by (simp add: left_def) arith
  have t: "take ?k left = take (nat n) left" by (simp add: min_def)
  have d: "drop (wf_dirOffset f + ?k) (wf_dirEntries f) = drop (nat n) left"
    by (simp add: left_def min_def drop_drop add.commute)
  show ?thesis
  proof (cases "?r \<le> 0")
    case True
    then have "left = []" by (simp add: left_def)
    then show ?thesis using assms(1) True by (simp add: Readdir_def Let_def left_def)
  next
    case False
    then have "Readdir H n s f = (Inr (take ?k left), f\<lparr>wf_dirOffset := wf_dirOffset f + ?k\<rparr>)"
      unfolding Readdir_def if_P[OF assms(1)] sum.case Let_def k left_def[symmetric] by simp
    then show ?thesis using assms(1) t d by simp
  qed
qed

lemma pages_read:
  assumes "wf_dirRead f" "\<forall>(n, s) \<in> set calls. n > 0"
  shows "pages H calls f = take (nat (sum_list (map fst calls))) (drop (wf_dirOffset f) (wf_dirEntries f))"
  using assms
proof (induction calls arbitrary: f)
  case (Cons c calls)
  obtain n s where c: "c = (n, s)" by (cases c)
  have n: "n > 0" and rest: "\<forall>(n, s) \<in> set calls. n > 0" using Cons.prems(2) c by auto
  obtain f' where f': "Readdir H n s f = (Inr (take (nat n) (drop (wf_dirOffset f) (wf_dirEntries f))), f')" "wf_dirRead f'"
    "drop (wf_dirOffset f') (wf_dirEntries f') = drop (nat n) (drop (wf_dirOffset f) (wf_dirEntries f))"
    using Readdir_page[OF Cons.prems(1) n, of H s] by (elim exE conjE) (rule that)
  have "0 \<le> sum_list (map fst calls)" using rest by (intro sum_list_nonneg) fastforce
  then have "nat (sum_list (map fst (c # calls))) = nat n + nat (sum_list (map fst calls))" using c n by (simp add: nat_add_distrib)
  then show ?case
    using f' Cons.IH[OF f'(2) rest] c by (simp add: take_add)
qed simp

text \<open>C37: a guest that reads a directory through one handle in pages of any sizes gets the entries in
  order, without a gap or a repetition, as many as it asked for in all: they are those that the
  directory had at the first call, whatever happens to it between the calls.\<close>

theorem Readdir_pages:
  assumes "\<not> wf_dirRead f" "wf_dirOffset f = 0" "hf_readDir H s (hf_name H (wf_handle f)) = Inr es"
    and "n > 0" "\<forall>(k, _) \<in> set calls. k > 0"
  shows "pages H ((n, s) # calls) f = take (nat (n + sum_list (map fst calls))) es"
proof -
  let ?f = "f\<lparr>wf_dirEntries := es, wf_dirRead := True\<rparr>"
  have "Readdir H n s f = Readdir H n s ?f" using assms(1,3) by (simp add: Readdir_def)
  then have "pages H ((n, s) # calls) f = pages H ((n, s) # calls) ?f" by simp
  also have "\<dots> = take (nat (sum_list (map fst ((n, s) # calls)))) (drop (wf_dirOffset ?f) (wf_dirEntries ?f))"
    by (rule pages_read) (use assms(4,5) in auto)
  finally show ?thesis using assms(2) by simp
qed

section \<open>Files on the bucket filesystem\<close>

lemma bit_add_flag: "bit (add_flag flag b g f) k \<longleftrightarrow> bit f k \<or> flag AND b \<noteq> 0 \<and> bit g k"
  by (auto simp: add_flag_def bit_or_iff)

lemma unsupported_bit: "bit f k \<Longrightarrow> \<not> bit SupportedOFlags k \<Longrightarrow> f AND SupportedOFlags \<noteq> f"
  by (metis bit_and_iff)

lemma supported_bits: "\<not> bit SupportedOFlags 1" "\<not> bit SupportedOFlags 6" "\<not> bit SupportedOFlags 7" "\<not> bit SupportedOFlags 9"
  "\<not> bit SupportedOFlags 10"
  by (simp_all add: SupportedOFlags_def bit_simps)

lemma go_flag_bits: "bit go_O_RDWR 1" "bit go_O_CREATE 6" "bit go_O_EXCL 7" "bit go_O_TRUNC 9" "bit go_O_APPEND 10"
  by (simp_all add: go_flags bit_iff_odd)

text \<open>C38: on the bucket filesystem a guest cannot open a file to read and write it, to create it
  (exclusively or not), to truncate it or to append to it: the adapter translates each of these flags,
  and \<^verbatim>\<open>OpenFile\<close> refuses every one of them without touching the bucket.\<close>

theorem guest_flags_refused:
  assumes "flag AND of_CREAT F \<noteq> 0 \<or> flag AND of_EXCL F \<noteq> 0 \<or> flag AND of_TRUNC F \<noteq> 0 \<or> flag AND of_APPEND F \<noteq> 0 \<or>
    flag AND 3 = of_RDWR F \<and> of_RDWR F \<noteq> of_RDONLY F"
  shows "OpenFile C fs name (toOSFlag F flag) w = (Inl (Failed ''unsupported open flag''), w)"
proof -
  note b = toOSFlag_def Let_def bit_add_flag
  have "bit (toOSFlag F flag) 6" if "flag AND of_CREAT F \<noteq> 0" using that go_flag_bits(2) unfolding b by blast
  moreover have "bit (toOSFlag F flag) 7" if "flag AND of_EXCL F \<noteq> 0" using that go_flag_bits(3) unfolding b by blast
  moreover have "bit (toOSFlag F flag) 9" if "flag AND of_TRUNC F \<noteq> 0" using that go_flag_bits(4) unfolding b by blast
  moreover have "bit (toOSFlag F flag) 10" if "flag AND of_APPEND F \<noteq> 0" using that go_flag_bits(5) unfolding b by blast
  moreover have "bit (toOSFlag F flag) 1" if "flag AND 3 = of_RDWR F \<and> of_RDWR F \<noteq> of_RDONLY F"
    using that go_flag_bits(1) unfolding b by presburger
  ultimately have "toOSFlag F flag AND SupportedOFlags \<noteq> toOSFlag F flag"
    using assms unsupported_bit supported_bits by blast
  then show ?thesis by (simp add: OpenFile_def)
qed

definition wasi_flags :: oflags where
  "wasi_flags = \<lparr>of_RDONLY = 0, of_RDWR = 1, of_WRONLY = 2, of_APPEND = 8, of_CREAT = 16, of_EXCL = 128, of_TRUNC = 4096\<rparr>"

theorem guest_flags_refused_witness:
  "OpenFile mem_client demo_s3fs ''x'' (toOSFlag wasi_flags (2 OR 16 OR 4096)) mem_world
   = (Inl (Failed ''unsupported open flag''), mem_world)"
  by (rule guest_flags_refused) (simp add: wasi_flags_def)

definition paged_fs :: "(unit, unit) host_fs" where
  "paged_fs =
     \<lparr>hf_openFile = (\<lambda>s p f m. (Inr 0, s)), hf_stat = (\<lambda>s p. Inr ()), hf_lstat = None, hf_mkdirAll = (\<lambda>s p m. (None, s)),
      hf_remove = (\<lambda>s p. (None, s)), hf_rename = (\<lambda>s a b. (None, s)), hf_readlink = None, hf_symlink = None,
      hf_readDir = (\<lambda>s p. Inr [(''a'', 0), (''b'', 0), (''c'', 0)]), hf_isDir = (\<lambda>i. True), hf_name = (\<lambda>h. ''d''),
      hf_read = (\<lambda>s h n. ([], Some AtEOF, s)), hf_write = (\<lambda>s h b. (0, None, s)), hf_seek = (\<lambda>s h o' w. (0, None, s)),
      hf_readAt = (\<lambda>s h n o'. ([], Some AtEOF, s)), hf_truncate = (\<lambda>s h n. (None, s)), hf_close = (\<lambda>s h. (None, s))\<rparr>"

theorem Readdir_pages_witness:
  "pages paged_fs [(1, ()), (1, ()), (5, ())] \<lparr>wf_handle = 0, wf_dirEntries = [], wf_dirRead = False, wf_dirOffset = 0\<rparr>
   = [(''a'', 0), (''b'', 0), (''c'', 0)]"
  by (subst Readdir_pages[where es = "[(''a'', 0), (''b'', 0), (''c'', 0)]"]) (simp_all add: paged_fs_def)

section \<open>Commands that run a guest\<close>

text \<open>The module is compiled once: every later call has the outcome of the first, an error included.\<close>

lemma compile_sticky:
  assumes "compile W wasm once = (r, once')"
  shows "compile W' wasm' once' = (r, once')"
proof -
  have "once' = Some r" using assms by (cases once) (auto simp: compile_def Let_def)
  then show ?thesis by (simp add: compile_def)
qed

lemma compile_failure_stays:
  assumes "compile W wasm None = (Some e, once)"
  shows "r_exit (fst (python3_Exec W' wasm' ec args once)) = ExitErr (''python3: can'' @ [squote] @ ''t compile wasm: '' @ e)"
  using compile_sticky[OF assms, of W' wasm'] by (simp add: python3_Exec_def run_guest_def)

text \<open>A status above 255 is cut to eight bits after the test for zero: the failure 256 becomes success.\<close>

lemma guest_status_256: "guest_status (GuestExits 256) = ExitStatus 0"
  by (simp add: guest_status_def)

end
