(* ===== verification/File_Cmd.thy ===== *)
theory File_Cmd
  imports Text_Commands
begin

unbundle bit_operations_syntax

text \<open>
  file (\<^verbatim>\<open>command/internal/file/file.go\<close>).  Parameters: what \<^verbatim>\<open>http.DetectContentType\<close> sniffs and
  what \<^verbatim>\<open>mime.TypeByExtension\<close> finds in the tables of the host.
\<close>

section \<open>Names\<close>

definition statPath :: "'s billy \<Rightarrow> 's \<Rightarrow> string \<Rightarrow> bool \<Rightarrow> fs_err + file_info" where
  "statPath fs s p follow = (if \<not> follow \<and> fs_symlinks fs then fs_lstat fs s p else fs_stat fs s p)"

definition file_readlink :: "'s billy \<Rightarrow> 's \<Rightarrow> string \<Rightarrow> string" where
  "file_readlink fs s p =
     (if \<not> fs_symlinks fs then [] else case fs_readlink fs s p of Inl _ \<Rightarrow> [] | Inr target \<Rightarrow> target)"

text \<open>The suffix from the last dot, for a name that has one after its first character.\<close>

definition from_last_dot :: "string \<Rightarrow> string" where
  "from_last_dot s = rev (takeWhile (\<lambda>c. c \<noteq> CHR ''.'') (rev s))"

definition getExtension :: "string \<Rightarrow> string" where
  "getExtension filename =
     (let base = path_base filename
      in if hasPrefix base ''.'' \<and> CHR ''.'' \<notin> set (tl base) then base
         else if CHR ''.'' \<notin> set (tl base) then []
         else CHR ''.'' # from_last_dot base)"

definition extDescriptions :: "(string \<times> string) list" where
  "extDescriptions =
     [(''.js'', ''JavaScript source''), (''.mjs'', ''JavaScript module''), (''.cjs'', ''CommonJS module''),
      (''.ts'', ''TypeScript source''), (''.tsx'', ''TypeScript JSX source''), (''.jsx'', ''JavaScript JSX source''),
      (''.py'', ''Python script''), (''.rb'', ''Ruby script''), (''.go'', ''Go source''), (''.rs'', ''Rust source''),
      (''.c'', ''C source''), (''.h'', ''C header''), (''.cpp'', ''C++ source''), (''.hpp'', ''C++ header''),
      (''.java'', ''Java source''), (''.sh'', ''Bourne-Again shell script''), (''.bash'', ''Bourne-Again shell script''),
      (''.zsh'', ''Zsh shell script''), (''.json'', ''JSON data''), (''.yaml'', ''YAML data''), (''.yml'', ''YAML data''),
      (''.xml'', ''XML document''), (''.csv'', ''CSV text''), (''.toml'', ''TOML data''), (''.html'', ''HTML document''),
      (''.htm'', ''HTML document''), (''.css'', ''CSS stylesheet''), (''.svg'', ''SVG image''), (''.md'', ''Markdown document''),
      (''.markdown'', ''Markdown document''), (''.txt'', ''ASCII text''), (''.rst'', ''reStructuredText'')]"

section \<open>Text\<close>

fun contains :: "string \<Rightarrow> string \<Rightarrow> bool" where
  "contains [] p = (p = [])"
| "contains (c # s) p = (hasPrefix (c # s) p \<or> contains s p)"

definition shebang :: "string \<Rightarrow> string" where
  "shebang firstLine =
     (if contains firstLine ''python'' then ''Python script, ASCII text executable''
      else if contains firstLine ''node'' \<or> contains firstLine ''bun'' \<or> contains firstLine ''deno''
      then ''JavaScript script, ASCII text executable''
      else if contains firstLine ''bash'' then ''Bourne-Again shell script, ASCII text executable''
      else if contains firstLine ''sh'' then ''POSIX shell script, ASCII text executable''
      else if contains firstLine ''ruby'' then ''Ruby script, ASCII text executable''
      else if contains firstLine ''perl'' then ''Perl script, ASCII text executable''
      else ''script, ASCII text executable'')"

definition lineEnding :: "string \<Rightarrow> string" where
  "lineEnding content =
     (if contains content [CHR 0x0D, newline] then '', with CRLF line terminators''
      else if CHR 0x0D \<in> set content then '', with CR line terminators''
      else [])"

text \<open>
  The case of letters matters for two prefixes of ASCII letters and signs, none of which is the
  lower case of a letter outside ASCII, so folding ASCII is enough.
\<close>

definition ascii_lower :: "char \<Rightarrow> char" where
  "ascii_lower c = (let v = byte_val c in if 65 \<le> v \<and> v \<le> 90 then char_of (v + 32) else c)"

definition detectTextType :: "string \<Rightarrow> string \<Rightarrow> string" where
  "detectTextType content filename =
     (if hasPrefix content ''#!'' then shebang (takeWhile (\<lambda>c. c \<noteq> newline) content)
      else
        (let trimmed = dropWhile (\<lambda>c. c \<in> {CHR '' '', tab, newline, CHR 0x0D}) content;
             lower = map ascii_lower trimmed
         in if hasPrefix trimmed ''<?xml'' then ''XML document''
            else if hasPrefix lower ''<!doctype html'' \<or> hasPrefix lower ''<html'' then ''HTML document''
            else (case map_of extDescriptions (getExtension filename) of
                Some desc \<Rightarrow> desc @ lineEnding content
              | None \<Rightarrow>
                  (if \<exists>r \<in> set (runes (take 8192 content)). r > 127 then ''UTF-8 Unicode text'' else ''ASCII text'') @
                  lineEnding content)))"

section \<open>Magic bytes\<close>

definition elf_description :: "string \<Rightarrow> string" where
  "elf_description data =
     ''ELF '' @ (if length data > 4 \<and> byte_val (data ! 4) = 2 then ''64-bit'' else ''32-bit'') @ '' '' @
     (if length data > 5 \<and> byte_val (data ! 5) = 2 then ''MSB'' else ''LSB'') @ '' executable''"

definition detectMagic :: "string \<Rightarrow> string" where
  "detectMagic data =
     (if hasPrefix data (CHR 0x7F # ''ELF'') then elf_description data
      else if hasPrefix data ''MZ'' then ''PE32 executable (MS-DOS)''
      else if hasPrefix data [CHR 0x1F, CHR 0x8B, CHR 0x08] then ''gzip compressed data''
      else if hasPrefix data [CHR ''P'', CHR ''K'', CHR 0x03, CHR 0x04] then ''Zip archive data''
      else if hasPrefix data [CHR ''P'', CHR ''K'', CHR 0x05, CHR 0x06] then ''Zip archive data (empty)''
      else if hasPrefix data [CHR 0xFF, CHR 0xD8, CHR 0xFF] then ''JPEG image data''
      else if hasPrefix data ([CHR 0x89] @ ''PNG'' @ [CHR 0x0D, CHR 0x0A, CHR 0x1A, CHR 0x0A]) then ''PNG image data''
      else if hasPrefix data ''%PDF'' then ''PDF document''
      else if hasPrefix data ''GIF87a'' \<or> hasPrefix data ''GIF89a'' then ''GIF image data''
      else if hasPrefix data ''BZh'' then ''bzip2 compressed data''
      else if hasPrefix data ([CHR 0xFD] @ ''7zXZ'' @ [CHR 0x00]) then ''XZ compressed data''
      else if hasPrefix data ''Rar!'' then ''RAR archive data''
      else if hasPrefix data (CHR 0x7F # ''ELF'') then ''ELF executable''
      else if hasPrefix data [CHR 0xCA, CHR 0xFE, CHR 0xBA, CHR 0xBE] then ''Java class data''
      else if hasPrefix data [CHR 0x00, CHR 0x61, CHR 0x73, CHR 0x6D] then ''WebAssembly (wasm) binary module''
      else if hasPrefix data ''OggS'' then ''Ogg data''
      else [])"

definition magicMIME :: "(string \<times> string) list" where
  "magicMIME =
     [(''ELF'', ''application/x-executable''), (''PE32 executable'', ''application/vnd.microsoft.portable-executable''),
      (''gzip compressed'', ''application/gzip''), (''Zip archive'', ''application/zip''), (''JPEG image'', ''image/jpeg''),
      (''PNG image'', ''image/png''), (''GIF image'', ''image/gif''), (''PDF document'', ''application/pdf''),
      (''bzip2 compressed'', ''application/x-bzip2''), (''XZ compressed'', ''application/x-xz''),
      (''RAR archive'', ''application/vnd.rar''), (''Java class'', ''application/x-java-applet''),
      (''WebAssembly'', ''application/wasm''), (''Ogg data'', ''application/ogg'')]"

definition isValidText :: "string \<Rightarrow> bool" where
  "isValidText data =
     (let check = take 512 data;
          nonPrint = length (filter (\<lambda>b. byte_val b < 0x20 \<and> b \<noteq> newline \<and> b \<noteq> CHR 0x0D \<and> b \<noteq> tab) check)
      in nonPrint \<le> length check div 10)"

definition detectFileType :: "(string \<Rightarrow> string) \<Rightarrow> string \<Rightarrow> string \<Rightarrow> string" where
  "detectFileType sniff filename data =
     (if data = [] then ''empty''
      else if detectMagic data \<noteq> [] then detectMagic data
      else
        (let mimeType = sniff data
         in if hasPrefix mimeType ''text/'' then detectTextType data filename
            else if mimeType \<noteq> ''application/octet-stream'' then mimeType
            else if isValidText data then detectTextType data filename
            else ''data''))"

section \<open>MIME types\<close>

definition before_semicolon :: "string \<Rightarrow> string" where
  "before_semicolon s = takeWhile (\<lambda>c. c \<noteq> CHR '';'') s"

definition mime_fallback :: "string \<Rightarrow> string" where
  "mime_fallback desc =
     (if contains desc ''text'' \<or> contains desc ''script'' \<or> contains desc ''source'' \<or> contains desc ''document''
      then ''text/plain'' else ''application/octet-stream'')"

definition toMIME :: "(string \<Rightarrow> string) \<Rightarrow> string \<Rightarrow> string \<Rightarrow> string" where
  "toMIME typeByExtension desc filename =
     (if desc = ''empty'' then ''inode/x-empty''
      else if desc = ''directory'' then ''inode/directory''
      else if desc = ''symbolic link'' then ''inode/symlink''
      else case find (\<lambda>(pfx, _). hasPrefix desc pfx) magicMIME of
        Some (_, m) \<Rightarrow> m
      | None \<Rightarrow>
          if CHR ''/'' \<in> set desc then before_semicolon desc
          else (let ext = getExtension filename
                in if ext \<noteq> [] \<and> typeByExtension ext \<noteq> [] then before_semicolon (typeByExtension ext)
                   else mime_fallback desc))"

section \<open>The command\<close>

record file_opts =
  fo_brief :: bool
  fo_mime :: bool
  fo_noDeref :: bool
  fo_deref :: bool
  fo_help :: bool
  fo_files :: "string list"

definition file_follow :: "file_opts \<Rightarrow> bool" where
  "file_follow o' = (let f = True; f1 = (if fo_noDeref o' then False else f) in if fo_deref o' then True else f1)"

text \<open>What is said of one operand, and whether it is a failure.\<close>

datatype file_answer = Cannot | Told string

definition file_one ::
  "(string \<Rightarrow> string) \<Rightarrow> (string \<Rightarrow> string) \<Rightarrow> 's billy \<Rightarrow> 's exec_context \<Rightarrow> file_opts \<Rightarrow> string \<Rightarrow> file_answer" where
  "file_one sniff typeByExtension fs ec opts name =
     (let p = resolvePath (ec_dir ec) name; s = ec_state ec
      in case statPath fs s p (file_follow opts) of
           Inl _ \<Rightarrow> Cannot
         | Inr info \<Rightarrow>
             if fi_mode info AND ModeSymlink \<noteq> 0 then
               (let target = file_readlink fs s p
                in Told (if fo_mime opts then ''inode/symlink''
                         else if target \<noteq> [] then ''symbolic link to '' @ target else ''symbolic link''))
             else if fi_isDir info then Told (if fo_mime opts then ''inode/directory'' else ''directory'')
             else (case fs_open fs s p of
                Inl _ \<Rightarrow> Cannot
              | Inr (Inl _) \<Rightarrow> Cannot
              | Inr (Inr data) \<Rightarrow>
                  (let desc = detectFileType sniff name data
                   in Told (if fo_mime opts then toMIME typeByExtension desc name else desc))))"

definition file_line :: "file_opts \<Rightarrow> string \<Rightarrow> file_answer \<Rightarrow> string" where
  "file_line opts name a =
     (case a of
        Cannot \<Rightarrow> (if fo_brief opts then ''cannot open'' else name @ '': cannot open (No such file or directory)'') @ nl
      | Told d \<Rightarrow> (if fo_brief opts then d else name @ '': '' @ d) @ nl)"

text \<open>The loop over the operands: the output and the exit code so far.\<close>

definition file_step ::
  "(string \<Rightarrow> string) \<Rightarrow> (string \<Rightarrow> string) \<Rightarrow> 's billy \<Rightarrow> 's exec_context \<Rightarrow> file_opts \<Rightarrow> string \<times> nat \<Rightarrow> string \<Rightarrow> string \<times> nat" where
  "file_step sniff typeByExtension fs ec opts acc name =
     (let a = file_one sniff typeByExtension fs ec opts name
      in (fst acc @ file_line opts name a, if a = Cannot then 1 else snd acc))"

definition file_usage :: string where
  "file_usage =
     ''Usage: file [OPTION]... FILE...'' @ nl @ ''Determine file type.'' @ nl @ nl @
     ''  -b, --brief             do not prepend filenames to output'' @ nl @
     ''  -i, --mime              output MIME type strings'' @ nl @
     ''  -h, --no-dereference    do not follow symlinks (default)'' @ nl @
     ''  -L, --dereference       follow symlinks'' @ nl @
     ''      --help              display this help and exit'' @ nl"

definition file_Exec ::
  "(string \<Rightarrow> string) \<Rightarrow> (string \<Rightarrow> string) \<Rightarrow> 's exec_context \<Rightarrow> string + file_opts \<Rightarrow> 's cmd_result" where
  "file_Exec sniff typeByExtension ec opts0 =
     (case ec_fs ec of
        None \<Rightarrow> ret ec [] [] (ExitErr ''file: ExecContext has no filesystem'')
      | Some fs \<Rightarrow>
          (case opts0 of
             Inl m \<Rightarrow> ret ec [] (''file: '' @ m @ nl @ file_usage) (ExitStatus 1)
           | Inr opts \<Rightarrow>
               if fo_help opts then ret ec [] file_usage ExitOk
               else if fo_files opts = [] then ret ec [] (''Usage: file [-bLi] FILE...'' @ nl) (ExitStatus 1)
               else (let (out, code) = foldl (file_step sniff typeByExtension fs ec opts) ([], 0) (fo_files opts)
                     in ret ec out [] (if code \<noteq> 0 then ExitStatus code else ExitOk))))"

end
