(* ===== verification/File_Properties.thy ===== *)
theory File_Properties
  imports File_Cmd
begin

unbundle bit_operations_syntax

text \<open>
  What file answers: one line for each operand, and with \<^verbatim>\<open>-i\<close> always a MIME type.
\<close>

definition mime_type :: "string \<Rightarrow> bool" where
  "mime_type s \<longleftrightarrow> CHR ''/'' \<in> set s \<and> CHR '';'' \<notin> set s"

text \<open>What the two tables of the standard library give: a type, perhaps with parameters after a semicolon.\<close>

definition typed :: "string \<Rightarrow> bool" where
  "typed s \<longleftrightarrow> CHR ''/'' \<in> set (before_semicolon s)"

lemma mime_before_semicolon: "typed s \<Longrightarrow> mime_type (before_semicolon s)"
  by (auto simp: mime_type_def typed_def before_semicolon_def dest: set_takeWhileD)

lemma magic_types: "\<forall>(p, m) \<in> set magicMIME. mime_type m"
  by code_simp

lemma magic_described: "\<forall>d \<in> snd ` set magicMIME. mime_type d"
  using magic_types by auto

definition no_slash :: "string \<Rightarrow> bool" where
  "no_slash s \<longleftrightarrow> CHR ''/'' \<notin> set s"

lemma extDescriptions_no_slash: "\<forall>(e, d) \<in> set extDescriptions. no_slash d"
  by code_simp

lemma lineEnding_no_slash: "no_slash (lineEnding c)"
  by (simp add: lineEnding_def no_slash_def)

lemma shebang_no_slash: "no_slash (shebang l)"
  by (simp add: shebang_def no_slash_def)

lemma detectTextType_no_slash: "no_slash (detectTextType content f)"
proof -
  have "CHR ''/'' \<notin> set d" if "map_of extDescriptions e = Some d" for e d
    using map_of_SomeD[OF that] extDescriptions_no_slash by (auto simp: no_slash_def)
  then show ?thesis
    using shebang_no_slash lineEnding_no_slash[of content] unfolding detectTextType_def Let_def no_slash_def
    by (simp split: option.split)
qed

lemma detectFileType_cases:
  obtains (described) "detectFileType sniff f data = ''empty''"
  | (magic) "detectFileType sniff f data = detectMagic data" "detectMagic data \<noteq> []"
  | (sniffed) "detectFileType sniff f data = sniff data"
  | (no_slash) "no_slash (detectFileType sniff f data)"
proof -
  have nd: "no_slash ''data''" by (simp add: no_slash_def)
  consider "data = []" | "data \<noteq> []" "detectMagic data \<noteq> []" | "data \<noteq> []" "detectMagic data = []" by blast
  then show thesis
  proof cases
    case 1
    then have "detectFileType sniff f data = ''empty''" by (simp add: detectFileType_def)
    then show thesis by (rule that(1))
  next
    case 2
    then have "detectFileType sniff f data = detectMagic data" by (simp add: detectFileType_def)
    then show thesis using 2(2) by (rule that(2))
  next
    case 3
    then have "detectFileType sniff f data = sniff data \<or> no_slash (detectFileType sniff f data)"
      unfolding detectFileType_def Let_def using detectTextType_no_slash[of data f] nd by simp
    then show thesis using that(3,4) by blast
  qed
qed

lemma find_member: "find P xs = Some x \<Longrightarrow> x \<in> set xs"
  by (induction xs) (auto split: if_splits)

lemma elf_description_prefix: "hasPrefix (elf_description data) ''ELF''"
  by (simp add: elf_description_def hasPrefix_def)

text \<open>Every description that the magic bytes give has an entry in the table of types.\<close>

definition in_table :: "string \<Rightarrow> bool" where
  "in_table d \<longleftrightarrow> d = [] \<or> list_ex (\<lambda>(p, _). hasPrefix d p) magicMIME"

lemma in_table_if: "in_table a \<Longrightarrow> in_table b \<Longrightarrow> in_table (if c then a else b)"
  by simp

lemma in_table_elf: "in_table (elf_description data)"
  using elf_description_prefix[of data] by (simp add: in_table_def magicMIME_def)

lemma in_table_magic: "in_table (detectMagic data)"
  unfolding detectMagic_def by (intro in_table_if in_table_elf; code_simp)

lemma magic_has_type:
  assumes "detectMagic data \<noteq> []"
  shows "\<exists>p m. find (\<lambda>(pfx, _). hasPrefix (detectMagic data) pfx) magicMIME = Some (p, m) \<and> mime_type m"
proof -
  let ?P = "\<lambda>(pfx, _). hasPrefix (detectMagic data) pfx"
  have "list_ex ?P magicMIME" using in_table_magic[of data] assms by (simp add: in_table_def)
  then obtain x where x: "find ?P magicMIME = Some x"
    by (cases "find ?P magicMIME") (auto simp: find_None_iff list_ex_iff)
  then show ?thesis using find_member[OF x] magic_types by (cases x) auto
qed

lemma toMIME_mime:
  assumes "\<forall>d. d \<noteq> [] \<longrightarrow> typed (sniff d)" "\<forall>e. ext e \<noteq> [] \<longrightarrow> typed (ext e)"
  shows "mime_type (toMIME ext (detectFileType sniff f data) f)"
proof -
  let ?desc = "detectFileType sniff f data" and ?find = "\<lambda>d. find (\<lambda>(pfx, _). hasPrefix d pfx) magicMIME"
  have fixed: "mime_type ''inode/x-empty''" "mime_type ''inode/directory''" "mime_type ''inode/symlink''" "mime_type (mime_fallback d)" for d
    by (simp_all add: mime_type_def mime_fallback_def)
  have found: "mime_type m" if "?find d = Some (p, m)" for d p m
    using find_member[OF that] magic_types by auto
  have slash: "typed ?desc" if "CHR ''/'' \<in> set ?desc" "?find ?desc = None"
  proof (cases rule: detectFileType_cases[of sniff f data])
    case magic
    then show ?thesis using that(2) magic_has_type[of data] by auto
  next
    case sniffed
    have "data \<noteq> []" using that(1) by (auto simp: detectFileType_def)
    then show ?thesis using assms(1) sniffed by simp
  qed (use that(1) in \<open>auto simp: no_slash_def\<close>)
  show ?thesis
    using fixed found slash assms(2) by (auto simp: toMIME_def Let_def mime_before_semicolon split: option.split)
qed

lemma file_one_mime:
  assumes "\<forall>d. d \<noteq> [] \<longrightarrow> typed (sniff d)" "\<forall>e. ext e \<noteq> [] \<longrightarrow> typed (ext e)" "fo_mime opts"
    and "file_one sniff ext fs ec opts name = Told d"
  shows "mime_type d"
proof -
  have "mime_type ''inode/symlink''" "mime_type ''inode/directory''" by (simp_all add: mime_type_def)
  then show ?thesis
    using assms(3,4) toMIME_mime[OF assms(1,2)] by (auto simp: file_one_def Let_def split: sum.splits if_splits)
qed

text \<open>The loop: the lines in order, and a failure when one cannot be opened.\<close>

lemma file_loop:
  "foldl (file_step sniff ext fs ec opts) (out, code) names =
   (out @ concat (map (\<lambda>n. file_line opts n (file_one sniff ext fs ec opts n)) names),
    if Cannot \<in> file_one sniff ext fs ec opts ` set names then 1 else code)"
  by (induction names arbitrary: out code) (auto simp: file_step_def Let_def)


text \<open>Without the symlink capability, or with \<^verbatim>\<open>-L\<close> anywhere on the command line, links are followed.\<close>

lemma deref_wins: "fo_deref opts \<Longrightarrow> statPath fs s p (file_follow opts) = fs_stat fs s p"
  by (simp add: file_follow_def statPath_def Let_def)

definition file_fs :: "unit billy" where
  "file_fs = \<lparr>fs_stat = (\<lambda>_ p. if p = ''a.sh'' then Inr \<lparr>fi_name = p, fi_size = 4, fi_mode = 0x1A4, fi_mtime = 0, fi_dev = None\<rparr> else Inl ErrNotExist),
     fs_lstat = (\<lambda>_ p. Inl ErrNotExist), fs_readdir = (\<lambda>_ _. Inl ENOTDIR), fs_open = (\<lambda>_ _. Inr (Inr ''#!/x'')),
     fs_readlink = (\<lambda>_ _. Inl ErrNotExist), fs_remove = (\<lambda>st _. (None, st)), fs_symlinks = False\<rparr>"

definition file_context :: "unit exec_context" where
  "file_context = \<lparr>ec_stdin = None, ec_dir = [], ec_environ = Map.empty, ec_fs = Some file_fs, ec_state = (), ec_runner = False\<rparr>"


end
