(* ===== verification/Spec2Isabelle.thy ===== *)
theory Spec2Isabelle
  imports Registry Find_Properties S3fs_Properties S3fs_Session Diff_Properties Grep_Properties Gzip_Properties
    Text_Properties Stat_Pwd Du_Tree_Properties Sophia_Properties Sophia_Session Env_Time_Properties
    Wasm_Properties File_Properties Entry_Points
begin

text \<open>
  Verification library for kefka, a confined shell written in Go.  The program gives a shell
  interpreter (mvdan.cc/sh) a set of commands of its own and a filesystem that is not the host's: a
  directory in \<^verbatim>\<open>cmd/kefka\<close>, a bucket of an S3 store in the SSH server \<^verbatim>\<open>cmd/sophia\<close>.  This library
  holds definitions translated from the Go sources and the theorems that make the parts correct.

  The parts and how they interact.  A session builds a registry of commands
  (\<^verbatim>\<open>command/registry/registry.go\<close>), to which three families are added (\<^verbatim>\<open>coreutils\<close>, \<^verbatim>\<open>wasmprog\<close> and
  \<^verbatim>\<open>uutils\<close> below it).  The interpreter calls the handlers of \<^verbatim>\<open>billysh/billysh.go\<close> for \<^verbatim>\<open>cd\<close>, \<^verbatim>\<open>pwd\<close>, for
  what it stats, opens and lists, and the registry's \<^verbatim>\<open>Exec\<close> for a command; a command is given an
  execution context (\<^verbatim>\<open>command/command.go\<close>) with its streams, its directory, its environment and the
  filesystem, and turns operands into paths by \<^verbatim>\<open>resolvePath\<close>.  The filesystem of the server is
  \<^verbatim>\<open>s3fs/\<close>: names become keys of a bucket, files are read whole and written at close, temporary files
  live in memory until a rename puts them into the bucket, attributes travel as object metadata
  (\<^verbatim>\<open>s3fs/unixmeta\<close>).  Programs in WebAssembly see the same filesystem through \<^verbatim>\<open>wasm/billyfs\<close>.

  Conventions.  A Go string is a list of bytes and HOL's string is one.  Machine words are words
  where the code's arithmetic shows (file modes, owners, open flags, sizes that wrap); other integers
  are int or nat where they cannot overflow.  A struct is a record, a tagged union a datatype, an
  error the left side of a sum or an option, a panic a value of its own.  A loop is a recursion; state
  is passed on explicitly.  Code that is not in the repository is a parameter: the interpreter and its
  parser, the option parsers (getopt, pflag: a command is given the option values they leave, or their
  message), the storage client, billy filesystems, the regular expression engines, the sequence
  matcher of diff, compress/gzip, the WebAssembly runtime, the user database, MIME sniffing and the
  Unicode tables.  What a theorem needs of a parameter is a named hypothesis with a witness.

  Theories, in the order of their imports.

  Shared vocabulary.  \<^verbatim>\<open>Kefka_Prelude\<close> (exit results, generic lemmas, the collections kefka_defs and
  go_str), \<^verbatim>\<open>Go_Strings\<close>, \<^verbatim>\<open>Go_Path\<close>, \<^verbatim>\<open>Go_Strconv\<close> and \<^verbatim>\<open>Utf8\<close> (what the program uses of those packages,
  with their laws: splitting and joining, cleaning of paths as a normal form, numbers printed and
  read back, decoding of UTF-8), \<^verbatim>\<open>Go_Fs\<close> (file modes, the interface of a billy filesystem),
  \<^verbatim>\<open>Cmd_Path\<close> (the two copies of resolvePath).

  \<^verbatim>\<open>Registry\<close>: the registry (New, Register, Get, Names, Pwd, Resolve, Chdir, Exec), the registration of
  the families, and the handlers FsysStatHandler, FsysOpenHandler, FsysReadDirHandler and CallHandler.
  A session is a step relation over calls and registrations; in every reachable state the working
  directory is clean and inside the root.  Locales: keyed_store (interpreted on the registry and on
  the table of temporary files of s3fs) and path_resolver (on Resolve and on grep's resolvePath).

  \<^verbatim>\<open>Find_Printf\<close>, \<^verbatim>\<open>Find_Parser\<close>, \<^verbatim>\<open>Find_Glob\<close>, \<^verbatim>\<open>Find_Eval\<close>, \<^verbatim>\<open>Find_Walk\<close>, \<^verbatim>\<open>Find_Properties\<close>: the command find
  (\<^verbatim>\<open>command/internal/find/\<close>: printf.go, parser.go, matcher.go, find.go and the device files).  Shown:
  parsing an expression that was printed gives it back, and the parser accepts what its grammar
  derives; the iterative glob matcher decides a declarative meaning of patterns; the walk ends, prints
  what the expression is true of, keeps to its limits, and handles contents first with -depth.

  \<^verbatim>\<open>S3fs_Temp\<close>, \<^verbatim>\<open>Unixmeta\<close>, \<^verbatim>\<open>S3fs\<close>, \<^verbatim>\<open>S3fs_Properties\<close>, \<^verbatim>\<open>S3fs_Session\<close>: the S3 filesystem.  A bucket is the state
  of a client record; the world holds it with the temporary buffers and the clock.  Every operation of
  the filesystem and of its six kinds of handles is there (a handle is the datatype bfile; the
  methods of the kinds are one function each over it).  Shown: the operations on a bucket simulate
  operations on a map from keys to contents, names below a chroot become keys below it, what is written
  is read back, also through a temporary file and a rename, listings are complete over pages,
  attributes survive encoding; a handle closes once (locale close_once); a buffer is append only
  (locale append_buffer).  S3fs_Session joins the filesystem to the interface the commands use and runs
  gzip and gunzip on it.

  \<^verbatim>\<open>Diff\<close>, \<^verbatim>\<open>Diff_Properties\<close>: the command diff.  The ed script and the unified diff that it prints are read
  back by interpreters of those formats and turn the first file into the second; comparing
  directories ends and decides whether the trees differ.

  \<^verbatim>\<open>Grep_Search\<close>, \<^verbatim>\<open>Grep_Regex\<close>, \<^verbatim>\<open>Grep_Files\<close>, \<^verbatim>\<open>Grep\<close>, \<^verbatim>\<open>Grep_Walk\<close>, \<^verbatim>\<open>Grep_Bre\<close>, \<^verbatim>\<open>Grep_Budget\<close>, \<^verbatim>\<open>Grep_Output\<close>,
  \<^verbatim>\<open>Grep_Properties\<close>: the command grep (\<^verbatim>\<open>command/internal/grep/\<close>).  Shown: the search prints the selected
  lines with their windows of context (against a specification that does not go line by line), basic
  expressions are translated to the same expressions in the extended syntax, a recursive walk finds the
  accepted files and only those, output never exceeds its budget, and a run ends.

  \<^verbatim>\<open>Gzip\<close>, \<^verbatim>\<open>Gunzip\<close>, \<^verbatim>\<open>Gzip_Store\<close>, \<^verbatim>\<open>Gzip_Properties\<close>: gzip, gunzip and zcat.  The locale byte_store says what
  they need of a filesystem, and S3fs_Session interprets it on the model of s3fs.  Shown: without -f
  no run loses data, compressing and decompressing gives the file back, the three commands agree.

  \<^verbatim>\<open>Text_Commands\<close>, \<^verbatim>\<open>Text_Properties\<close> (tac, column, clear, whoami, hostname, commands), \<^verbatim>\<open>Stat_Pwd\<close>,
  \<^verbatim>\<open>Du_Tree\<close>, \<^verbatim>\<open>Du_Tree_Properties\<close>, \<^verbatim>\<open>File_Cmd\<close>, \<^verbatim>\<open>File_Properties\<close>, \<^verbatim>\<open>Env_Time\<close>, \<^verbatim>\<open>Env_Time_Properties\<close>: the other
  commands, each with its options, its usage, its error branches and its output.

  \<^verbatim>\<open>Wasm_Fs\<close>, \<^verbatim>\<open>Wasm_Properties\<close>: the adapter through which guests see a filesystem, and the commands that
  run a guest (\<^verbatim>\<open>command/wasmcommand\<close>, \<^verbatim>\<open>command/uutils\<close>, python3, qjs, rg, jo and jq).

  \<^verbatim>\<open>Sophia\<close>, \<^verbatim>\<open>Sophia_Properties\<close>: the goroutines of an SSH session as a relation of interleaved steps over
  the mutex, the pipe of the foreground command and the two program counters, and the life of sessions
  while the server shuts down.  Shown: what the loop withdraws is never written to again, input reaches
  its reader in order, and two states that should not be reachable are (a deadlock, and a bucket that
  outlives a clean exit).  \<^verbatim>\<open>Entry_Points\<close> (cmd/kefka and the snapshot command) and \<^verbatim>\<open>Sophia_Session\<close> (one
  session from start to end, with what it leaves behind) follow the goroutine of the session alone.

  This theory composes them: what the shell of a session reads, through the registry, the handlers,
  the root of the filesystem and the keys, is a file below the root in the fork made for the session.

  Bounds and fuel.  A recursion that only the environment bounds takes fuel and is None when it runs
  out; that it does not is a theorem.  The parser of find is given six units for each token and six more,
  which always suffices; the walk of find needs the height of a finite tree, or the limit of -maxdepth;
  tree needs one level more than the limit of -L; a listing needs the number of its pages; reading a
  handle to its end needs one step more than its length.  Other bounds are the code's own: du stops
  at a thousand levels, pwd follows 64 components, grep walks 256 levels and 100000 operations, keeps
  its output below 8 MiB and its work below the constants of search.go, the pump reads 4096 bytes; the
  capacity of a pipe is a parameter.  A loop of the glob matcher that the type system cannot bound is a
  partial function, shown to return.

  Not modelled, and why: \<^verbatim>\<open>cmd/s3fs-test\<close> (a manual test program), the sources of the WebAssembly
  programs and other embedded files, flags and logging of the server and the text of its messages to
  the log, the drain of output pipes into the terminal (work of io.Copy and term.Terminal), the
  goroutines of the libraries, real time (a clock reading is an input), and the tests.  The context of
  a command is modelled where the code looks at it itself (find, grep).
\<close>

section \<open>The shell of a session on a bucket\<close>

lemma Resolve_inside: "inside (Resolve reg p)"
  by (simp add: inside_def)

lemma object_key_not_root:
  assumes "rooted_at fs rs" and "inside n" and "object_key (key fs n)"
  shows "rs @ name_comps n \<noteq> []"
  using key_comps(2)[OF assms(1,2)] assms(3) by (auto simp: object_key_def)

lemma sess_reads_object:
  assumes "sess_files C fs z k = Some d"
  shows "object_key k"
  using assms by (simp add: sess_files_def split: if_splits)

text \<open>C6: What a redirection of the shell reads in a session on a bucket is the contents of a file
  below the root that the session was given: whatever the word, the working directory and the flags,
  the object is named by the components of the root followed by ordinary components, none of them a
  parent reference, and nothing is opened for writing.\<close>

theorem shell_reads_below_root:
  assumes "rooted_at fs rs"
    and "FsysOpenHandler reg (sess_fs T n C fs) z p flag = Inr (ReadOnlyFile (Inr d))"
  shows "sess_files C fs z (joinWith ''/'' (rs @ name_comps (Resolve reg p))) = Some d \<and>
    (\<forall>c \<in> set (name_comps (Resolve reg p)). proper_comp c) \<and>
    flag AND (O_WRONLY OR O_RDWR OR O_CREATE OR O_APPEND OR O_TRUNC) = 0"
proof -
  let ?q = "Resolve reg p"
  have "sess_open T C fs z ?q = Inr (Inr d)" and flag: "flag AND (O_WRONLY OR O_RDWR OR O_CREATE OR O_APPEND OR O_TRUNC) = 0"
    using assms(2) by (auto simp: FsysOpenHandler_def sess_fs_def split: if_splits sum.splits)
  from this(1) have read: "sess_files C fs z (key fs ?q) = Some d" by (rule sess_reads)
  have "rs @ name_comps ?q \<noteq> []"
    by (rule object_key_not_root[OF assms(1) Resolve_inside sess_reads_object[OF read]])
  then have "key fs ?q = joinWith ''/'' (rs @ name_comps ?q)"
    by (rule key_comps(1)[OF assms(1) Resolve_inside])
  with read flag inside_proper[OF Resolve_inside] show ?thesis by metis
qed

text \<open>A session's own filesystem: what its shell reads was written to, or is kept for, the fork of the
  bucket that was made for the session.\<close>

lemma session_reads_own_fork:
  assumes "buildFSOptions passwd groups unixMetadata user grp umask = Inr opts"
    and "NewS3FS (Some C) sessBucket opts = Inr fs"
    and "FsysOpenHandler reg (sess_fs T n C fs) z p flag = Inr (ReadOnlyFile (Inr d))"
  shows "s3_bucket fs = sessBucket \<and> sess_files C fs z (joinWith ''/'' (name_comps (Resolve reg p))) = Some d"
proof -
  have "\<forall>opt \<in> set opts. \<exists>u g m. opt = WithUnixMetadata u g m"
    using assms(1) by (auto simp: buildFSOptions_def split: if_splits option.splits) blast
  then have fs: "s3_bucket fs = sessBucket" "rooted_at fs []" using session_fs_of[OF assms(2)] by blast+
  have "sess_files C fs z (key fs (Resolve reg p)) = Some d"
    using assms(3) by (intro sess_reads[of T]) (auto simp: FsysOpenHandler_def sess_fs_def split: if_splits sum.splits)
  with fs show ?thesis
    using key_comps(1)[OF fs(2) Resolve_inside, of reg p] object_key_not_root[OF fs(2) Resolve_inside, of reg p]
      sess_reads_object by fastforce
qed

definition home_fs :: s3fs where
  "home_fs = Chroot demo_s3fs ''home''"

definition in_d :: "nat registry" where
  "in_d = New\<lparr>pwd := ''d''\<rparr>"

lemma home_paths:
  "Resolve in_d ''x/../f'' = ''d/f''" "key home_fs ''d/f'' = ''home/d/f''" "name_comps ''d/f'' = [''d'', ''f'']"
  by code_simp+

lemma home_rooted: "rooted_at home_fs [''home'']"
proof -
  have "s3_root home_fs = render_path False [''home'']" unfolding home_fs_def by code_simp
  then show ?thesis by (simp add: rooted_at_def proper_comp_def)
qed

theorem shell_reads_below_root_witness:
  "FsysOpenHandler in_d (sess_fs demo_texts 1 mem_client home_fs) (demo_gz_world ''home/d/f'' ''hello'' []) ''x/../f'' 0
     = Inr (ReadOnlyFile (Inr ''hello'')) \<and>
   sess_files mem_client home_fs (demo_gz_world ''home/d/f'' ''hello'' []) (joinWith ''/'' ([''home''] @ name_comps (Resolve in_d ''x/../f'')))
     = Some ''hello''"
proof
  have "s3_bucket home_fs = ''b''" by (simp add: home_fs_def Chroot_def demo_s3fs_def)
  then have "sess_open demo_texts mem_client home_fs (demo_gz_world ''home/d/f'' ''hello'' []) ''d/f'' = Inr (Inr ''hello'')"
    by (intro mem_open_object) (simp_all add: home_paths demo_gz_world_def object_key_def)
  then show run: "FsysOpenHandler in_d (sess_fs demo_texts 1 mem_client home_fs) (demo_gz_world ''home/d/f'' ''hello'' []) ''x/../f'' 0
     = Inr (ReadOnlyFile (Inr ''hello''))"
    by (simp add: FsysOpenHandler_def home_paths sess_fs_def)
  show "sess_files mem_client home_fs (demo_gz_world ''home/d/f'' ''hello'' []) (joinWith ''/'' ([''home''] @ name_comps (Resolve in_d ''x/../f'')))
     = Some ''hello''"
    using shell_reads_below_root[OF home_rooted run] by blast
qed

end
